(* ===== verification/Prelude.thy ===== *)
theory Prelude
  imports Main "HOL-Library.Word" "HOL-Library.Monad_Syntax" "HOL-Library.Signed_Division"
begin

text \<open>
  Shared vocabulary of the development.

  \<^item> The widths of the C integer types the sources use (\<open>u8\<close>, \<open>u16\<close>, \<open>u32\<close>)
    and the conversions between them. A C \<open>int\<close> is an \<^typ>\<open>int\<close>: the sources use it for
    lengths and return codes only, and the bounds lemmas of the components show where it stays
    inside 32 bits.
  \<^item> Memory. A buffer is the list of its bytes, so that its capacity is the length of the list
    and a pointer into it is an offset. An access outside the buffer is undefined in C; every
    read and every write of the model returns \<^const>\<open>None\<close> there, and nothing else returns
    \<^const>\<open>None\<close>. A theorem that an operation yields \<^const>\<open>Some\<close> is therefore a memory safety
    theorem.
  \<^item> The collections of rewrite rules the component proofs share.
\<close>

unbundle bit_operations_syntax

named_theorems wire_simps \<open>rewrite rules for bytes written to and read from buffers\<close>
named_theorems field_simps_c \<open>rewrite rules for the bit fields of the wire format\<close>

type_synonym u8 = "8 word"
type_synonym u16 = "16 word"
type_synonym u32 = "32 word"

text \<open>A buffer and an offset into it: what a \<open>unsigned char **pptr\<close> argument denotes.\<close>

type_synonym wbuf = "u8 list \<times> nat"

text \<open>
  The codes of \<^verbatim>\<open>src/include/iot_error.h\<close> and \<^verbatim>\<open>src/include/security/iot_security_error.h\<close>
  the modelled functions return or compare with. All but the first are negative;
  \<^term>\<open>IOT_ERROR_OTHER e\<close> stands for a negative code the model never names.
\<close>

datatype iot_error =
  IOT_ERROR_NONE | IOT_ERROR_BAD_REQ | IOT_ERROR_INVALID_ARGS | IOT_ERROR_MEM_ALLOC
| IOT_ERROR_TIMEOUT | IOT_ERROR_UNINITIALIZED | IOT_ERROR_NV_DATA_ERROR | IOT_ERROR_NV_DATA_NOT_EXIST
| IOT_ERROR_FS_OPEN_FAIL | IOT_ERROR_FS_READ_FAIL | IOT_ERROR_FS_WRITE_FAIL | IOT_ERROR_FS_REMOVE_FAIL
| IOT_ERROR_FS_CLOSE_FAIL | IOT_ERROR_FS_NO_FILE
| IOT_ERROR_MQTT_CONNECT_FAIL | IOT_ERROR_MQTT_SERVER_UNAVAIL | IOT_ERROR_MQTT_PUBLISH_FAIL
| IOT_ERROR_MQTT_REJECT_CONNECT | IOT_ERROR_MQTT_CONNECT_TIMEOUT | IOT_ERROR_NET_DNS_FAIL
| IOT_ERROR_CONN_OPERATE_FAIL | IOT_ERROR_CONN_SOFTAP_CONF_FAIL | IOT_ERROR_CONN_SOFTAP_CONN_FAIL
| IOT_ERROR_CONN_SOFTAP_DHCP_FAIL | IOT_ERROR_CONN_SOFTAP_AUTH_FAIL | IOT_ERROR_CONN_STA_CONF_FAIL
| IOT_ERROR_CONN_STA_CONN_FAIL | IOT_ERROR_CONN_STA_DHCP_FAIL | IOT_ERROR_CONN_STA_AP_NOT_FOUND
| IOT_ERROR_CONN_STA_ASSOC_FAIL | IOT_ERROR_CONN_STA_AUTH_FAIL | IOT_ERROR_CONN_STA_NO_INTERNET
| IOT_ERROR_CONN_DNS_QUERY_FAIL
| IOT_ERROR_SECURITY_INIT | IOT_ERROR_SECURITY_STORAGE_INVALID_ID
| IOT_ERROR_SECURITY_FS_INVALID_ARGS | IOT_ERROR_SECURITY_FS_UNKNOWN_TARGET
| IOT_ERROR_SECURITY_FS_INVALID_TARGET | IOT_ERROR_SECURITY_FS_BUFFER | IOT_ERROR_SECURITY_FS_OPEN
| IOT_ERROR_SECURITY_FS_READ | IOT_ERROR_SECURITY_FS_WRITE | IOT_ERROR_SECURITY_FS_REMOVE
| IOT_ERROR_SECURITY_FS_CLOSE | IOT_ERROR_SECURITY_FS_NOT_FOUND
| IOT_ERROR_OTHER int

section \<open>Characters and integers\<close>

text \<open>
  Whether plain \<open>char\<close> is signed is up to the implementation (it is on x86, it is not on
  Xtensa and ARM), so the conversion of a \<open>char\<close> to \<open>int\<close> takes the choice as an
  argument.
\<close>

definition char_to_int :: "bool \<Rightarrow> u8 \<Rightarrow> int" where
  "char_to_int char_signed c = (if char_signed then sint c else uint c)"

lemma char_to_int_small [simp]: "uint c < 128 \<Longrightarrow> char_to_int sg c = uint c"
  by (simp add: char_to_int_def sint_uint signed_take_bit_eq_take_bit_minus take_bit_eq_mod
      bit_iff_odd)

lemma uint_u8_bounds [simp]: "0 \<le> uint (c :: u8)" "uint (c :: u8) < 256" "uint (c :: u8) \<le> 255"
  using uint_lt2p [of c] by simp_all

lemma uint_word_of_int_u8 [simp]: "uint (word_of_int i :: u8) = i mod 256"
  by (simp add: uint_word_of_int)

lemma sdiv_nonneg [simp]: "0 \<le> (a :: int) \<Longrightarrow> 0 < b \<Longrightarrow> a sdiv b = a div b"
  by (simp add: signed_divide_int_def sgn_if)

lemma smod_nonneg [simp]: "0 \<le> (a :: int) \<Longrightarrow> 0 < b \<Longrightarrow> a smod b = a mod b"
  by (cases "a = 0") (simp_all add: signed_modulo_int_def sgn_if minus_div_mult_eq_mod)

lemma unat_u8_less [simp]: "unat (c :: u8) < 256"
  using unsigned_less [of c, where ?'a = nat] by simp

lemma unat_and_mask: "unat ((c :: 'a :: len word) AND mask n) = unat c mod 2 ^ n"
proof -
  have "unat (c AND mask n) = unat (take_bit n c)" by (simp add: take_bit_eq_mask)
  also have "\<dots> = take_bit n (unat c)" by (simp add: unsigned_take_bit_eq)
  finally show ?thesis by (simp add: take_bit_eq_mod)
qed

lemma unat_and_127: "unat ((c :: u8) AND 127) = unat c mod 128"
  using unat_and_mask [of c 7] by (simp add: mask_eq_exp_minus_1)

lemma bit_unat: "n < LENGTH('a) \<Longrightarrow> bit (c :: 'a :: len word) n \<longleftrightarrow> odd (unat c div 2 ^ n)"
  by (simp add: bit_unsigned_iff flip: bit_iff_odd)

lemma and_128_eq_0: "((c :: u8) AND 128 = 0) \<longleftrightarrow> unat c < 128"
proof -
  have "(c AND 128 = 0) \<longleftrightarrow> even (unat c div 128)"
    using and_exp_eq_0_iff_not_bit [of c 7] bit_unat [of 7 c] by simp
  moreover have "unat c div 128 = (if unat c < 128 then 0 else 1)"
    by (auto intro: div_nat_eqI less_trans [OF unat_u8_less])
  ultimately show ?thesis by simp
qed

lemma or_128: "unat (c :: u8) < 128 \<Longrightarrow> c OR 128 = c + 128"
  by (simp add: and_128_eq_0 disjunctive_add_eq_or)

lemma unat_of_nat_u8 [simp]: "unat (of_nat n :: u8) = n mod 256"
  by (simp add: unat_of_nat)

text \<open>The digits that \<^verbatim>\<open>%d\<close> prints for a number.\<close>

fun decimal :: "nat \<Rightarrow> string" where
  "decimal n = (if n < 10 then [char_of (n + 48)] else decimal (n div 10) @ [char_of (n mod 10 + 48)])"

declare decimal.simps [simp del]

lemma length_decimal: "length (decimal n) = (if n < 10 then 1 else Suc (length (decimal (n div 10))))"
  by (subst decimal.simps) simp

lemma length_decimal_4: "1000 \<le> n \<Longrightarrow> n < 10000 \<Longrightarrow> length (decimal n) = 4"
  using length_decimal [of n] length_decimal [of "n div 10"] length_decimal [of "n div 10 div 10"]
    length_decimal [of "n div 10 div 10 div 10"] by (simp add: div_mult2_eq [symmetric] split: if_splits)

lemma length_decimal_5: "10000 \<le> n \<Longrightarrow> n < 100000 \<Longrightarrow> length (decimal n) = 5"
  using length_decimal [of n] length_decimal_4 [of "n div 10"] by simp

section \<open>Writing bytes\<close>

text \<open>
  \<open>write_bytes\<close> is \<open>memcpy(ptr, bs, n); ptr += n\<close>: the bytes land at the offset,
  the offset moves past them, and the bytes outside the range stay.
\<close>

definition write_bytes :: "u8 list \<Rightarrow> wbuf \<Rightarrow> wbuf option" where
  "write_bytes bs bp = (case bp of (b, p) \<Rightarrow>
     if p + length bs \<le> length b
     then Some (take p b @ bs @ drop (p + length bs) b, p + length bs) else None)"

lemma write_bytes_append [wire_simps]:
  "write_bytes xs bp \<bind> write_bytes ys = write_bytes (xs @ ys) bp"
  by (cases bp) (auto simp: write_bytes_def ac_simps Option.bind_eq_None_conv)

lemma write_bytes_bind [wire_simps]:
  "write_bytes xs bp \<bind> (\<lambda>p. write_bytes ys p \<bind> f) = write_bytes (xs @ ys) bp \<bind> f"
  by (simp add: Option.bind_assoc [symmetric] write_bytes_append)

lemma write_bytes_Nil: "p \<le> length b \<Longrightarrow> write_bytes [] (b, p) = Some (b, p)"
  by (simp add: write_bytes_def)

lemma write_bytes_SomeD:
  "write_bytes bs (b, p) = Some (b', p') \<Longrightarrow>
     length b' = length b \<and> p' = p + length bs \<and> p' \<le> length b \<and>
     take p b' = take p b \<and> take (length bs) (drop p b') = bs \<and> drop p' b' = drop p' b"
  by (auto simp: write_bytes_def split: if_splits)

lemma write_bytes_at_0:
  "length bs \<le> length b \<Longrightarrow> write_bytes bs (b, 0) = Some (bs @ drop (length bs) b, length bs)"
  by (simp add: write_bytes_def)

section \<open>Reading bytes\<close>

definition read_byte :: "u8 list \<Rightarrow> nat \<Rightarrow> u8 option" where
  "read_byte b p = (if p < length b then Some (b ! p) else None)"

lemma read_byte_append [wire_simps]:
  "p = length pre \<Longrightarrow> read_byte (pre @ c # post) p = Some c"
  by (simp add: read_byte_def)

lemma read_byte_lt: "p < length b \<Longrightarrow> read_byte b p = Some (b ! p)"
  by (simp add: read_byte_def)

lemma read_byte_None [simp]: "length b \<le> p \<Longrightarrow> read_byte b p = None"
  by (simp add: read_byte_def)

end
