(* ===== verification/Wire_Codec.thy ===== *)
theory Wire_Codec
  imports Prelude
begin

text \<open>
  The interface every field of the wire format offers to the messages built from it: an
  operation that writes a value at the current offset, an operation that reads it back, and the
  bytes that stand for the value between the two. The laws are the whole contract; what the
  messages need of it (memory safety, the round trip through a buffer, runs of fields) is proved
  here once from the laws. \<^verbatim>\<open>Mqtt_Packet\<close> interprets the interface on the primitives of
  \<^verbatim>\<open>iot_mqtt_packet.c\<close>.
\<close>

locale wire_codec =
  fixes enc :: "'a \<Rightarrow> u8 list"
    and wr :: "'a \<Rightarrow> wbuf \<Rightarrow> wbuf option"
    and rd :: "u8 list \<Rightarrow> nat \<Rightarrow> ('a \<times> nat) option"
    and ok :: "'a \<Rightarrow> bool"
  assumes wr_enc: "ok x \<Longrightarrow> wr x bp = write_bytes (enc x) bp"
    and rd_enc: "ok x \<Longrightarrow> p = length pre \<Longrightarrow>
      rd (pre @ enc x @ post) p = Some (x, p + length (enc x))"
begin

lemma wr_safe:
  assumes "ok x" and "p + length (enc x) \<le> length b"
  shows "\<exists>b'. wr x (b, p) = Some (b', p + length (enc x)) \<and> length b' = length b"
  using assms by (simp add: wr_enc write_bytes_def)

lemma wr_overflow:
  "ok x \<Longrightarrow> length b < p + length (enc x) \<Longrightarrow> wr x (b, p) = None"
  by (simp add: wr_enc write_bytes_def)

lemma rd_wr:
  assumes "ok x" and "wr x (b, p) = Some (b', p')"
  shows "rd b' p = Some (x, p')"
proof -
  from assms have w: "write_bytes (enc x) (b, p) = Some (b', p')" by (simp add: wr_enc)
  then have b': "b' = take p b @ enc x @ drop p' b" and p': "p' = p + length (enc x)"
    and "p \<le> length b"
    by (auto simp: write_bytes_def split: if_splits)
  then show ?thesis using rd_enc [OF assms(1), of p "take p b" "drop p' b"] by simp
qed

lemma wr_frame:
  assumes "ok x" and "wr x (b, p) = Some (b', p')"
  shows "take p b' = take p b \<and> drop p' b' = drop p' b"
  using assms by (auto simp: wr_enc dest: write_bytes_SomeD)

lemma enc_inj:
  assumes "ok x" and "ok y" and "enc x @ r = enc y @ s"
  shows "x = y \<and> r = s"
proof -
  have "rd (enc x @ r) 0 = Some (x, length (enc x))" using rd_enc [OF assms(1), of 0 "[]" r] by simp
  moreover have "rd (enc x @ r) 0 = Some (y, length (enc y))"
    unfolding assms(3) using rd_enc [OF assms(2), of 0 "[]" s] by simp
  ultimately show ?thesis using assms(3) by simp
qed

end

text \<open>
  A run of fields: writing them one after the other puts the concatenation of their bytes into
  the buffer.
\<close>

fun write_all :: "('a \<Rightarrow> wbuf \<Rightarrow> wbuf option) \<Rightarrow> 'a list \<Rightarrow> wbuf \<Rightarrow> wbuf option" where
  "write_all wr [] bp = Some bp"
| "write_all wr (x # xs) bp = wr x bp \<bind> write_all wr xs"

lemma write_all_eq:
  assumes "\<forall>x\<in>set xs. \<forall>bp. wr x bp = write_bytes (enc x) bp" and "snd bp \<le> length (fst bp)"
  shows "write_all wr xs bp = write_bytes (concat (map enc xs)) bp"
  using assms
proof (induction xs arbitrary: bp)
  case Nil
  then show ?case by (cases bp) (simp add: write_bytes_Nil)
next
  case (Cons x xs)
  have "write_all wr xs bp' = write_bytes (concat (map enc xs)) bp'"
    if "write_bytes (enc x) bp = Some bp'" for bp'
    using that Cons by (cases bp; cases bp') (auto dest: write_bytes_SomeD)
  then have "write_all wr (x # xs) bp
      = write_bytes (enc x) bp \<bind> write_bytes (concat (map enc xs))"
    using Cons.prems(1) by (cases bp) (auto intro: Option.bind_cong)
  then show ?case by (simp add: write_bytes_append)
qed

lemma write_bytes_write_all:
  assumes "\<forall>x\<in>set xs. \<forall>bp. wr x bp = write_bytes (enc x) bp"
  shows "write_bytes ys bp \<bind> (\<lambda>p. write_all wr xs p \<bind> f)
    = write_bytes (ys @ concat (map enc xs)) bp \<bind> f"
proof -
  have "write_bytes ys bp \<bind> (\<lambda>p. write_all wr xs p \<bind> f)
      = write_bytes ys bp \<bind> (\<lambda>p. write_bytes (concat (map enc xs)) p \<bind> f)"
    by (cases bp) (auto intro!: Option.bind_cong simp: write_all_eq [OF assms] dest: write_bytes_SomeD)
  then show ?thesis by (simp add: write_bytes_bind)
qed

context wire_codec
begin

lemma write_all_enc:
  assumes "\<forall>x\<in>set xs. ok x" and "snd bp \<le> length (fst bp)"
  shows "write_all wr xs bp = write_bytes (concat (map enc xs)) bp"
  using assms by (intro write_all_eq) (simp_all add: wr_enc)

text \<open>Reading a run of fields back, one after the other.\<close>

fun read_all :: "nat \<Rightarrow> u8 list \<Rightarrow> nat \<Rightarrow> ('a list \<times> nat) option" where
  "read_all 0 b p = Some ([], p)"
| "read_all (Suc n) b p = do { (x, p) \<leftarrow> rd b p; (xs, p) \<leftarrow> read_all n b p; Some (x # xs, p) }"

lemma read_all_enc:
  assumes "\<forall>x\<in>set xs. ok x" and "p = length pre"
  shows "read_all (length xs) (pre @ concat (map enc xs) @ post) p
    = Some (xs, p + length (concat (map enc xs)))"
  using assms
proof (induction xs arbitrary: pre p)
  case (Cons x xs)
  from Cons.prems have "rd (pre @ concat (map enc (x # xs)) @ post) p = Some (x, p + length (enc x))"
    using rd_enc [of x p pre "concat (map enc xs) @ post"] by simp
  then show ?case using Cons.IH [of "p + length (enc x)" "pre @ enc x"] Cons.prems by simp
qed simp

end

end
