(* ===== verification/Mqtt_Packet.thy ===== *)
theory Mqtt_Packet
  imports Wire_Codec
begin

text \<open>
  The packet primitives of \<^verbatim>\<open>src/mqtt/packet/iot_mqtt_packet.c\<close> and
  \<^verbatim>\<open>src/include/mqtt/iot_mqtt_packet.h\<close>: the fixed header, the variable length encoding of the
  remaining length, 16 bit integers, length delimited strings, the packet readers and the
  extraction of the packet identifier. The first half holds the definitions, in the order of
  the source; the second half shows that the writers put exactly the bytes of the MQTT wire
  format into the buffer, that the readers invert them and that the reported sizes bound what
  is written.
\<close>

section \<open>Definitions\<close>

datatype msgTypes =
  CONNECT | CONNACK | PUBLISH | PUBACK | PUBREC | PUBREL | PUBCOMP | SUBSCRIBE | SUBACK
| UNSUBSCRIBE | UNSUBACK | PINGREQ | PINGRESP | DISCONNECT

text \<open>The value the C enumeration gives each constant.\<close>

fun msg_code :: "msgTypes \<Rightarrow> int" where
  "msg_code CONNECT = 1"
| "msg_code CONNACK = 2"
| "msg_code PUBLISH = 3"
| "msg_code PUBACK = 4"
| "msg_code PUBREC = 5"
| "msg_code PUBREL = 6"
| "msg_code PUBCOMP = 7"
| "msg_code SUBSCRIBE = 8"
| "msg_code SUBACK = 9"
| "msg_code UNSUBSCRIBE = 10"
| "msg_code UNSUBACK = 11"
| "msg_code PINGREQ = 12"
| "msg_code PINGRESP = 13"
| "msg_code DISCONNECT = 14"

abbreviation (input) MQTTPACKET_BUFFER_TOO_SHORT :: int where
  "MQTTPACKET_BUFFER_TOO_SHORT \<equiv> -2"

abbreviation (input) MQTTPACKET_READ_ERROR :: int where
  "MQTTPACKET_READ_ERROR \<equiv> -1"

abbreviation (input) MAX_NUM_OF_REMAINING_LENGTH_BYTES :: nat where
  "MAX_NUM_OF_REMAINING_LENGTH_BYTES \<equiv> 4"

text \<open>
  The union \<open>MQTTHeader\<close> in its default bit field layout: \<open>retain\<close> is bit 0, \<open>qos\<close> bits 1 and
  2, \<open>dup\<close> bit 3 and \<open>type\<close> the high nibble. Storing into a field keeps the low bits of the
  value.
\<close>

definition MQTTHeader_byte :: "int \<Rightarrow> int \<Rightarrow> int \<Rightarrow> int \<Rightarrow> u8" where
  "MQTTHeader_byte type dup qos retain =
     word_of_int ((type mod 16) * 16 + (dup mod 2) * 8 + (qos mod 4) * 2 + retain mod 2)"

definition header_type :: "u8 \<Rightarrow> int" where
  "header_type b = uint b div 16"

definition header_dup :: "u8 \<Rightarrow> int" where
  "header_dup b = uint b div 8 mod 2"

definition header_qos :: "u8 \<Rightarrow> int" where
  "header_qos b = uint b div 2 mod 4"

definition header_retain :: "u8 \<Rightarrow> int" where
  "header_retain b = uint b mod 2"

text \<open>
  \<open>MQTTString\<close>. A C string is the list of the bytes before its terminator; the data pointer of
  a length delimited string denotes the bytes that can be read from it, of which \<open>ls_len\<close> belong
  to the string. \<^const>\<open>None\<close> is the null pointer.
\<close>

record MQTTLenString =
  ls_len :: int
  ls_data :: "u8 list option"

record MQTTString =
  cstring :: "u8 list option"
  lenstring :: MQTTLenString

definition MQTTString_initializer :: MQTTString where
  "MQTTString_initializer = \<lparr>cstring = None, lenstring = \<lparr>ls_len = 0, ls_data = None\<rparr>\<rparr>"

text \<open>
  \<open>MQTTPacket_encode(buf, length)\<close>: the \<open>do while\<close> loop. \<open>rc\<close> counts the bytes stored from
  the offset \<open>p\<close> on.
\<close>

function MQTTPacket_encode_loop :: "u8 list \<Rightarrow> nat \<Rightarrow> nat \<Rightarrow> int \<Rightarrow> (u8 list \<times> nat) option" where
  "MQTTPacket_encode_loop b p rc len =
     (let d = word_of_int (len smod 128) :: u8; len' = len sdiv 128;
          d' = (if len' > 0 then d OR 0x80 else d)
      in if p + rc < length b
         then (if len' > 0 then MQTTPacket_encode_loop (b[p + rc := d']) p (Suc rc) len'
               else Some (b[p + rc := d'], Suc rc))
         else None)"
  by pat_completeness auto
termination
proof (relation "measure (\<lambda>(b, p, rc, len). nat len)")
  fix b :: "u8 list" and p rc :: nat and len len' :: int and d d' :: u8
  assume l': "len' = len sdiv 128" and "0 < len'"
  then have "0 < len" by (cases "0 < len") (auto simp: signed_divide_int_def sgn_if split: if_splits)
  then have "len' < len" by (simp add: l')
  with \<open>0 < len\<close> show "((b[p + rc := d'], p, Suc rc, len'), b, p, rc, len)
      \<in> measure (\<lambda>(b, p, rc, len). nat len)" by simp
qed simp

declare MQTTPacket_encode_loop.simps [simp del]

definition MQTTPacket_encode :: "u8 list \<Rightarrow> nat \<Rightarrow> int \<Rightarrow> (u8 list \<times> nat) option" where
  "MQTTPacket_encode b p len = MQTTPacket_encode_loop b p 0 len"

text \<open>\<open>ptr += MQTTPacket_encode(ptr, len)\<close>, as every serializer writes it.\<close>

definition write_rem_len :: "int \<Rightarrow> wbuf \<Rightarrow> wbuf option" where
  "write_rem_len len bp = (case bp of (b, p) \<Rightarrow>
     do { (b', rc) \<leftarrow> MQTTPacket_encode b p len; Some (b', p + rc) })"

text \<open>
  \<open>MQTTPacket_decode(getcharfn, value)\<close>. The reader is an argument over a source of type \<open>'s\<close>;
  it returns its return code, the character it stored and the source afterwards, or
  \<^const>\<open>None\<close> when it reads outside its buffer. The result is the number of bytes counted, the
  value and the source.
\<close>

function MQTTPacket_decode_loop ::
  "('s \<Rightarrow> (int \<times> u8 \<times> 's) option) \<Rightarrow> nat \<Rightarrow> nat \<Rightarrow> nat \<Rightarrow> 's \<Rightarrow> (nat \<times> nat \<times> 's) option" where
  "MQTTPacket_decode_loop getcharfn len val mult s =
     (if Suc len > MAX_NUM_OF_REMAINING_LENGTH_BYTES then Some (Suc len, val, s)
      else do {
        (rc, c, s') \<leftarrow> getcharfn s;
        if rc \<noteq> 1 then Some (Suc len, val, s')
        else let val' = val + unat (c AND 127) * mult
             in if c AND 128 \<noteq> 0
                then MQTTPacket_decode_loop getcharfn (Suc len) val' (mult * 128) s'
                else Some (Suc len, val', s') })"
  by pat_completeness auto
termination
  by (relation "measure (\<lambda>(g, len, val, mult, s). 4 - len)") auto

declare MQTTPacket_decode_loop.simps [simp del]

definition MQTTPacket_decode ::
  "('s \<Rightarrow> (int \<times> u8 \<times> 's) option) \<Rightarrow> 's \<Rightarrow> (nat \<times> nat \<times> 's) option" where
  "MQTTPacket_decode getcharfn s = MQTTPacket_decode_loop getcharfn 0 0 1 s"

definition MQTTPacket_len :: "int \<Rightarrow> int" where
  "MQTTPacket_len rem_len =
     (let n = rem_len + 1
      in if n < 128 then n + 1 else if n < 16384 then n + 2
         else if n < 2097151 then n + 3 else n + 4)"

text \<open>\<open>bufchar\<close> for one character: the static \<open>bufptr\<close> is the offset it carries along.\<close>

definition bufchar :: "u8 list \<Rightarrow> nat \<Rightarrow> (int \<times> u8 \<times> nat) option" where
  "bufchar buf bufptr = do { c \<leftarrow> read_byte buf bufptr; Some (1, c, Suc bufptr) }"

definition MQTTPacket_decodeBuf :: "u8 list \<Rightarrow> nat \<Rightarrow> (nat \<times> nat) option" where
  "MQTTPacket_decodeBuf buf p =
     do { (len, val, _) \<leftarrow> MQTTPacket_decode (bufchar buf) p; Some (len, val) }"

definition readInt :: "u8 list \<Rightarrow> nat \<Rightarrow> (nat \<times> nat) option" where
  "readInt b p = do { x \<leftarrow> read_byte b p; y \<leftarrow> read_byte b (Suc p);
                      Some (256 * unat x + unat y, p + 2) }"

definition readChar :: "u8 list \<Rightarrow> nat \<Rightarrow> (u8 \<times> nat) option" where
  "readChar b p = do { c \<leftarrow> read_byte b p; Some (c, Suc p) }"

definition writeChar :: "u8 \<Rightarrow> wbuf \<Rightarrow> wbuf option" where
  "writeChar c bp = (case bp of (b, p) \<Rightarrow>
     if p < length b then Some (b[p := c], Suc p) else None)"

definition writeInt :: "int \<Rightarrow> wbuf \<Rightarrow> wbuf option" where
  "writeInt anInt bp =
     writeChar (word_of_int (anInt sdiv 256)) bp \<bind> writeChar (word_of_int (anInt smod 256))"

definition writeCString :: "u8 list \<Rightarrow> wbuf \<Rightarrow> wbuf option" where
  "writeCString str bp = writeInt (int (length str)) bp \<bind> write_bytes str"

definition getLenStringLen :: "u8 list \<Rightarrow> nat option" where
  "getLenStringLen b =
     do { x \<leftarrow> read_byte b 0; y \<leftarrow> read_byte b 1; Some (256 * unat x + unat y) }"

text \<open>\<open>memcpy\<close> from a pointer: reading more bytes than the pointer has is undefined.\<close>

definition bytes_at :: "u8 list option \<Rightarrow> nat \<Rightarrow> u8 list option" where
  "bytes_at ptr n = (case ptr of None \<Rightarrow> (if n = 0 then Some [] else None)
     | Some d \<Rightarrow> (if n \<le> length d then Some (take n d) else None))"

definition writeMQTTString :: "MQTTString \<Rightarrow> wbuf \<Rightarrow> wbuf option" where
  "writeMQTTString s bp =
     (if ls_len (lenstring s) > 0
      then do { bp' \<leftarrow> writeInt (ls_len (lenstring s)) bp;
                d \<leftarrow> bytes_at (ls_data (lenstring s)) (nat (ls_len (lenstring s)));
                write_bytes d bp' }
      else case cstring s of Some str \<Rightarrow> writeCString str bp | None \<Rightarrow> writeInt 0 bp)"

definition readMQTTLenString ::
  "MQTTString \<Rightarrow> u8 list \<Rightarrow> nat \<Rightarrow> nat \<Rightarrow> (bool \<times> MQTTString \<times> nat) option" where
  "readMQTTLenString s b p enddata =
     (if int enddata - int p > 1
      then do {
        (n, p') \<leftarrow> readInt b p;
        if p' + n \<le> enddata
        then Some (True, \<lparr>cstring = None, lenstring = \<lparr>ls_len = int n, ls_data = Some (drop p' b)\<rparr>\<rparr>,
                   p' + n)
        else Some (False, \<lparr>cstring = None, lenstring = (lenstring s)\<lparr>ls_len := int n\<rparr>\<rparr>, p') }
      else Some (False, s\<lparr>cstring := None\<rparr>, p))"

definition MQTTstrlen :: "MQTTString \<Rightarrow> int" where
  "MQTTstrlen s = (case cstring s of Some str \<Rightarrow> int (length str) | None \<Rightarrow> ls_len (lenstring s))"

text \<open>
  \<open>strncmp(a, b, n) == 0\<close> on readable bytes: the comparison ends at the first difference or at
  a common terminator, and reads no further.
\<close>

fun strncmp_eq :: "u8 list \<Rightarrow> u8 list \<Rightarrow> nat \<Rightarrow> bool option" where
  "strncmp_eq xs ys 0 = Some True"
| "strncmp_eq (x # xs) (y # ys) (Suc n) =
     (if x \<noteq> y then Some False else if x = 0 then Some True else strncmp_eq xs ys n)"
| "strncmp_eq xs ys (Suc n) = None"

definition MQTTPacket_equals :: "MQTTString \<Rightarrow> u8 list \<Rightarrow> bool option" where
  "MQTTPacket_equals a bptr =
     (let aptr = (case cstring a of Some str \<Rightarrow> str @ [0]
                  | None \<Rightarrow> (case ls_data (lenstring a) of Some d \<Rightarrow> d | None \<Rightarrow> []))
      in if MQTTstrlen a = int (length bptr)
         then strncmp_eq aptr (bptr @ [0]) (length bptr) else Some False)"

text \<open>
  \<open>MQTTPacket_read\<close>. The callback \<open>getfn(buf, n)\<close> is an argument: it returns its return code, the
  bytes it stored and the source afterwards. \<open>getchar_of\<close> is the same callback used for one
  character, as \<open>MQTTPacket_decode\<close> calls it.
\<close>

definition getchar_of :: "('s \<Rightarrow> nat \<Rightarrow> int \<times> u8 list \<times> 's) \<Rightarrow> 's \<Rightarrow> (int \<times> u8 \<times> 's) option" where
  "getchar_of getfn s = (case getfn s 1 of (rc, bs, s') \<Rightarrow>
     Some (rc, (case bs of c # _ \<Rightarrow> c | [] \<Rightarrow> 0), s'))"

definition MQTTPacket_read ::
  "('s \<Rightarrow> nat \<Rightarrow> int \<times> u8 list \<times> 's) \<Rightarrow> u8 list \<Rightarrow> int \<Rightarrow> 's \<Rightarrow> (int \<times> u8 list \<times> 's) option" where
  "MQTTPacket_read getfn buf buflen s = (case getfn s 1 of (rc0, bs0, s1) \<Rightarrow> do {
     (b1, _) \<leftarrow> write_bytes bs0 (buf, 0);
     if rc0 \<noteq> 1 then Some (-1, b1, s1) else do {
       (_, rem_len, s2) \<leftarrow> MQTTPacket_decode (getchar_of getfn) s1;
       (b2, n) \<leftarrow> MQTTPacket_encode b1 1 (int rem_len);
       let len = 1 + n;
       if int rem_len + int len > buflen then Some (-1, b2, s2)
       else if rem_len = 0 then do { h \<leftarrow> read_byte b2 0; Some (header_type h, b2, s2) }
       else (case getfn s2 rem_len of (rc, bs, s3) \<Rightarrow> do {
         (b3, _) \<leftarrow> write_bytes bs (b2, len);
         if rc \<noteq> int rem_len then Some (-1, b3, s3)
         else do { h \<leftarrow> read_byte b3 0; Some (header_type h, b3, s3) } }) } })"

text \<open>
  \<open>MQTTTransport\<close> and the non-blocking reader. The callback \<open>getfn(sck, buf, n)\<close> answers \<open>-1\<close> for
  an error, \<open>0\<close> for call again, or the number of bytes it stored.
\<close>

record 's MQTTTransport =
  sck :: 's
  multiplier :: nat
  t_rem_len :: int
  t_len :: nat
  t_state :: int

function MQTTPacket_decodenb_loop ::
  "('s \<Rightarrow> nat \<Rightarrow> int \<times> u8 list \<times> 's) \<Rightarrow> 's MQTTTransport \<Rightarrow> int \<times> 's MQTTTransport" where
  "MQTTPacket_decodenb_loop getfn trp =
     (if t_len trp \<ge> MAX_NUM_OF_REMAINING_LENGTH_BYTES then (MQTTPACKET_READ_ERROR, trp)
      else case getfn (sck trp) 1 of (frc, bs, s') \<Rightarrow>
        if frc = -1 then (MQTTPACKET_READ_ERROR, trp\<lparr>sck := s'\<rparr>)
        else if frc = 0 then (0, trp\<lparr>sck := s'\<rparr>)
        else let c = (case bs of c # _ \<Rightarrow> c | [] \<Rightarrow> 0);
                 trp' = trp\<lparr>sck := s', t_len := Suc (t_len trp),
                            t_rem_len := t_rem_len trp + int (unat (c AND 127) * multiplier trp),
                            multiplier := multiplier trp * 128\<rparr>
             in if c AND 128 \<noteq> 0 then MQTTPacket_decodenb_loop getfn trp'
                else (int (t_len trp'), trp'))"
  by pat_completeness auto
termination
  by (relation "measure (\<lambda>(getfn, trp). 4 - t_len trp)") auto

declare MQTTPacket_decodenb_loop.simps [simp del]

definition MQTTPacket_decodenb ::
  "('s \<Rightarrow> nat \<Rightarrow> int \<times> u8 list \<times> 's) \<Rightarrow> 's MQTTTransport \<Rightarrow> int \<times> 's MQTTTransport" where
  "MQTTPacket_decodenb getfn trp =
     MQTTPacket_decodenb_loop getfn
       (if t_len trp = 0 then trp\<lparr>multiplier := 1, t_rem_len := 0\<rparr> else trp)"

text \<open>
  The three labels of the \<open>switch\<close> of \<open>MQTTPacket_readnb\<close>, each falling through to the next. The
  result is the return code, the buffer and the transport.
\<close>

definition readnb_case2 ::
  "('s \<Rightarrow> nat \<Rightarrow> int \<times> u8 list \<times> 's) \<Rightarrow> u8 list \<Rightarrow> 's MQTTTransport
     \<Rightarrow> (int \<times> u8 list \<times> 's MQTTTransport) option" where
  "readnb_case2 getfn buf trp =
     (if t_rem_len trp \<noteq> 0
      then (case getfn (sck trp) (nat (t_rem_len trp)) of (frc, bs, s') \<Rightarrow> do {
        (b', _) \<leftarrow> write_bytes bs (buf, t_len trp);
        if frc = -1 then Some (-1, b', trp\<lparr>sck := s', t_state := 0\<rparr>)
        else if frc = 0 then Some (0, b', trp\<lparr>sck := s'\<rparr>)
        else let trp' = trp\<lparr>sck := s', t_rem_len := t_rem_len trp - frc,
                            t_len := nat (int (t_len trp) + frc)\<rparr>
             in if t_rem_len trp' \<noteq> 0 then Some (0, b', trp')
                else do { h \<leftarrow> read_byte b' 0; Some (header_type h, b', trp'\<lparr>t_state := 0\<rparr>) } })
      else do { h \<leftarrow> read_byte buf 0; Some (header_type h, buf, trp\<lparr>t_state := 0\<rparr>) })"

definition readnb_case1 ::
  "('s \<Rightarrow> nat \<Rightarrow> int \<times> u8 list \<times> 's) \<Rightarrow> u8 list \<Rightarrow> int \<Rightarrow> 's MQTTTransport
     \<Rightarrow> (int \<times> u8 list \<times> 's MQTTTransport) option" where
  "readnb_case1 getfn buf buflen trp =
     (case MQTTPacket_decodenb getfn trp of (frc, trp1) \<Rightarrow>
        if frc = MQTTPACKET_READ_ERROR then Some (-1, buf, trp1\<lparr>t_state := 0\<rparr>)
        else if frc = 0 then Some (0, buf, trp1)
        else do {
          (b', n) \<leftarrow> MQTTPacket_encode buf 1 (t_rem_len trp1);
          let trp2 = trp1\<lparr>t_len := 1 + n\<rparr>;
          if t_rem_len trp2 + int (t_len trp2) > buflen then Some (-1, b', trp2\<lparr>t_state := 0\<rparr>)
          else readnb_case2 getfn b' (trp2\<lparr>t_state := t_state trp2 + 1\<rparr>) })"

definition readnb_case0 ::
  "('s \<Rightarrow> nat \<Rightarrow> int \<times> u8 list \<times> 's) \<Rightarrow> u8 list \<Rightarrow> int \<Rightarrow> 's MQTTTransport
     \<Rightarrow> (int \<times> u8 list \<times> 's MQTTTransport) option" where
  "readnb_case0 getfn buf buflen trp =
     (case getfn (sck trp) 1 of (frc, bs, s') \<Rightarrow> do {
        (b', _) \<leftarrow> write_bytes bs (buf, 0);
        if frc = -1 then Some (-1, b', trp\<lparr>sck := s', t_state := 0\<rparr>)
        else if frc = 0 then Some (0, b', trp\<lparr>sck := s'\<rparr>)
        else readnb_case1 getfn b' buflen
               (trp\<lparr>sck := s', t_len := 0, t_state := t_state trp + 1\<rparr>) })"

definition MQTTPacket_readnb ::
  "('s \<Rightarrow> nat \<Rightarrow> int \<times> u8 list \<times> 's) \<Rightarrow> u8 list \<Rightarrow> int \<Rightarrow> 's MQTTTransport
     \<Rightarrow> (int \<times> u8 list \<times> 's MQTTTransport) option" where
  "MQTTPacket_readnb getfn buf buflen trp =
     (if t_state trp = 1 then readnb_case1 getfn buf buflen trp
      else if t_state trp = 2 then readnb_case2 getfn buf trp
      else readnb_case0 getfn buf buflen (trp\<lparr>t_state := 0\<rparr>))"

text \<open>\<open>MQTTPacket_msgTypesToString\<close>; \<^const>\<open>None\<close> is the null pointer of the default branch.\<close>

definition MQTTPacket_msgTypesToString :: "int \<Rightarrow> string option" where
  "MQTTPacket_msgTypesToString msgType =
     (if msgType = msg_code CONNECT then Some ''CONNECT''
      else if msgType = msg_code CONNACK then Some ''CONNACK''
      else if msgType = msg_code PUBLISH then Some ''PUBLISH''
      else if msgType = msg_code PUBACK then Some ''PUBACK''
      else if msgType = msg_code PUBREC then Some ''PUBREC''
      else if msgType = msg_code PUBREL then Some ''PUBREL''
      else if msgType = msg_code PUBCOMP then Some ''PUBCOMP''
      else if msgType = msg_code SUBSCRIBE then Some ''SUBSCRIBE''
      else if msgType = msg_code SUBACK then Some ''SUBACK''
      else if msgType = msg_code UNSUBSCRIBE then Some ''UNSUBSCRIBE''
      else if msgType = msg_code UNSUBACK then Some ''UNSUBACK''
      else if msgType = msg_code PINGREQ then Some ''PINGREQ''
      else if msgType = msg_code PINGRESP then Some ''PINGRESP''
      else if msgType = msg_code DISCONNECT then Some ''DISCONNECT''
      else None)"

text \<open>
  \<open>MQTTPacket_getPacketId\<close>. In \<open>buf += readInt(&buf)\<close> the call changes \<open>buf\<close> itself, and C leaves
  open whether the old value of \<open>buf\<close> is loaded before or after the call. The argument
  \<open>load_first\<close> is that choice of the compiler: when it holds, the topic length is added to the
  pointer before the length field.
\<close>

definition MQTTPacket_getPacketId :: "bool \<Rightarrow> u8 list \<Rightarrow> nat option" where
  "MQTTPacket_getPacketId load_first buf = do {
     b0 \<leftarrow> read_byte buf 0;
     let packet_type = uint (drop_bit 4 (b0 AND 0xf0));
     let qos = uint (drop_bit 1 (b0 AND 0x06));
     if packet_type = msg_code PUBLISH
     then (if qos = 0 then Some 0 else do {
       (n, _) \<leftarrow> MQTTPacket_decodeBuf buf 1;
       (len, p) \<leftarrow> readInt buf (1 + n);
       (packet_id, _) \<leftarrow> readInt buf ((if load_first then 1 + n else p) + len);
       Some packet_id })
     else if packet_type \<in> set (map msg_code [PUBACK, PUBREC, PUBREL, PUBCOMP, SUBSCRIBE, SUBACK,
                                              UNSUBSCRIBE, UNSUBACK])
     then do {
       (n, _) \<leftarrow> MQTTPacket_decodeBuf buf 1;
       (packet_id, _) \<leftarrow> readInt buf (1 + n);
       Some packet_id }
     else Some 0 }"

section \<open>The wire format\<close>


text \<open>
  The remaining length as the MQTT specification describes it: seven bits per byte, least
  significant group first, the top bit of a byte set while more follow.
\<close>

fun rem_len_bytes :: "nat \<Rightarrow> u8 list" where
  "rem_len_bytes n =
     (if n < 128 then [of_nat n] else of_nat (n mod 128 + 128) # rem_len_bytes (n div 128))"

declare rem_len_bytes.simps [simp del]

lemma rem_len_bytes_not_Nil [simp]: "rem_len_bytes n \<noteq> []"
  by (subst rem_len_bytes.simps) simp

lemma length_rem_len_bytes_step:
  "length (rem_len_bytes n) = (if n < 128 then 1 else Suc (length (rem_len_bytes (n div 128))))"
  by (simp add: rem_len_bytes.simps [of n])

lemma length_rem_len_bytes:
  "n < 268435456 \<Longrightarrow> length (rem_len_bytes n) =
     (if n < 128 then 1 else if n < 16384 then 2 else if n < 2097152 then 3 else 4)"
  using length_rem_len_bytes_step [of n] length_rem_len_bytes_step [of "n div 128"]
    length_rem_len_bytes_step [of "n div 128 div 128"]
    length_rem_len_bytes_step [of "n div 128 div 128 div 128"]
  by (auto simp: less_mult_imp_div_less split: if_splits)

lemma write_bytes_Cons:
  "write_bytes (x # xs) (b, p) =
     (if p < length b then write_bytes xs (b[p := x], Suc p) else None)"
  by (auto simp: write_bytes_def take_Suc_conv_app_nth)

lemma MQTTPacket_encode_loop_eq:
  "MQTTPacket_encode_loop b p rc (int n) =
     (case write_bytes (rem_len_bytes n) (b, p + rc) of
        None \<Rightarrow> None | Some (b', q) \<Rightarrow> Some (b', q - p))"
proof (induction n arbitrary: b rc rule: less_induct)
  case (less n)
  let ?d = "of_nat (n mod 128) :: u8"
  have "int n mod 128 = int (n mod 128)" by (simp add: zmod_int)
  then have d: "word_of_int (int n mod 128) = ?d" "int n div 128 = int (n div 128)"
    by (simp_all add: zdiv_int)
  have d': "?d OR 128 = of_nat (n mod 128 + 128)" by (simp add: or_128)
  note unfold = MQTTPacket_encode_loop.simps [of b p rc "int n"] rem_len_bytes.simps [of n]
    write_bytes_Cons Let_def d d'
  show ?case
  proof (cases "n < 128")
    case True
    then show ?thesis by (simp add: unfold write_bytes_Nil del: of_nat_add)
  next
    case False
    then have "0 < n div 128" by (simp add: div_greater_zero_iff)
    with False show ?thesis using less [of "n div 128" _ "Suc rc"]
      by (simp add: unfold del: of_nat_add)
  qed
qed

lemma write_rem_len_eq [wire_simps]:
  "write_rem_len (int n) bp = write_bytes (rem_len_bytes n) bp"
  by (cases bp) (auto simp: write_rem_len_def MQTTPacket_encode_def MQTTPacket_encode_loop_eq
      split: option.splits dest: write_bytes_SomeD)

text \<open>Decoding inverts the encoding up to the four bytes the loop reads.\<close>

lemma MQTTPacket_decode_loop_enc:
  "n < 128 ^ (4 - len) \<Longrightarrow> len < 4 \<Longrightarrow> p = length pre \<Longrightarrow>
     MQTTPacket_decode_loop (bufchar (pre @ rem_len_bytes n @ post)) len val mult p =
       Some (len + length (rem_len_bytes n), val + n * mult, p + length (rem_len_bytes n))"
proof (induction n arbitrary: len val mult p pre rule: less_induct)
  case (less n)
  let ?b = "pre @ rem_len_bytes n @ post"
  show ?case
  proof (cases "n < 128")
    case True
    then have "bufchar ?b p = Some (1, of_nat n, Suc p)"
      using less.prems by (simp add: bufchar_def rem_len_bytes.simps [of n] read_byte_append)
    then show ?thesis
      using True less.prems
      by (simp add: MQTTPacket_decode_loop.simps rem_len_bytes.simps [of n] Let_def
          unat_and_127 and_128_eq_0)
  next
    case False
    let ?c = "of_nat (n mod 128 + 128) :: u8"
    have c: "unat ?c = n mod 128 + 128" using unat_of_nat_u8 [of "n mod 128 + 128"] by simp
    have *: "?b = (pre @ [?c]) @ rem_len_bytes (n div 128) @ post"
      using False by (simp add: rem_len_bytes.simps [of n])
    have "bufchar ?b p = Some (1, ?c, Suc p)"
      using less.prems False by (simp add: bufchar_def rem_len_bytes.simps [of n] read_byte_append)
    moreover have "len < 3"
    proof (rule ccontr)
      assume "\<not> len < 3"
      then have "len = 3" using less.prems by simp
      then show False using less.prems False by simp
    qed
    moreover have "n div 128 < 128 ^ (4 - Suc len)"
    proof -
      have "4 - len = Suc (4 - Suc len)" using \<open>len < 3\<close> by simp
      then have "n < 128 ^ (4 - Suc len) * 128" using less.prems by (simp only: power_Suc mult.commute)
      then show ?thesis by (rule less_mult_imp_div_less)
    qed
    moreover have "MQTTPacket_decode_loop (bufchar ?b) (Suc len) val' mult' (Suc p) =
        Some (Suc len + length (rem_len_bytes (n div 128)), val' + n div 128 * mult',
              Suc p + length (rem_len_bytes (n div 128)))" for val' mult'
      unfolding * using \<open>len < 3\<close> \<open>n div 128 < 128 ^ (4 - Suc len)\<close> less.prems False
      by (intro less.IH) simp_all
    moreover have "(n mod 128 + 128) mod 128 * mult + n div 128 * (mult * 128) = n * mult"
    proof -
      have "n * mult = (n mod 128 + n div 128 * 128) * mult" by simp
      also have "\<dots> = n mod 128 * mult + n div 128 * (mult * 128)"
        by (simp only: distrib_right mult.assoc mult.commute [of mult])
      finally show ?thesis by simp
    qed
    ultimately show ?thesis
      using False
      by (simp add: MQTTPacket_decode_loop.simps [of _ len] Let_def unat_and_127 and_128_eq_0 c
          length_rem_len_bytes_step [of n] add.assoc del: of_nat_add)
  qed
qed

lemma MQTTPacket_decodeBuf_enc [wire_simps]:
  "n < 268435456 \<Longrightarrow> p = length pre \<Longrightarrow>
     MQTTPacket_decodeBuf (pre @ rem_len_bytes n @ post) p = Some (length (rem_len_bytes n), n)"
  by (simp add: MQTTPacket_decodeBuf_def MQTTPacket_decode_def MQTTPacket_decode_loop_enc)

text \<open>
  Whatever the source delivers, the loop stops: it counts at most five bytes and the value stays
  below $2^{28}$, so the 32 bit \<open>int\<close> arithmetic of the source does not overflow.
\<close>

lemma MQTTPacket_decode_loop_bounds:
  "MQTTPacket_decode_loop g len val mult s = Some (n, v, s') \<Longrightarrow> len \<le> 4 \<Longrightarrow>
     mult = 128 ^ len \<Longrightarrow> val < 128 ^ len \<Longrightarrow> n \<le> 5 \<and> len < n \<and> v < 128 ^ 4"
proof (induction g len val mult s rule: MQTTPacket_decode_loop.induct)
  case (1 g len val mult s)
  show ?case
  proof (cases "Suc len > 4")
    case True
    then have "len = 4" using "1.prems" by simp
    then show ?thesis using "1.prems" by (simp add: MQTTPacket_decode_loop.simps)
  next
    case False
    then have len: "len \<le> 3" by simp
    have mono: "(128 :: nat) ^ len \<le> 128 ^ 3" by (rule power_increasing) (use len in simp_all)
    from "1.prems"(1) False obtain rc c s1 where g: "g s = Some (rc, c, s1)"
      by (auto simp: MQTTPacket_decode_loop.simps [of g len] bind_eq_Some_conv)
    have "unat (c AND 127) \<le> 127" by (simp add: unat_and_127)
    then have "unat (c AND 127) * mult \<le> 127 * 128 ^ len" by (simp add: "1.prems")
    then have val': "val + unat (c AND 127) * mult < 128 ^ Suc len" using "1.prems"(4) by simp
    then have val4: "val + unat (c AND 127) * mult < 128 ^ 4" using mono by simp
    show ?thesis
    proof (cases "rc \<noteq> 1 \<or> c AND 128 = 0")
      case True
      then show ?thesis using "1.prems" g len val4 mono
        by (auto simp: MQTTPacket_decode_loop.simps [of g len] Let_def split: if_splits)
    next
      case rec: False
      then have "MQTTPacket_decode_loop g (Suc len) (val + unat (c AND 127) * mult) (mult * 128) s1
          = Some (n, v, s')"
        using "1.prems"(1) g False by (simp add: MQTTPacket_decode_loop.simps [of g len] Let_def)
      then show ?thesis
        using "1.IH" [OF False g refl refl] rec val' len "1.prems" by auto
    qed
  qed
qed

section \<open>The fixed header\<close>

lemma header_fields [field_simps_c]:
  "header_type (MQTTHeader_byte t d q r) = t mod 16"
  "header_dup (MQTTHeader_byte t d q r) = d mod 2"
  "header_qos (MQTTHeader_byte t d q r) = q mod 4"
  "header_retain (MQTTHeader_byte t d q r) = r mod 2"
proof -
  define t' d' q' r' where "t' = t mod 16" and "d' = d mod 2" and "q' = q mod 4" and "r' = r mod 2"
  have b: "0 \<le> t'" "t' < 16" "0 \<le> d'" "d' < 2" "0 \<le> q'" "q' < 4" "0 \<le> r'" "r' < 2"
    by (simp_all add: t'_def d'_def q'_def r'_def)
  define x where "x = t' * 16 + d' * 8 + q' * 2 + r'"
  have "0 \<le> x" "x < 256" using b by (simp_all add: x_def)
  moreover have "MQTTHeader_byte t d q r = word_of_int x"
    by (simp only: MQTTHeader_byte_def x_def t'_def d'_def q'_def r'_def)
  ultimately have u: "uint (MQTTHeader_byte t d q r) = x" by (simp only: uint_word_of_int_u8) simp
  have x: "x = d' * 8 + q' * 2 + r' + t' * 16" "x = q' * 2 + r' + (t' * 2 + d') * 8"
    "x = r' + (t' * 8 + d' * 4 + q') * 2"
    by (simp_all add: x_def)
  have "x div 16 = t'" unfolding x(1) using b
    by (subst div_mult_self1) (simp_all add: div_pos_pos_trivial)
  then show "header_type (MQTTHeader_byte t d q r) = t mod 16"
    by (simp only: header_type_def u t'_def)
  have "x div 8 mod 2 = d'" unfolding x(2) using b
    by (subst div_mult_self1) (simp_all add: div_pos_pos_trivial)
  then show "header_dup (MQTTHeader_byte t d q r) = d mod 2"
    by (simp only: header_dup_def u d'_def)
  have "x div 2 mod 4 = q'" unfolding x(3) using b
    by (subst div_mult_self1) (simp_all add: div_pos_pos_trivial, presburger)
  then show "header_qos (MQTTHeader_byte t d q r) = q mod 4"
    by (simp only: header_qos_def u q'_def)
  have "x mod 2 = r'" unfolding x(3) using b by (subst mod_mult_self1) simp
  then show "header_retain (MQTTHeader_byte t d q r) = r mod 2"
    by (simp only: header_retain_def u r'_def)
qed

lemma msg_code_bounds [simp]: "0 \<le> msg_code t" "msg_code t < 16" "msg_code t mod 16 = msg_code t"
  by (cases t; simp)+

lemma msg_code_inj [simp]: "msg_code s = msg_code t \<longleftrightarrow> s = t"
  by (cases s; cases t; simp)

section \<open>Sixteen bit integers and strings\<close>

definition u16_bytes :: "nat \<Rightarrow> u8 list" where
  "u16_bytes n = [of_nat (n div 256), of_nat (n mod 256)]"

lemma length_u16_bytes [simp]: "length (u16_bytes n) = 2"
  by (simp add: u16_bytes_def)

lemma writeChar_eq [wire_simps]: "writeChar c = write_bytes [c]"
  by (rule ext) (auto simp: writeChar_def write_bytes_Cons write_bytes_Nil split: prod.split)

lemma writeInt_eq [wire_simps]: "writeInt (int n) bp = write_bytes (u16_bytes n) bp"
proof -
  have "int n sdiv 256 = int (n div 256)" "int n smod 256 = int (n mod 256)"
    by (simp_all add: zdiv_int zmod_int)
  then have "writeInt (int n) bp = write_bytes [of_nat (n div 256)] bp \<bind> write_bytes [of_nat (n mod 256)]"
    by (simp add: writeInt_def writeChar_eq del: sdiv_nonneg smod_nonneg)
  then show ?thesis by (simp add: write_bytes_append u16_bytes_def)
qed

lemma readInt_enc [wire_simps]:
  "n < 65536 \<Longrightarrow> p = length pre \<Longrightarrow>
     readInt (pre @ u16_bytes n @ post) p = Some (n, p + 2)"
  by (simp add: readInt_def u16_bytes_def read_byte_def nth_append less_mult_imp_div_less)

lemma readInt_le: "readInt b p = Some (n, p') \<Longrightarrow> n < 65536 \<and> p' = p + 2 \<and> p + 2 \<le> length b"
proof -
  assume "readInt b p = Some (n, p')"
  then obtain x y where "Suc p < length b" and n: "n = 256 * unat (x :: u8) + unat (y :: u8)"
    and p': "p' = p + 2"
    by (auto simp: readInt_def read_byte_def bind_eq_Some_conv split: if_splits)
  moreover have "256 * unat x + unat y < 65536" using unat_u8_less [of x] unat_u8_less [of y] by linarith
  ultimately show ?thesis by simp
qed

definition string_bytes :: "u8 list \<Rightarrow> u8 list" where
  "string_bytes s = u16_bytes (length s) @ s"

lemma length_string_bytes [simp]: "length (string_bytes s) = length s + 2"
  by (simp add: string_bytes_def)

lemma writeCString_eq [wire_simps]: "writeCString s bp = write_bytes (string_bytes s) bp"
  by (simp add: writeCString_def writeInt_eq write_bytes_append string_bytes_def)

text \<open>
  The bytes an \<open>MQTTString\<close> denotes. A string is well formed when its length field does not exceed
  the bytes behind its pointer; the sources never fill both representations.
\<close>

definition mqtt_bytes :: "MQTTString \<Rightarrow> u8 list" where
  "mqtt_bytes s = (case cstring s of Some str \<Rightarrow> str
     | None \<Rightarrow> (case ls_data (lenstring s) of Some d \<Rightarrow> take (nat (ls_len (lenstring s))) d | None \<Rightarrow> []))"

definition mqtt_string_ok :: "MQTTString \<Rightarrow> bool" where
  "mqtt_string_ok s = (case cstring s of
     Some str \<Rightarrow> ls_len (lenstring s) = 0
   | None \<Rightarrow> 0 \<le> ls_len (lenstring s) \<and>
       (case ls_data (lenstring s) of Some d \<Rightarrow> ls_len (lenstring s) \<le> int (length d)
        | None \<Rightarrow> ls_len (lenstring s) = 0))"

lemma MQTTstrlen_eq: "mqtt_string_ok s \<Longrightarrow> MQTTstrlen s = int (length (mqtt_bytes s))"
  by (auto simp: mqtt_string_ok_def MQTTstrlen_def mqtt_bytes_def split: option.splits)

lemma writeMQTTString_eq [wire_simps]:
  assumes "mqtt_string_ok s"
  shows "writeMQTTString s bp = write_bytes (string_bytes (mqtt_bytes s)) bp"
proof (cases "ls_len (lenstring s) > 0")
  case True
  then obtain d where d: "ls_data (lenstring s) = Some d" "cstring s = None"
    "nat (ls_len (lenstring s)) \<le> length d"
    using assms by (auto simp: mqtt_string_ok_def split: option.splits)
  moreover have "writeInt (ls_len (lenstring s)) bp = write_bytes (u16_bytes (nat (ls_len (lenstring s)))) bp"
    using writeInt_eq [of "nat (ls_len (lenstring s))" bp] True by simp
  ultimately show ?thesis
    using True by (simp add: writeMQTTString_def bytes_at_def mqtt_bytes_def write_bytes_append
        string_bytes_def)
next
  case False
  then show ?thesis
    using assms writeInt_eq [of 0 bp]
    by (auto simp: writeMQTTString_def mqtt_bytes_def mqtt_string_ok_def writeCString_eq
        string_bytes_def split: option.splits)
qed

lemma readMQTTLenString_enc [wire_simps]:
  assumes "length str < 65536" and "p = length pre" and "p + length str + 2 \<le> enddata"
  shows "readMQTTLenString s (pre @ string_bytes str @ post) p enddata =
    Some (True, \<lparr>cstring = None, lenstring = \<lparr>ls_len = int (length str), ls_data = Some (str @ post)\<rparr>\<rparr>,
          p + 2 + length str)"
  using assms readInt_enc [of "length str" p pre "str @ post"]
  by (simp add: readMQTTLenString_def string_bytes_def)

lemma readMQTTLenString_progress:
  "readMQTTLenString s b p enddata = Some (True, s', p') \<Longrightarrow> p + 2 \<le> p' \<and> p' \<le> enddata"
  by (auto simp: readMQTTLenString_def bind_eq_Some_conv split: if_splits dest: readInt_le)

text \<open>The string a successful read returns is well formed and ends before \<open>enddata\<close>.\<close>

lemma readMQTTLenString_ok:
  assumes "readMQTTLenString s b p enddata = Some (True, s', p')" and "enddata \<le> length b"
  shows "mqtt_string_ok s' \<and> mqtt_bytes s' = take (p' - (p + 2)) (drop (p + 2) b)
    \<and> p + 2 \<le> p' \<and> p' \<le> enddata \<and> length (mqtt_bytes s') < 65536"
proof -
  from assms(1) obtain n q where r: "readInt b p = Some (n, q)" "q + n \<le> enddata"
    "s' = \<lparr>cstring = None, lenstring = \<lparr>ls_len = int n, ls_data = Some (drop q b)\<rparr>\<rparr>" "p' = q + n"
    by (auto simp: readMQTTLenString_def bind_eq_Some_conv split: if_splits)
  then show ?thesis using assms(2) readInt_le [OF r(1)]
    by (auto simp: mqtt_string_ok_def mqtt_bytes_def)
qed

section \<open>The fields as codecs\<close>

definition read_rem_len :: "u8 list \<Rightarrow> nat \<Rightarrow> (nat \<times> nat) option" where
  "read_rem_len b p = do { (n, v) \<leftarrow> MQTTPacket_decodeBuf b p; Some (v, p + n) }"

definition read_string :: "u8 list \<Rightarrow> nat \<Rightarrow> (u8 list \<times> nat) option" where
  "read_string b p = do {
     (r, s, p') \<leftarrow> readMQTTLenString MQTTString_initializer b p (length b);
     if r then Some (mqtt_bytes s, p') else None }"

interpretation char_codec: wire_codec "\<lambda>c. [c]" writeChar readChar "\<lambda>_. True"
  by unfold_locales (simp_all add: writeChar_eq readChar_def read_byte_append)

interpretation int_codec: wire_codec u16_bytes "\<lambda>n. writeInt (int n)" readInt "\<lambda>n. n < 65536"
  by unfold_locales (simp_all add: writeInt_eq readInt_enc)

interpretation rem_len_codec:
  wire_codec rem_len_bytes "\<lambda>n. write_rem_len (int n)" read_rem_len "\<lambda>n. n < 268435456"
  by unfold_locales (simp_all add: write_rem_len_eq read_rem_len_def MQTTPacket_decodeBuf_enc)

interpretation string_codec:
  wire_codec string_bytes writeCString read_string "\<lambda>s. length s < 65536"
  by unfold_locales
     (simp_all add: writeCString_eq read_string_def readMQTTLenString_enc mqtt_bytes_def)

section \<open>Packet sizes\<close>

text \<open>
  A whole packet on the wire: header byte, remaining length, body. \<open>MQTTPacket_len\<close> is what the
  serializers check against the buffer and what the client allocates; it adds the header byte
  before it compares, so at four sizes of the body it is one byte more than the packet has.
\<close>

definition packet_bytes :: "u8 \<Rightarrow> u8 list \<Rightarrow> u8 list" where
  "packet_bytes h body = h # rem_len_bytes (length body) @ body"

lemma length_packet_bytes:
  "length (packet_bytes h body) = 1 + length (rem_len_bytes (length body)) + length body"
  by (simp add: packet_bytes_def)

lemma MQTTPacket_len_exact:
  assumes "length body < 268435456"
  shows "MQTTPacket_len (int (length body)) = int (length (packet_bytes h body))
    + (if length body \<in> {127, 16383, 2097150, 2097151} then 1 else 0)"
  using assms by (auto simp: MQTTPacket_len_def length_packet_bytes length_rem_len_bytes)

lemma MQTTPacket_len_upper:
  "length body < 268435456 \<Longrightarrow> int (length (packet_bytes h body)) \<le> MQTTPacket_len (int (length body))"
  by (simp add: MQTTPacket_len_exact [of body h])

end
