(* ===== verification/Mqtt_Messages.thy ===== *)
theory Mqtt_Messages
  imports Mqtt_Packet
begin

text \<open>
  The messages of \<^verbatim>\<open>src/mqtt/packet\<close>: CONNECT, CONNACK, PUBLISH, the acknowledgements, SUBSCRIBE,
  SUBACK, UNSUBSCRIBE, UNSUBACK and the packets without a body. A serializer takes the buffer
  (its length is the capacity the memory really has) and the \<open>buflen\<close> the caller claims, and
  returns the return code with the buffer; \<^const>\<open>None\<close> means it wrote outside the buffer. A
  deserializer takes the buffer and the old contents of its result parameters, because the
  sources leave them untouched on the early exits.
\<close>

section \<open>CONNECT and CONNACK\<close>

record MQTTPacket_willOptions =
  will_topicName :: MQTTString
  will_message :: MQTTString
  will_retained :: u8
  will_qos :: u8

record MQTTPacket_connectData =
  MQTTVersion :: u8
  clientID :: MQTTString
  keepAliveInterval :: u16
  cleansession :: u8
  willFlag :: u8
  will :: MQTTPacket_willOptions
  username :: MQTTString
  password :: MQTTString

text \<open>\<open>MQTTPacket_connectData_initializer\<close>: version 4, sixty seconds, clean session, no will.\<close>

definition MQTTPacket_connectData_initializer :: MQTTPacket_connectData where
  "MQTTPacket_connectData_initializer =
     \<lparr>MQTTVersion = 4, clientID = MQTTString_initializer, keepAliveInterval = 60, cleansession = 1,
      willFlag = 0,
      will = \<lparr>will_topicName = MQTTString_initializer, will_message = MQTTString_initializer,
              will_retained = 0, will_qos = 0\<rparr>,
      username = MQTTString_initializer, password = MQTTString_initializer\<rparr>"

text \<open>
  The union \<open>MQTTConnectFlags\<close>: from bit 1 upwards \<open>cleansession\<close>, \<open>will\<close>, two bits \<open>willQoS\<close>,
  \<open>willRetain\<close>, \<open>password\<close> and \<open>username\<close>.
\<close>

definition MQTTConnectFlags_all :: "int \<Rightarrow> int \<Rightarrow> int \<Rightarrow> int \<Rightarrow> int \<Rightarrow> int \<Rightarrow> u8" where
  "MQTTConnectFlags_all cs w wqos wretain pw un =
     word_of_int ((cs mod 2) * 2 + (w mod 2) * 4 + (wqos mod 4) * 8 + (wretain mod 2) * 32
                  + (pw mod 2) * 64 + (un mod 2) * 128)"

definition flags_cleansession :: "u8 \<Rightarrow> int" where "flags_cleansession b = uint b div 2 mod 2"
definition flags_will :: "u8 \<Rightarrow> int" where "flags_will b = uint b div 4 mod 2"
definition flags_willQoS :: "u8 \<Rightarrow> int" where "flags_willQoS b = uint b div 8 mod 4"
definition flags_willRetain :: "u8 \<Rightarrow> int" where "flags_willRetain b = uint b div 32 mod 2"
definition flags_password :: "u8 \<Rightarrow> int" where "flags_password b = uint b div 64 mod 2"
definition flags_username :: "u8 \<Rightarrow> int" where "flags_username b = uint b div 128"

text \<open>\<open>s.cstring || s.lenstring.data\<close>, the test for a string that is present.\<close>

definition string_present :: "MQTTString \<Rightarrow> bool" where
  "string_present s \<longleftrightarrow> cstring s \<noteq> None \<or> ls_data (lenstring s) \<noteq> None"

definition MQTTSerialize_connectLength :: "MQTTPacket_connectData \<Rightarrow> int" where
  "MQTTSerialize_connectLength options =
     (if MQTTVersion options = 3 then 12 else if MQTTVersion options = 4 then 10 else 0)
     + (MQTTstrlen (clientID options) + 2)
     + (if willFlag options \<noteq> 0
        then MQTTstrlen (will_topicName (will options)) + 2
             + MQTTstrlen (will_message (will options)) + 2 else 0)
     + (if string_present (username options) then MQTTstrlen (username options) + 2 else 0)
     + (if string_present (password options) then MQTTstrlen (password options) + 2 else 0)"

definition str_MQTT :: "u8 list" where "str_MQTT = [0x4d, 0x51, 0x54, 0x54]"
definition str_MQIsdp :: "u8 list" where "str_MQIsdp = [0x4d, 0x51, 0x49, 0x73, 0x64, 0x70]"

definition connect_flags :: "MQTTPacket_connectData \<Rightarrow> u8" where
  "connect_flags options =
     (let wl = (if willFlag options \<noteq> 0 then 1 else 0)
      in MQTTConnectFlags_all (uint (cleansession options)) wl
           (if wl \<noteq> 0 then uint (will_qos (will options)) else 0)
           (if wl \<noteq> 0 then uint (will_retained (will options)) else 0)
           (if string_present (password options) then 1 else 0)
           (if string_present (username options) then 1 else 0))"

definition MQTTSerialize_connect ::
  "u8 list \<Rightarrow> int \<Rightarrow> MQTTPacket_connectData \<Rightarrow> (int \<times> u8 list) option" where
  "MQTTSerialize_connect buf buflen options =
     (let len = MQTTSerialize_connectLength options
      in if MQTTPacket_len len > buflen then Some (MQTTPACKET_BUFFER_TOO_SHORT, buf)
         else do {
           p \<leftarrow> writeChar (MQTTHeader_byte (msg_code CONNECT) 0 0 0) (buf, 0);
           p \<leftarrow> write_rem_len len p;
           p \<leftarrow> (if MQTTVersion options = 4 then writeCString str_MQTT p \<bind> writeChar 4
                else writeCString str_MQIsdp p \<bind> writeChar 3);
           p \<leftarrow> writeChar (connect_flags options) p;
           p \<leftarrow> writeInt (uint (keepAliveInterval options)) p;
           p \<leftarrow> writeMQTTString (clientID options) p;
           p \<leftarrow> (if willFlag options \<noteq> 0
                then writeMQTTString (will_topicName (will options)) p
                       \<bind> writeMQTTString (will_message (will options)) else Some p);
           p \<leftarrow> (if string_present (username options) then writeMQTTString (username options) p
                else Some p);
           (b, n) \<leftarrow> (if string_present (password options) then writeMQTTString (password options) p
                else Some p);
           Some (int n, b) })"

definition MQTTSerialize_connect_size :: "MQTTPacket_connectData \<Rightarrow> int" where
  "MQTTSerialize_connect_size options = MQTTPacket_len (MQTTSerialize_connectLength options)"

text \<open>
  \<open>MQTTDeserialize_connack(sessionPresent, connack_rc, buf)\<close>: the result is the return code and
  the two result parameters. The exit for a body that is too short returns the value the length
  decoding left in \<open>rc\<close>.
\<close>

definition MQTTDeserialize_connack :: "u8 list \<Rightarrow> u8 \<times> u8 \<Rightarrow> (int \<times> u8 \<times> u8) option" where
  "MQTTDeserialize_connack buf old = do {
     (h, p) \<leftarrow> readChar buf 0;
     if header_type h \<noteq> msg_code CONNACK then Some (0, old)
     else do {
       (n, mylen) \<leftarrow> MQTTPacket_decodeBuf buf p;
       let p = p + n;
       if mylen < 2 then Some (int n, old)
       else do {
         (flags, p) \<leftarrow> readChar buf p;
         (ack, p) \<leftarrow> readChar buf p;
         Some (1, word_of_int (uint flags mod 2), ack) } } }"

definition MQTTSerialize_zero :: "u8 list \<Rightarrow> int \<Rightarrow> int \<Rightarrow> (int \<times> u8 list) option" where
  "MQTTSerialize_zero buf buflen packettype =
     (if buflen < 2 then Some (MQTTPACKET_BUFFER_TOO_SHORT, buf)
      else do {
        p \<leftarrow> writeChar (MQTTHeader_byte packettype 0 0 0) (buf, 0);
        (b, n) \<leftarrow> write_rem_len 0 p;
        Some (int n, b) })"

definition MQTTSerialize_disconnect :: "u8 list \<Rightarrow> int \<Rightarrow> (int \<times> u8 list) option" where
  "MQTTSerialize_disconnect buf buflen = MQTTSerialize_zero buf buflen (msg_code DISCONNECT)"

definition MQTTSerialize_pingreq :: "u8 list \<Rightarrow> int \<Rightarrow> (int \<times> u8 list) option" where
  "MQTTSerialize_pingreq buf buflen = MQTTSerialize_zero buf buflen (msg_code PINGREQ)"

text \<open>\<open>memcmp(data, name, min(k, len)) == 0\<close> of \<open>MQTTPacket_checkVersion\<close>.\<close>

definition memcmp_name :: "MQTTString \<Rightarrow> u8 list \<Rightarrow> bool option" where
  "memcmp_name protocol name =
     (let k = int (length name); l = ls_len (lenstring protocol);
          n = (if k < l then k else l)
      in if n < 0 then None
         else do { d \<leftarrow> bytes_at (ls_data (lenstring protocol)) (nat n);
                   Some (d = take (nat n) name) })"

definition MQTTPacket_checkVersion :: "MQTTString \<Rightarrow> int \<Rightarrow> bool option" where
  "MQTTPacket_checkVersion protocol version =
     (if version = 3 then memcmp_name protocol str_MQIsdp
      else if version = 4 then memcmp_name protocol str_MQTT
      else Some False)"

text \<open>
  \<open>MQTTDeserialize_connect\<close>. The optional parts are read in the order of the source; \<open>rc\<close> is 1
  only at the end of the whole chain. \<open>char_signed\<close> is the conversion of the version byte.
\<close>

definition deserialize_connect_auth ::
  "u8 \<Rightarrow> MQTTPacket_connectData \<Rightarrow> u8 list \<Rightarrow> nat \<Rightarrow> nat \<Rightarrow> (int \<times> MQTTPacket_connectData) option" where
  "deserialize_connect_auth flags data buf p enddata =
     (if flags_username flags \<noteq> 0
      then (if int enddata - int p < 3 then Some (0, data)
            else do {
              (r, s, p) \<leftarrow> readMQTTLenString (username data) buf p enddata;
              let data = data\<lparr>username := s\<rparr>;
              if \<not> r then Some (0, data)
              else if flags_password flags \<noteq> 0
              then (if int enddata - int p < 3 then Some (0, data)
                    else do {
                      (r, s, p) \<leftarrow> readMQTTLenString (password data) buf p enddata;
                      let data = data\<lparr>password := s\<rparr>;
                      Some (if r then 1 else 0, data) })
              else Some (1, data) })
      else if flags_password flags \<noteq> 0 then Some (0, data)
      else Some (1, data))"

definition deserialize_connect_will ::
  "u8 \<Rightarrow> MQTTPacket_connectData \<Rightarrow> u8 list \<Rightarrow> nat \<Rightarrow> nat \<Rightarrow> (int \<times> MQTTPacket_connectData) option" where
  "deserialize_connect_will flags data buf p enddata =
     (if flags_will flags \<noteq> 0
      then do {
        let w = (will data)\<lparr>will_qos := word_of_int (flags_willQoS flags),
                            will_retained := word_of_int (flags_willRetain flags)\<rparr>;
        (r, s, p) \<leftarrow> readMQTTLenString (will_topicName w) buf p enddata;
        let w = w\<lparr>will_topicName := s\<rparr>;
        if \<not> r then Some (0, data\<lparr>will := w\<rparr>)
        else do {
          (r, s, p) \<leftarrow> readMQTTLenString (will_message w) buf p enddata;
          let w = w\<lparr>will_message := s\<rparr>;
          if \<not> r then Some (0, data\<lparr>will := w\<rparr>)
          else deserialize_connect_auth flags (data\<lparr>will := w\<rparr>) buf p enddata } }
      else deserialize_connect_auth flags data buf p enddata)"

definition MQTTDeserialize_connect ::
  "bool \<Rightarrow> MQTTPacket_connectData \<Rightarrow> u8 list \<Rightarrow> nat \<Rightarrow> (int \<times> MQTTPacket_connectData) option" where
  "MQTTDeserialize_connect char_signed data buf len = do {
     let enddata = len;
     (h, p) \<leftarrow> readChar buf 0;
     if header_type h \<noteq> msg_code CONNECT then Some (0, data)
     else do {
       (n, _) \<leftarrow> MQTTPacket_decodeBuf buf p;
       (r, protocol, p) \<leftarrow> readMQTTLenString MQTTString_initializer buf (p + n) enddata;
       if \<not> r \<or> int enddata - int p < 0 then Some (0, data)
       else do {
         (v, p) \<leftarrow> readChar buf p;
         known \<leftarrow> MQTTPacket_checkVersion protocol (char_to_int char_signed v);
         if \<not> known then Some (0, data)
         else do {
           (flags, p) \<leftarrow> readChar buf p;
           (ka, p) \<leftarrow> readInt buf p;
           (r, s, p) \<leftarrow> readMQTTLenString (clientID data) buf p enddata;
           let data = data\<lparr>cleansession := word_of_int (flags_cleansession flags),
                           keepAliveInterval := of_nat ka, clientID := s\<rparr>;
           if \<not> r then Some (0, data)
           else deserialize_connect_will flags
                  (data\<lparr>willFlag := word_of_int (flags_will flags)\<rparr>) buf p enddata } } } }"

definition MQTTSerialize_connack :: "u8 list \<Rightarrow> int \<Rightarrow> u8 \<Rightarrow> u8 \<Rightarrow> (int \<times> u8 list) option" where
  "MQTTSerialize_connack buf buflen connack_rc sessionPresent =
     (if buflen < 2 then Some (MQTTPACKET_BUFFER_TOO_SHORT, buf)
      else do {
        p \<leftarrow> writeChar (MQTTHeader_byte (msg_code CONNACK) 0 0 0) (buf, 0);
        p \<leftarrow> write_rem_len 2 p;
        p \<leftarrow> writeChar (word_of_int (uint sessionPresent mod 2)) p;
        (b, n) \<leftarrow> writeChar connack_rc p;
        Some (int n, b) })"

section \<open>PUBLISH and the acknowledgements\<close>

definition MQTTSerialize_publishLength :: "int \<Rightarrow> MQTTString \<Rightarrow> int \<Rightarrow> int" where
  "MQTTSerialize_publishLength qos topicName payloadlen =
     2 + MQTTstrlen topicName + payloadlen + (if qos > 0 then 2 else 0)"

text \<open>The part \<open>MQTTSerialize_publish\<close> and \<open>MQTTSerialize_publish_header\<close> have in common.\<close>

definition write_publish_header ::
  "wbuf \<Rightarrow> u8 \<Rightarrow> int \<Rightarrow> u8 \<Rightarrow> u16 \<Rightarrow> MQTTString \<Rightarrow> int \<Rightarrow> wbuf option" where
  "write_publish_header p dup qos retained packetid topicName rem_len = do {
     p \<leftarrow> writeChar (MQTTHeader_byte (msg_code PUBLISH) (uint dup) qos (uint retained)) p;
     p \<leftarrow> write_rem_len rem_len p;
     p \<leftarrow> writeMQTTString topicName p;
     if qos > 0 then writeInt (uint packetid) p else Some p }"

definition MQTTSerialize_publish ::
  "u8 list \<Rightarrow> int \<Rightarrow> u8 \<Rightarrow> int \<Rightarrow> u8 \<Rightarrow> u16 \<Rightarrow> MQTTString \<Rightarrow> u8 list option \<Rightarrow> int
     \<Rightarrow> (int \<times> u8 list) option" where
  "MQTTSerialize_publish buf buflen dup qos retained packetid topicName payload payloadlen =
     (let rem_len = MQTTSerialize_publishLength qos topicName payloadlen
      in if MQTTPacket_len rem_len > buflen then Some (MQTTPACKET_BUFFER_TOO_SHORT, buf)
         else do {
           p \<leftarrow> write_publish_header (buf, 0) dup qos retained packetid topicName rem_len;
           d \<leftarrow> (if payloadlen < 0 then None else bytes_at payload (nat payloadlen));
           (b, n) \<leftarrow> write_bytes d p;
           Some (int n, b) })"

definition MQTTSerialize_publish_size :: "int \<Rightarrow> MQTTString \<Rightarrow> int \<Rightarrow> int" where
  "MQTTSerialize_publish_size qos topicName payloadlen =
     MQTTPacket_len (MQTTSerialize_publishLength qos topicName payloadlen)"

definition MQTTSerialize_publish_header ::
  "u8 list \<Rightarrow> u8 \<Rightarrow> int \<Rightarrow> u8 \<Rightarrow> u16 \<Rightarrow> MQTTString \<Rightarrow> int \<Rightarrow> (int \<times> u8 list) option" where
  "MQTTSerialize_publish_header buf dup qos retained packetid topicName payloadlen = do {
     (b, n) \<leftarrow> write_publish_header (buf, 0) dup qos retained packetid topicName
                (MQTTSerialize_publishLength qos topicName payloadlen);
     Some (int n, b) }"

definition MQTTSerialize_ack ::
  "u8 list \<Rightarrow> int \<Rightarrow> int \<Rightarrow> u8 \<Rightarrow> u16 \<Rightarrow> (int \<times> u8 list) option" where
  "MQTTSerialize_ack buf buflen packettype dup packetid =
     (if buflen < 4 then Some (MQTTPACKET_BUFFER_TOO_SHORT, buf)
      else do {
        p \<leftarrow> writeChar (MQTTHeader_byte packettype (uint dup)
               (if packettype = msg_code PUBREL then 1 else 0) 0) (buf, 0);
        p \<leftarrow> write_rem_len 2 p;
        (b, n) \<leftarrow> writeInt (uint packetid) p;
        Some (int n, b) })"

definition MQTTSerialize_puback :: "u8 list \<Rightarrow> int \<Rightarrow> u16 \<Rightarrow> (int \<times> u8 list) option" where
  "MQTTSerialize_puback buf buflen packetid = MQTTSerialize_ack buf buflen (msg_code PUBACK) 0 packetid"

definition MQTTSerialize_pubrel :: "u8 list \<Rightarrow> int \<Rightarrow> u8 \<Rightarrow> u16 \<Rightarrow> (int \<times> u8 list) option" where
  "MQTTSerialize_pubrel buf buflen dup packetid =
     MQTTSerialize_ack buf buflen (msg_code PUBREL) dup packetid"

definition MQTTSerialize_pubcomp :: "u8 list \<Rightarrow> int \<Rightarrow> u16 \<Rightarrow> (int \<times> u8 list) option" where
  "MQTTSerialize_pubcomp buf buflen packetid =
     MQTTSerialize_ack buf buflen (msg_code PUBCOMP) 0 packetid"

text \<open>
  The result parameters of \<open>MQTTDeserialize_publish\<close>. The payload pointer denotes the bytes of the
  buffer from its position on.
\<close>

record publish_data =
  pub_dup :: u8
  pub_qos :: int
  pub_retained :: u8
  pub_packetid :: u16
  pub_topicName :: MQTTString
  pub_payload :: "u8 list"
  pub_payloadlen :: int

definition MQTTDeserialize_publish :: "publish_data \<Rightarrow> u8 list \<Rightarrow> (int \<times> publish_data) option" where
  "MQTTDeserialize_publish out buf = do {
     (h, p) \<leftarrow> readChar buf 0;
     if header_type h \<noteq> msg_code PUBLISH then Some (0, out)
     else do {
       let out = out\<lparr>pub_dup := word_of_int (header_dup h), pub_qos := header_qos h,
                     pub_retained := word_of_int (header_retain h)\<rparr>;
       (n, mylen) \<leftarrow> MQTTPacket_decodeBuf buf p;
       let p = p + n;
       let enddata = p + mylen;
       (r, s, p) \<leftarrow> readMQTTLenString (pub_topicName out) buf p enddata;
       let out = out\<lparr>pub_topicName := s\<rparr>;
       if \<not> r \<or> int enddata - int p < 0 then Some (int n, out)
       else do {
         (out, p) \<leftarrow> (if pub_qos out > 0
                      then do { (pid, p) \<leftarrow> readInt buf p; Some (out\<lparr>pub_packetid := of_nat pid\<rparr>, p) }
                      else Some (out, p));
         Some (1, out\<lparr>pub_payloadlen := int enddata - int p, pub_payload := drop p buf\<rparr>) } } }"

text \<open>\<open>MQTTDeserialize_ack\<close>: return code, packet type, \<open>dup\<close> and packet identifier.\<close>

definition MQTTDeserialize_ack :: "u16 \<Rightarrow> u8 list \<Rightarrow> (int \<times> int \<times> u8 \<times> u16) option" where
  "MQTTDeserialize_ack old_id buf = do {
     (h, p) \<leftarrow> readChar buf 0;
     (n, mylen) \<leftarrow> MQTTPacket_decodeBuf buf p;
     if mylen < 2 then Some (int n, header_type h, word_of_int (header_dup h), old_id)
     else do {
       (pid, _) \<leftarrow> readInt buf (p + n);
       Some (1, header_type h, word_of_int (header_dup h), of_nat pid) } }"

section \<open>SUBSCRIBE and SUBACK\<close>

text \<open>The \<open>for\<close> loop over the first \<open>count\<close> topic filters; the arrays are the lists given.\<close>

definition MQTTSerialize_subscribeLength :: "MQTTString list \<Rightarrow> int" where
  "MQTTSerialize_subscribeLength topicFilters =
     foldl (\<lambda>len t. len + (2 + MQTTstrlen t + 1)) 2 topicFilters"

definition write_subscription :: "MQTTString \<times> int \<Rightarrow> wbuf \<Rightarrow> wbuf option" where
  "write_subscription tq p = writeMQTTString (fst tq) p \<bind> writeChar (word_of_int (snd tq))"

definition MQTTSerialize_subscribe ::
  "u8 list \<Rightarrow> int \<Rightarrow> u8 \<Rightarrow> u16 \<Rightarrow> MQTTString list \<Rightarrow> int list \<Rightarrow> (int \<times> u8 list) option" where
  "MQTTSerialize_subscribe buf buflen dup packetid topicFilters requestedQoSs =
     (let rem_len = MQTTSerialize_subscribeLength topicFilters
      in if MQTTPacket_len rem_len > buflen then Some (MQTTPACKET_BUFFER_TOO_SHORT, buf)
         else do {
           p \<leftarrow> writeChar (MQTTHeader_byte (msg_code SUBSCRIBE) (uint dup) 1 0) (buf, 0);
           p \<leftarrow> write_rem_len rem_len p;
           p \<leftarrow> writeInt (uint packetid) p;
           (b, n) \<leftarrow> (if length topicFilters \<le> length requestedQoSs
                     then write_all write_subscription (zip topicFilters requestedQoSs) p else None);
           Some (int n, b) })"

definition MQTTSerialize_subscribe_size :: "MQTTString list \<Rightarrow> int" where
  "MQTTSerialize_subscribe_size topicFilters =
     MQTTPacket_len (MQTTSerialize_subscribeLength topicFilters)"

text \<open>
  The \<open>while\<close> loop of \<open>MQTTDeserialize_suback\<close>. \<open>cap\<close> is the number of elements the result array
  really has; storing past it is undefined.
\<close>

function suback_loop ::
  "bool \<Rightarrow> nat \<Rightarrow> int \<Rightarrow> u8 list \<Rightarrow> nat \<Rightarrow> nat \<Rightarrow> int list \<Rightarrow> (bool \<times> int list) option" where
  "suback_loop char_signed cap maxcount buf p enddata acc =
     (if p < enddata
      then if int (length acc) \<ge> maxcount then Some (False, acc)
           else do {
             (c, _) \<leftarrow> readChar buf p;
             if length acc < cap
             then suback_loop char_signed cap maxcount buf (Suc p) enddata
                    (acc @ [char_to_int char_signed c])
             else None }
      else Some (True, acc))"
  by pat_completeness auto
termination
  by (relation "measure (\<lambda>(sg, cap, m, buf, p, enddata, acc). enddata - p)") auto

declare suback_loop.simps [simp del]

definition MQTTDeserialize_suback ::
  "bool \<Rightarrow> nat \<Rightarrow> int \<Rightarrow> u16 \<times> int list \<Rightarrow> u8 list \<Rightarrow> (int \<times> u16 \<times> int list) option" where
  "MQTTDeserialize_suback char_signed cap maxcount old buf = do {
     (h, p) \<leftarrow> readChar buf 0;
     if header_type h \<noteq> msg_code SUBACK then Some (0, old)
     else do {
       (n, mylen) \<leftarrow> MQTTPacket_decodeBuf buf p;
       let p = p + n;
       if mylen < 2 then Some (int n, old)
       else do {
         (pid, p') \<leftarrow> readInt buf p;
         (r, qs) \<leftarrow> suback_loop char_signed cap maxcount buf p' (p + mylen) [];
         Some (if r then 1 else -1, of_nat pid, qs) } } }"

function subscribe_loop ::
  "bool \<Rightarrow> nat \<Rightarrow> u8 list \<Rightarrow> nat \<Rightarrow> nat \<Rightarrow> (MQTTString \<times> int) list
     \<Rightarrow> (bool \<times> (MQTTString \<times> int) list) option" where
  "subscribe_loop char_signed cap buf p enddata acc =
     (if p < enddata
      then if length acc < cap
           then do {
             (r, s, p') \<leftarrow> readMQTTLenString MQTTString_initializer buf p enddata;
             if \<not> r \<or> p' \<ge> enddata then Some (False, acc)
             else do {
               (c, _) \<leftarrow> readChar buf p';
               subscribe_loop char_signed cap buf (Suc p') enddata
                 (acc @ [(s, char_to_int char_signed c)]) } }
           else None
      else Some (True, acc))"
  by pat_completeness auto
termination
  by (relation "measure (\<lambda>(sg, cap, buf, p, enddata, acc). enddata - p)")
     (auto dest: readMQTTLenString_progress)

declare subscribe_loop.simps [simp del]

definition MQTTDeserialize_subscribe ::
  "bool \<Rightarrow> nat \<Rightarrow> u8 \<times> u16 \<times> (MQTTString \<times> int) list \<Rightarrow> u8 list
     \<Rightarrow> (int \<times> u8 \<times> u16 \<times> (MQTTString \<times> int) list) option" where
  "MQTTDeserialize_subscribe char_signed cap old buf = do {
     (h, p) \<leftarrow> readChar buf 0;
     if header_type h \<noteq> msg_code SUBSCRIBE then Some (-1, old)
     else do {
       (n, mylen) \<leftarrow> MQTTPacket_decodeBuf buf p;
       let p = p + n;
       (pid, p') \<leftarrow> readInt buf p;
       (r, subs) \<leftarrow> subscribe_loop char_signed cap buf p' (p + mylen) [];
       Some (if r then 1 else int n, word_of_int (header_dup h), of_nat pid, subs) } }"

definition MQTTSerialize_suback ::
  "u8 list \<Rightarrow> int \<Rightarrow> u16 \<Rightarrow> int list \<Rightarrow> (int \<times> u8 list) option" where
  "MQTTSerialize_suback buf buflen packetid grantedQoSs =
     (let count = int (length grantedQoSs)
      in if buflen < 2 + count then Some (MQTTPACKET_BUFFER_TOO_SHORT, buf)
         else do {
           p \<leftarrow> writeChar (MQTTHeader_byte (msg_code SUBACK) 0 0 0) (buf, 0);
           p \<leftarrow> write_rem_len (2 + count) p;
           p \<leftarrow> writeInt (uint packetid) p;
           (b, n) \<leftarrow> write_all (\<lambda>q. writeChar (word_of_int q)) grantedQoSs p;
           Some (int n, b) })"

section \<open>UNSUBSCRIBE and UNSUBACK\<close>

definition MQTTSerialize_unsubscribeLength :: "MQTTString list \<Rightarrow> int" where
  "MQTTSerialize_unsubscribeLength topicFilters =
     foldl (\<lambda>len t. len + (2 + MQTTstrlen t)) 2 topicFilters"

definition MQTTSerialize_unsubscribe ::
  "u8 list \<Rightarrow> int \<Rightarrow> u8 \<Rightarrow> u16 \<Rightarrow> MQTTString list \<Rightarrow> (int \<times> u8 list) option" where
  "MQTTSerialize_unsubscribe buf buflen dup packetid topicFilters =
     (let rem_len = MQTTSerialize_unsubscribeLength topicFilters
      in if MQTTPacket_len rem_len > buflen then Some (MQTTPACKET_BUFFER_TOO_SHORT, buf)
         else do {
           p \<leftarrow> writeChar (MQTTHeader_byte (msg_code UNSUBSCRIBE) (uint dup) 1 0) (buf, 0);
           p \<leftarrow> write_rem_len rem_len p;
           p \<leftarrow> writeInt (uint packetid) p;
           (b, n) \<leftarrow> write_all writeMQTTString topicFilters p;
           Some (int n, b) })"

definition MQTTSerialize_unsubscribe_size :: "MQTTString list \<Rightarrow> int" where
  "MQTTSerialize_unsubscribe_size topicFilters =
     MQTTPacket_len (MQTTSerialize_unsubscribeLength topicFilters)"

definition MQTTDeserialize_unsuback :: "u16 \<Rightarrow> u8 list \<Rightarrow> (int \<times> u16) option" where
  "MQTTDeserialize_unsuback old_id buf = do {
     (rc, type, dup, pid) \<leftarrow> MQTTDeserialize_ack old_id buf;
     Some (if type = msg_code UNSUBACK then 1 else rc, pid) }"

function unsubscribe_loop ::
  "nat \<Rightarrow> u8 list \<Rightarrow> nat \<Rightarrow> nat \<Rightarrow> MQTTString list \<Rightarrow> (bool \<times> MQTTString list) option" where
  "unsubscribe_loop cap buf p enddata acc =
     (if p < enddata
      then if length acc < cap
           then do {
             (r, s, p') \<leftarrow> readMQTTLenString MQTTString_initializer buf p enddata;
             if \<not> r then Some (False, acc)
             else unsubscribe_loop cap buf p' enddata (acc @ [s]) }
           else None
      else Some (True, acc))"
  by pat_completeness auto
termination
  by (relation "measure (\<lambda>(cap, buf, p, enddata, acc). enddata - p)")
     (auto dest: readMQTTLenString_progress)

declare unsubscribe_loop.simps [simp del]

definition MQTTDeserialize_unsubscribe ::
  "nat \<Rightarrow> u8 \<times> u16 \<times> MQTTString list \<Rightarrow> u8 list \<Rightarrow> (int \<times> u8 \<times> u16 \<times> MQTTString list) option" where
  "MQTTDeserialize_unsubscribe cap old buf = do {
     (h, p) \<leftarrow> readChar buf 0;
     if header_type h \<noteq> msg_code UNSUBSCRIBE then Some (0, old)
     else do {
       (n, mylen) \<leftarrow> MQTTPacket_decodeBuf buf p;
       let p = p + n;
       (pid, p') \<leftarrow> readInt buf p;
       (r, topics) \<leftarrow> unsubscribe_loop cap buf p' (p + mylen) [];
       Some (if r then 1 else int n, word_of_int (header_dup h), of_nat pid, topics) } }"

definition MQTTSerialize_unsuback :: "u8 list \<Rightarrow> int \<Rightarrow> u16 \<Rightarrow> (int \<times> u8 list) option" where
  "MQTTSerialize_unsuback buf buflen packetid =
     (if buflen < 2 then Some (MQTTPACKET_BUFFER_TOO_SHORT, buf)
      else do {
        p \<leftarrow> writeChar (MQTTHeader_byte (msg_code UNSUBACK) 0 0 0) (buf, 0);
        p \<leftarrow> write_rem_len 2 p;
        (b, n) \<leftarrow> writeInt (uint packetid) p;
        Some (int n, b) })"

section \<open>The contract of a serializer\<close>

text \<open>
  What the client relies on when it serializes a packet into a chunk: the size function bounds
  the packet, a claimed length below it is refused without touching the buffer, and otherwise the
  packet's bytes are written from the start of the buffer.
\<close>

locale wire_message =
  fixes ser :: "u8 list \<Rightarrow> int \<Rightarrow> 'm \<Rightarrow> (int \<times> u8 list) option"
    and size_of :: "'m \<Rightarrow> int"
    and pkt :: "'m \<Rightarrow> u8 list"
    and ok :: "'m \<Rightarrow> bool"
  assumes ser_pkt: "ok m \<Longrightarrow> size_of m \<le> buflen \<Longrightarrow>
      ser buf buflen m = do { (b, n) \<leftarrow> write_bytes (pkt m) (buf, 0); Some (int n, b) }"
    and ser_short: "ok m \<Longrightarrow> buflen < size_of m \<Longrightarrow>
      ser buf buflen m = Some (MQTTPACKET_BUFFER_TOO_SHORT, buf)"
    and pkt_size: "ok m \<Longrightarrow> int (length (pkt m)) \<le> size_of m"
begin

lemma ser_fits:
  assumes "ok m" and "size_of m \<le> buflen" and "buflen \<le> int (length buf)"
  shows "ser buf buflen m = Some (int (length (pkt m)), pkt m @ drop (length (pkt m)) buf)"
proof -
  have "length (pkt m) \<le> length buf" using assms pkt_size [of m] by simp
  then show ?thesis using assms by (simp add: ser_pkt write_bytes_at_0)
qed

lemma ser_safe:
  assumes "ok m" and "buflen \<le> int (length buf)"
  shows "\<exists>rc b. ser buf buflen m = Some (rc, b) \<and> length b = length buf
    \<and> (rc = MQTTPACKET_BUFFER_TOO_SHORT \<and> b = buf \<or> rc = int (length (pkt m)) \<and> rc \<le> buflen
       \<and> take (length (pkt m)) b = pkt m)"
proof (cases "size_of m \<le> buflen")
  case True
  with assms pkt_size [of m] show ?thesis by (simp add: ser_fits)
next
  case False
  with assms show ?thesis by (simp add: ser_short)
qed

end

lemma write_packet [wire_simps]:
  "writeChar h bp \<bind> (\<lambda>p. write_rem_len (int (length body)) p \<bind> (\<lambda>p. write_bytes body p \<bind> f))
     = write_bytes (packet_bytes h body) bp \<bind> f"
  by (simp add: wire_simps packet_bytes_def)

section \<open>PUBLISH on the wire\<close>

definition publish_body :: "int \<Rightarrow> u16 \<Rightarrow> u8 list \<Rightarrow> u8 list \<Rightarrow> u8 list" where
  "publish_body qos packetid topic payload =
     string_bytes topic @ (if qos > 0 then u16_bytes (unat packetid) else []) @ payload"

definition publish_packet :: "u8 \<Rightarrow> int \<Rightarrow> u8 \<Rightarrow> u16 \<Rightarrow> u8 list \<Rightarrow> u8 list \<Rightarrow> u8 list" where
  "publish_packet dup qos retained packetid topic payload =
     packet_bytes (MQTTHeader_byte (msg_code PUBLISH) (uint dup) qos (uint retained))
       (publish_body qos packetid topic payload)"

lemma length_publish_body [simp]:
  "length (publish_body qos pid topic payload) =
     2 + length topic + length payload + (if qos > 0 then 2 else 0)"
  by (simp add: publish_body_def)

lemma publishLength_eq:
  "mqtt_string_ok t \<Longrightarrow> MQTTSerialize_publishLength qos t (int (length payload)) =
     int (length (publish_body qos pid (mqtt_bytes t) payload))"
  by (simp add: MQTTSerialize_publishLength_def MQTTstrlen_eq)

lemma uint_eq_int_unat: "uint w = int (unat w)"
  by simp

lemma writeInt_uint [wire_simps]: "writeInt (uint w) bp = write_bytes (u16_bytes (unat w)) bp"
  unfolding uint_eq_int_unat by (rule writeInt_eq)

lemma write_publish_header_eq:
  "mqtt_string_ok t \<Longrightarrow> write_publish_header bp dup qos retained pid t (int n) =
     write_bytes (MQTTHeader_byte (msg_code PUBLISH) (uint dup) qos (uint retained)
       # rem_len_bytes n @ string_bytes (mqtt_bytes t)
       @ (if qos > 0 then u16_bytes (unat pid) else [])) bp"
  by (simp add: write_publish_header_def wire_simps)

lemma serialize_publish_eq:
  assumes "mqtt_string_ok t" and "MQTTSerialize_publish_size qos t (int (length payload)) \<le> buflen"
  shows "MQTTSerialize_publish buf buflen dup qos retained pid t (Some payload) (int (length payload))
    = do { (b, n) \<leftarrow> write_bytes (publish_packet dup qos retained pid (mqtt_bytes t) payload) (buf, 0);
           Some (int n, b) }"
proof -
  let ?body = "publish_body qos pid (mqtt_bytes t) payload"
  note len = publishLength_eq [OF assms(1), of qos payload pid]
  have "MQTTPacket_len (int (length ?body)) \<le> buflen"
    using assms(2) by (simp only: MQTTSerialize_publish_size_def len)
  then show ?thesis
    unfolding MQTTSerialize_publish_def len Let_def write_publish_header_eq [OF assms(1)]
    by (simp add: bytes_at_def write_bytes_bind publish_packet_def packet_bytes_def publish_body_def
        del: length_publish_body msg_code.simps)
qed

interpretation publish_msg: wire_message
  "\<lambda>buf buflen (dup, qos, retained, pid, t, payload).
     MQTTSerialize_publish buf buflen dup qos retained pid t (Some payload) (int (length payload))"
  "\<lambda>(dup, qos, retained, pid, t, payload). MQTTSerialize_publish_size qos t (int (length payload))"
  "\<lambda>(dup, qos, retained, pid, t, payload).
     publish_packet dup qos retained pid (mqtt_bytes t) payload"
  "\<lambda>(dup, qos, retained, pid, t, payload). mqtt_string_ok t \<and>
     length (publish_body qos pid (mqtt_bytes t) payload) < 268435456"
proof (unfold_locales, goal_cases)
  case (1 m buflen buf)
  then show ?case by (cases m) (simp add: serialize_publish_eq)
next
  case (2 m buflen buf)
  then show ?case
    by (cases m) (simp add: MQTTSerialize_publish_def MQTTSerialize_publish_size_def Let_def)
next
  case (3 m)
  obtain dup qos retained pid t payload where m: "m = (dup, qos, retained, pid, t, payload)"
    by (cases m)
  with "3" have "length (publish_body qos pid (mqtt_bytes t) payload) < 268435456" by simp
  from MQTTPacket_len_upper [OF this] show ?case
    using "3" by (simp add: m MQTTSerialize_publish_size_def publish_packet_def
        publishLength_eq [of t qos payload pid] del: length_publish_body)
qed

text \<open>Reading a whole packet: the header byte, the remaining length and the start of the body.\<close>

lemma readChar_packet [wire_simps]: "readChar (packet_bytes h body @ post) 0 = Some (h, 1)"
  by (simp add: readChar_def read_byte_def packet_bytes_def)

lemma decodeBuf_packet [wire_simps]:
  "length body < 268435456 \<Longrightarrow> MQTTPacket_decodeBuf (packet_bytes h body @ post) (Suc 0) =
     Some (length (rem_len_bytes (length body)), length body)"
  using MQTTPacket_decodeBuf_enc [of "length body" 1 "[h]" "body @ post"]
  by (simp add: packet_bytes_def)

lemma packet_split:
  "packet_bytes h body @ post = (h # rem_len_bytes (length body)) @ body @ post"
  by (simp add: packet_bytes_def)

text \<open>A PUBLISH packet parses back into what was serialized, whatever follows it in the buffer.\<close>

lemma deserialize_publish_packet:
  assumes "length topic < 65536" and "0 \<le> qos" "qos < 4" and "uint dup < 2" and "uint retained < 2"
    and len: "length (publish_body qos pid topic payload) < 268435456"
  shows "MQTTDeserialize_publish out (publish_packet dup qos retained pid topic payload @ post) =
    Some (1, out\<lparr>pub_dup := dup, pub_qos := qos, pub_retained := retained,
      pub_packetid := (if qos > 0 then pid else pub_packetid out),
      pub_topicName := \<lparr>cstring = None, lenstring = \<lparr>ls_len = int (length topic),
        ls_data = Some (topic @ (if qos > 0 then u16_bytes (unat pid) else []) @ payload @ post)\<rparr>\<rparr>,
      pub_payload := payload @ post, pub_payloadlen := int (length payload)\<rparr>)"
proof -
  let ?body = "publish_body qos pid topic payload"
  define h where "h = MQTTHeader_byte (msg_code PUBLISH) (uint dup) qos (uint retained)"
  define k where "k = length (rem_len_bytes (length ?body))"
  define pid_bytes where "pid_bytes = (if qos > 0 then u16_bytes (unat pid) else [])"
  define pre where "pre = h # rem_len_bytes (length ?body)"
  define buf where "buf = packet_bytes h ?body @ post"
  have buf: "buf = pre @ string_bytes topic @ pid_bytes @ payload @ post"
    by (simp add: buf_def packet_bytes_def pre_def publish_body_def pid_bytes_def)
  have pre: "length pre = Suc k" by (simp add: pre_def k_def)
  have body: "length ?body = 2 + length topic + length payload + length pid_bytes"
    by (simp add: pid_bytes_def)
  have str: "readMQTTLenString s buf (Suc k) (Suc (k + length ?body)) =
      Some (True, \<lparr>cstring = None, lenstring = \<lparr>ls_len = int (length topic),
        ls_data = Some (topic @ pid_bytes @ payload @ post)\<rparr>\<rparr>, Suc k + 2 + length topic)" for s
    unfolding buf by (rule readMQTTLenString_enc [OF assms(1)]) (simp_all add: pre body)
  have id: "readInt buf (Suc k + 2 + length topic) = Some (unat pid, Suc k + 2 + length topic + length pid_bytes)"
    if "qos > 0"
    using that readInt_enc [of "unat pid" "Suc k + 2 + length topic" "pre @ string_bytes topic"
        "payload @ post"] unsigned_less [of pid, where ?'a = nat]
    by (simp add: buf pid_bytes_def pre)
  have drop: "drop (Suc k + 2 + length topic + length pid_bytes) buf = payload @ post"
    by (simp add: buf string_bytes_def pre)
  have rd: "readChar buf 0 = Some (h, Suc 0)"
    "MQTTPacket_decodeBuf buf (Suc 0) = Some (k, length ?body)"
    using len by (simp_all only: buf_def readChar_packet decodeBuf_packet k_def One_nat_def)
  have h: "header_type h = msg_code PUBLISH" "header_dup h = uint dup" "header_qos h = qos"
    "header_retain h = uint retained"
    using assms by (simp_all add: h_def field_simps_c)
  have "MQTTDeserialize_publish out buf =
      Some (1, out\<lparr>pub_dup := dup, pub_qos := qos, pub_retained := retained,
        pub_packetid := (if qos > 0 then pid else pub_packetid out),
        pub_topicName := \<lparr>cstring = None, lenstring = \<lparr>ls_len = int (length topic),
          ls_data = Some (topic @ pid_bytes @ payload @ post)\<rparr>\<rparr>,
        pub_payload := payload @ post, pub_payloadlen := int (length payload)\<rparr>)"
  proof (cases "qos > 0")
    case True
    then have "pid_bytes = u16_bytes (unat pid)" by (simp add: pid_bytes_def)
    with True str id drop body show ?thesis
      by (cases out) (simp add: MQTTDeserialize_publish_def rd h del: length_publish_body)
  next
    case False
    then have "pid_bytes = []" by (simp add: pid_bytes_def)
    with assms(2) False str drop body show ?thesis
      by (cases out) (simp add: MQTTDeserialize_publish_def rd h del: length_publish_body)
  qed
  then show ?thesis by (simp add: buf_def h_def publish_packet_def pid_bytes_def)
qed

section \<open>Packet identifiers\<close>

text \<open>The masks and shifts of \<open>MQTTPacket_getPacketId\<close> read the same fields as the union.\<close>

lemma uint_drop_bit: "uint (drop_bit n (w :: 'a :: len word)) = uint w div 2 ^ n"
proof -
  have "uint (drop_bit n w) = drop_bit n (uint w)"
    by (subst unsigned_drop_bit_eq) (simp only: take_bit_int_eq_self uint_ge_0 uint_lt2p)
  then show ?thesis by (simp only: drop_bit_eq_div)
qed

lemma uint_and_mask: "uint ((w :: 'a :: len word) AND mask n) = uint w mod 2 ^ n"
proof -
  have "uint (w AND mask n) = take_bit n (uint w)"
    by (simp only: take_bit_eq_mask [symmetric] unsigned_take_bit_eq)
  then show ?thesis by (simp only: take_bit_eq_mod)
qed

lemma mask_type [field_simps_c]: "uint (drop_bit 4 (b AND 0xf0)) = header_type b"
proof -
  have "drop_bit 4 (b AND 0xf0) = drop_bit 4 b AND mask 4"
    by (simp add: drop_bit_and mask_eq_exp_minus_1)
  then have "uint (drop_bit 4 (b AND 0xf0)) = uint b div 16 mod 16"
    by (simp only: uint_and_mask uint_drop_bit) simp
  moreover have "uint b div 16 < 16" using uint_u8_bounds(2) [of b] by linarith
  moreover have "0 \<le> uint b div 16" by (simp add: pos_imp_zdiv_nonneg_iff)
  ultimately show ?thesis by (simp add: header_type_def)
qed

lemma mask_qos [field_simps_c]: "uint (drop_bit 1 (b AND 0x06)) = header_qos b"
proof -
  have "drop_bit 1 (b AND 0x06) = drop_bit 1 b AND mask 2"
    by (simp add: drop_bit_and mask_eq_exp_minus_1)
  then show ?thesis
    by (simp only: uint_and_mask uint_drop_bit) (simp add: header_qos_def)
qed

lemma unat_u16_less [simp]: "unat (w :: u16) < 65536"
  using unsigned_less [of w, where ?'a = nat] by simp

lemma getPacketId_ack:
  assumes "length body < 268435456" and "body = u16_bytes (unat pid) @ rest"
    and "t \<in> {PUBACK, PUBREC, PUBREL, PUBCOMP, SUBSCRIBE, SUBACK, UNSUBSCRIBE, UNSUBACK}"
  shows "MQTTPacket_getPacketId load_first
    (packet_bytes (MQTTHeader_byte (msg_code t) d q r) body @ post) = Some (unat (pid :: u16))"
proof -
  define h where "h = MQTTHeader_byte (msg_code t) d q r"
  define k where "k = length (rem_len_bytes (length body))"
  define buf where "buf = packet_bytes h body @ post"
  have rd: "read_byte buf 0 = Some h" "MQTTPacket_decodeBuf buf (Suc 0) = Some (k, length body)"
    using assms(1) by (simp_all add: buf_def decodeBuf_packet k_def)
      (simp add: packet_bytes_def read_byte_def)
  have id: "readInt buf (Suc k) = Some (unat pid, Suc k + 2)"
    using readInt_enc [of "unat pid" "Suc k" "h # rem_len_bytes (length body)" "rest @ post"]
    by (simp add: buf_def packet_bytes_def k_def assms(2))
  have "header_type h = msg_code t" by (simp add: h_def field_simps_c)
  then have "MQTTPacket_getPacketId load_first buf = Some (unat pid)"
    using assms(3) unfolding MQTTPacket_getPacketId_def mask_type mask_qos
    by (auto simp: rd id)
  then show ?thesis by (simp add: buf_def h_def)
qed

text \<open>
  For PUBLISH the choice \<open>load_first\<close> decides where the identifier is read: after the topic, or
  two bytes before its end.
\<close>

lemma getPacketId_publish:
  assumes "length topic < 65536" and "0 \<le> qos" "qos < 4"
    and len: "length (publish_body qos pid topic payload) < 268435456"
  shows "MQTTPacket_getPacketId False (publish_packet dup qos retained pid topic payload @ post)
    = Some (if qos > 0 then unat pid else 0)"
proof -
  let ?body = "publish_body qos pid topic payload"
  define h where "h = MQTTHeader_byte (msg_code PUBLISH) (uint dup) qos (uint retained)"
  define k where "k = length (rem_len_bytes (length ?body))"
  define buf where "buf = packet_bytes h ?body @ post"
  have rd: "read_byte buf 0 = Some h" "MQTTPacket_decodeBuf buf (Suc 0) = Some (k, length ?body)"
    using len by (simp_all only: buf_def decodeBuf_packet k_def)
      (simp add: packet_bytes_def read_byte_def)
  have h: "header_type h = msg_code PUBLISH" "header_qos h = qos"
    using assms by (simp_all add: h_def field_simps_c)
  have "MQTTPacket_getPacketId False buf = Some (if qos > 0 then unat pid else 0)"
  proof (cases "qos > 0")
    case True
    have "readInt buf (Suc k) = Some (length topic, Suc k + 2)"
      using True readInt_enc [OF assms(1), of "Suc k" "h # rem_len_bytes (length ?body)"
          "topic @ u16_bytes (unat pid) @ payload @ post"]
      by (simp add: buf_def packet_bytes_def k_def publish_body_def string_bytes_def
          del: length_publish_body)
    moreover have "readInt buf (Suc k + 2 + length topic) = Some (unat pid, Suc k + 2 + length topic + 2)"
      using True readInt_enc [of "unat pid" "Suc k + 2 + length topic"
          "(h # rem_len_bytes (length ?body)) @ string_bytes topic" "payload @ post"]
      by (simp add: buf_def packet_bytes_def k_def publish_body_def del: length_publish_body)
    ultimately show ?thesis
      using True unfolding MQTTPacket_getPacketId_def mask_type mask_qos by (simp add: rd h)
  next
    case False
    then show ?thesis
      using assms(2) unfolding MQTTPacket_getPacketId_def mask_type mask_qos by (simp add: rd h)
  qed
  then show ?thesis by (simp add: buf_def h_def publish_packet_def)
qed

section \<open>Acknowledgements on the wire\<close>

definition ack_packet :: "msgTypes \<Rightarrow> u8 \<Rightarrow> u16 \<Rightarrow> u8 list" where
  "ack_packet t dup pid =
     packet_bytes (MQTTHeader_byte (msg_code t) (uint dup) (if t = PUBREL then 1 else 0) 0)
       (u16_bytes (unat pid))"

lemma length_ack_packet [simp]: "length (ack_packet t dup pid) = 4"
  by (simp add: ack_packet_def packet_bytes_def rem_len_bytes.simps)

lemma write_rem_len_numeral [wire_simps]:
  "write_rem_len (numeral k) = write_bytes (rem_len_bytes (numeral k))"
  "write_rem_len 0 = write_bytes (rem_len_bytes 0)"
  using write_rem_len_eq [of "numeral k"] write_rem_len_eq [of 0] by auto

interpretation ack_msg: wire_message
  "\<lambda>buf buflen (t, dup, pid). MQTTSerialize_ack buf buflen (msg_code t) dup pid"
  "\<lambda>_. 4" "\<lambda>(t, dup, pid). ack_packet t dup pid" "\<lambda>_. True"
proof (unfold_locales, goal_cases)
  case (1 m buflen buf)
  then show ?case
    by (cases m) (simp add: MQTTSerialize_ack_def wire_simps ack_packet_def packet_bytes_def
        msg_code_inj [of _ PUBREL, simplified])
qed (auto simp: MQTTSerialize_ack_def)

lemma deserialize_ack_packet:
  assumes "uint dup < 2"
  shows "MQTTDeserialize_ack old (ack_packet t dup pid @ post) = Some (1, msg_code t, dup, pid)"
proof -
  define h where "h = MQTTHeader_byte (msg_code t) (uint dup) (if t = PUBREL then 1 else 0) 0"
  define buf where "buf = packet_bytes h (u16_bytes (unat pid)) @ post"
  have rd: "readChar buf 0 = Some (h, Suc 0)"
    "MQTTPacket_decodeBuf buf (Suc 0) = Some (length (rem_len_bytes 2), 2)"
    using readChar_packet decodeBuf_packet [of "u16_bytes (unat pid)"] by (simp_all add: buf_def)
  moreover have "readInt buf (Suc (length (rem_len_bytes 2))) = Some (unat pid, length (rem_len_bytes 2) + 3)"
    using readInt_enc [of "unat pid" "Suc (length (rem_len_bytes 2))" "h # rem_len_bytes 2" post]
    by (simp add: buf_def packet_bytes_def)
  ultimately have "MQTTDeserialize_ack old buf = Some (1, msg_code t, dup, pid)"
    using assms by (simp add: MQTTDeserialize_ack_def h_def field_simps_c)
  then show ?thesis by (simp add: buf_def h_def ack_packet_def)
qed

section \<open>Packets without a body\<close>

definition zero_packet :: "msgTypes \<Rightarrow> u8 list" where
  "zero_packet t = packet_bytes (MQTTHeader_byte (msg_code t) 0 0 0) []"

lemma length_zero_packet [simp]: "length (zero_packet t) = 2"
  by (simp add: zero_packet_def packet_bytes_def rem_len_bytes.simps)

interpretation zero_msg: wire_message
  "\<lambda>buf buflen t. MQTTSerialize_zero buf buflen (msg_code t)" "\<lambda>_. 2" zero_packet "\<lambda>_. True"
proof (unfold_locales, goal_cases)
  case (1 t buflen buf)
  then show ?case
    by (simp add: MQTTSerialize_zero_def wire_simps zero_packet_def packet_bytes_def)
qed (auto simp: MQTTSerialize_zero_def)

section \<open>SUBSCRIBE and UNSUBSCRIBE on the wire\<close>

definition subscription_bytes :: "u8 list \<times> u8 \<Rightarrow> u8 list" where
  "subscription_bytes tq = string_bytes (fst tq) @ [snd tq]"

definition subscribe_body :: "u16 \<Rightarrow> (u8 list \<times> u8) list \<Rightarrow> u8 list" where
  "subscribe_body pid subs = u16_bytes (unat pid) @ concat (map subscription_bytes subs)"

definition subscribe_packet :: "u8 \<Rightarrow> u16 \<Rightarrow> (u8 list \<times> u8) list \<Rightarrow> u8 list" where
  "subscribe_packet dup pid subs =
     packet_bytes (MQTTHeader_byte (msg_code SUBSCRIBE) (uint dup) 1 0) (subscribe_body pid subs)"

definition unsubscribe_body :: "u16 \<Rightarrow> u8 list list \<Rightarrow> u8 list" where
  "unsubscribe_body pid topics = u16_bytes (unat pid) @ concat (map string_bytes topics)"

definition unsubscribe_packet :: "u8 \<Rightarrow> u16 \<Rightarrow> u8 list list \<Rightarrow> u8 list" where
  "unsubscribe_packet dup pid topics =
     packet_bytes (MQTTHeader_byte (msg_code UNSUBSCRIBE) (uint dup) 1 0) (unsubscribe_body pid topics)"

abbreviation (input) wire_subs :: "(MQTTString \<times> int) list \<Rightarrow> (u8 list \<times> u8) list" where
  "wire_subs subs \<equiv> map (\<lambda>(t, q). (mqtt_bytes t, word_of_int q)) subs"

lemma subscribeLength_eq:
  assumes "\<forall>(t, q)\<in>set subs. mqtt_string_ok t"
  shows "MQTTSerialize_subscribeLength (map fst subs) =
    int (length (subscribe_body pid (wire_subs subs)))"
proof -
  have "foldl (\<lambda>len t. len + (2 + MQTTstrlen t + 1)) a (map fst subs)
      = a + int (length (concat (map subscription_bytes (wire_subs subs))))" for a
    using assms
    by (induction subs arbitrary: a) (auto simp: subscription_bytes_def MQTTstrlen_eq)
  then show ?thesis by (simp add: MQTTSerialize_subscribeLength_def subscribe_body_def)
qed

lemma unsubscribeLength_eq:
  assumes "\<forall>t\<in>set topics. mqtt_string_ok t"
  shows "MQTTSerialize_unsubscribeLength topics =
    int (length (unsubscribe_body pid (map mqtt_bytes topics)))"
proof -
  have "foldl (\<lambda>len t. len + (2 + MQTTstrlen t)) a topics
      = a + int (length (concat (map string_bytes (map mqtt_bytes topics))))" for a
    using assms by (induction topics arbitrary: a) (auto simp: MQTTstrlen_eq)
  then show ?thesis by (simp add: MQTTSerialize_unsubscribeLength_def unsubscribe_body_def)
qed

lemma write_subscriptions:
  assumes "\<forall>(t, q)\<in>set subs. mqtt_string_ok t"
  shows "write_bytes ys bp \<bind> (\<lambda>p. write_all write_subscription subs p \<bind> f)
    = write_bytes (ys @ concat (map subscription_bytes (wire_subs subs))) bp \<bind> f"
proof -
  have "\<forall>x\<in>set subs. \<forall>bp. write_subscription x bp
      = write_bytes (subscription_bytes (mqtt_bytes (fst x), word_of_int (snd x))) bp"
    using assms by (auto simp: write_subscription_def wire_simps subscription_bytes_def)
  from write_bytes_write_all [OF this] show ?thesis by (simp add: comp_def case_prod_beta)
qed

interpretation subscribe_msg: wire_message
  "\<lambda>buf buflen (dup, pid, subs).
     MQTTSerialize_subscribe buf buflen dup pid (map fst subs) (map snd subs)"
  "\<lambda>(dup, pid, subs). MQTTSerialize_subscribe_size (map fst subs)"
  "\<lambda>(dup, pid, subs). subscribe_packet dup pid (wire_subs subs)"
  "\<lambda>(dup, pid, subs). (\<forall>(t, q)\<in>set subs. mqtt_string_ok t) \<and>
     length (subscribe_body pid (wire_subs subs)) < 268435456"
proof (unfold_locales, goal_cases)
  case (1 m buflen buf)
  obtain dup pid subs where m: "m = (dup, pid, subs)" by (cases m)
  with "1" have ok: "\<forall>(t, q)\<in>set subs. mqtt_string_ok t"
    and size: "MQTTPacket_len (MQTTSerialize_subscribeLength (map fst subs)) \<le> buflen"
    by (simp_all add: MQTTSerialize_subscribe_size_def)
  show ?case
    using size
    by (simp add: m MQTTSerialize_subscribe_def Let_def zip_map_fst_snd wire_simps
        write_subscriptions [OF ok] subscribeLength_eq [OF ok, of pid] subscribe_packet_def
        packet_bytes_def subscribe_body_def [of pid] del: length_append)
next
  case (2 m buflen buf)
  then show ?case
    by (cases m) (simp add: MQTTSerialize_subscribe_def MQTTSerialize_subscribe_size_def Let_def)
next
  case (3 m)
  obtain dup pid subs where m: "m = (dup, pid, subs)" by (cases m)
  with "3" have ok: "\<forall>(t, q)\<in>set subs. mqtt_string_ok t"
    and len: "length (subscribe_body pid (wire_subs subs)) < 268435456" by simp_all
  from MQTTPacket_len_upper [OF len] show ?case
    by (simp add: m MQTTSerialize_subscribe_size_def subscribeLength_eq [OF ok, of pid]
        subscribe_packet_def)
qed

interpretation unsubscribe_msg: wire_message
  "\<lambda>buf buflen (dup, pid, topics). MQTTSerialize_unsubscribe buf buflen dup pid topics"
  "\<lambda>(dup, pid, topics). MQTTSerialize_unsubscribe_size topics"
  "\<lambda>(dup, pid, topics). unsubscribe_packet dup pid (map mqtt_bytes topics)"
  "\<lambda>(dup, pid, topics). (\<forall>t\<in>set topics. mqtt_string_ok t) \<and>
     length (unsubscribe_body pid (map mqtt_bytes topics)) < 268435456"
proof (unfold_locales, goal_cases)
  case (1 m buflen buf)
  obtain dup pid topics where m: "m = (dup, pid, topics)" by (cases m)
  with "1" have ok: "\<forall>t\<in>set topics. mqtt_string_ok t"
    and size: "MQTTPacket_len (MQTTSerialize_unsubscribeLength topics) \<le> buflen"
    by (simp_all add: MQTTSerialize_unsubscribe_size_def)
  have wr: "\<forall>x\<in>set topics. \<forall>bp. writeMQTTString x bp = write_bytes (string_bytes (mqtt_bytes x)) bp"
    using ok by (simp add: writeMQTTString_eq)
  show ?case
    using size
    by (simp add: m MQTTSerialize_unsubscribe_def Let_def wire_simps write_bytes_write_all [OF wr]
        unsubscribeLength_eq [OF ok, of pid] unsubscribe_packet_def packet_bytes_def
        unsubscribe_body_def [of pid] comp_def del: length_append)
next
  case (2 m buflen buf)
  then show ?case
    by (cases m) (simp add: MQTTSerialize_unsubscribe_def MQTTSerialize_unsubscribe_size_def Let_def)
next
  case (3 m)
  obtain dup pid topics where m: "m = (dup, pid, topics)" by (cases m)
  with "3" have ok: "\<forall>t\<in>set topics. mqtt_string_ok t"
    and len: "length (unsubscribe_body pid (map mqtt_bytes topics)) < 268435456" by simp_all
  from MQTTPacket_len_upper [OF len] show ?case
    by (simp add: m MQTTSerialize_unsubscribe_size_def unsubscribeLength_eq [OF ok, of pid]
        unsubscribe_packet_def)
qed

text \<open>
  The loops of the broker side read every topic filter back. The array they fill has \<open>cap\<close>
  elements; the loops do not look at the number of elements, so the capacity has to cover the
  packet.
\<close>

abbreviation (input) plain_subs :: "(MQTTString \<times> int) list \<Rightarrow> (u8 list \<times> int) list" where
  "plain_subs res \<equiv> map (\<lambda>(s, q). (mqtt_bytes s, q)) res"

lemma subscribe_loop_enc:
  assumes "\<forall>(t, q)\<in>set subs. length t < 65536" and "length acc + length subs \<le> cap"
    and "p = length pre" and "enddata = p + length (concat (map subscription_bytes subs))"
  shows "\<exists>res. subscribe_loop sg cap (pre @ concat (map subscription_bytes subs) @ post) p enddata acc
      = Some (True, acc @ res) \<and> plain_subs res = map (\<lambda>(t, q). (t, char_to_int sg q)) subs"
  using assms
proof (induction subs arbitrary: pre p acc)
  case Nil
  then show ?case by (simp add: subscribe_loop.simps)
next
  case (Cons tq subs)
  obtain t q where tq: "tq = (t, q)" by (cases tq)
  let ?rest = "concat (map subscription_bytes subs) @ post"
  let ?buf = "pre @ concat (map subscription_bytes (tq # subs)) @ post"
  have t: "length t < 65536" using Cons.prems(1) tq by simp
  have buf: "?buf = pre @ string_bytes t @ q # ?rest" by (simp add: tq subscription_bytes_def)
  define s where "s = \<lparr>cstring = None, lenstring = \<lparr>ls_len = int (length t), ls_data = Some (t @ q # ?rest)\<rparr>\<rparr>"
  define p' where "p' = p + 2 + length t"
  have p': "p' < enddata" "p < enddata" using Cons.prems(4) by (simp_all add: p'_def tq subscription_bytes_def)
  have "readMQTTLenString MQTTString_initializer ?buf p enddata = Some (True, s, p')"
    unfolding buf s_def p'_def
    by (rule readMQTTLenString_enc [OF t Cons.prems(3)])
       (simp add: Cons.prems(4) tq subscription_bytes_def)
  moreover have "readChar ?buf p' = Some (q, Suc p')"
    using Cons.prems(3) unfolding buf readChar_def p'_def
    using read_byte_append [of p' "pre @ string_bytes t" q ?rest] by (simp add: p'_def)
  moreover have "length acc < cap" using Cons.prems(2) by simp
  ultimately have "subscribe_loop sg cap ?buf p enddata acc
      = subscribe_loop sg cap ?buf (Suc p') enddata (acc @ [(s, char_to_int sg q)])"
    using p' by (subst subscribe_loop.simps) simp
  moreover have "\<exists>res. subscribe_loop sg cap ((pre @ string_bytes t @ [q]) @ ?rest) (Suc p') enddata
        (acc @ [(s, char_to_int sg q)]) = Some (True, (acc @ [(s, char_to_int sg q)]) @ res)
      \<and> plain_subs res = map (\<lambda>(t, q). (t, char_to_int sg q)) subs"
    by (rule Cons.IH) (use Cons.prems in \<open>auto simp: p'_def tq subscription_bytes_def\<close>)
  then obtain res where "subscribe_loop sg cap ?buf (Suc p') enddata (acc @ [(s, char_to_int sg q)])
      = Some (True, acc @ (s, char_to_int sg q) # res)"
    and "plain_subs res = map (\<lambda>(t, q). (t, char_to_int sg q)) subs"
    unfolding buf by auto
  moreover have "mqtt_bytes s = t" by (simp add: s_def mqtt_bytes_def)
  ultimately show ?case
    by (intro exI [of _ "(s, char_to_int sg q) # res"]) (simp add: tq)
qed

lemma unsubscribe_loop_enc:
  assumes "\<forall>t\<in>set topics. length t < 65536" and "length acc + length topics \<le> cap"
    and "p = length pre" and "enddata = p + length (concat (map string_bytes topics))"
  shows "\<exists>res. unsubscribe_loop cap (pre @ concat (map string_bytes topics) @ post) p enddata acc
      = Some (True, acc @ res) \<and> map mqtt_bytes res = topics"
  using assms
proof (induction topics arbitrary: pre p acc)
  case Nil
  then show ?case by (simp add: unsubscribe_loop.simps)
next
  case (Cons t topics)
  let ?rest = "concat (map string_bytes topics) @ post"
  let ?buf = "pre @ concat (map string_bytes (t # topics)) @ post"
  have t: "length t < 65536" using Cons.prems(1) by simp
  have buf: "?buf = pre @ string_bytes t @ ?rest" by simp
  define s where "s = \<lparr>cstring = None, lenstring = \<lparr>ls_len = int (length t), ls_data = Some (t @ ?rest)\<rparr>\<rparr>"
  define p' where "p' = p + 2 + length t"
  have "readMQTTLenString MQTTString_initializer ?buf p enddata = Some (True, s, p')"
    unfolding buf s_def p'_def
    by (rule readMQTTLenString_enc [OF t Cons.prems(3)]) (simp add: Cons.prems(4))
  moreover have "length acc < cap" "p < enddata" using Cons.prems(2,4) by simp_all
  ultimately have "unsubscribe_loop cap ?buf p enddata acc
      = unsubscribe_loop cap ?buf p' enddata (acc @ [s])"
    by (subst unsubscribe_loop.simps) simp
  moreover have "\<exists>res. unsubscribe_loop cap ((pre @ string_bytes t) @ ?rest) p' enddata
        (acc @ [s]) = Some (True, (acc @ [s]) @ res) \<and> map mqtt_bytes res = topics"
    by (rule Cons.IH) (use Cons.prems in \<open>auto simp: p'_def\<close>)
  then obtain res where "unsubscribe_loop cap ?buf p' enddata (acc @ [s]) = Some (True, acc @ s # res)"
    and "map mqtt_bytes res = topics"
    unfolding buf by auto
  moreover have "mqtt_bytes s = t" by (simp add: s_def mqtt_bytes_def)
  ultimately show ?case by (intro exI [of _ "s # res"]) simp
qed

text \<open>The packets themselves, header and identifier included.\<close>

lemma read_id_body:
  assumes "length body < 268435456" and "body = u16_bytes (unat (pid :: u16)) @ rest"
  shows "\<exists>k. readChar (packet_bytes h body @ post) 0 = Some (h, Suc 0) \<and>
    MQTTPacket_decodeBuf (packet_bytes h body @ post) (Suc 0) = Some (k, length body) \<and>
    readInt (packet_bytes h body @ post) (Suc k) = Some (unat pid, Suc k + 2) \<and>
    packet_bytes h body @ post = (h # rem_len_bytes (length body) @ u16_bytes (unat pid)) @ rest @ post \<and>
    Suc k + 2 = length (h # rem_len_bytes (length body) @ u16_bytes (unat pid)) \<and> 0 < k"
proof (intro exI conjI)
  show "readChar (packet_bytes h body @ post) 0 = Some (h, Suc 0)"
    using readChar_packet by simp
  show "MQTTPacket_decodeBuf (packet_bytes h body @ post) (Suc 0)
      = Some (length (rem_len_bytes (length body)), length body)"
    by (rule decodeBuf_packet [OF assms(1)])
  show "readInt (packet_bytes h body @ post) (Suc (length (rem_len_bytes (length body))))
      = Some (unat pid, Suc (length (rem_len_bytes (length body))) + 2)"
    using readInt_enc [of "unat pid" "Suc (length (rem_len_bytes (length body)))"
        "h # rem_len_bytes (length body)" "rest @ post"]
    by (simp add: packet_bytes_def assms(2))
qed (simp_all add: packet_bytes_def assms(2))

lemma deserialize_subscribe_packet:
  assumes "\<forall>(t, q)\<in>set subs. length t < 65536" and "length subs \<le> cap" and "uint dup < 2"
    and len: "length (subscribe_body pid subs) < 268435456"
  shows "\<exists>res. MQTTDeserialize_subscribe sg cap old (subscribe_packet dup pid subs @ post)
      = Some (1, dup, pid, res) \<and> plain_subs res = map (\<lambda>(t, q). (t, char_to_int sg q)) subs"
proof -
  define h where "h = MQTTHeader_byte (msg_code SUBSCRIBE) (uint dup) 1 0"
  define buf where "buf = packet_bytes h (subscribe_body pid subs) @ post"
  have h: "header_type h = msg_code SUBSCRIBE" "header_dup h = uint dup"
    using assms(3) by (simp_all add: h_def field_simps_c)
  from read_id_body [OF len subscribe_body_def, of h post, folded buf_def] obtain k where
    rd: "readChar buf 0 = Some (h, Suc 0)"
      "MQTTPacket_decodeBuf buf (Suc 0) = Some (k, length (subscribe_body pid subs))"
      "readInt buf (Suc k) = Some (unat pid, Suc k + 2)"
    and buf: "buf = (h # rem_len_bytes (length (subscribe_body pid subs)) @ u16_bytes (unat pid))
        @ concat (map subscription_bytes subs) @ post"
    and k: "Suc k + 2 = length (h # rem_len_bytes (length (subscribe_body pid subs)) @ u16_bytes (unat pid))"
    by blast
  have "\<exists>res. subscribe_loop sg cap buf (Suc k + 2) (Suc k + length (subscribe_body pid subs)) []
      = Some (True, [] @ res) \<and> plain_subs res = map (\<lambda>(t, q). (t, char_to_int sg q)) subs"
    unfolding buf
    by (rule subscribe_loop_enc [OF assms(1) _ k]) (use assms in \<open>simp_all add: subscribe_body_def\<close>)
  then have "\<exists>res. MQTTDeserialize_subscribe sg cap old buf = Some (1, dup, pid, res)
      \<and> plain_subs res = map (\<lambda>(t, q). (t, char_to_int sg q)) subs"
    by (auto simp: MQTTDeserialize_subscribe_def rd h)
  then show ?thesis by (simp add: buf_def h_def subscribe_packet_def)
qed

lemma deserialize_unsubscribe_packet:
  assumes "\<forall>t\<in>set topics. length t < 65536" and "length topics \<le> cap" and "uint dup < 2"
    and len: "length (unsubscribe_body pid topics) < 268435456"
  shows "\<exists>res. MQTTDeserialize_unsubscribe cap old (unsubscribe_packet dup pid topics @ post)
      = Some (1, dup, pid, res) \<and> map mqtt_bytes res = topics"
proof -
  define h where "h = MQTTHeader_byte (msg_code UNSUBSCRIBE) (uint dup) 1 0"
  define buf where "buf = packet_bytes h (unsubscribe_body pid topics) @ post"
  have h: "header_type h = msg_code UNSUBSCRIBE" "header_dup h = uint dup"
    using assms(3) by (simp_all add: h_def field_simps_c)
  from read_id_body [OF len unsubscribe_body_def, of h post, folded buf_def] obtain k where
    rd: "readChar buf 0 = Some (h, Suc 0)"
      "MQTTPacket_decodeBuf buf (Suc 0) = Some (k, length (unsubscribe_body pid topics))"
      "readInt buf (Suc k) = Some (unat pid, Suc k + 2)"
    and buf: "buf = (h # rem_len_bytes (length (unsubscribe_body pid topics)) @ u16_bytes (unat pid))
        @ concat (map string_bytes topics) @ post"
    and k: "Suc k + 2 = length (h # rem_len_bytes (length (unsubscribe_body pid topics)) @ u16_bytes (unat pid))"
    by blast
  have "\<exists>res. unsubscribe_loop cap buf (Suc k + 2) (Suc k + length (unsubscribe_body pid topics)) []
      = Some (True, [] @ res) \<and> map mqtt_bytes res = topics"
    unfolding buf
    by (rule unsubscribe_loop_enc [OF assms(1) _ k]) (use assms in \<open>simp_all add: unsubscribe_body_def\<close>)
  then have "\<exists>res. MQTTDeserialize_unsubscribe cap old buf = Some (1, dup, pid, res)
      \<and> map mqtt_bytes res = topics"
    by (auto simp: MQTTDeserialize_unsubscribe_def rd h)
  then show ?thesis by (simp add: buf_def h_def unsubscribe_packet_def)
qed

end
