(* ===== verification/Mqtt_Connect.thy ===== *)
theory Mqtt_Connect
  imports Mqtt_Messages
begin

text \<open>
  The session messages: CONNECT with its flags and optional fields, and the replies CONNACK,
  SUBACK and UNSUBACK. The serializer of CONNECT meets the contract of \<^verbatim>\<open>wire_message\<close> for the two
  protocol versions it knows, and \<open>MQTTDeserialize_connect\<close> reads the packet back field by field.
  The reply serializers check a claimed length that is smaller than what they write; the last
  section states exactly when that overruns the buffer.
\<close>

section \<open>The connect flags\<close>

lemma connect_flag_fields [field_simps_c]:
  "flags_cleansession (MQTTConnectFlags_all cs w wq wr pw un) = cs mod 2"
  "flags_will (MQTTConnectFlags_all cs w wq wr pw un) = w mod 2"
  "flags_willQoS (MQTTConnectFlags_all cs w wq wr pw un) = wq mod 4"
  "flags_willRetain (MQTTConnectFlags_all cs w wq wr pw un) = wr mod 2"
  "flags_password (MQTTConnectFlags_all cs w wq wr pw un) = pw mod 2"
  "flags_username (MQTTConnectFlags_all cs w wq wr pw un) = un mod 2"
proof -
  define c' w' q' r' p' u' where "c' = cs mod 2" and "w' = w mod 2" and "q' = wq mod 4"
    and "r' = wr mod 2" and "p' = pw mod 2" and "u' = un mod 2"
  have b: "0 \<le> c'" "c' < 2" "0 \<le> w'" "w' < 2" "0 \<le> q'" "q' < 4" "0 \<le> r'" "r' < 2"
    "0 \<le> p'" "p' < 2" "0 \<le> u'" "u' < 2"
    by (simp_all add: c'_def w'_def q'_def r'_def p'_def u'_def)
  define x where "x = c' * 2 + w' * 4 + q' * 8 + r' * 32 + p' * 64 + u' * 128"
  have "0 \<le> x" "x < 256" using b by (simp_all add: x_def)
  moreover have "MQTTConnectFlags_all cs w wq wr pw un = word_of_int x"
    by (simp only: MQTTConnectFlags_all_def x_def c'_def w'_def q'_def r'_def p'_def u'_def)
  ultimately have u: "uint (MQTTConnectFlags_all cs w wq wr pw un) = x"
    by (simp only: uint_word_of_int_u8) simp
  have x: "x = 0 + (c' + (w' + q' * 2 + r' * 8 + p' * 16 + u' * 32) * 2) * 2"
    "x = c' * 2 + (w' + (q' + r' * 4 + p' * 8 + u' * 16) * 2) * 4"
    "x = c' * 2 + w' * 4 + (q' + (r' + p' * 2 + u' * 4) * 4) * 8"
    "x = c' * 2 + w' * 4 + q' * 8 + (r' + (p' + u' * 2) * 2) * 32"
    "x = c' * 2 + w' * 4 + q' * 8 + r' * 32 + (p' + u' * 2) * 64"
    "x = c' * 2 + w' * 4 + q' * 8 + r' * 32 + p' * 64 + u' * 128"
    by (simp_all add: x_def)
  have field: "(l + (f + m * k) * n) div n mod k = f"
    if "0 \<le> l" "l < n" "0 \<le> f" "f < k" for l f m k n :: int
    using that by (simp add: div_pos_pos_trivial)
  have "x div 2 mod 2 = c'" by (subst x(1), rule field) (use b in simp_all)
  moreover have "x div 4 mod 2 = w'" by (subst x(2), rule field) (use b in simp_all)
  moreover have "x div 8 mod 4 = q'" by (subst x(3), rule field) (use b in simp_all)
  moreover have "x div 32 mod 2 = r'" by (subst x(4), rule field) (use b in simp_all)
  moreover have "x div 64 mod 2 = p'" by (subst x(5), rule field) (use b in simp_all)
  moreover have "x div 128 = u'" unfolding x(6) using b by (subst div_mult_self1) simp_all
  ultimately show
    "flags_cleansession (MQTTConnectFlags_all cs w wq wr pw un) = cs mod 2"
    "flags_will (MQTTConnectFlags_all cs w wq wr pw un) = w mod 2"
    "flags_willQoS (MQTTConnectFlags_all cs w wq wr pw un) = wq mod 4"
    "flags_willRetain (MQTTConnectFlags_all cs w wq wr pw un) = wr mod 2"
    "flags_password (MQTTConnectFlags_all cs w wq wr pw un) = pw mod 2"
    "flags_username (MQTTConnectFlags_all cs w wq wr pw un) = un mod 2"
    by (simp_all only: flags_cleansession_def flags_will_def flags_willQoS_def flags_willRetain_def
        flags_password_def flags_username_def u c'_def w'_def q'_def r'_def p'_def u'_def)
qed

section \<open>CONNECT on the wire\<close>

definition opt_string :: "bool \<Rightarrow> MQTTString \<Rightarrow> u8 list" where
  "opt_string c s = (if c then string_bytes (mqtt_bytes s) else [])"

definition connect_body :: "MQTTPacket_connectData \<Rightarrow> u8 list" where
  "connect_body o' =
     (if MQTTVersion o' = 4 then string_bytes str_MQTT @ [4] else string_bytes str_MQIsdp @ [3])
     @ [connect_flags o'] @ u16_bytes (unat (keepAliveInterval o'))
     @ string_bytes (mqtt_bytes (clientID o'))
     @ opt_string (willFlag o' \<noteq> 0) (will_topicName (will o'))
     @ opt_string (willFlag o' \<noteq> 0) (will_message (will o'))
     @ opt_string (string_present (username o')) (username o')
     @ opt_string (string_present (password o')) (password o')"

definition connect_packet :: "MQTTPacket_connectData \<Rightarrow> u8 list" where
  "connect_packet o' = packet_bytes (MQTTHeader_byte (msg_code CONNECT) 0 0 0) (connect_body o')"

definition connect_strings_ok :: "MQTTPacket_connectData \<Rightarrow> bool" where
  "connect_strings_ok o' \<longleftrightarrow> mqtt_string_ok (clientID o') \<and> mqtt_string_ok (will_topicName (will o'))
     \<and> mqtt_string_ok (will_message (will o')) \<and> mqtt_string_ok (username o')
     \<and> mqtt_string_ok (password o')"

definition connect_ok :: "MQTTPacket_connectData \<Rightarrow> bool" where
  "connect_ok o' \<longleftrightarrow> connect_strings_ok o' \<and> MQTTVersion o' \<in> {3, 4}
     \<and> length (connect_body o') < 268435456"

lemma connectLength_eq:
  "connect_strings_ok o' \<Longrightarrow> MQTTVersion o' \<in> {3, 4} \<Longrightarrow>
     MQTTSerialize_connectLength o' = int (length (connect_body o'))"
  by (auto simp: MQTTSerialize_connectLength_def connect_body_def connect_strings_ok_def
      MQTTstrlen_eq opt_string_def str_MQTT_def str_MQIsdp_def)

lemma write_opt_string:
  assumes "mqtt_string_ok s"
  shows "write_bytes ys bp \<bind> (\<lambda>p. (if c then writeMQTTString s p else Some p) \<bind> f)
    = write_bytes (ys @ opt_string c s) bp \<bind> f"
  using assms by (cases c) (simp_all add: opt_string_def wire_simps)

lemma write_opt_string2:
  assumes "mqtt_string_ok s" and "mqtt_string_ok t"
  shows "write_bytes ys bp
      \<bind> (\<lambda>p. (if c then writeMQTTString s p \<bind> writeMQTTString t else Some p) \<bind> f)
    = write_bytes (ys @ opt_string c s @ opt_string c t) bp \<bind> f"
proof -
  have "writeMQTTString t = write_bytes (string_bytes (mqtt_bytes t))"
    using assms by (intro ext) (simp add: wire_simps)
  then show ?thesis using assms by (cases c) (simp_all add: opt_string_def wire_simps)
qed

lemma serialize_connect_eq:
  assumes "connect_strings_ok o'" and "MQTTSerialize_connectLength o' = int n"
    and "MQTTPacket_len (int n) \<le> buflen"
  shows "MQTTSerialize_connect buf buflen o' = do {
    (b, k) \<leftarrow> write_bytes (MQTTHeader_byte (msg_code CONNECT) 0 0 0 # rem_len_bytes n @ connect_body o')
               (buf, 0);
    Some (int k, b) }"
proof -
  have version: "(if MQTTVersion o' = 4 then writeCString str_MQTT p \<bind> writeChar 4
      else writeCString str_MQIsdp p \<bind> writeChar 3) =
      write_bytes (if MQTTVersion o' = 4 then string_bytes str_MQTT @ [4]
        else string_bytes str_MQIsdp @ [3]) p" for p
    by (simp add: wire_simps)
  show ?thesis
    using assms(1,3)
    unfolding MQTTSerialize_connect_def Let_def assms(2) version connect_strings_ok_def
    by (simp add: wire_simps write_opt_string write_opt_string2 connect_body_def
        del: msg_code.simps split del: if_split)
qed

interpretation connect_msg: wire_message
  MQTTSerialize_connect MQTTSerialize_connect_size connect_packet connect_ok
proof (unfold_locales, goal_cases)
  case (1 m buflen buf)
  then have len: "MQTTSerialize_connectLength m = int (length (connect_body m))"
    by (simp add: connect_ok_def connectLength_eq)
  with "1" show ?case
    by (simp add: serialize_connect_eq [OF _ len] connect_ok_def MQTTSerialize_connect_size_def
        connect_packet_def packet_bytes_def)
next
  case (2 m buflen buf)
  then show ?case by (simp add: MQTTSerialize_connect_def MQTTSerialize_connect_size_def Let_def)
next
  case (3 m)
  then show ?case
    using MQTTPacket_len_upper [of "connect_body m"]
    by (simp add: connect_ok_def MQTTSerialize_connect_size_def connectLength_eq connect_packet_def)
qed

section \<open>Reading CONNECT back\<close>

text \<open>
  The readers at a cursor: \<open>drop p buf\<close> is what is left of the buffer. Each lemma consumes one
  field and says where the cursor is afterwards.
\<close>

lemma read_string_at:
  assumes "drop p buf = string_bytes str @ rest" and "length str < 65536"
    and "p + 2 + length str \<le> enddata"
  shows "\<exists>s. readMQTTLenString s0 buf p enddata = Some (True, s, p + 2 + length str)
    \<and> mqtt_bytes s = str \<and> drop (p + 2 + length str) buf = rest"
proof -
  have "p \<le> length buf"
  proof (rule ccontr)
    assume "\<not> p \<le> length buf"
    then show False using assms(1) by (simp add: string_bytes_def u16_bytes_def)
  qed
  then have buf: "buf = take p buf @ string_bytes str @ rest" "p = length (take p buf)"
    using append_take_drop_id [of p buf] by (simp_all add: assms(1))
  have "readMQTTLenString s0 (take p buf @ string_bytes str @ rest) p enddata =
      Some (True, \<lparr>cstring = None, lenstring = \<lparr>ls_len = int (length str), ls_data = Some (str @ rest)\<rparr>\<rparr>,
            p + 2 + length str)"
    by (rule readMQTTLenString_enc [OF assms(2) buf(2)]) (use assms(3) in simp)
  moreover have "drop (p + 2 + length str) buf = drop (2 + length str) (drop p buf)"
    by (simp add: ac_simps)
  then have "drop (p + 2 + length str) buf = rest" unfolding assms(1) by (simp add: string_bytes_def)
  ultimately show ?thesis using buf(1) by (simp add: mqtt_bytes_def)
qed

lemma drop_eq_ConsD: "drop p xs = y # ys \<Longrightarrow> p < length xs \<and> xs ! p = y \<and> drop (Suc p) xs = ys"
proof -
  assume d: "drop p xs = y # ys"
  then have "p < length xs" by (cases "p < length xs") auto
  with d show ?thesis by (simp add: Cons_nth_drop_Suc [symmetric])
qed

lemma read_char_at:
  "drop p buf = c # rest \<Longrightarrow> readChar buf p = Some (c, Suc p) \<and> drop (Suc p) buf = rest"
  by (auto dest!: drop_eq_ConsD simp: readChar_def read_byte_def)

lemma read_int_at:
  assumes "drop p buf = u16_bytes n @ rest" and "n < 65536"
  shows "readInt buf p = Some (n, p + 2) \<and> drop (p + 2) buf = rest"
proof -
  have 1: "p < length buf" "buf ! p = of_nat (n div 256)" "drop (Suc p) buf = of_nat (n mod 256) # rest"
    using drop_eq_ConsD [of p buf] assms(1) by (auto simp: u16_bytes_def)
  then have "Suc p < length buf" "buf ! Suc p = of_nat (n mod 256)" "drop (Suc (Suc p)) buf = rest"
    using drop_eq_ConsD [of "Suc p" buf] by auto
  with 1 assms(2) show ?thesis
    by (simp add: readInt_def read_byte_def less_mult_imp_div_less)
qed

definition connect_fields_match :: "MQTTPacket_connectData \<Rightarrow> MQTTPacket_connectData \<Rightarrow> bool" where
  "connect_fields_match d o' \<longleftrightarrow>
     mqtt_bytes (clientID d) = mqtt_bytes (clientID o')
   \<and> keepAliveInterval d = keepAliveInterval o'
   \<and> uint (cleansession d) = uint (cleansession o') mod 2
   \<and> (willFlag d \<noteq> 0 \<longleftrightarrow> willFlag o' \<noteq> 0)
   \<and> (willFlag o' \<noteq> 0 \<longrightarrow>
        mqtt_bytes (will_topicName (will d)) = mqtt_bytes (will_topicName (will o'))
      \<and> mqtt_bytes (will_message (will d)) = mqtt_bytes (will_message (will o'))
      \<and> uint (will_qos (will d)) = uint (will_qos (will o')) mod 4
      \<and> uint (will_retained (will d)) = uint (will_retained (will o')) mod 2)
   \<and> (string_present (username o') \<longrightarrow> mqtt_bytes (username d) = mqtt_bytes (username o'))
   \<and> (string_present (password o') \<longrightarrow> mqtt_bytes (password d) = mqtt_bytes (password o'))"

text \<open>
  What the reader demands beyond the serializer: strings below 64 KiB, a password only together
  with a user name, and three bytes left where it looks for either of them.
\<close>

definition connect_readable :: "MQTTPacket_connectData \<Rightarrow> bool" where
  "connect_readable o' \<longleftrightarrow> MQTTVersion o' \<in> {3, 4}
   \<and> length (mqtt_bytes (clientID o')) < 65536
   \<and> length (mqtt_bytes (will_topicName (will o'))) < 65536
   \<and> length (mqtt_bytes (will_message (will o'))) < 65536
   \<and> length (mqtt_bytes (username o')) < 65536 \<and> length (mqtt_bytes (password o')) < 65536
   \<and> (string_present (password o') \<longrightarrow> string_present (username o') \<and> mqtt_bytes (password o') \<noteq> [])
   \<and> (string_present (username o') \<longrightarrow> mqtt_bytes (username o') \<noteq> [] \<or> string_present (password o'))
   \<and> length (connect_body o') < 268435456"

lemma connect_flags_fields:
  "flags_cleansession (connect_flags o') = uint (cleansession o') mod 2"
  "flags_will (connect_flags o') = (if willFlag o' \<noteq> 0 then 1 else 0)"
  "willFlag o' \<noteq> 0 \<Longrightarrow> flags_willQoS (connect_flags o') = uint (will_qos (will o')) mod 4"
  "willFlag o' \<noteq> 0 \<Longrightarrow> flags_willRetain (connect_flags o') = uint (will_retained (will o')) mod 2"
  "flags_password (connect_flags o') \<noteq> 0 \<longleftrightarrow> string_present (password o')"
  "flags_username (connect_flags o') \<noteq> 0 \<longleftrightarrow> string_present (username o')"
  by (auto simp: connect_flags_def Let_def field_simps_c)

lemma deserialize_connect_auth_at:
  assumes o': "connect_readable o'" and fl: "flags = connect_flags o'"
    and at: "drop p buf = opt_string (string_present (username o')) (username o')
      @ opt_string (string_present (password o')) (password o') @ rest"
    and e: "enddata = p + length (opt_string (string_present (username o')) (username o'))
      + length (opt_string (string_present (password o')) (password o'))"
  shows "\<exists>u pw. deserialize_connect_auth flags d buf p enddata = Some (1, d\<lparr>username := u, password := pw\<rparr>)
    \<and> (string_present (username o') \<longrightarrow> mqtt_bytes u = mqtt_bytes (username o'))
    \<and> (string_present (password o') \<longrightarrow> mqtt_bytes pw = mqtt_bytes (password o'))"
proof (cases "string_present (username o')")
  case True
  let ?u = "mqtt_bytes (username o')"
  have u: "length ?u < 65536" "drop p buf = string_bytes ?u
      @ opt_string (string_present (password o')) (password o') @ rest"
    "p + 2 + length ?u \<le> enddata"
    using True at e o' by (auto simp: opt_string_def connect_readable_def)
  from read_string_at [OF u(2,1,3), of "username d"] obtain s where
    s: "readMQTTLenString (username d) buf p enddata = Some (True, s, p + 2 + length ?u)"
      "mqtt_bytes s = ?u"
      "drop (p + 2 + length ?u) buf = opt_string (string_present (password o')) (password o') @ rest"
    by blast
  have three: "\<not> int enddata - int p < 3"
    using o' True e by (cases ?u) (auto simp: connect_readable_def opt_string_def)
  show ?thesis
  proof (cases "string_present (password o')")
    case pw: True
    let ?w = "mqtt_bytes (password o')"
    have w: "length ?w < 65536" "drop (p + 2 + length ?u) buf = string_bytes ?w @ rest"
      "p + 2 + length ?u + 2 + length ?w \<le> enddata" "\<not> int enddata - int (p + 2 + length ?u) < 3"
      using pw s(3) e o' True by (auto simp: opt_string_def connect_readable_def)
    from read_string_at [OF w(2,1,3), of "password (d\<lparr>username := s\<rparr>)"] obtain t where
      t: "readMQTTLenString (password d) buf (p + 2 + length ?u) enddata
          = Some (True, t, p + 2 + length ?u + 2 + length ?w)" "mqtt_bytes t = ?w"
      by auto
    have "deserialize_connect_auth flags d buf p enddata = Some (1, d\<lparr>username := s, password := t\<rparr>)"
      using True pw s t three w(4)
      by (simp add: deserialize_connect_auth_def fl connect_flags_fields)
    then show ?thesis using s t by blast
  next
    case False
    have "deserialize_connect_auth flags d buf p enddata
        = Some (1, d\<lparr>username := s, password := password d\<rparr>)"
      using True False s three
      by (cases d) (simp add: deserialize_connect_auth_def fl connect_flags_fields)
    then show ?thesis using s False by blast
  qed
next
  case False
  then have "\<not> string_present (password o')" using o' by (auto simp: connect_readable_def)
  with False have "deserialize_connect_auth flags d buf p enddata
      = Some (1, d\<lparr>username := username d, password := password d\<rparr>)"
    by (cases d) (simp add: deserialize_connect_auth_def fl connect_flags_fields)
  with False \<open>\<not> string_present (password o')\<close> show ?thesis by blast
qed

lemma deserialize_connect_will_at:
  assumes o': "connect_readable o'" and fl: "flags = connect_flags o'"
    and at: "drop p buf = opt_string (willFlag o' \<noteq> 0) (will_topicName (will o'))
      @ opt_string (willFlag o' \<noteq> 0) (will_message (will o'))
      @ opt_string (string_present (username o')) (username o')
      @ opt_string (string_present (password o')) (password o') @ rest"
    and e: "enddata = p + length (opt_string (willFlag o' \<noteq> 0) (will_topicName (will o')))
      + length (opt_string (willFlag o' \<noteq> 0) (will_message (will o')))
      + length (opt_string (string_present (username o')) (username o'))
      + length (opt_string (string_present (password o')) (password o'))"
  shows "\<exists>w u pw. deserialize_connect_will flags d buf p enddata
      = Some (1, d\<lparr>will := w, username := u, password := pw\<rparr>)
    \<and> (willFlag o' \<noteq> 0 \<longrightarrow> mqtt_bytes (will_topicName w) = mqtt_bytes (will_topicName (will o'))
        \<and> mqtt_bytes (will_message w) = mqtt_bytes (will_message (will o'))
        \<and> uint (will_qos w) = uint (will_qos (will o')) mod 4
        \<and> uint (will_retained w) = uint (will_retained (will o')) mod 2)
    \<and> (string_present (username o') \<longrightarrow> mqtt_bytes u = mqtt_bytes (username o'))
    \<and> (string_present (password o') \<longrightarrow> mqtt_bytes pw = mqtt_bytes (password o'))"
proof (cases "willFlag o' \<noteq> 0")
  case True
  let ?t = "mqtt_bytes (will_topicName (will o'))" and ?m = "mqtt_bytes (will_message (will o'))"
  let ?auth = "opt_string (string_present (username o')) (username o')
      @ opt_string (string_present (password o')) (password o') @ rest"
  define w0 where "w0 = (will d)\<lparr>will_qos := word_of_int (flags_willQoS flags),
    will_retained := word_of_int (flags_willRetain flags)\<rparr>"
  have t: "length ?t < 65536" "drop p buf = string_bytes ?t @ string_bytes ?m @ ?auth"
    "p + 2 + length ?t \<le> enddata"
    using True at e o' by (auto simp: opt_string_def connect_readable_def)
  from read_string_at [OF t(2,1,3), of "will_topicName w0"] obtain s where
    s: "readMQTTLenString (will_topicName w0) buf p enddata = Some (True, s, p + 2 + length ?t)"
      "mqtt_bytes s = ?t" "drop (p + 2 + length ?t) buf = string_bytes ?m @ ?auth"
    by blast
  have m: "length ?m < 65536" "p + 2 + length ?t + 2 + length ?m \<le> enddata"
    using True e o' by (auto simp: opt_string_def connect_readable_def)
  from read_string_at [OF s(3) m, of "will_message w0"] obtain s' where
    s': "readMQTTLenString (will_message w0) buf (p + 2 + length ?t) enddata
        = Some (True, s', p + 2 + length ?t + 2 + length ?m)"
      "mqtt_bytes s' = ?m" "drop (p + 2 + length ?t + 2 + length ?m) buf = ?auth"
    by blast
  define w where "w = w0\<lparr>will_topicName := s, will_message := s'\<rparr>"
  have e': "enddata = p + 2 + length ?t + 2 + length ?m
      + length (opt_string (string_present (username o')) (username o'))
      + length (opt_string (string_present (password o')) (password o'))"
    using True e by (simp add: opt_string_def)
  from deserialize_connect_auth_at [OF o' fl s'(3) e', of "d\<lparr>will := w\<rparr>"] obtain u pw where
    a: "deserialize_connect_auth flags (d\<lparr>will := w\<rparr>) buf (p + 2 + length ?t + 2 + length ?m) enddata
        = Some (1, d\<lparr>will := w, username := u, password := pw\<rparr>)"
      "string_present (username o') \<longrightarrow> mqtt_bytes u = mqtt_bytes (username o')"
      "string_present (password o') \<longrightarrow> mqtt_bytes pw = mqtt_bytes (password o')"
    by auto
  have r: "deserialize_connect_will flags d buf p enddata
      = Some (1, d\<lparr>will := w, username := u, password := pw\<rparr>)"
  proof -
    have "flags_will flags \<noteq> 0" using True by (simp add: fl connect_flags_fields)
    with s(1) s'(1) a(1) show ?thesis
      unfolding deserialize_connect_will_def w0_def [symmetric] by (simp add: w_def)
  qed
  have "mqtt_bytes (will_topicName w) = ?t" "mqtt_bytes (will_message w) = ?m"
    "uint (will_qos w) = uint (will_qos (will o')) mod 4"
    "uint (will_retained w) = uint (will_retained (will o')) mod 2"
    using s s' True by (simp_all add: w_def w0_def fl connect_flags_fields)
  with r a show ?thesis by blast
next
  case False
  with at e have "drop p buf = opt_string (string_present (username o')) (username o')
      @ opt_string (string_present (password o')) (password o') @ rest"
    and "enddata = p + length (opt_string (string_present (username o')) (username o'))
      + length (opt_string (string_present (password o')) (password o'))"
    by (simp_all add: opt_string_def)
  from deserialize_connect_auth_at [OF o' fl this, of d] obtain u pw where
    a: "deserialize_connect_auth flags d buf p enddata = Some (1, d\<lparr>username := u, password := pw\<rparr>)"
      "string_present (username o') \<longrightarrow> mqtt_bytes u = mqtt_bytes (username o')"
      "string_present (password o') \<longrightarrow> mqtt_bytes pw = mqtt_bytes (password o')"
    by auto
  then have "deserialize_connect_will flags d buf p enddata
      = Some (1, d\<lparr>will := will d, username := u, password := pw\<rparr>)"
    using False by (cases d) (simp add: deserialize_connect_will_def fl connect_flags_fields)
  with a False show ?thesis by blast
qed

lemma checkVersion_ok:
  assumes "v = 4 \<and> name = str_MQTT \<or> v = 3 \<and> name = str_MQIsdp"
  shows "MQTTPacket_checkVersion
    \<lparr>cstring = None, lenstring = \<lparr>ls_len = int (length name), ls_data = Some (name @ rest)\<rparr>\<rparr> v = Some True"
  using assms by (auto simp: MQTTPacket_checkVersion_def memcmp_name_def bytes_at_def)

lemma deserialize_connect_packet:
  assumes o': "connect_readable o'"
  shows "\<exists>d'. MQTTDeserialize_connect sg d (connect_packet o' @ post) (length (connect_packet o'))
    = Some (1, d') \<and> connect_fields_match d' o'"
proof -
  define name v where "name = (if MQTTVersion o' = 4 then str_MQTT else str_MQIsdp)"
    and "v = (if MQTTVersion o' = 4 then 4 else 3 :: u8)"
  define h where "h = MQTTHeader_byte (msg_code CONNECT) 0 0 0"
  define buf where "buf = packet_bytes h (connect_body o') @ post"
  define k where "k = length (rem_len_bytes (length (connect_body o')))"
  let ?e = "length (connect_packet o')"
  let ?c = "mqtt_bytes (clientID o')"
  let ?opt = "opt_string (willFlag o' \<noteq> 0) (will_topicName (will o'))
      @ opt_string (willFlag o' \<noteq> 0) (will_message (will o'))
      @ opt_string (string_present (username o')) (username o')
      @ opt_string (string_present (password o')) (password o')"
  have len: "length (connect_body o') < 268435456" "length ?c < 65536"
    using o' by (simp_all add: connect_readable_def)
  have body: "connect_body o' = string_bytes name @ v # connect_flags o'
      # u16_bytes (unat (keepAliveInterval o')) @ string_bytes ?c @ ?opt"
    by (simp add: connect_body_def name_def v_def)
  have e: "?e = Suc k + length (connect_body o')"
    by (simp add: connect_packet_def packet_bytes_def k_def)
  have rd: "readChar buf 0 = Some (h, Suc 0)"
    "MQTTPacket_decodeBuf buf (Suc 0) = Some (k, length (connect_body o'))"
    using readChar_packet decodeBuf_packet [OF len(1)] by (simp_all add: buf_def k_def)
  have d0: "drop (Suc k) buf = string_bytes name @ v # connect_flags o'
      # u16_bytes (unat (keepAliveInterval o')) @ string_bytes ?c @ ?opt @ post"
    by (simp add: buf_def packet_bytes_def k_def body del: length_append)
  let ?p1 = "Suc k + 2 + length name"
  have nm: "length name < 65536" "?p1 \<le> ?e" by (simp_all add: name_def str_MQTT_def str_MQIsdp_def e body)
  have pre: "buf = take (Suc k) buf @ string_bytes name @ (v # connect_flags o'
      # u16_bytes (unat (keepAliveInterval o')) @ string_bytes ?c @ ?opt @ post)"
    "Suc k = length (take (Suc k) buf)"
    using append_take_drop_id [of "Suc k" buf] d0
    by (simp_all add: buf_def packet_bytes_def k_def)
  define proto where "proto = \<lparr>cstring = None, lenstring = \<lparr>ls_len = int (length name), ls_data =
      Some (name @ v # connect_flags o' # u16_bytes (unat (keepAliveInterval o')) @ string_bytes ?c
        @ ?opt @ post)\<rparr>\<rparr>"
  have r1: "readMQTTLenString MQTTString_initializer buf (Suc k) ?e = Some (True, proto, ?p1)"
    unfolding proto_def by (subst pre(1), rule readMQTTLenString_enc [OF nm(1) pre(2)])
      (use nm(2) in simp)
  from read_string_at [OF d0 nm(1) nm(2)] have d1: "drop ?p1 buf = v # connect_flags o'
      # u16_bytes (unat (keepAliveInterval o')) @ string_bytes ?c @ ?opt @ post" by blast
  note c1 = read_char_at [OF d1]
  note c2 = read_char_at [OF conjunct2 [OF c1]]
  note c3 = read_int_at [OF conjunct2 [OF c2] unat_u16_less]
  let ?p2 = "Suc (Suc ?p1) + 2"
  have cid: "?p2 + 2 + length ?c \<le> ?e" by (simp add: e body)
  from read_string_at [OF conjunct2 [OF c3] len(2) cid, of "clientID d"] obtain s where
    s: "readMQTTLenString (clientID d) buf ?p2 ?e = Some (True, s, ?p2 + 2 + length ?c)"
      "mqtt_bytes s = ?c" "drop (?p2 + 2 + length ?c) buf = ?opt @ post"
    by blast
  have version: "MQTTPacket_checkVersion proto (char_to_int sg v) = Some True"
    unfolding proto_def by (rule checkVersion_ok) (auto simp: name_def v_def)
  define d1' where "d1' = d\<lparr>cleansession := word_of_int (flags_cleansession (connect_flags o')),
     keepAliveInterval := of_nat (unat (keepAliveInterval o')), clientID := s,
     willFlag := word_of_int (flags_will (connect_flags o'))\<rparr>"
  have e2: "?e = ?p2 + 2 + length ?c + length (opt_string (willFlag o' \<noteq> 0) (will_topicName (will o')))
      + length (opt_string (willFlag o' \<noteq> 0) (will_message (will o')))
      + length (opt_string (string_present (username o')) (username o'))
      + length (opt_string (string_present (password o')) (password o'))"
    by (simp add: e body)
  from deserialize_connect_will_at [OF o' refl s(3) [simplified append_assoc] e2, of d1']
  obtain w u pw where a: "deserialize_connect_will (connect_flags o') d1' buf (?p2 + 2 + length ?c) ?e
      = Some (1, d1'\<lparr>will := w, username := u, password := pw\<rparr>)"
    and m: "willFlag o' \<noteq> 0 \<longrightarrow> mqtt_bytes (will_topicName w) = mqtt_bytes (will_topicName (will o'))
        \<and> mqtt_bytes (will_message w) = mqtt_bytes (will_message (will o'))
        \<and> uint (will_qos w) = uint (will_qos (will o')) mod 4
        \<and> uint (will_retained w) = uint (will_retained (will o')) mod 2"
      "string_present (username o') \<longrightarrow> mqtt_bytes u = mqtt_bytes (username o')"
      "string_present (password o') \<longrightarrow> mqtt_bytes pw = mqtt_bytes (password o')"
    by blast
  have "MQTTDeserialize_connect sg d buf ?e = Some (1, d1'\<lparr>will := w, username := u, password := pw\<rparr>)"
    using rd r1 nm(2) c1 c2 c3 version s(1) a
    by (simp add: MQTTDeserialize_connect_def h_def field_simps_c d1'_def)
  moreover have "connect_fields_match (d1'\<lparr>will := w, username := u, password := pw\<rparr>) o'"
    using m s(2)
    by (auto simp: connect_fields_match_def d1'_def connect_flags_fields)
  ultimately show ?thesis by (simp add: buf_def h_def connect_packet_def)
qed

section \<open>CONNACK\<close>

definition connack_packet :: "u8 \<Rightarrow> u8 \<Rightarrow> u8 list" where
  "connack_packet sessionPresent connack_rc =
     packet_bytes (MQTTHeader_byte (msg_code CONNACK) 0 0 0) [sessionPresent, connack_rc]"

lemma length_connack_packet [simp]: "length (connack_packet sp rc) = 4"
  by (simp add: connack_packet_def packet_bytes_def rem_len_bytes.simps)

lemma deserialize_connack_packet:
  "uint sp < 2 \<Longrightarrow> MQTTDeserialize_connack (connack_packet sp rc @ post) old = Some (1, sp, rc)"
  by (simp add: MQTTDeserialize_connack_def connack_packet_def packet_bytes_def rem_len_bytes.simps
      readChar_def read_byte_def MQTTPacket_decodeBuf_def MQTTPacket_decode_def
      MQTTPacket_decode_loop.simps bufchar_def Let_def field_simps_c and_128_eq_0 unat_and_127)

lemma serialize_connack_eq:
  "2 \<le> buflen \<Longrightarrow> MQTTSerialize_connack buf buflen rc sp = do {
     (b, n) \<leftarrow> write_bytes (connack_packet (word_of_int (uint sp mod 2)) rc) (buf, 0); Some (int n, b) }"
  by (simp add: MQTTSerialize_connack_def wire_simps connack_packet_def packet_bytes_def
      numeral_2_eq_2)

section \<open>SUBACK and UNSUBACK\<close>

definition suback_packet :: "u16 \<Rightarrow> u8 list \<Rightarrow> u8 list" where
  "suback_packet pid qs = packet_bytes (MQTTHeader_byte (msg_code SUBACK) 0 0 0) (u16_bytes (unat pid) @ qs)"

lemma suback_loop_enc:
  assumes "int (length acc) + int (length qs) \<le> maxcount" and "length acc + length qs \<le> cap"
    and "p = length pre" and "enddata = p + length qs"
  shows "suback_loop sg cap maxcount (pre @ qs @ post) p enddata acc
    = Some (True, acc @ map (char_to_int sg) qs)"
  using assms
proof (induction qs arbitrary: pre p acc)
  case Nil
  then show ?case by (simp add: suback_loop.simps)
next
  case (Cons q qs)
  have "suback_loop sg cap maxcount ((pre @ [q]) @ qs @ post) (Suc p) enddata (acc @ [char_to_int sg q])
      = Some (True, (acc @ [char_to_int sg q]) @ map (char_to_int sg) qs)"
    by (rule Cons.IH) (use Cons.prems in auto)
  then show ?case using Cons.prems
    by (subst suback_loop.simps) (simp add: readChar_def read_byte_append)
qed

text \<open>Never more than \<open>maxcount\<close> results, and never a store past the array.\<close>

lemma suback_loop_bounds:
  "suback_loop sg cap maxcount buf p enddata acc = Some (r, res) \<Longrightarrow> length acc \<le> cap \<Longrightarrow>
     int (length acc) \<le> maxcount \<Longrightarrow> length res \<le> cap \<and> int (length res) \<le> maxcount"
proof (induction sg cap maxcount buf p enddata acc rule: suback_loop.induct)
  case (1 sg cap maxcount buf p enddata acc)
  show ?case
  proof (cases "p < enddata \<and> int (length acc) < maxcount")
    case False
    then show ?thesis using "1.prems" by (subst (asm) suback_loop.simps) (auto split: if_splits)
  next
    case True
    with "1.prems"(1) obtain c p' where c: "readChar buf p = Some (c, p')" and "length acc < cap"
      and rec: "suback_loop sg cap maxcount buf (Suc p) enddata (acc @ [char_to_int sg c]) = Some (r, res)"
      by (subst (asm) suback_loop.simps) (auto simp: bind_eq_Some_conv split: if_splits)
    then show ?thesis using "1.IH" [OF _ _ c refl] True by simp
  qed
qed

lemma suback_loop_safe:
  assumes "maxcount \<le> int cap" and "enddata \<le> length buf"
  shows "\<exists>r res. suback_loop sg cap maxcount buf p enddata acc = Some (r, res)"
proof (induction "enddata - p" arbitrary: p acc)
  case 0
  then show ?case by (subst suback_loop.simps) auto
next
  case (Suc n)
  then have p: "p < enddata" "n = enddata - Suc p" by simp_all
  show ?case
  proof (cases "int (length acc) \<ge> maxcount")
    case True
    then show ?thesis using p by (subst suback_loop.simps) auto
  next
    case False
    have "readChar buf p = Some (buf ! p, Suc p)"
      using p assms(2) by (simp add: readChar_def read_byte_def)
    with False p assms Suc.hyps(1) [of "Suc p"] show ?thesis
      by (subst suback_loop.simps) simp
  qed
qed

lemma deserialize_suback_packet:
  assumes "int (length qs) \<le> maxcount" and "length qs \<le> cap" and "length qs < 268435454"
  shows "MQTTDeserialize_suback sg cap maxcount old (suback_packet pid qs @ post)
    = Some (1, pid, map (char_to_int sg) qs)"
proof -
  define h where "h = MQTTHeader_byte (msg_code SUBACK) 0 0 0"
  define body where "body = u16_bytes (unat pid) @ qs"
  define buf where "buf = packet_bytes h body @ post"
  have len: "length body < 268435456" using assms(3) by (simp add: body_def)
  from read_id_body [OF len body_def, of h post, folded buf_def] obtain k where
    rd: "readChar buf 0 = Some (h, Suc 0)" "MQTTPacket_decodeBuf buf (Suc 0) = Some (k, length body)"
      "readInt buf (Suc k) = Some (unat pid, Suc k + 2)"
    and buf: "buf = (h # rem_len_bytes (length body) @ u16_bytes (unat pid)) @ qs @ post"
    and k: "Suc k + 2 = length (h # rem_len_bytes (length body) @ u16_bytes (unat pid))"
    by blast
  have "suback_loop sg cap maxcount buf (Suc k + 2) (Suc k + length body) []
      = Some (True, [] @ map (char_to_int sg) qs)"
    unfolding buf by (rule suback_loop_enc [OF _ _ k]) (use assms in \<open>simp_all add: body_def\<close>)
  moreover have "header_type h = msg_code SUBACK" by (simp add: h_def field_simps_c)
  moreover have "\<not> length body < 2" by (simp add: body_def)
  ultimately have "MQTTDeserialize_suback sg cap maxcount old buf = Some (1, pid, map (char_to_int sg) qs)"
    using rd by (simp add: MQTTDeserialize_suback_def)
  then show ?thesis by (simp add: buf_def body_def h_def suback_packet_def)
qed

section \<open>Where the claimed length is checked too weakly\<close>

lemma serialize_suback_eq:
  assumes "2 + int (length qs) \<le> buflen"
  shows "MQTTSerialize_suback buf buflen pid qs = do {
     (b, n) \<leftarrow> write_bytes (suback_packet pid (map word_of_int qs)) (buf, 0); Some (int n, b) }"
proof -
  have wr: "\<forall>q\<in>set qs. \<forall>bp. write_bytes [word_of_int q] bp = write_bytes [word_of_int q] bp"
    by simp
  have rl: "write_rem_len (2 + int (length qs)) = write_bytes (rem_len_bytes (Suc (Suc (length qs))))"
    using write_rem_len_eq [of "Suc (Suc (length qs))"] by (intro ext) simp
  show ?thesis using assms
    unfolding MQTTSerialize_suback_def Let_def
    by (simp add: wire_simps rl write_bytes_write_all [OF wr] suback_packet_def packet_bytes_def
        concat_map_singleton)
qed

lemma write_bytes_at_0_None: "write_bytes bs (b, 0) = None \<longleftrightarrow> length b < length bs"
  by (auto simp: write_bytes_def)

lemma serialize_connack_overrun:
  "MQTTSerialize_connack buf buflen rc sp = None \<longleftrightarrow> 2 \<le> buflen \<and> length buf < 4"
proof (cases "2 \<le> buflen")
  case True
  then show ?thesis
    by (simp add: serialize_connack_eq Option.bind_eq_None_conv write_bytes_at_0_None split_beta)
next
  case False
  then show ?thesis by (simp add: MQTTSerialize_connack_def)
qed

lemma serialize_unsuback_overrun:
  "MQTTSerialize_unsuback buf buflen pid = None \<longleftrightarrow> 2 \<le> buflen \<and> length buf < 4"
proof (cases "2 \<le> buflen")
  case True
  then have "MQTTSerialize_unsuback buf buflen pid = do {
      (b, n) \<leftarrow> write_bytes (ack_packet UNSUBACK 0 pid) (buf, 0); Some (int n, b) }"
    by (simp add: MQTTSerialize_unsuback_def wire_simps ack_packet_def packet_bytes_def)
  with True show ?thesis by (simp add: Option.bind_eq_None_conv write_bytes_at_0_None split_beta)
next
  case False
  then show ?thesis by (simp add: MQTTSerialize_unsuback_def)
qed

lemma serialize_suback_overrun:
  "MQTTSerialize_suback buf buflen pid qs = None \<longleftrightarrow>
     2 + int (length qs) \<le> buflen \<and> length buf < length (suback_packet pid (map word_of_int qs))"
proof (cases "2 + int (length qs) \<le> buflen")
  case True
  then show ?thesis
    by (simp add: serialize_suback_eq Option.bind_eq_None_conv write_bytes_at_0_None split_beta)
next
  case False
  then show ?thesis by (simp add: MQTTSerialize_suback_def Let_def)
qed

end
