(* ===== verification/Linked_Queue.thy ===== *)
theory Linked_Queue
  imports Prelude
begin

text \<open>
  The singly linked queues of the SDK, with their pointers. \<^verbatim>\<open>src/mqtt/client/iot_mqtt_client.c\<close>
  (packet chunks) and \<^verbatim>\<open>src/iot_util.c\<close> (work items) link their nodes in the same way: a head and
  a tail pointer, and a \<open>next\<close> field per node. The heap maps the addresses of the live nodes to
  their contents; reading or writing a node that is not there is undefined and yields
  \<^const>\<open>None\<close>. The theory defines the pointer operations both files share, the relation \<open>rep\<close>
  between a queue and the list of its nodes, and the interface \<open>queue_rep\<close> through which the two
  components use the operations.
\<close>

section \<open>Pointer operations\<close>

record 'a node =
  val :: 'a
  nxt :: "nat option"

type_synonym 'a heap = "nat \<rightharpoonup> 'a node"

text \<open>\<open>q_sem\<close> says whether the queue's lock exists: taking a lock succeeds exactly when it does.\<close>

record queue =
  q_head :: "nat option"
  q_tail :: "nat option"
  q_sem :: bool

definition set_nxt :: "'a heap \<Rightarrow> nat \<Rightarrow> nat option \<Rightarrow> 'a heap option" where
  "set_nxt h a p = do { n \<leftarrow> h a; Some (h(a \<mapsto> n\<lparr>nxt := p\<rparr>)) }"

text \<open>Appending a node: \<open>tail->next = node; tail = node\<close>.\<close>

definition link_push :: "'a heap \<Rightarrow> queue \<Rightarrow> nat \<Rightarrow> ('a heap \<times> queue) option" where
  "link_push h q a = (case (q_head q, q_tail q) of
     (Some _, Some t) \<Rightarrow> do { h' \<leftarrow> set_nxt h t (Some a); Some (h', q\<lparr>q_tail := Some a\<rparr>) }
   | _ \<Rightarrow> Some (h, q\<lparr>q_head := Some a, q_tail := Some a\<rparr>))"

text \<open>Removing the first node.\<close>

definition link_pop :: "'a heap \<Rightarrow> queue \<Rightarrow> (nat option \<times> 'a heap \<times> queue) option" where
  "link_pop h q = (case (q_head q, q_tail q) of
     (Some a, Some t) \<Rightarrow>
       if a = t then Some (Some a, h, q\<lparr>q_head := None, q_tail := None\<rparr>)
       else do { n \<leftarrow> h a; h' \<leftarrow> set_nxt h a None; Some (Some a, h', q\<lparr>q_head := nxt n\<rparr>) }
   | _ \<Rightarrow> Some (None, h, q))"

text \<open>
  Removing the first node with a property, searching from the second node on: the \<open>while\<close> loop
  looks at \<open>iterator->next\<close> and unlinks it. The loop follows pointers, so it returns only where
  they end.
\<close>

partial_function (option) link_search ::
  "('a \<Rightarrow> bool) \<Rightarrow> 'a heap \<Rightarrow> nat option \<Rightarrow> nat \<Rightarrow> (nat option \<times> 'a heap \<times> nat option) option" where
  "link_search P h tail iterator = do {
     n \<leftarrow> h iterator;
     case nxt n of
       None \<Rightarrow> Some (None, h, tail)
     | Some b \<Rightarrow> do {
         m \<leftarrow> h b;
         if P (val m)
         then do {
           h1 \<leftarrow> set_nxt h iterator (nxt m);
           h2 \<leftarrow> set_nxt h1 b None;
           Some (Some b, h2, if Some b = tail then Some iterator else tail) }
         else link_search P h tail b } }"

definition link_pop_by ::
  "('a \<Rightarrow> bool) \<Rightarrow> 'a heap \<Rightarrow> queue \<Rightarrow> (nat option \<times> 'a heap \<times> queue) option" where
  "link_pop_by P h q = (case (q_head q, q_tail q) of
     (Some a, Some t) \<Rightarrow> do {
       n \<leftarrow> h a;
       if a = t
       then (if P (val n) then Some (Some a, h, q\<lparr>q_head := None, q_tail := None\<rparr>)
             else Some (None, h, q))
       else if P (val n)
       then do { h' \<leftarrow> set_nxt h a None; Some (Some a, h', q\<lparr>q_head := nxt n\<rparr>) }
       else do { (r, h', tail') \<leftarrow> link_search P h (q_tail q) a; Some (r, h', q\<lparr>q_tail := tail'\<rparr>) } }
   | _ \<Rightarrow> Some (None, h, q))"

section \<open>Queues as lists\<close>

text \<open>\<open>path h p as\<close>: following \<open>next\<close> from \<open>p\<close> visits the nodes \<open>as\<close> and ends.\<close>

fun path :: "'a heap \<Rightarrow> nat option \<Rightarrow> nat list \<Rightarrow> bool" where
  "path h p [] \<longleftrightarrow> p = None"
| "path h p (a # as) \<longleftrightarrow> p = Some a \<and> (\<exists>n. h a = Some n \<and> path h (nxt n) as)"

definition rep :: "'a heap \<Rightarrow> queue \<Rightarrow> nat list \<Rightarrow> bool" where
  "rep h q as \<longleftrightarrow> path h (q_head q) as \<and> distinct as
     \<and> q_tail q = (if as = [] then None else Some (last as))"

definition vals :: "'a heap \<Rightarrow> nat \<Rightarrow> 'a option" where
  "vals h a = map_option val (h a)"

declare fun_upd_apply [simp del] fun_upd_same [simp] fun_upd_other [simp]

lemma dom_vals: "dom (vals h) = dom h"
  by (auto simp: vals_def dom_def)

lemma path_cong:
  "(\<And>a. a \<in> set as \<Longrightarrow> map_option nxt (h' a) = map_option nxt (h a)) \<Longrightarrow> path h' p as = path h p as"
proof (induction as arbitrary: p)
  case (Cons a as)
  then have "map_option nxt (h' a) = map_option nxt (h a)" by simp
  then show ?case using Cons by (cases "h a"; cases "h' a") auto
qed simp

lemma path_dom: "path h p as \<Longrightarrow> set as \<subseteq> dom h"
  by (induction as arbitrary: p) auto


lemma path_hd: "path h p as \<Longrightarrow> p = (if as = [] then None else Some (hd as))"
  by (cases as) auto

text \<open>The link field of the last node is null; changing it extends the path.\<close>

lemma path_last: "path h p as \<Longrightarrow> as \<noteq> [] \<Longrightarrow> \<exists>n. h (last as) = Some n \<and> nxt n = None"
  by (induction as arbitrary: p) (auto split: if_splits simp: neq_Nil_conv)

lemma path_snoc:
  assumes "path h p as" and "distinct as" and "as \<noteq> []" and "h (last as) = Some n"
    and "h a = Some m" and "nxt m = None" and "a \<notin> set as"
  shows "path (h(last as \<mapsto> n\<lparr>nxt := Some a\<rparr>)) p (as @ [a])"
  using assms
proof (induction as arbitrary: p)
  case (Cons x xs)
  then obtain k where k: "h x = Some k" "path h (nxt k) xs" "p = Some x" by auto
  show ?case
  proof (cases "xs = []")
    case True
    with Cons.prems k show ?thesis by auto
  next
    case False
    then have "path (h(last xs \<mapsto> n\<lparr>nxt := Some a\<rparr>)) (nxt k) (xs @ [a])"
      by (intro Cons.IH) (use Cons.prems k False in auto)
    moreover have "x \<noteq> last xs" using Cons.prems(2) False by auto
    ultimately show ?thesis using k False by simp
  qed
qed simp

lemma set_nxt_Some: "h a = Some n \<Longrightarrow> set_nxt h a p = Some (h(a \<mapsto> n\<lparr>nxt := p\<rparr>))"
  by (simp add: set_nxt_def)

lemma vals_upd_nxt [simp]: "h a = Some n \<Longrightarrow> vals (h(a \<mapsto> n\<lparr>nxt := p\<rparr>)) = vals h"
  by (auto simp: vals_def fun_eq_iff fun_upd_apply)

section \<open>The operations on lists\<close>

text \<open>What a node popped or pushed must look like: live, with a null link.\<close>

definition detached :: "'a heap \<Rightarrow> nat \<Rightarrow> bool" where
  "detached h a \<longleftrightarrow> (\<exists>n. h a = Some n \<and> nxt n = None)"

lemma rep_Nil: "rep h q [] \<longleftrightarrow> q_head q = None \<and> q_tail q = None"
  by (auto simp: rep_def)

lemma rep_ConsD:
  assumes "rep h q (a # as)"
  shows "q_head q = Some a" and "q_tail q = Some (last (a # as))"
    and "\<exists>n. h a = Some n \<and> path h (nxt n) as" and "a \<notin> set as" and "distinct as"
  using assms by (auto simp: rep_def)

lemma link_push_rep:
  assumes "rep h q as" and "detached h a" and "a \<notin> set as"
  shows "\<exists>h' q'. link_push h q a = Some (h', q') \<and> rep h' q' (as @ [a]) \<and> vals h' = vals h
    \<and> (\<forall>b. b \<notin> set as \<longrightarrow> h' b = h b) \<and> q_sem q' = q_sem q"
proof (cases "as = []")
  case True
  then show ?thesis using assms by (auto simp: rep_def link_push_def detached_def)
next
  case False
  obtain n where n: "h (last as) = Some n" using assms(1) False path_last by (force simp: rep_def)
  obtain m where m: "h a = Some m" "nxt m = None" using assms(2) by (auto simp: detached_def)
  let ?h = "h(last as \<mapsto> n\<lparr>nxt := Some a\<rparr>)"
  have hd: "q_head q = Some (hd as)" "q_tail q = Some (last as)"
    using assms(1) False path_hd by (fastforce simp: rep_def)+
  then have "link_push h q a = Some (?h, q\<lparr>q_tail := Some a\<rparr>)"
    by (simp add: link_push_def set_nxt_def n)
  moreover have "rep ?h (q\<lparr>q_tail := Some a\<rparr>) (as @ [a])"
    using assms False path_snoc [OF _ _ False n m assms(3)] by (auto simp: rep_def)
  moreover have "\<forall>b. b \<notin> set as \<longrightarrow> ?h b = h b" using False by (auto simp: fun_upd_apply)
  ultimately show ?thesis using n by (intro exI [of _ ?h] exI) auto
qed

lemma link_pop_Nil: "rep h q [] \<Longrightarrow> link_pop h q = Some (None, h, q)"
  by (simp add: rep_Nil link_pop_def)

text \<open>Unlinking the head of a queue with more nodes, as both removals do.\<close>

lemma rep_unlink_head:
  assumes "rep h q (a # as)" and "as \<noteq> []" and "h a = Some n"
  shows "rep (h(a \<mapsto> n\<lparr>nxt := None\<rparr>)) (q\<lparr>q_head := nxt n\<rparr>) as"
proof -
  have "path (h(a \<mapsto> n\<lparr>nxt := None\<rparr>)) (nxt n) as = path h (nxt n) as"
    by (rule path_cong) (use rep_ConsD(4) [OF assms(1)] in \<open>auto simp: fun_upd_apply\<close>)
  then show ?thesis using assms by (auto simp: rep_def)
qed

lemma rep_single: "rep h q [a] \<Longrightarrow> detached h a \<and> q_head q = q_tail q"
  by (auto simp: rep_def detached_def)

lemma link_pop_Cons:
  assumes "rep h q (a # as)"
  shows "\<exists>h' q'. link_pop h q = Some (Some a, h', q') \<and> rep h' q' as \<and> detached h' a
    \<and> vals h' = vals h \<and> (\<forall>b. b \<noteq> a \<longrightarrow> h' b = h b) \<and> q_sem q' = q_sem q"
proof (cases "as = []")
  case True
  then show ?thesis using assms rep_single [of h q a]
    by (auto simp: rep_def link_pop_def)
next
  case False
  obtain n where n: "h a = Some n" using rep_ConsD(3) [OF assms] by blast
  have "a \<noteq> last as" using rep_ConsD(4) [OF assms] False by auto
  then have "link_pop h q = Some (Some a, h(a \<mapsto> n\<lparr>nxt := None\<rparr>), q\<lparr>q_head := nxt n\<rparr>)"
    using rep_ConsD(1,2) [OF assms] False by (simp add: link_pop_def n set_nxt_def)
  with rep_unlink_head [OF assms False n] show ?thesis using n
    by (intro exI [of _ "h(a \<mapsto> n\<lparr>nxt := None\<rparr>)"] exI) (auto simp: detached_def)
qed

text \<open>The search loop, started at a node \<open>x\<close> that does not qualify.\<close>

lemma link_search_none:
  assumes "path h (Some x) (x # as)" and "\<forall>b\<in>set as. \<forall>v. vals h b = Some v \<longrightarrow> \<not> P v"
  shows "link_search P h tail x = Some (None, h, tail)"
  using assms
proof (induction as arbitrary: x)
  case Nil
  then show ?case by (auto simp: link_search.simps)
next
  case (Cons b bs)
  then obtain n m where "h x = Some n" "nxt n = Some b" "h b = Some m" by auto
  then have "link_search P h tail x = link_search P h tail b"
    using Cons.prems(2) by (simp add: link_search.simps [of P h tail x] vals_def)
  moreover have "path h (Some b) (b # bs)" using Cons.prems(1) by auto
  ultimately show ?case using Cons by simp
qed

lemma link_search_found:
  assumes "path h (Some x) (x # ys @ a # zs)" and "distinct (x # ys @ a # zs)"
    and "\<forall>b\<in>set ys. \<forall>v. vals h b = Some v \<longrightarrow> \<not> P v" and "vals h a = Some v" and "P v"
    and "tail = Some (last (x # ys @ a # zs))"
  shows "\<exists>h'. link_search P h tail x = Some (Some a, h', Some (last (x # ys @ zs)))
    \<and> path h' (Some x) (x # ys @ zs) \<and> detached h' a \<and> vals h' = vals h
    \<and> (\<forall>b. b \<notin> set (x # ys @ [a]) \<longrightarrow> h' b = h b)"
  using assms
proof (induction ys arbitrary: x)
  case Nil
  then obtain n m where n: "h x = Some n" "nxt n = Some a" and m: "h a = Some m" "P (val m)"
    and p: "path h (nxt m) zs" by (auto simp: vals_def)
  let ?h = "h(x \<mapsto> n\<lparr>nxt := nxt m\<rparr>, a \<mapsto> m\<lparr>nxt := None\<rparr>)"
  have ne: "x \<noteq> a" "x \<notin> set zs" "a \<notin> set zs" using Nil.prems(2) by auto
  have "link_search P h tail x = Some (Some a, ?h, if Some a = tail then Some x else tail)"
    using n m ne by (simp add: link_search.simps set_nxt_def)
  moreover have "path ?h (nxt m) zs = path h (nxt m) zs" by (rule path_cong) (use ne in \<open>auto simp: fun_upd_apply\<close>)
  moreover have "vals ?h = vals h" using n m by (auto simp: vals_def fun_eq_iff fun_upd_apply)
  moreover have "(if Some a = tail then Some x else tail) = Some (last (x # zs))"
    using Nil.prems(6) ne by (cases zs rule: rev_cases) auto
  moreover have "\<forall>b. b \<notin> set (x # [] @ [a]) \<longrightarrow> ?h b = h b" by simp
  ultimately show ?case using p ne n m by (intro exI [of _ ?h]) (auto simp: detached_def)
next
  case (Cons b bs)
  then obtain n m where n: "h x = Some n" "nxt n = Some b" and m: "h b = Some m"
    and pb: "path h (Some b) (b # bs @ a # zs)" by auto
  have step: "link_search P h tail x = link_search P h tail b"
    using n m Cons.prems(3) by (simp add: link_search.simps [of P h tail x] vals_def)
  obtain h' where h': "link_search P h tail b = Some (Some a, h', Some (last (b # bs @ zs)))"
      "path h' (Some b) (b # bs @ zs)" "detached h' a" "vals h' = vals h"
      "\<forall>c. c \<notin> set (b # bs @ [a]) \<longrightarrow> h' c = h c"
    using Cons.IH [OF pb] Cons.prems by auto
  have "x \<notin> set (b # bs @ [a])" using Cons.prems(2) by auto
  then have "h' x = Some n" using h'(5) n by simp
  with h' step n show ?case by (intro exI [of _ h']) auto
qed

lemma rep_head_live:
  "rep h q (x # as) \<Longrightarrow> \<exists>n. h x = Some n \<and> vals h x = Some (val n)"
  using rep_ConsD(3) by (fastforce simp: vals_def)

lemma link_pop_by_none:
  assumes "rep h q as" and "\<forall>b\<in>set as. \<forall>v. vals h b = Some v \<longrightarrow> \<not> P v"
  shows "link_pop_by P h q = Some (None, h, q)"
proof (cases as)
  case Nil
  then show ?thesis using assms(1) by (simp add: rep_Nil link_pop_by_def)
next
  case (Cons x xs)
  then obtain n where n: "h x = Some n" "\<not> P (val n)"
    using rep_head_live [of h q x xs] assms by auto
  note hd = rep_ConsD(1,2) [OF assms(1) [unfolded Cons]]
  have "link_search P h (q_tail q) x = Some (None, h, q_tail q)"
    by (rule link_search_none) (use assms Cons hd in \<open>auto simp: rep_def\<close>)
  then show ?thesis using n hd by (simp add: link_pop_by_def)
qed

lemma link_pop_by_found:
  assumes "rep h q (ys @ a # zs)" and "\<forall>b\<in>set ys. \<forall>v. vals h b = Some v \<longrightarrow> \<not> P v"
    and "vals h a = Some v" and "P v"
  shows "\<exists>h' q'. link_pop_by P h q = Some (Some a, h', q') \<and> rep h' q' (ys @ zs) \<and> detached h' a
    \<and> vals h' = vals h \<and> (\<forall>b. b \<notin> set (ys @ [a]) \<longrightarrow> h' b = h b) \<and> q_sem q' = q_sem q"
proof (cases ys)
  case Nil
  then have r: "rep h q (a # zs)" using assms(1) by simp
  obtain n where n: "h a = Some n" "P (val n)" using assms(3,4) by (auto simp: vals_def)
  show ?thesis
  proof (cases "zs = []")
    case True
    with r rep_single [of h q a] n Nil show ?thesis by (auto simp: rep_def link_pop_by_def)
  next
    case False
    have "a \<noteq> last zs" using rep_ConsD(4) [OF r] False by auto
    then have "link_pop_by P h q = Some (Some a, h(a \<mapsto> n\<lparr>nxt := None\<rparr>), q\<lparr>q_head := nxt n\<rparr>)"
      using rep_ConsD(1,2) [OF r] False n by (simp add: link_pop_by_def set_nxt_def)
    with rep_unlink_head [OF r False n(1)] n Nil show ?thesis
      by (intro exI [of _ "h(a \<mapsto> n\<lparr>nxt := None\<rparr>)"] exI) (auto simp: detached_def)
  qed
next
  case (Cons x xs)
  then have r: "rep h q (x # xs @ a # zs)" using assms(1) by simp
  obtain n where n: "h x = Some n" "\<not> P (val n)"
    using rep_head_live [OF r] assms(2) Cons by auto
  note hd = rep_ConsD(1,2) [OF r]
  have "x \<noteq> last (x # xs @ a # zs)" using r by (auto simp: rep_def)
  moreover obtain h' where "link_search P h (q_tail q) x = Some (Some a, h', Some (last (x # xs @ zs)))"
      "path h' (Some x) (x # xs @ zs)" "detached h' a" "vals h' = vals h"
      "\<forall>b. b \<notin> set (x # xs @ [a]) \<longrightarrow> h' b = h b"
    using link_search_found [of h x xs a zs P v "q_tail q"] r assms Cons hd
    by (auto simp: rep_def)
  ultimately show ?thesis
    using n hd r Cons
    by (intro exI [of _ h'] exI [of _ "q\<lparr>q_tail := Some (last (x # xs @ zs))\<rparr>"])
       (auto simp: link_pop_by_def rep_def)
qed

text \<open>A queue does not depend on the nodes outside it, nor on what its nodes carry.\<close>

lemma rep_frame: "(\<forall>b\<in>set as. h' b = h b) \<Longrightarrow> rep h' q as = rep h q as"
  using path_cong [of as h' h] by (auto simp: rep_def)

lemma rep_upd_val: "h a = Some n \<Longrightarrow> rep (h(a \<mapsto> n\<lparr>val := v\<rparr>)) q as = rep h q as"
  using path_cong [of as "h(a \<mapsto> n\<lparr>val := v\<rparr>)" h] by (auto simp: rep_def fun_upd_apply)

lemma rep_dom: "rep h q as \<Longrightarrow> set as \<subseteq> dom h"
  by (auto simp: rep_def dest: path_dom)

declare fun_upd_apply [simp]

section \<open>The interface\<close>

text \<open>
  What the owners of a queue rely on. \<open>R h q as\<close> says that the queue \<open>q\<close> in the heap \<open>h\<close> holds the
  nodes \<open>as\<close>, in order. Every law also says which nodes the operation leaves alone, so that several
  queues can share a heap.
\<close>

locale queue_rep =
  fixes R :: "'a heap \<Rightarrow> queue \<Rightarrow> nat list \<Rightarrow> bool"
    and push :: "'a heap \<Rightarrow> queue \<Rightarrow> nat \<Rightarrow> ('a heap \<times> queue) option"
    and pop :: "'a heap \<Rightarrow> queue \<Rightarrow> (nat option \<times> 'a heap \<times> queue) option"
    and pop_by :: "('a \<Rightarrow> bool) \<Rightarrow> 'a heap \<Rightarrow> queue \<Rightarrow> (nat option \<times> 'a heap \<times> queue) option"
  assumes push_R: "R h q as \<Longrightarrow> detached h a \<Longrightarrow> a \<notin> set as \<Longrightarrow>
      \<exists>h' q'. push h q a = Some (h', q') \<and> R h' q' (as @ [a]) \<and> vals h' = vals h
        \<and> (\<forall>b. b \<notin> set as \<longrightarrow> h' b = h b) \<and> q_sem q' = q_sem q"
    and pop_Nil: "R h q [] \<Longrightarrow> pop h q = Some (None, h, q)"
    and pop_Cons: "R h q (a # as) \<Longrightarrow>
      \<exists>h' q'. pop h q = Some (Some a, h', q') \<and> R h' q' as \<and> detached h' a \<and> vals h' = vals h
        \<and> (\<forall>b. b \<noteq> a \<longrightarrow> h' b = h b) \<and> q_sem q' = q_sem q"
    and pop_by_none: "R h q as \<Longrightarrow> \<forall>b\<in>set as. \<forall>v. vals h b = Some v \<longrightarrow> \<not> P v \<Longrightarrow>
      pop_by P h q = Some (None, h, q)"
    and pop_by_found: "R h q (ys @ a # zs) \<Longrightarrow> \<forall>b\<in>set ys. \<forall>v. vals h b = Some v \<longrightarrow> \<not> P v \<Longrightarrow>
      vals h a = Some v \<Longrightarrow> P v \<Longrightarrow>
      \<exists>h' q'. pop_by P h q = Some (Some a, h', q') \<and> R h' q' (ys @ zs) \<and> detached h' a
        \<and> vals h' = vals h \<and> (\<forall>b. b \<notin> set (ys @ [a]) \<longrightarrow> h' b = h b) \<and> q_sem q' = q_sem q"
    and R_distinct: "R h q as \<Longrightarrow> distinct as"
    and R_dom: "R h q as \<Longrightarrow> set as \<subseteq> dom h"
begin

text \<open>The removal by property, for any queue: the first node that qualifies, or none.\<close>

lemma pop_by_cases:
  assumes "R h q as"
  obtains "\<forall>b\<in>set as. \<forall>v. vals h b = Some v \<longrightarrow> \<not> P v" "pop_by P h q = Some (None, h, q)"
  | ys a zs v h' q' where "as = ys @ a # zs" "\<forall>b\<in>set ys. \<forall>v. vals h b = Some v \<longrightarrow> \<not> P v"
    "vals h a = Some v" "P v" "pop_by P h q = Some (Some a, h', q')" "R h' q' (ys @ zs)"
    "detached h' a" "vals h' = vals h" "\<forall>b. b \<notin> set (ys @ [a]) \<longrightarrow> h' b = h b" "q_sem q' = q_sem q"
proof (cases "\<exists>b\<in>set as. \<exists>v. vals h b = Some v \<and> P v")
  case True
  then obtain ys a zs where as: "as = ys @ a # zs" and a: "\<exists>v. vals h a = Some v \<and> P v"
    and ys: "\<forall>b\<in>set ys. \<not> (\<exists>v. vals h b = Some v \<and> P v)"
    by (auto elim!: split_list_first_propE)
  from a obtain v where v: "vals h a = Some v" "P v" by blast
  have ys': "\<forall>b\<in>set ys. \<forall>v. vals h b = Some v \<longrightarrow> \<not> P v" using ys by blast
  obtain h' q' where "pop_by P h q = Some (Some a, h', q')" "R h' q' (ys @ zs)" "detached h' a"
    "vals h' = vals h" "\<forall>b. b \<notin> set (ys @ [a]) \<longrightarrow> h' b = h b" "q_sem q' = q_sem q"
    using pop_by_found [of h q ys a zs P v] assms as ys' v by blast
  with as ys' v show thesis by (rule that(2))
next
  case False
  then show thesis using that(1) pop_by_none [OF assms, of P] by blast
qed

text \<open>First in, first out: nodes pushed one after the other come back in the same order.\<close>

fun push_all :: "'a heap \<Rightarrow> queue \<Rightarrow> nat list \<Rightarrow> ('a heap \<times> queue) option" where
  "push_all h q [] = Some (h, q)"
| "push_all h q (a # as) = do { (h, q) \<leftarrow> push h q a; push_all h q as }"

fun pop_n :: "nat \<Rightarrow> 'a heap \<Rightarrow> queue \<Rightarrow> (nat list \<times> 'a heap \<times> queue) option" where
  "pop_n 0 h q = Some ([], h, q)"
| "pop_n (Suc n) h q = do {
     (r, h, q) \<leftarrow> pop h q;
     case r of None \<Rightarrow> Some ([], h, q)
     | Some a \<Rightarrow> do { (as, h, q) \<leftarrow> pop_n n h q; Some (a # as, h, q) } }"

lemma push_all_R:
  assumes "R h q as" and "\<forall>a\<in>set bs. detached h a" and "distinct bs" and "set as \<inter> set bs = {}"
  shows "\<exists>h' q'. push_all h q bs = Some (h', q') \<and> R h' q' (as @ bs) \<and> vals h' = vals h"
  using assms
proof (induction bs arbitrary: h q as)
  case (Cons b bs)
  then obtain h1 q1 where 1: "push h q b = Some (h1, q1)" "R h1 q1 (as @ [b])" "vals h1 = vals h"
    and frame: "\<forall>c. c \<notin> set as \<longrightarrow> h1 c = h c"
    using push_R [OF Cons.prems(1), of b] by auto
  have "\<forall>a\<in>set bs. detached h1 a" using frame Cons.prems by (auto simp: detached_def)
  then obtain h' q' where "push_all h1 q1 bs = Some (h', q')" "R h' q' ((as @ [b]) @ bs)"
    "vals h' = vals h1"
    using Cons.IH [OF 1(2)] Cons.prems by auto
  with 1 show ?case by simp
qed simp

lemma pop_n_R:
  assumes "R h q as" and "length as \<le> n"
  shows "\<exists>h' q'. pop_n n h q = Some (as, h', q') \<and> R h' q' [] \<and> vals h' = vals h"
  using assms
proof (induction n arbitrary: h q as)
  case 0
  then show ?case by simp
next
  case (Suc n)
  show ?case
  proof (cases as)
    case Nil
    then show ?thesis using Suc.prems by (simp add: pop_Nil)
  next
    case (Cons a as')
    then obtain h1 q1 where 1: "pop h q = Some (Some a, h1, q1)" "R h1 q1 as'" "vals h1 = vals h"
      using pop_Cons Suc.prems(1) by metis
    then obtain h' q' where "pop_n n h1 q1 = Some (as', h', q')" "R h' q' []" "vals h' = vals h1"
      using Suc.IH [OF 1(2)] Suc.prems(2) Cons by auto
    with 1 Cons show ?thesis by simp
  qed
qed

lemma fifo:
  assumes "R h q []" and "\<forall>a\<in>set bs. detached h a" and "distinct bs"
  shows "\<exists>h' q'. (do { (h, q) \<leftarrow> push_all h q bs; pop_n (length bs) h q }) = Some (bs, h', q')
    \<and> R h' q' [] \<and> vals h' = vals h"
proof -
  obtain h1 q1 where 1: "push_all h q bs = Some (h1, q1)" "R h1 q1 bs" "vals h1 = vals h"
    using push_all_R [OF assms(1), of bs] assms(2,3) by auto
  then show ?thesis using pop_n_R [OF 1(2), of "length bs"] by auto
qed

end

interpretation linked: queue_rep rep link_push link_pop link_pop_by
proof (unfold_locales, goal_cases)
  case 1
  then show ?case by (rule link_push_rep)
next
  case 2
  then show ?case by (rule link_pop_Nil)
next
  case 3
  then show ?case by (rule link_pop_Cons)
next
  case 4
  then show ?case by (rule link_pop_by_none)
next
  case 5
  then show ?case by (rule link_pop_by_found)
next
  case 6
  then show ?case by (simp add: rep_def)
next
  case 7
  then show ?case by (rule rep_dom)
qed

text \<open>The search as an operation on lists: the first node that passes the test, and the rest in order.\<close>

definition first_match :: "('a \<Rightarrow> bool) \<Rightarrow> 'a heap \<Rightarrow> nat \<Rightarrow> bool" where
  "first_match P h a = (case vals h a of Some v \<Rightarrow> P v | None \<Rightarrow> False)"

definition without_first :: "(nat \<Rightarrow> bool) \<Rightarrow> nat list \<Rightarrow> nat list" where
  "without_first T as = takeWhile (\<lambda>a. \<not> T a) as @ tl (dropWhile (\<lambda>a. \<not> T a) as)"

lemma find_split:
  "\<forall>b\<in>set ys. \<not> T b \<Longrightarrow> T a \<Longrightarrow> find T (ys @ a # zs) = Some a \<and> without_first T (ys @ a # zs) = ys @ zs"
  unfolding without_first_def by (induction ys) auto

lemma find_none: "\<forall>b\<in>set as. \<not> T b \<Longrightarrow> find T as = None \<and> without_first T as = as"
  unfolding without_first_def by (induction as) auto

lemma link_pop_by_list:
  assumes "rep h q as"
  shows "\<exists>h' q'. link_pop_by P h q = Some (find (first_match P h) as, h', q')
    \<and> rep h' q' (without_first (first_match P h) as) \<and> vals h' = vals h"
proof (rule linked.pop_by_cases [OF assms, of P])
  assume "\<forall>b\<in>set as. \<forall>v. vals h b = Some v \<longrightarrow> \<not> P v" "link_pop_by P h q = Some (None, h, q)"
  moreover from this(1) have "\<forall>b\<in>set as. \<not> first_match P h b"
    by (auto simp: first_match_def split: option.splits)
  note find_none [OF this]
  ultimately show ?thesis using assms by simp
next
  fix ys a zs v h' q'
  assume as: "as = ys @ a # zs" and ys: "\<forall>b\<in>set ys. \<forall>v. vals h b = Some v \<longrightarrow> \<not> P v" and a: "vals h a = Some v" "P v"
    and res: "link_pop_by P h q = Some (Some a, h', q')" "rep h' q' (ys @ zs)" "vals h' = vals h"
  have "\<forall>b\<in>set ys. \<not> first_match P h b" "first_match P h a"
    using ys a by (auto simp: first_match_def split: option.splits)
  from find_split [OF this] res show ?thesis by (simp add: as)
qed

end
