(* ===== verification/Util_Queue.thy ===== *)
theory Util_Queue
  imports Linked_Queue
begin

text \<open>
  The work queue of \<^verbatim>\<open>src/iot_util.c\<close> (\<open>iot_util_queue_create\<close> to \<open>iot_util_queue_receive\<close>) and the
  function of \<^verbatim>\<open>src/mqtt/client/iot_mqtt_client.c\<close> that removes the items of one client from it
  (\<open>_iot_mqtt_delete_pending_task\<close>). Sending and receiving implement a first in first out queue on
  the list of items. The removal keeps the list right but not always the tail pointer; the last
  section says exactly when.
\<close>

section \<open>Allocation\<close>

text \<open>
  The heap of a component with its allocator: the live nodes, the next address, and which calls of
  \<open>iot_os_malloc\<close> fail. Addresses are not reused, so that a dangling pointer stays dangling.
\<close>

record 'a mem =
  cells :: "'a heap"
  brk :: nat
  oom :: "nat \<Rightarrow> bool"

lemma cells_upd [simp]: "cells (m\<lparr>cells := h\<rparr>) = h"
  by (cases m) simp

definition iot_os_malloc :: "'a mem \<Rightarrow> nat option \<times> 'a mem" where
  "iot_os_malloc m = (if oom m (brk m) then None else Some (brk m), m\<lparr>brk := Suc (brk m)\<rparr>)"

definition iot_os_free :: "nat \<Rightarrow> 'a mem \<Rightarrow> 'a mem option" where
  "iot_os_free a m = (case cells m a of None \<Rightarrow> None | Some _ \<Rightarrow> Some (m\<lparr>cells := (cells m)(a := None)\<rparr>))"

definition mem_ok :: "'a mem \<Rightarrow> bool" where
  "mem_ok m \<longleftrightarrow> (\<forall>a\<in>dom (cells m). a < brk m)"

section \<open>The queue\<close>

text \<open>
  \<open>iot_util_queue_create\<close>: \<open>sem_ok\<close> is whether the mutex could be created. A queue is a heap
  object of its own; \<^const>\<open>None\<close> is the null result.
\<close>

definition iot_util_queue_create :: "nat \<Rightarrow> bool \<Rightarrow> 'a mem \<Rightarrow> queue option \<times> 'a mem" where
  "iot_util_queue_create item_size sem_ok m =
     (if item_size = 0 then (None, m)
      else case iot_os_malloc m of
        (None, m) \<Rightarrow> (None, m)
      | (Some _, m) \<Rightarrow> (if sem_ok then Some \<lparr>q_head = None, q_tail = None, q_sem = True\<rparr> else None, m))"

text \<open>
  \<open>iot_util_queue_send\<close>. The item is copied into a node of its own; a node needs two allocations,
  one for the link and one for the data. \<open>data = None\<close> is the null argument.
\<close>

definition iot_util_queue_send ::
  "queue option \<Rightarrow> 'a option \<Rightarrow> 'a mem \<Rightarrow> (iot_error \<times> queue option \<times> 'a mem) option" where
  "iot_util_queue_send queue data m = (case (queue, data) of
     (Some q, Some d) \<Rightarrow>
       (case iot_os_malloc m of
          (None, m) \<Rightarrow> Some (IOT_ERROR_MEM_ALLOC, Some q, m)
        | (Some a, m) \<Rightarrow>
            (case iot_os_malloc m of
               (None, m) \<Rightarrow> Some (IOT_ERROR_MEM_ALLOC, Some q, m)
             | (Some _, m) \<Rightarrow>
                 if \<not> q_sem q then Some (IOT_ERROR_TIMEOUT, Some q, m)
                 else do {
                   (h, q) \<leftarrow> link_push ((cells m)(a \<mapsto> \<lparr>val = d, nxt = None\<rparr>)) q a;
                   Some (IOT_ERROR_NONE, Some q, m\<lparr>cells := h\<rparr>) }))
   | _ \<Rightarrow> Some (IOT_ERROR_INVALID_ARGS, queue, m))"

text \<open>
  \<open>iot_util_queue_receive\<close>: the error code, the item copied out (none when the queue is empty),
  and the state. \<open>data_ok\<close> is whether the result pointer is not null.
\<close>

definition iot_util_queue_receive ::
  "queue option \<Rightarrow> bool \<Rightarrow> 'a mem \<Rightarrow> (iot_error \<times> 'a option \<times> queue option \<times> 'a mem) option" where
  "iot_util_queue_receive queue data_ok m = (case queue of
     None \<Rightarrow> Some (IOT_ERROR_INVALID_ARGS, None, None, m)
   | Some q \<Rightarrow>
       if \<not> data_ok then Some (IOT_ERROR_INVALID_ARGS, None, Some q, m)
       else if \<not> q_sem q then Some (IOT_ERROR_TIMEOUT, None, Some q, m)
       else do {
         (r, h, q) \<leftarrow> link_pop (cells m) q;
         case r of
           None \<Rightarrow> Some (IOT_ERROR_BAD_REQ, None, Some q, m\<lparr>cells := h\<rparr>)
         | Some a \<Rightarrow> do {
             n \<leftarrow> h a;
             m \<leftarrow> iot_os_free a (m\<lparr>cells := h\<rparr>);
             Some (IOT_ERROR_NONE, Some (val n), Some q, m) } })"

text \<open>\<open>iot_util_queue_delete\<close>: every node is freed, walking the links from the head.\<close>

partial_function (option) free_nodes :: "nat option \<Rightarrow> 'a mem \<Rightarrow> 'a mem option" where
  "free_nodes iterator m = (case iterator of
     None \<Rightarrow> Some m
   | Some a \<Rightarrow> do { n \<leftarrow> cells m a; m \<leftarrow> iot_os_free a m; free_nodes (nxt n) m })"

definition iot_util_queue_delete :: "queue option \<Rightarrow> 'a mem \<Rightarrow> (queue option \<times> 'a mem) option" where
  "iot_util_queue_delete queue m = (case queue of
     None \<Rightarrow> Some (None, m)
   | Some q \<Rightarrow> if \<not> q_sem q then Some (Some q, m)
               else do { m \<leftarrow> free_nodes (q_head q) m; Some (None, m) })"

text \<open>
  \<open>_iot_mqtt_delete_pending_task\<close>: the loop over the nodes with \<open>queue_data_prev\<close> behind it.
  \<open>P\<close> is the test that an item belongs to the client.
\<close>

partial_function (option) delete_pending_loop ::
  "('a \<Rightarrow> bool) \<Rightarrow> nat option \<Rightarrow> nat option \<Rightarrow> queue \<Rightarrow> 'a mem \<Rightarrow> (queue \<times> 'a mem) option" where
  "delete_pending_loop P prev iter q m = (case iter of
     None \<Rightarrow> Some (q, m)
   | Some a \<Rightarrow> do {
       n \<leftarrow> cells m a;
       if P (val n) then
         if q_head q = q_tail q
         then do {
           m \<leftarrow> iot_os_free a m;
           delete_pending_loop P prev None (q\<lparr>q_head := None, q_tail := None\<rparr>) m }
         else if q_head q = Some a
         then do {
           m \<leftarrow> iot_os_free a m;
           delete_pending_loop P prev (nxt n) (q\<lparr>q_head := nxt n\<rparr>) m }
         else (case prev of
           None \<Rightarrow> None
         | Some p \<Rightarrow> do {
             h \<leftarrow> set_nxt (cells m) p (nxt n);
             m \<leftarrow> iot_os_free a (m\<lparr>cells := h\<rparr>);
             delete_pending_loop P prev (nxt n) q m })
       else delete_pending_loop P (Some a) (nxt n) q m })"

definition iot_mqtt_delete_pending_task ::
  "('a \<Rightarrow> bool) \<Rightarrow> queue option \<Rightarrow> 'a mem \<Rightarrow> (queue option \<times> 'a mem) option" where
  "iot_mqtt_delete_pending_task P queue m = (case queue of
     None \<Rightarrow> Some (None, m)
   | Some q \<Rightarrow> if \<not> q_sem q then Some (Some q, m)
               else do { (q, m) \<leftarrow> delete_pending_loop P None (q_head q) q m; Some (Some q, m) })"

section \<open>The queue as a list of items\<close>

definition items :: "'a mem \<Rightarrow> queue \<Rightarrow> 'a list \<Rightarrow> bool" where
  "items m q xs \<longleftrightarrow> mem_ok m \<and> q_sem q \<and>
     (\<exists>as. rep (cells m) q as \<and> map (vals (cells m)) as = map Some xs)"

lemma items_empty: "mem_ok m \<Longrightarrow> items m \<lparr>q_head = None, q_tail = None, q_sem = True\<rparr> []"
  by (simp add: items_def rep_Nil)

lemma map_vals_cong:
  "(\<forall>a\<in>set as. vals h' a = vals h a) \<Longrightarrow> map (vals h') as = map (vals h) as"
  by simp

lemma vals_upd_fresh: "vals (h(a \<mapsto> n)) = (vals h)(a \<mapsto> val n)"
  by (auto simp: vals_def)

lemma vals_free [simp]: "vals (h(a := None)) = (vals h)(a := None)"
  by (auto simp: vals_def)

lemma queue_send_items:
  assumes "items m q xs" and "\<not> oom m (brk m)" and "\<not> oom m (Suc (brk m))"
  shows "\<exists>q' m'. iot_util_queue_send (Some q) (Some x) m = Some (IOT_ERROR_NONE, Some q', m')
    \<and> items m' q' (xs @ [x])"
proof -
  let ?a = "brk m" and ?h = "(cells m)(brk m \<mapsto> \<lparr>val = x, nxt = None\<rparr>)"
  obtain as where as: "rep (cells m) q as" "map (vals (cells m)) as = map Some xs"
    and ok: "mem_ok m" "q_sem q"
    using assms(1) by (auto simp: items_def)
  have fresh: "?a \<notin> set as" using as(1) ok(1) rep_dom by (fastforce simp: mem_ok_def)
  have "rep ?h q as" using rep_frame [of as ?h "cells m" q] fresh as(1) by auto
  then obtain h' q' where push: "link_push ?h q ?a = Some (h', q')" "rep h' q' (as @ [?a])"
    "vals h' = vals ?h" "q_sem q' = q_sem q" and dom: "\<forall>b. b \<notin> set as \<longrightarrow> h' b = ?h b"
    using linked.push_R [of ?h q as ?a] fresh by (auto simp: detached_def)
  have "map (vals h') (as @ [?a]) = map Some (xs @ [x])"
    using push(3) as(2) fresh by (auto simp: vals_upd_fresh)
  moreover have "mem_ok (m\<lparr>brk := Suc (Suc ?a), cells := h'\<rparr>)"
  proof -
    have "dom h' = dom ?h" using push(3) by (simp flip: dom_vals)
    moreover have "\<forall>b\<in>dom (cells m). b < ?a" using ok(1) by (simp add: mem_ok_def)
    ultimately show ?thesis by (simp add: mem_ok_def less_Suc_eq)
  qed
  ultimately show ?thesis
    using assms(2,3) ok push
    by (auto simp: iot_util_queue_send_def iot_os_malloc_def items_def)
qed

lemma queue_send_oom:
  assumes "oom m (brk m) \<or> oom m (Suc (brk m))"
  shows "\<exists>k\<ge>brk m. iot_util_queue_send (Some q) (Some x) m = Some (IOT_ERROR_MEM_ALLOC, Some q, m\<lparr>brk := k\<rparr>)"
proof (cases "oom m (brk m)")
  case True
  then show ?thesis
    by (intro exI [of _ "Suc (brk m)"]) (simp add: iot_util_queue_send_def iot_os_malloc_def)
next
  case False
  with assms show ?thesis
    by (intro exI [of _ "Suc (Suc (brk m))"]) (simp add: iot_util_queue_send_def iot_os_malloc_def)
qed

lemma items_brk: "items m q xs \<Longrightarrow> brk m \<le> k \<Longrightarrow> items (m\<lparr>brk := k\<rparr>) q xs"
proof -
  assume a: "items m q xs" and k: "brk m \<le> k"
  have "\<forall>b\<in>dom (cells m). b < k" using a k unfolding items_def mem_ok_def by (meson less_le_trans)
  then show ?thesis using a by (simp add: items_def mem_ok_def)
qed

lemma queue_receive_items:
  assumes "items m q (x # xs)"
  shows "\<exists>q' m'. iot_util_queue_receive (Some q) True m = Some (IOT_ERROR_NONE, Some x, Some q', m')
    \<and> items m' q' xs"
proof -
  obtain a as where as: "rep (cells m) q (a # as)" "vals (cells m) a = Some x"
      "map (vals (cells m)) as = map Some xs"
    and ok: "mem_ok m" "q_sem q"
    using assms by (auto simp: items_def map_eq_Cons_conv)
  obtain h q' where pop: "link_pop (cells m) q = Some (Some a, h, q')" "rep h q' as"
      "detached h a" "vals h = vals (cells m)" "q_sem q' = q_sem q"
    using linked.pop_Cons [OF as(1)] by blast
  have "vals h a = Some x" using pop(4) as(2) by simp
  then obtain n where n: "h a = Some n" "val n = x" by (auto simp: vals_def)
  have "a \<notin> set as" using rep_ConsD(4) [OF as(1)] .
  then have "rep (h(a := None)) q' as" using rep_frame [of as "h(a := None)" h q'] pop(2) by auto
  moreover have "map (vals (h(a := None))) as = map Some xs"
  proof -
    have "\<forall>b\<in>set as. vals (h(a := None)) b = vals (cells m) b"
      using \<open>a \<notin> set as\<close> pop(4) by (auto simp: vals_def fun_eq_iff)
    then show ?thesis using as(3) by (metis map_vals_cong)
  qed
  moreover have "mem_ok (m\<lparr>cells := h(a := None)\<rparr>)"
  proof -
    have "dom h = dom (cells m)" using pop(4) by (simp flip: dom_vals)
    then show ?thesis using ok(1) by (auto simp: mem_ok_def)
  qed
  ultimately show ?thesis
    using ok pop n by (auto simp: iot_util_queue_receive_def iot_os_free_def items_def)
qed

lemma queue_receive_empty:
  assumes "items m q []"
  shows "iot_util_queue_receive (Some q) True m = Some (IOT_ERROR_BAD_REQ, None, Some q, m)"
  using assms by (auto simp: items_def iot_util_queue_receive_def linked.pop_Nil)

text \<open>Deleting the queue frees its nodes and nothing else.\<close>

lemma free_nodes_path:
  assumes "path (cells m) p as" and "distinct as"
  shows "free_nodes p m = Some (m\<lparr>cells := (\<lambda>b. if b \<in> set as then None else cells m b)\<rparr>)"
  using assms
proof (induction as arbitrary: p m)
  case Nil
  then show ?case by (simp add: free_nodes.simps)
next
  case (Cons a as)
  then obtain n where n: "p = Some a" "cells m a = Some n" "path (cells m) (nxt n) as" by auto
  define h where "h = (cells m)(a := None)"
  have "path h (nxt n) as = path (cells m) (nxt n) as"
    unfolding h_def by (rule path_cong) (use Cons.prems(2) in auto)
  then have "path (cells (m\<lparr>cells := h\<rparr>)) (nxt n) as" using n(3) by simp
  from Cons.IH [OF this] Cons.prems(2)
  have "free_nodes (nxt n) (m\<lparr>cells := h\<rparr>) = Some (m\<lparr>cells := (\<lambda>b. if b \<in> set as then None else h b)\<rparr>)"
    unfolding cells_upd by simp
  moreover have "(\<lambda>b. if b \<in> set as then None else h b)
      = (\<lambda>b. if b \<in> set (a # as) then None else cells m b)"
    by (auto simp: h_def fun_eq_iff)
  moreover have "free_nodes p m = free_nodes (nxt n) (m\<lparr>cells := h\<rparr>)"
    using n unfolding h_def by (subst free_nodes.simps) (simp add: iot_os_free_def)
  ultimately show ?case by simp
qed

section \<open>Removing the items of one client\<close>

lemma path_unlink:
  assumes "path h p (ss @ a # zs)" and "distinct (ss @ a # zs)" and "ss \<noteq> []"
    and "h (last ss) = Some k" and "h a = Some n"
  shows "path (h(last ss \<mapsto> k\<lparr>nxt := nxt n\<rparr>, a := None)) p (ss @ zs)"
  using assms
proof (induction ss arbitrary: p)
  case (Cons x xs)
  let ?h = "h(last (x # xs) \<mapsto> k\<lparr>nxt := nxt n\<rparr>, a := None)"
  from Cons.prems(1) obtain m where m: "h x = Some m" "path h (nxt m) (xs @ a # zs)" "p = Some x"
    by auto
  show ?case
  proof (cases "xs = []")
    case True
    then have "k = m" "path h (nxt n) zs" using m Cons.prems by auto
    moreover have "path ?h (nxt n) zs = path h (nxt n) zs"
      by (rule path_cong) (use True Cons.prems(2) in auto)
    ultimately show ?thesis using True m Cons.prems(2) by (simp del: fun_upd_apply add: fun_upd_same fun_upd_other)
  next
    case False
    then have "path (h(last xs \<mapsto> k\<lparr>nxt := nxt n\<rparr>, a := None)) (nxt m) (xs @ zs)"
      by (intro Cons.IH) (use Cons.prems m in auto)
    moreover have "x \<noteq> last xs" "x \<noteq> a" using Cons.prems(2) False by auto
    ultimately show ?thesis
      using m False by (simp del: fun_upd_apply add: fun_upd_same fun_upd_other)
  qed
qed simp

abbreviation keeps :: "('a \<Rightarrow> bool) \<Rightarrow> 'a heap \<Rightarrow> nat list \<Rightarrow> nat list" where
  "keeps P h as \<equiv> filter (\<lambda>a. \<not> P (the (vals h a))) as"

abbreviation pending_deleted ::
  "('a \<Rightarrow> bool) \<Rightarrow> 'a mem \<Rightarrow> queue \<Rightarrow> nat list \<Rightarrow> nat list \<Rightarrow> queue \<Rightarrow> 'a mem \<Rightarrow> bool" where
  "pending_deleted P m q ss rest q' m' \<equiv>
     path (cells m') (q_head q') (ss @ keeps P (cells m) rest)
     \<and> q_tail q' = (if ss @ keeps P (cells m) rest = [] then None else q_tail q)
     \<and> dom (cells m') = dom (cells m) - {a \<in> set rest. P (the (vals (cells m) a))}
     \<and> (\<forall>b\<in>dom (cells m'). vals (cells m') b = vals (cells m) b)
     \<and> brk m' = brk m \<and> oom m' = oom m \<and> q_sem q' = q_sem q"

text \<open>
  The loop in the middle of its work: \<open>ss\<close> are the nodes kept so far, \<open>rest\<close> those to come. What
  is left is linked correctly from the head; the tail pointer still points to the last node of
  the original list, unless nothing is left at all.
\<close>

lemma delete_pending_loop_path:
  assumes "path (cells m) (q_head q) (ss @ rest)" and "distinct (ss @ rest)"
    and "iter = (if rest = [] then None else Some (hd rest))"
    and "ss \<noteq> [] \<longrightarrow> prev = Some (last ss)"
    and "rest \<noteq> [] \<longrightarrow> q_tail q = Some (last rest)" and "\<forall>a\<in>set ss. \<not> P (the (vals (cells m) a))"
    and "ss @ rest = [] \<longrightarrow> q_tail q = None"
  shows "\<exists>q' m'. delete_pending_loop P prev iter q m = Some (q', m')
    \<and> pending_deleted P m q ss rest q' m'"
  using assms
proof (induction rest arbitrary: ss prev iter q m)
  case Nil
  then show ?case by (auto simp: delete_pending_loop.simps)
next
  case (Cons a rest)
  let ?h = "cells m"
  have iter: "iter = Some a" and tail: "q_tail q = Some (last (a # rest))"
    using Cons.prems(3,5) by auto
  have "a \<in> dom ?h" using path_dom [OF Cons.prems(1)] by auto
  then obtain n where n: "?h a = Some n" by auto
  have Pn: "P (val n) \<longleftrightarrow> P (the (vals ?h a))" using n by (simp add: vals_def)
  have hd: "q_head q = Some (hd (ss @ a # rest))" using path_hd [OF Cons.prems(1)] by simp
  have nn: "nxt n = (if rest = [] then None else Some (hd rest))"
  proof -
    have "path ?h (Some a) (a # rest)"
      using Cons.prems(1) by (induction ss arbitrary: q) (auto, metis queue.select_convs(1))
    then show ?thesis using n path_hd [of ?h "nxt n" rest] by auto
  qed
  consider (keep) "\<not> P (val n)" | (last) "P (val n)" "q_head q = q_tail q"
    | (head) "P (val n)" "q_head q \<noteq> q_tail q" "ss = []"
    | (mid) "P (val n)" "q_head q \<noteq> q_tail q" "ss \<noteq> []"
    by blast
  then show ?case
  proof cases
    case keep
    have "delete_pending_loop P prev iter q m = delete_pending_loop P (Some a) (nxt n) q m"
      using n keep unfolding iter by (subst delete_pending_loop.simps) simp
    moreover have "\<exists>q' m'. delete_pending_loop P (Some a) (nxt n) q m = Some (q', m')
        \<and> pending_deleted P m q (ss @ [a]) rest q' m'"
      by (rule Cons.IH) (use Cons.prems keep Pn nn tail in auto)
    ultimately show ?thesis using keep Pn by auto
  next
    case last
    have "ss = []" "rest = []"
      using last(2) hd tail Cons.prems(2) by (cases ss; cases rest; auto split: if_splits)+
    moreover have "delete_pending_loop P prev iter q m
        = Some (q\<lparr>q_head := None, q_tail := None\<rparr>, m\<lparr>cells := ?h(a := None)\<rparr>)"
      using iter n last by (simp add: delete_pending_loop.simps iot_os_free_def)
    moreover have "\<forall>b\<in>dom (?h(a := None)). vals (?h(a := None)) b = vals ?h b" by (auto simp: vals_def)
    ultimately show ?thesis using last Pn by auto
  next
    case head
    have ne: "rest \<noteq> []" using head hd tail by auto
    let ?m = "m\<lparr>cells := ?h(a := None)\<rparr>" and ?q = "q\<lparr>q_head := nxt n\<rparr>"
    have step: "delete_pending_loop P prev iter q m = delete_pending_loop P prev (nxt n) ?q ?m"
      using n head hd unfolding iter by (subst delete_pending_loop.simps) (simp add: iot_os_free_def)
    have v: "\<forall>b\<in>set rest. vals (cells ?m) b = vals ?h b" using Cons.prems(2) by (auto simp: vals_def)
    have "path (cells ?m) (nxt n) rest = path ?h (nxt n) rest"
      by (rule path_cong) (use Cons.prems(2) in auto)
    then have p: "path (cells ?m) (nxt n) rest" using Cons.prems(1) head(3) n by auto
    have "\<exists>q' m'. delete_pending_loop P prev (nxt n) ?q ?m = Some (q', m')
        \<and> pending_deleted P ?m ?q [] rest q' m'"
    proof (rule Cons.IH)
      show "path (cells ?m) (q_head ?q) ([] @ rest)" using p by simp
    qed (use Cons.prems nn tail ne in auto)
    moreover have "keeps P (cells ?m) rest = keeps P ?h rest" using v by (intro filter_cong) auto
    moreover have "dom (cells ?m) - {a \<in> set rest. P (the (vals (cells ?m) a))}
        = dom ?h - {b \<in> set (a # rest). P (the (vals ?h b))}"
      using v head(1) Pn by auto
    ultimately show ?thesis using step head Pn by auto
  next
    case mid
    have "last ss \<in> dom ?h" using path_dom [OF Cons.prems(1)] last_in_set [OF mid(3)] by auto
    then obtain k where k: "?h (last ss) = Some k" by blast
    have "last ss \<noteq> a" using Cons.prems(2) mid(3) by auto
    let ?h' = "?h(last ss \<mapsto> k\<lparr>nxt := nxt n\<rparr>, a := None)"
    let ?m = "m\<lparr>cells := ?h'\<rparr>"
    have ne: "q_head q \<noteq> Some a" using hd Cons.prems(2) mid(3) by (cases ss) auto
    have step: "delete_pending_loop P prev iter q m = delete_pending_loop P prev (nxt n) q ?m"
      using n mid ne Cons.prems(4) k \<open>last ss \<noteq> a\<close> unfolding iter
      by (subst delete_pending_loop.simps) (simp add: iot_os_free_def set_nxt_def)
    have v: "\<forall>b\<in>set (ss @ rest). vals ?h' b = vals ?h b"
      using Cons.prems(2) k by (auto simp: vals_def)
    have "\<exists>q' m'. delete_pending_loop P prev (nxt n) q ?m = Some (q', m')
        \<and> pending_deleted P ?m q ss rest q' m'"
    proof (rule Cons.IH)
      show "path (cells ?m) (q_head q) (ss @ rest)"
        using path_unlink [OF Cons.prems(1,2) mid(3) k n] by simp
      show "\<forall>b\<in>set ss. \<not> P (the (vals (cells ?m) b))" using Cons.prems(6) v by simp
    qed (use Cons.prems nn mid in auto)
    moreover have "keeps P (cells ?m) rest = keeps P ?h rest" using v by (intro filter_cong) auto
    moreover have "dom (cells ?m) - {a \<in> set rest. P (the (vals (cells ?m) a))}
        = dom ?h - {b \<in> set (a # rest). P (the (vals ?h b))}"
      using v mid(1) Pn k \<open>last ss \<noteq> a\<close> by auto
    moreover have "vals (cells ?m) = (vals ?h)(a := None)" using k by simp
    moreover have "P (the (vals ?h a))" using mid(1) Pn by simp
    ultimately show ?thesis unfolding step by (elim exE conjE, intro exI conjI) (assumption, simp_all)
  qed
qed

text \<open>
  On the list of items: the removal always yields the items that stay, in order, and the queue is
  intact when nothing stays or when the last item stays. Otherwise the tail pointer is left on the
  node that was freed, and the next \<open>iot_util_queue_send\<close> writes through it.
\<close>

lemma keeps_vals:
  "map (vals h) as = map Some xs \<Longrightarrow> map (vals h) (keeps P h as) = map Some (filter (\<lambda>x. \<not> P x) xs)"
proof (induction as arbitrary: xs)
  case (Cons a as)
  then show ?case by (cases xs) auto
qed simp

lemma last_keeps: "filter Q as \<noteq> [] \<Longrightarrow> Q (last as) \<Longrightarrow> last (filter Q as) = last as"
  by (induction as rule: rev_induct) auto

lemma map_vals_last: "map (vals h) as = map Some xs \<Longrightarrow> as \<noteq> [] \<Longrightarrow> vals h (last as) = Some (last xs)"
  by (metis last_map map_is_Nil_conv)

lemma delete_pending_task_items:
  assumes "items m q xs"
  shows "\<exists>q' m'. iot_mqtt_delete_pending_task P (Some q) m = Some (Some q', m')
    \<and> (if xs = [] \<or> (\<forall>x\<in>set xs. P x) \<or> \<not> P (last xs)
       then items m' q' (filter (\<lambda>x. \<not> P x) xs)
       else mem_ok m' \<and> q_sem q' \<and> q_head q' \<noteq> None \<and> (\<exists>t. q_tail q' = Some t \<and> cells m' t = None))"
proof -
  obtain as where as: "path (cells m) (q_head q) as" "distinct as"
      "q_tail q = (if as = [] then None else Some (last as))"
      "map (vals (cells m)) as = map Some xs"
    and ok: "mem_ok m" "q_sem q"
    using assms by (auto simp: items_def rep_def)
  obtain q' m' where loop: "delete_pending_loop P None (q_head q) q m = Some (q', m')"
    and post: "pending_deleted P m q [] as q' m'"
    using delete_pending_loop_path [of m q "[]" as "q_head q" None P] as path_hd [OF as(1)] by auto
  let ?ks = "keeps P (cells m) as"
  have task: "iot_mqtt_delete_pending_task P (Some q) m = Some (Some q', m')"
    using loop ok by (simp add: iot_mqtt_delete_pending_task_def)
  have mem: "mem_ok m'" using ok(1) post by (auto simp: mem_ok_def)
  have keep_vals: "map (vals (cells m)) ?ks = map Some (filter (\<lambda>x. \<not> P x) xs)"
    by (rule keeps_vals [OF as(4)])
  have "set ?ks \<subseteq> dom (cells m')" using post path_dom by fastforce
  then have same: "map (vals (cells m')) ?ks = map (vals (cells m)) ?ks" using post by (auto simp: subset_iff)
  have nil: "as = [] \<longleftrightarrow> xs = []" using as(4) by (metis map_is_Nil_conv)
  have ks_nil: "?ks = [] \<longleftrightarrow> (\<forall>x\<in>set xs. P x)"
    using keep_vals by (metis (no_types, lifting) filter_empty_conv map_is_Nil_conv)
  have lastP: "as \<noteq> [] \<Longrightarrow> P (the (vals (cells m) (last as))) \<longleftrightarrow> P (last xs)"
    using map_vals_last [OF as(4)] by simp
  show ?thesis
  proof (cases "xs = [] \<or> (\<forall>x\<in>set xs. P x) \<or> \<not> P (last xs)")
    case True
    have "q_tail q' = (if ?ks = [] then None else Some (last ?ks))"
    proof (cases "?ks = []")
      case False
      then have "as \<noteq> []" "\<not> P (last xs)" using True ks_nil nil by auto
      then show ?thesis using last_keeps [OF False] lastP post as(3) False by auto
    qed (use post in simp)
    then have "rep (cells m') q' ?ks" using post as(2) by (simp add: rep_def)
    then show ?thesis using task mem post ok True keep_vals same by (auto simp: items_def)
  next
    case False
    then have "as \<noteq> []" "?ks \<noteq> []" "P (the (vals (cells m) (last as)))" using nil ks_nil lastP by auto
    moreover from this have "last as \<notin> dom (cells m')" using post by auto
    then have "cells m' (last as) = None" by blast
    moreover have "q_head q' \<noteq> None" using post \<open>?ks \<noteq> []\<close> by (cases ?ks) auto
    ultimately show ?thesis using task mem post ok as(3) False by auto
  qed
qed

lemma send_after_dangling:
  assumes "q_sem q" and "q_head q \<noteq> None" and "q_tail q = Some t" and "cells m t = None"
    and "mem_ok m" and "t < brk m" and "\<not> oom m (brk m)" and "\<not> oom m (Suc (brk m))"
  shows "iot_util_queue_send (Some q) (Some x) m = None"
  using assms by (auto simp: iot_util_queue_send_def iot_os_malloc_def link_push_def set_nxt_def)

section \<open>Refinement of a first-in first-out list\<close>

datatype 'a work_op = Send 'a | Receive

text \<open>A sequence of calls on the queue: the answers and the state behind it.\<close>

fun work_queue_run ::
  "'a work_op list \<Rightarrow> queue option \<Rightarrow> 'a mem \<Rightarrow> ((iot_error \<times> 'a option) list \<times> queue option \<times> 'a mem) option" where
  "work_queue_run [] q m = Some ([], q, m)"
| "work_queue_run (Send x # ops) q m = do {
     (e, q, m) \<leftarrow> iot_util_queue_send q (Some x) m;
     (rs, q, m) \<leftarrow> work_queue_run ops q m;
     Some ((e, None) # rs, q, m) }"
| "work_queue_run (Receive # ops) q m = do {
     (e, r, q, m) \<leftarrow> iot_util_queue_receive q True m;
     (rs, q, m) \<leftarrow> work_queue_run ops q m;
     Some ((e, r) # rs, q, m) }"

text \<open>The same sequence on a list.\<close>

fun fifo_run :: "'a work_op list \<Rightarrow> 'a list \<Rightarrow> (iot_error \<times> 'a option) list \<times> 'a list" where
  "fifo_run [] xs = ([], xs)"
| "fifo_run (Send x # ops) xs = (case fifo_run ops (xs @ [x]) of (rs, ys) \<Rightarrow> ((IOT_ERROR_NONE, None) # rs, ys))"
| "fifo_run (Receive # ops) [] = (case fifo_run ops [] of (rs, ys) \<Rightarrow> ((IOT_ERROR_BAD_REQ, None) # rs, ys))"
| "fifo_run (Receive # ops) (x # xs) = (case fifo_run ops xs of (rs, ys) \<Rightarrow> ((IOT_ERROR_NONE, Some x) # rs, ys))"

lemma queue_send_same_oom: "iot_util_queue_send q d m = Some (e, q', m') \<Longrightarrow> oom m' = oom m"
  by (auto simp: iot_util_queue_send_def iot_os_malloc_def bind_eq_Some_conv split: option.splits if_splits)

lemma queue_receive_same_oom: "iot_util_queue_receive q b m = Some (e, r, q', m') \<Longrightarrow> oom m' = oom m"
  by (auto simp: iot_util_queue_receive_def iot_os_free_def bind_eq_Some_conv split: option.splits if_splits)

lemma work_queue_refines:
  assumes "items m q xs" and "\<forall>n. \<not> oom m n"
  shows "\<exists>q' m'. work_queue_run ops (Some q) m = Some (fst (fifo_run ops xs), Some q', m')
    \<and> items m' q' (snd (fifo_run ops xs))"
  using assms
proof (induction ops xs arbitrary: q m rule: fifo_run.induct)
  case (2 x ops xs)
  obtain q1 m1 where s: "iot_util_queue_send (Some q) (Some x) m = Some (IOT_ERROR_NONE, Some q1, m1)"
    "items m1 q1 (xs @ [x])"
    using queue_send_items [OF "2.prems"(1)] "2.prems"(2) by blast
  with "2.IH" [OF s(2)] "2.prems"(2) queue_send_same_oom [OF s(1)] show ?case
    by (auto split: prod.splits)
next
  case (3 ops)
  from "3.IH" [OF "3.prems"] queue_receive_empty [OF "3.prems"(1)] show ?case by (auto split: prod.splits)
next
  case (4 ops x xs)
  obtain q1 m1 where r: "iot_util_queue_receive (Some q) True m = Some (IOT_ERROR_NONE, Some x, Some q1, m1)"
    "items m1 q1 xs"
    using queue_receive_items [OF "4.prems"(1)] by blast
  with "4.IH" [OF r(2)] "4.prems"(2) queue_receive_same_oom [OF r(1)] show ?case
    by (auto split: prod.splits)
qed auto

text \<open>Deleting the queue frees every node it holds and nothing else.\<close>

lemma queue_delete_frees:
  assumes "items m q xs"
  shows "\<exists>as m'. iot_util_queue_delete (Some q) m = Some (None, m') \<and> length as = length xs \<and> distinct as
    \<and> set as \<subseteq> dom (cells m) \<and> cells m' = (\<lambda>b. if b \<in> set as then None else cells m b)"
proof -
  obtain as where as: "rep (cells m) q as" "map (vals (cells m)) as = map Some xs" and sem: "q_sem q"
    using assms by (auto simp: items_def)
  then have len: "length as = length xs" by (metis length_map)
  from as(1) have "path (cells m) (q_head q) as" "distinct as" by (auto simp: rep_def)
  from free_nodes_path [OF this] sem have "iot_util_queue_delete (Some q) m
      = Some (None, m\<lparr>cells := (\<lambda>b. if b \<in> set as then None else cells m b)\<rparr>)"
    by (simp add: iot_util_queue_delete_def)
  with len \<open>distinct as\<close> rep_dom [OF as(1)] show ?thesis by auto
qed

end
