(* ===== verification/Mqtt_State.thy ===== *)
theory Mqtt_State
  imports Mqtt_Connect Util_Queue
begin

text \<open>
  The state of the MQTT client (\<^verbatim>\<open>src/include/mqtt/iot_mqtt_client.h\<close>) and the operations of
  \<^verbatim>\<open>src/mqtt/client/iot_mqtt_client.c\<close> that the others are built from: packet chunks, the three chunk
  queues, the blocking network loops and the signal to the work queue.

  The network, the clock, timer creation and mutex creation belong to the platform; they are the
  functions of a record \<open>port\<close> over a platform state \<open>'n\<close>, an argument of every operation that calls
  them. A mutex is whether its semaphore exists; taking it succeeds exactly then. An operation maps
  the world before it to its result and the world after it, and to \<^const>\<open>None\<close> when it touches memory
  that is not there or when a loop of it does not end.
\<close>

section \<open>Constants\<close>

abbreviation (input) E_ST_MQTT_FAILURE :: int where "E_ST_MQTT_FAILURE \<equiv> -1"
abbreviation (input) E_ST_MQTT_DISCONNECTED :: int where "E_ST_MQTT_DISCONNECTED \<equiv> -2"
abbreviation (input) E_ST_MQTT_BUFFER_OVERFLOW :: int where "E_ST_MQTT_BUFFER_OVERFLOW \<equiv> -3"
abbreviation (input) E_ST_MQTT_UNNACCEPTABLE_PROTOCOL :: int where
  "E_ST_MQTT_UNNACCEPTABLE_PROTOCOL \<equiv> -4"
abbreviation (input) E_ST_MQTT_SERVER_UNAVAILABLE :: int where "E_ST_MQTT_SERVER_UNAVAILABLE \<equiv> -5"
abbreviation (input) E_ST_MQTT_CLIENTID_REJECTED :: int where "E_ST_MQTT_CLIENTID_REJECTED \<equiv> -6"
abbreviation (input) E_ST_MQTT_BAD_USERNAME_OR_PASSWORD :: int where
  "E_ST_MQTT_BAD_USERNAME_OR_PASSWORD \<equiv> -7"
abbreviation (input) E_ST_MQTT_NOT_AUTHORIZED :: int where "E_ST_MQTT_NOT_AUTHORIZED \<equiv> -8"
abbreviation (input) E_ST_MQTT_NETWORK_ERROR :: int where "E_ST_MQTT_NETWORK_ERROR \<equiv> -9"
abbreviation (input) E_ST_MQTT_PACKET_TIMEOUT :: int where "E_ST_MQTT_PACKET_TIMEOUT \<equiv> -10"
abbreviation (input) E_ST_MQTT_PING_FAIL :: int where "E_ST_MQTT_PING_FAIL \<equiv> -11"
abbreviation (input) E_ST_MQTT_PING_TIMEOUT :: int where "E_ST_MQTT_PING_TIMEOUT \<equiv> -12"
abbreviation (input) MQTT_DISCONNECTED_NETWORK_ERROR :: int where "MQTT_DISCONNECTED_NETWORK_ERROR \<equiv> 0"
abbreviation (input) MQTT_DISCONNECTED_PING_TIMEOUT :: int where "MQTT_DISCONNECTED_PING_TIMEOUT \<equiv> 2"
abbreviation (input) MAX_PACKET_ID :: u32 where "MAX_PACKET_ID \<equiv> 65535"
abbreviation (input) MQTT_PUBLISH_RETRY :: int where "MQTT_PUBLISH_RETRY \<equiv> 3"
abbreviation (input) MQTT_RETRY_TIMEOUT :: nat where "MQTT_RETRY_TIMEOUT \<equiv> 12000"
abbreviation (input) MQTT_CONNECT_TIMEOUT :: nat where "MQTT_CONNECT_TIMEOUT \<equiv> 20000"
abbreviation (input) MQTT_ACKPENDING_WAITCYCLE :: nat where "MQTT_ACKPENDING_WAITCYCLE \<equiv> 50"
abbreviation (input) MQTT_ACK_PACKET_SIZE :: nat where "MQTT_ACK_PACKET_SIZE \<equiv> 4"
abbreviation (input) MQTT_PINGREQ_PACKET_SIZE :: nat where "MQTT_PINGREQ_PACKET_SIZE \<equiv> 2"
abbreviation (input) MQTT_DISCONNECT_PACKET_SIZE :: nat where "MQTT_DISCONNECT_PACKET_SIZE \<equiv> 2"
abbreviation (input) MQTT_CLIENT_STRUCT_MAGIC_NUMBER :: int where
  "MQTT_CLIENT_STRUCT_MAGIC_NUMBER \<equiv> 0x19890107"

section \<open>Data\<close>

datatype packet_chunk_state =
  PACKET_CHUNK_INIT | PACKET_CHUNK_WRITE_PENDING | PACKET_CHUNK_WRITE_COMPLETED
| PACKET_CHUNK_WRITE_FAIL | PACKET_CHUNK_ACK_PENDING | PACKET_CHUNK_READ_COMPLETED
| PACKET_CHUNK_ACKNOWLEDGED | PACKET_CHUNK_TIMEOUT | PACKET_CHUNK_QUEUE_DESTROYED
| EVENT_CHUNK_CONNECTED | EVENT_CHUNK_DISCONNECTED

text \<open>A platform timer: its period and, once started, when it expires.\<close>

record timer =
  period :: nat
  deadline :: "nat option"

text \<open>The \<open>next\<close> pointer of a chunk is the link of its heap node.\<close>

record chunk =
  packet_type :: int
  packet_id :: u32
  qos :: int
  chunk_data :: "u8 list option"
  chunk_size :: nat
  chunk_state :: packet_chunk_state
  expiry_time :: "timer option"
  retry_count :: int
  have_owner :: bool
  return_code :: int

record MQTTClient =
  magic :: int
  next_packetid :: u32
  keep_alive :: u32
  isconnected :: bool
  net_ctx :: bool
  last_sent :: "timer option"
  last_received :: "timer option"
  client_manage_lock :: bool
  write_lock :: bool
  read_lock :: bool
  socket_thread :: bool
  ping_packet :: "nat option"
  write_pending_queue :: queue
  ack_pending_queue :: queue
  user_event_callback_queue :: queue

text \<open>What the user callback is told. A message carries the pointers of \<open>st_mqtt_msg\<close>.\<close>

record st_mqtt_msg =
  msg_topic :: "u8 list option"
  msg_topiclen :: int
  msg_payload :: "u8 list"
  msg_payloadlen :: int
  msg_qos :: int
  msg_retained :: u8

datatype st_mqtt_event =
  ST_MQTT_EVENT_MSG_DELIVERED st_mqtt_msg
| ST_MQTT_EVENT_PUBLISH_FAILED st_mqtt_msg
| ST_MQTT_EVENT_PUBLISH_TIMEOUT st_mqtt_msg
| ST_MQTT_EVENT_DISCONNECTED int

text \<open>
  The platform. \<open>port_net_read\<close> returns its return code and the bytes it stored, \<open>port_net_connect\<close>
  whether there is a context; \<open>char_signed\<close> and \<open>load_first\<close> are the choices of the compiler the
  packet code depends on, and \<open>locals\<close> is what uninitialised local variables hold.
\<close>

record 'n port =
  port_net_write :: "'n \<Rightarrow> u8 list \<Rightarrow> int \<times> 'n"
  port_net_read :: "'n \<Rightarrow> nat \<Rightarrow> int \<times> u8 list \<times> 'n"
  port_net_read_poll :: "'n \<Rightarrow> nat \<Rightarrow> int \<times> 'n"
  port_net_connect :: "'n \<Rightarrow> string \<Rightarrow> string \<Rightarrow> bool \<times> 'n"
  port_net_close :: "'n \<Rightarrow> 'n"
  port_net_free :: "'n \<Rightarrow> 'n"
  os_time :: "'n \<Rightarrow> nat"
  os_delay :: "nat \<Rightarrow> 'n \<Rightarrow> 'n"
  timer_create_ok :: "'n \<Rightarrow> bool \<times> 'n"
  mutex_init_ok :: "'n \<Rightarrow> bool \<times> 'n"
  char_signed :: bool
  load_first :: bool
  locals :: publish_data
  local_int :: int

text \<open>
  The world: chunk heap, contents of fresh memory, the client (\<^const>\<open>None\<close> is the null pointer), the
  platform, the calls of the user callback so far, and the work queue with the identity of this
  client in it (\<open>client->work_queue\<close>, whose items carry their owner).
\<close>

record 'n world =
  w_mem :: "chunk mem"
  w_junk :: "nat \<Rightarrow> nat \<Rightarrow> u8"
  w_cli :: "MQTTClient option"
  w_net :: 'n
  w_events :: "st_mqtt_event list"
  w_queue :: "queue option"
  w_qmem :: "nat mem"
  w_id :: nat
  w_signal :: bool

section \<open>Timers\<close>

definition iot_os_timer_create :: "'n port \<Rightarrow> nat \<Rightarrow> 'n world \<Rightarrow> timer option \<times> 'n world" where
  "iot_os_timer_create P ms w = (case timer_create_ok P (w_net w) of (ok, n) \<Rightarrow>
     (if ok then Some \<lparr>period = ms, deadline = None\<rparr> else None, w\<lparr>w_net := n\<rparr>))"

definition iot_os_timer_start :: "'n port \<Rightarrow> timer \<Rightarrow> 'n world \<Rightarrow> timer" where
  "iot_os_timer_start P t w = t\<lparr>deadline := Some (os_time P (w_net w) + period t)\<rparr>"

definition iot_os_timer_is_active :: "nat \<Rightarrow> timer \<Rightarrow> bool" where
  "iot_os_timer_is_active now t = (case deadline t of None \<Rightarrow> False | Some d \<Rightarrow> now < d)"

text \<open>Creating and starting a timer in one go, as the client always does.\<close>

definition new_timer :: "'n port \<Rightarrow> nat \<Rightarrow> 'n world \<Rightarrow> timer option \<times> 'n world" where
  "new_timer P ms w = (case iot_os_timer_create P ms w of
     (None, w) \<Rightarrow> (None, w) | (Some t, w) \<Rightarrow> (Some (iot_os_timer_start P t w), w))"

section \<open>Memory\<close>

definition get_chunk :: "'n world \<Rightarrow> nat \<Rightarrow> chunk option" where
  "get_chunk w a = vals (cells (w_mem w)) a"

definition upd_chunk :: "(chunk \<Rightarrow> chunk) \<Rightarrow> nat \<Rightarrow> 'n world \<Rightarrow> 'n world option" where
  "upd_chunk f a w = do {
     n \<leftarrow> cells (w_mem w) a;
     Some (w\<lparr>w_mem := (w_mem w)\<lparr>cells := (cells (w_mem w))(a \<mapsto> n\<lparr>val := f (val n)\<rparr>)\<rparr>\<rparr>) }"

definition upd_client :: "(MQTTClient \<Rightarrow> MQTTClient) \<Rightarrow> 'n world \<Rightarrow> 'n world" where
  "upd_client f w = w\<lparr>w_cli := map_option f (w_cli w)\<rparr>"

definition world_malloc :: "'n world \<Rightarrow> nat option \<times> 'n world" where
  "world_malloc w = (case iot_os_malloc (w_mem w) of (r, m) \<Rightarrow> (r, w\<lparr>w_mem := m\<rparr>))"

definition fresh_bytes :: "'n world \<Rightarrow> nat \<Rightarrow> nat \<Rightarrow> u8 list" where
  "fresh_bytes w a n = map (w_junk w a) [0..<n]"

definition zero_chunk :: chunk where
  "zero_chunk = \<lparr>packet_type = 0, packet_id = 0, qos = 0, chunk_data = None, chunk_size = 0,
     chunk_state = PACKET_CHUNK_INIT, expiry_time = None, retry_count = 0, have_owner = False,
     return_code = 0\<rparr>"

text \<open>
  \<open>_iot_mqtt_chunk_destroy\<close> frees the data, deletes the timer and frees the chunk. The data and the
  timer live in the chunk, so that one removal frees all three.
\<close>

definition iot_mqtt_chunk_destroy :: "nat option \<Rightarrow> 'n world \<Rightarrow> 'n world option" where
  "iot_mqtt_chunk_destroy chunk w = (case chunk of
     None \<Rightarrow> Some w
   | Some a \<Rightarrow> do { m \<leftarrow> iot_os_free a (w_mem w); Some (w\<lparr>w_mem := m\<rparr>) })"

definition iot_mqtt_chunk_create :: "nat \<Rightarrow> 'n world \<Rightarrow> nat option \<times> 'n world" where
  "iot_mqtt_chunk_create sz w = (case world_malloc w of
     (None, w) \<Rightarrow> (None, w)
   | (Some a, w) \<Rightarrow> (case world_malloc w of
       (None, w) \<Rightarrow>
         if sz \<noteq> 0 then (None, w)
         else (Some a, w\<lparr>w_mem := (w_mem w)\<lparr>cells := (cells (w_mem w))(a \<mapsto>
                \<lparr>val = zero_chunk, nxt = None\<rparr>)\<rparr>\<rparr>)
     | (Some d, w) \<Rightarrow>
         (Some a, w\<lparr>w_mem := (w_mem w)\<lparr>cells := (cells (w_mem w))(a \<mapsto>
            \<lparr>val = zero_chunk\<lparr>chunk_data := Some (fresh_bytes w d sz), chunk_size := sz\<rparr>,
             nxt = None\<rparr>)\<rparr>\<rparr>)))"

section \<open>The chunk queues\<close>

datatype queue_name = WRITE_PENDING | ACK_PENDING | USER_EVENT

fun get_queue :: "queue_name \<Rightarrow> MQTTClient \<Rightarrow> queue" where
  "get_queue WRITE_PENDING c = write_pending_queue c"
| "get_queue ACK_PENDING c = ack_pending_queue c"
| "get_queue USER_EVENT c = user_event_callback_queue c"

fun set_queue :: "queue_name \<Rightarrow> queue \<Rightarrow> MQTTClient \<Rightarrow> MQTTClient" where
  "set_queue WRITE_PENDING q c = c\<lparr>write_pending_queue := q\<rparr>"
| "set_queue ACK_PENDING q c = c\<lparr>ack_pending_queue := q\<rparr>"
| "set_queue USER_EVENT q c = c\<lparr>user_event_callback_queue := q\<rparr>"

definition put_queue :: "queue_name \<Rightarrow> chunk heap \<Rightarrow> queue \<Rightarrow> 'n world \<Rightarrow> 'n world" where
  "put_queue k h q w = w\<lparr>w_mem := (w_mem w)\<lparr>cells := h\<rparr>, w_cli := map_option (set_queue k q) (w_cli w)\<rparr>"

definition iot_mqtt_queue_push :: "queue_name \<Rightarrow> nat \<Rightarrow> 'n world \<Rightarrow> (int \<times> 'n world) option" where
  "iot_mqtt_queue_push k a w = do {
     c \<leftarrow> w_cli w;
     if \<not> q_sem (get_queue k c) then Some (-1, w)
     else do { (h, q) \<leftarrow> link_push (cells (w_mem w)) (get_queue k c) a; Some (0, put_queue k h q w) } }"

text \<open>
  The three ways to take a chunk out. The two searches of the source differ only in the test, and
  the model passes the test to the search both share.
\<close>

definition queue_pop_by :: "(chunk \<Rightarrow> bool) \<Rightarrow> queue_name \<Rightarrow> 'n world \<Rightarrow> (nat option \<times> 'n world) option" where
  "queue_pop_by T k w = do {
     c \<leftarrow> w_cli w;
     if \<not> q_sem (get_queue k c) then Some (None, w)
     else do { (r, h, q) \<leftarrow> link_pop_by T (cells (w_mem w)) (get_queue k c); Some (r, put_queue k h q w) } }"

definition iot_mqtt_queue_pop_by_type_and_id ::
  "queue_name \<Rightarrow> int \<Rightarrow> u32 \<Rightarrow> 'n world \<Rightarrow> (nat option \<times> 'n world) option" where
  "iot_mqtt_queue_pop_by_type_and_id k type pid w =
     queue_pop_by (\<lambda>c. packet_type c = type \<and> packet_id c = pid) k w"

definition iot_mqtt_queue_pop_by_expiry ::
  "'n port \<Rightarrow> queue_name \<Rightarrow> 'n world \<Rightarrow> (nat option \<times> 'n world) option" where
  "iot_mqtt_queue_pop_by_expiry P k w =
     queue_pop_by (\<lambda>c. case expiry_time c of None \<Rightarrow> False
       | Some t \<Rightarrow> \<not> iot_os_timer_is_active (os_time P (w_net w)) t) k w"

definition iot_mqtt_queue_pop :: "queue_name \<Rightarrow> 'n world \<Rightarrow> (nat option \<times> 'n world) option" where
  "iot_mqtt_queue_pop k w = do {
     c \<leftarrow> w_cli w;
     if \<not> q_sem (get_queue k c) then Some (None, w)
     else do { (r, h, q) \<leftarrow> link_pop (cells (w_mem w)) (get_queue k c); Some (r, put_queue k h q w) } }"

definition iot_mqtt_queue_init :: "'n port \<Rightarrow> queue_name \<Rightarrow> 'n world \<Rightarrow> int \<times> 'n world" where
  "iot_mqtt_queue_init P k w = (case mutex_init_ok P (w_net w) of (ok, n) \<Rightarrow>
     (if ok then 0 else -1, upd_client (set_queue k \<lparr>q_head = None, q_tail = None, q_sem = ok\<rparr>) (w\<lparr>w_net := n\<rparr>)))"

text \<open>\<open>_iot_mqtt_queue_destroy\<close>: an owned chunk is detached and marked, any other is destroyed.\<close>

partial_function (option) queue_destroy_loop :: "nat option \<Rightarrow> 'n world \<Rightarrow> 'n world option" where
  "queue_destroy_loop iterator w = (case iterator of
     None \<Rightarrow> Some w
   | Some a \<Rightarrow> do {
       n \<leftarrow> cells (w_mem w) a;
       if have_owner (val n)
       then do {
         h \<leftarrow> set_nxt (cells (w_mem w)) a None;
         w' \<leftarrow> upd_chunk (\<lambda>c. c\<lparr>chunk_state := PACKET_CHUNK_QUEUE_DESTROYED\<rparr>) a
                (w\<lparr>w_mem := (w_mem w)\<lparr>cells := h\<rparr>\<rparr>);
         queue_destroy_loop (nxt n) w' }
       else do { w' \<leftarrow> iot_mqtt_chunk_destroy (Some a) w; queue_destroy_loop (nxt n) w' } })"

definition iot_mqtt_queue_destroy :: "queue_name \<Rightarrow> 'n world \<Rightarrow> 'n world option" where
  "iot_mqtt_queue_destroy k w = do {
     c \<leftarrow> w_cli w;
     if \<not> q_sem (get_queue k c) then Some w
     else do {
       w \<leftarrow> queue_destroy_loop (q_head (get_queue k c)) w;
       Some (upd_client (set_queue k \<lparr>q_head = None, q_tail = None, q_sem = False\<rparr>) w) } }"

section \<open>The network\<close>

text \<open>
  \<open>_iot_mqtt_write_net\<close> and \<open>_iot_mqtt_read_net\<close> call the platform until everything is transferred
  or it reports an error. A platform that keeps answering 0 keeps them in the loop.
\<close>

partial_function (option) iot_mqtt_write_net_loop ::
  "'n port \<Rightarrow> u8 list \<Rightarrow> nat \<Rightarrow> nat \<Rightarrow> 'n \<Rightarrow> (int \<times> 'n) option" where
  "iot_mqtt_write_net_loop P buf sentLen len n =
     (case port_net_write P n (take (len - sentLen) (drop sentLen buf)) of (ret, n) \<Rightarrow>
        if ret \<ge> 0
        then (if sentLen + nat ret < len then iot_mqtt_write_net_loop P buf (sentLen + nat ret) len n
              else Some (int (sentLen + nat ret), n))
        else Some (ret, n))"

definition iot_mqtt_write_net :: "'n port \<Rightarrow> u8 list \<Rightarrow> nat \<Rightarrow> 'n \<Rightarrow> (int \<times> 'n) option" where
  "iot_mqtt_write_net P buf len n =
     (if length buf < len then None else iot_mqtt_write_net_loop P buf 0 len n)"

partial_function (option) iot_mqtt_read_net_loop ::
  "'n port \<Rightarrow> u8 list \<Rightarrow> nat \<Rightarrow> nat \<Rightarrow> nat \<Rightarrow> 'n \<Rightarrow> (int \<times> u8 list \<times> 'n) option" where
  "iot_mqtt_read_net_loop P buf off recvLen len n =
     (case port_net_read P n (len - recvLen) of (ret, bs, n) \<Rightarrow> do {
        (buf, _) \<leftarrow> write_bytes bs (buf, off + recvLen);
        if ret \<ge> 0
        then (if recvLen + nat ret < len then iot_mqtt_read_net_loop P buf off (recvLen + nat ret) len n
              else Some (int (recvLen + nat ret), buf, n))
        else Some (ret, buf, n) })"

definition iot_mqtt_read_net ::
  "'n port \<Rightarrow> u8 list \<Rightarrow> nat \<Rightarrow> nat \<Rightarrow> 'n \<Rightarrow> (int \<times> u8 list \<times> 'n) option" where
  "iot_mqtt_read_net P buf off len n =
     (if len = 0 then Some (0, buf, n) else iot_mqtt_read_net_loop P buf off 0 len n)"

definition iot_mqtt_close_net :: "'n port \<Rightarrow> 'n world \<Rightarrow> 'n world option" where
  "iot_mqtt_close_net P w = do {
     c \<leftarrow> w_cli w;
     if \<not> read_lock c then Some w
     else if \<not> write_lock c then Some w
     else if isconnected c
     then Some ((upd_client (\<lambda>c. c\<lparr>isconnected := False\<rparr>) w)\<lparr>w_net := port_net_close P (w_net w)\<rparr>)
     else Some w }"

text \<open>
  The decimal digits of a port number as \<open>snprintf(port, 5, "%d", p)\<close> stores them: at most four,
  because the terminator takes the fifth place.
\<close>

definition snprintf_port :: "int \<Rightarrow> string" where
  "snprintf_port p = take 4 (if p < 0 then CHR ''-'' # decimal (nat (- p)) else decimal (nat p))"

record st_mqtt_broker_info =
  broker_url :: string
  broker_port :: int

definition iot_mqtt_connect_net ::
  "'n port \<Rightarrow> st_mqtt_broker_info \<Rightarrow> 'n world \<Rightarrow> int \<times> 'n world" where
  "iot_mqtt_connect_net P broker w = (case w_cli w of
     None \<Rightarrow> (E_ST_MQTT_FAILURE, w)
   | Some c \<Rightarrow>
       if magic c \<noteq> MQTT_CLIENT_STRUCT_MAGIC_NUMBER then (E_ST_MQTT_FAILURE, w)
       else if \<not> read_lock c then (E_ST_MQTT_FAILURE, w)
       else if \<not> write_lock c then (E_ST_MQTT_FAILURE, w)
       else let w = (if net_ctx c
                     then (upd_client (\<lambda>c. c\<lparr>net_ctx := False\<rparr>) w)\<lparr>w_net := port_net_free P (w_net w)\<rparr>
                     else w)
            in case port_net_connect P (w_net w) (broker_url broker) (snprintf_port (broker_port broker)) of
              (ok, n) \<Rightarrow>
                if \<not> ok then (E_ST_MQTT_FAILURE, w\<lparr>w_net := n\<rparr>)
                else (0, (upd_client (\<lambda>c. c\<lparr>net_ctx := True, isconnected := True\<rparr>) w)\<lparr>w_net := n\<rparr>))"

section \<open>Signalling the work queue\<close>

text \<open>
  \<open>_iot_mqtt_signal_pending_work\<close> sends an item that names this client and sets the event bit. The
  timer callbacks only do that.
\<close>

definition iot_mqtt_signal_pending_work :: "'n world \<Rightarrow> (iot_error \<times> 'n world) option" where
  "iot_mqtt_signal_pending_work w = do {
     (err, q, m) \<leftarrow> iot_util_queue_send (w_queue w) (Some (w_id w)) (w_qmem w);
     let w = w\<lparr>w_queue := q, w_qmem := m\<rparr>;
     if err \<noteq> IOT_ERROR_NONE then Some (err, w) else Some (IOT_ERROR_NONE, w\<lparr>w_signal := True\<rparr>) }"

definition iot_mqtt_chunk_expire_timeout :: "'n world \<Rightarrow> 'n world option" where
  "iot_mqtt_chunk_expire_timeout w =
     (if w_queue w \<noteq> None then do { (_, w) \<leftarrow> iot_mqtt_signal_pending_work w; Some w } else Some w)"

definition iot_mqtt_ping_timeout :: "'n world \<Rightarrow> 'n world option" where
  "iot_mqtt_ping_timeout w =
     (if w_queue w \<noteq> None then do { (_, w) \<leftarrow> iot_mqtt_signal_pending_work w; Some w } else Some w)"

end
