(* ===== verification/Mqtt_Cycle.thy ===== *)
theory Mqtt_Cycle
  imports Mqtt_State
begin

text \<open>
  The work cycle of \<^verbatim>\<open>src/mqtt/client/iot_mqtt_client.c\<close>: what happens to a packet after it was
  written and after one was read, the write and the read stream, the keep alive check, the
  retransmission of unacknowledged packets, the user callbacks and the loops that drive them.
\<close>

section \<open>Shared steps\<close>

text \<open>
  Waiting for the acknowledgement of a written packet: the statements \<open>_iot_mqtt_process_post_write\<close>
  repeats in three branches, with the period of the timer.
\<close>

definition await_ack :: "'n port \<Rightarrow> nat \<Rightarrow> nat \<Rightarrow> 'n world \<Rightarrow> 'n world option" where
  "await_ack P ms a w = do {
     w \<leftarrow> upd_chunk (\<lambda>c. c\<lparr>chunk_state := PACKET_CHUNK_ACK_PENDING\<rparr>) a w;
     let (t, w) = new_timer P ms w;
     w \<leftarrow> upd_chunk (\<lambda>c. c\<lparr>expiry_time := t\<rparr>) a w;
     (_, w) \<leftarrow> iot_mqtt_queue_push ACK_PENDING a w;
     Some w }"

text \<open>Closing the connection and queueing the event, as the two streams and the ping check end.\<close>

definition disconnected_event :: "'n port \<Rightarrow> int \<Rightarrow> 'n world \<Rightarrow> 'n world option" where
  "disconnected_event P reason w = do {
     w \<leftarrow> iot_mqtt_close_net P w;
     (case iot_mqtt_chunk_create 0 w of
        (None, w) \<Rightarrow> Some w
      | (Some e, w) \<Rightarrow> do {
          w \<leftarrow> upd_chunk (\<lambda>c. c\<lparr>chunk_state := EVENT_CHUNK_DISCONNECTED, return_code := reason\<rparr>) e w;
          (_, w) \<leftarrow> iot_mqtt_queue_push USER_EVENT e w;
          Some w }) }"

definition restart_last_sent :: "'n port \<Rightarrow> 'n world \<Rightarrow> 'n world option" where
  "restart_last_sent P w = do {
     c \<leftarrow> w_cli w;
     if magic c = MQTT_CLIENT_STRUCT_MAGIC_NUMBER \<and> client_manage_lock c
     then do { t \<leftarrow> last_sent c;
               Some (upd_client (\<lambda>c. c\<lparr>last_sent := Some (iot_os_timer_start P t w)\<rparr>) w) }
     else Some w }"

definition restart_last_received :: "'n port \<Rightarrow> 'n world \<Rightarrow> 'n world option" where
  "restart_last_received P w = do {
     c \<leftarrow> w_cli w;
     if magic c = MQTT_CLIENT_STRUCT_MAGIC_NUMBER \<and> client_manage_lock c
     then do { t \<leftarrow> last_received c;
               Some (upd_client (\<lambda>c. c\<lparr>last_received := Some (iot_os_timer_start P t w)\<rparr>) w) }
     else Some w }"

section \<open>Writing\<close>

definition iot_mqtt_process_post_write :: "'n port \<Rightarrow> nat \<Rightarrow> 'n world \<Rightarrow> 'n world option" where
  "iot_mqtt_process_post_write P a w = do {
     c \<leftarrow> get_chunk w a;
     if packet_type c = msg_code CONNECT then await_ack P MQTT_CONNECT_TIMEOUT a w
     else if packet_type c \<in> set (map msg_code [SUBSCRIBE, UNSUBSCRIBE, PUBREL, PUBREC, PINGREQ])
     then await_ack P MQTT_RETRY_TIMEOUT a w
     else if packet_type c = msg_code PUBLISH
     then (if qos c = 0
           then do {
             w \<leftarrow> upd_chunk (\<lambda>c. c\<lparr>chunk_state := PACKET_CHUNK_WRITE_COMPLETED\<rparr>) a w;
             if \<not> have_owner c then iot_mqtt_chunk_destroy (Some a) w else Some w }
           else await_ack P MQTT_RETRY_TIMEOUT a w)
     else if packet_type c = msg_code DISCONNECT
     then (if have_owner c
           then upd_chunk (\<lambda>c. c\<lparr>chunk_state := PACKET_CHUNK_WRITE_COMPLETED\<rparr>) a w
           else iot_mqtt_chunk_destroy (Some a) w)
     else iot_mqtt_chunk_destroy (Some a) w }"

text \<open>The inner loop of the write stream, over the data of the chunk.\<close>

partial_function (option) write_chunk_loop ::
  "'n port \<Rightarrow> u8 list \<Rightarrow> nat \<Rightarrow> nat \<Rightarrow> 'n \<Rightarrow> (nat \<times> 'n) option" where
  "write_chunk_loop P data sz written n =
     (if written = sz then Some (written, n)
      else if sz < written \<or> length data < sz then None
      else do {
        (rc, n) \<leftarrow> iot_mqtt_write_net P (drop written data) (sz - written) n;
        if rc > 0 then write_chunk_loop P data sz (written + nat rc) n
        else if rc < 0 then Some (written, n)
        else write_chunk_loop P data sz written n })"

definition write_failed :: "'n port \<Rightarrow> int \<Rightarrow> nat \<Rightarrow> 'n world \<Rightarrow> (int \<times> 'n world) option" where
  "write_failed P written a w = do {
     w \<leftarrow> upd_chunk (\<lambda>c. c\<lparr>chunk_state := PACKET_CHUNK_WRITE_FAIL, return_code := written\<rparr>) a w;
     c \<leftarrow> get_chunk w a;
     w \<leftarrow> (if \<not> have_owner c then do { (_, w) \<leftarrow> iot_mqtt_queue_push USER_EVENT a w; Some w } else Some w);
     w \<leftarrow> (if written = E_ST_MQTT_NETWORK_ERROR
          then disconnected_event P MQTT_DISCONNECTED_NETWORK_ERROR w else Some w);
     Some (written, w) }"

definition iot_mqtt_run_write_stream :: "'n port \<Rightarrow> 'n world \<Rightarrow> (int \<times> 'n world) option" where
  "iot_mqtt_run_write_stream P w = (case w_cli w of
     None \<Rightarrow> Some (E_ST_MQTT_FAILURE, w)
   | Some c \<Rightarrow>
       if magic c \<noteq> MQTT_CLIENT_STRUCT_MAGIC_NUMBER then Some (E_ST_MQTT_FAILURE, w)
       else if \<not> write_lock c then Some (0, w)
       else do {
         (r, w) \<leftarrow> iot_mqtt_queue_pop WRITE_PENDING w;
         case r of
           None \<Rightarrow> Some (0, w)
         | Some a \<Rightarrow>
             if \<not> isconnected c then write_failed P E_ST_MQTT_DISCONNECTED a w
             else do {
               ch \<leftarrow> get_chunk w a;
               (written, n) \<leftarrow> write_chunk_loop P (case chunk_data ch of Some d \<Rightarrow> d | None \<Rightarrow> [])
                               (chunk_size ch) 0 (w_net w);
               let w = w\<lparr>w_net := n\<rparr>;
               if written = chunk_size ch
               then do {
                 w \<leftarrow> iot_mqtt_process_post_write P a w;
                 w \<leftarrow> (if written > 0 then restart_last_sent P w else Some w);
                 Some (int written, w) }
               else write_failed P E_ST_MQTT_NETWORK_ERROR a w } })"

section \<open>Reading\<close>

definition iot_mqtt_convert_return_code :: "int \<Rightarrow> int" where
  "iot_mqtt_convert_return_code mqtt_rc =
     (if mqtt_rc = 0 then 0
      else if mqtt_rc = 1 then E_ST_MQTT_UNNACCEPTABLE_PROTOCOL
      else if mqtt_rc = 3 then E_ST_MQTT_SERVER_UNAVAILABLE
      else if mqtt_rc = 2 then E_ST_MQTT_CLIENTID_REJECTED
      else if mqtt_rc = 4 then E_ST_MQTT_BAD_USERNAME_OR_PASSWORD
      else if mqtt_rc = 5 then E_ST_MQTT_NOT_AUTHORIZED
      else E_ST_MQTT_FAILURE)"

text \<open>Which waiting packet an acknowledgement answers: its type and identifier.\<close>

definition ack_target :: "chunk \<Rightarrow> (int \<times> u32) option" where
  "ack_target c =
     (if packet_type c = msg_code CONNACK then Some (msg_code CONNECT, 0)
      else if packet_type c = msg_code PUBACK then Some (msg_code PUBLISH, packet_id c)
      else if packet_type c = msg_code SUBACK then Some (msg_code SUBSCRIBE, packet_id c)
      else if packet_type c = msg_code UNSUBACK then Some (msg_code UNSUBSCRIBE, packet_id c)
      else if packet_type c = msg_code PUBCOMP then Some (msg_code PUBREL, packet_id c)
      else if packet_type c = msg_code PINGRESP then Some (msg_code PINGREQ, 0)
      else None)"

text \<open>The return code a received acknowledgement gives the waiting packet; most keep the old one.\<close>

definition ack_return_code :: "'n port \<Rightarrow> chunk \<Rightarrow> int \<Rightarrow> int option" where
  "ack_return_code P c old =
     (if packet_type c = msg_code CONNACK
      then do { d \<leftarrow> chunk_data c; (_, _, ack_rc) \<leftarrow> MQTTDeserialize_connack d (0, 0);
                Some (iot_mqtt_convert_return_code (uint ack_rc)) }
      else if packet_type c = msg_code SUBACK
      then do { d \<leftarrow> chunk_data c; (_, _, qs) \<leftarrow> MQTTDeserialize_suback (char_signed P) 1 1 (0, []) d;
                let ack_qos = (case qs of q # _ \<Rightarrow> q | [] \<Rightarrow> local_int P);
                Some (if ack_qos = 0x80 then E_ST_MQTT_FAILURE else 0) }
      else Some old)"

definition iot_mqtt_process_received_ack :: "'n port \<Rightarrow> nat \<Rightarrow> 'n world \<Rightarrow> 'n world option" where
  "iot_mqtt_process_received_ack P a w = do {
     c \<leftarrow> get_chunk w a;
     case ack_target c of
       None \<Rightarrow> Some w
     | Some (t, i) \<Rightarrow> do {
         (tmp, w) \<leftarrow> iot_mqtt_queue_pop_by_type_and_id ACK_PENDING t i w;
         w \<leftarrow> (case tmp of
                 None \<Rightarrow> Some w
               | Some b \<Rightarrow> do {
                   tc \<leftarrow> get_chunk w b;
                   rc \<leftarrow> ack_return_code P c (return_code tc);
                   if have_owner tc
                   then upd_chunk (\<lambda>c. c\<lparr>return_code := rc, chunk_state := PACKET_CHUNK_ACKNOWLEDGED,
                                          expiry_time := None\<rparr>) b w
                   else iot_mqtt_chunk_destroy (Some b) w });
         iot_mqtt_chunk_destroy (Some a) w } }"

text \<open>Filling a chunk of four bytes with an acknowledgement.\<close>

definition serialize_ack_chunk :: "msgTypes \<Rightarrow> nat \<Rightarrow> 'n world \<Rightarrow> 'n world option" where
  "serialize_ack_chunk t b w = do {
     c \<leftarrow> get_chunk w b;
     d \<leftarrow> chunk_data c;
     (_, d) \<leftarrow> MQTTSerialize_ack d (int (chunk_size c)) (msg_code t) 0 (ucast (packet_id c));
     upd_chunk (\<lambda>c. c\<lparr>packet_type := msg_code t, chunk_data := Some d\<rparr>) b w }"

text \<open>The acknowledgement of a received PUBLISH, in the chunk \<open>b\<close> created for it.\<close>

definition queue_publish_ack :: "chunk \<Rightarrow> nat \<Rightarrow> 'n world \<Rightarrow> 'n world option" where
  "queue_publish_ack c b w = do {
     w \<leftarrow> upd_chunk (\<lambda>p. p\<lparr>packet_id := packet_id c\<rparr>) b w;
     w \<leftarrow> (if qos c = 1 then serialize_ack_chunk PUBACK b w
          else if qos c = 2 then serialize_ack_chunk PUBREC b w
          else Some w);
     w \<leftarrow> upd_chunk (\<lambda>p. p\<lparr>chunk_state := PACKET_CHUNK_WRITE_PENDING\<rparr>) b w;
     (_, w) \<leftarrow> iot_mqtt_queue_push WRITE_PENDING b w;
     Some w }"

text \<open>Delivering a received PUBLISH to the callback queue, or dropping it when its duplicate flag is set.\<close>

definition deliver_or_drop :: "nat \<Rightarrow> chunk \<Rightarrow> 'n world \<Rightarrow> 'n world option" where
  "deliver_or_drop a c w = do {
     d \<leftarrow> chunk_data c;
     b0 \<leftarrow> read_byte d 0;
     if drop_bit 3 (b0 AND 0x08) \<noteq> 0 then iot_mqtt_chunk_destroy (Some a) w
     else do { (_, w) \<leftarrow> iot_mqtt_queue_push USER_EVENT a w; Some w } }"

definition iot_mqtt_process_received_publish :: "nat \<Rightarrow> 'n world \<Rightarrow> 'n world option" where
  "iot_mqtt_process_received_publish a w = do {
     c \<leftarrow> get_chunk w a;
     if qos c \<noteq> 0
     then (case iot_mqtt_chunk_create MQTT_ACK_PACKET_SIZE w of
             (None, w) \<Rightarrow> iot_mqtt_chunk_destroy (Some a) w
           | (Some b, w) \<Rightarrow> do { w \<leftarrow> queue_publish_ack c b w; deliver_or_drop a c w })
     else deliver_or_drop a c w }"

text \<open>
  \<open>_iot_mqtt_process_received_pubrec_pubrel\<close> recycles the waiting packet: new data of four bytes, the
  next type of the exchange, and back into the write queue.
\<close>

definition recycle_chunk :: "nat \<Rightarrow> 'n world \<Rightarrow> 'n world option" where
  "recycle_chunk b w = do {
     w \<leftarrow> upd_chunk (\<lambda>c. c\<lparr>chunk_data := None, chunk_size := MQTT_ACK_PACKET_SIZE\<rparr>) b w;
     (case world_malloc w of
        (None, w) \<Rightarrow> iot_mqtt_chunk_destroy (Some b) w
      | (Some d, w) \<Rightarrow> do {
          w \<leftarrow> upd_chunk (\<lambda>c. c\<lparr>chunk_data := Some (fresh_bytes w d MQTT_ACK_PACKET_SIZE)\<rparr>) b w;
          c \<leftarrow> get_chunk w b;
          w \<leftarrow> (if packet_type c = msg_code PUBLISH then serialize_ack_chunk PUBREL b w
               else if packet_type c = msg_code PUBREC then serialize_ack_chunk PUBCOMP b w
               else Some w);
          w \<leftarrow> upd_chunk (\<lambda>c. c\<lparr>chunk_state := PACKET_CHUNK_WRITE_PENDING\<rparr>) b w;
          (_, w) \<leftarrow> iot_mqtt_queue_push WRITE_PENDING b w;
          Some w }) }"

definition iot_mqtt_process_received_pubrec_pubrel :: "nat \<Rightarrow> 'n world \<Rightarrow> 'n world option" where
  "iot_mqtt_process_received_pubrec_pubrel a w = do {
     c \<leftarrow> get_chunk w a;
     if packet_type c \<noteq> msg_code PUBREC \<and> packet_type c \<noteq> msg_code PUBREL then Some w
     else do {
       (tmp, w) \<leftarrow> iot_mqtt_queue_pop_by_type_and_id ACK_PENDING
                   (if packet_type c = msg_code PUBREC then msg_code PUBLISH else msg_code PUBREC)
                   (packet_id c) w;
       w \<leftarrow> iot_mqtt_chunk_destroy (Some a) w;
       case tmp of None \<Rightarrow> Some w | Some b \<Rightarrow> recycle_chunk b w } }"

definition iot_mqtt_process_post_read :: "'n port \<Rightarrow> nat \<Rightarrow> 'n world \<Rightarrow> 'n world option" where
  "iot_mqtt_process_post_read P a w = do {
     c \<leftarrow> get_chunk w a;
     if packet_type c \<in> set (map msg_code [CONNACK, PUBACK, SUBACK, UNSUBACK, PUBCOMP, PINGRESP])
     then iot_mqtt_process_received_ack P a w
     else if packet_type c = msg_code PUBLISH then iot_mqtt_process_received_publish a w
     else if packet_type c \<in> set (map msg_code [PUBREC, PUBREL])
     then iot_mqtt_process_received_pubrec_pubrel a w
     else iot_mqtt_chunk_destroy (Some a) w }"

text \<open>
  Reading the fixed header byte by byte into the local array of five bytes. \<^term>\<open>Inl rc\<close> is the
  error exit, \<^term>\<open>Inr (hdr, read, rem_size)\<close> the array, the bytes read and the decoded length.
\<close>

function read_length_loop ::
  "'n port \<Rightarrow> u8 list \<Rightarrow> nat \<Rightarrow> nat \<Rightarrow> nat \<Rightarrow> 'n \<Rightarrow> ((int + u8 list \<times> nat \<times> nat) \<times> 'n) option" where
  "read_length_loop P hdr rd rem mult n =
     (if rd - 1 \<ge> MAX_NUM_OF_REMAINING_LENGTH_BYTES then Some (Inl E_ST_MQTT_NETWORK_ERROR, n)
      else do {
        (rc, hdr, n) \<leftarrow> iot_mqtt_read_net P hdr rd 1 n;
        if rc \<le> 0 then Some (Inl E_ST_MQTT_NETWORK_ERROR, n)
        else do {
          b \<leftarrow> read_byte hdr rd;
          let rem = rem + unat (b AND 127) * mult;
          if b AND 128 \<noteq> 0 then read_length_loop P hdr (Suc rd) rem (mult * 128) n
          else Some (Inr (hdr, Suc rd, rem), n) } })"
  by pat_completeness auto
termination
  by (relation "measure (\<lambda>(P, hdr, rd, rem, mult, n). 5 - rd)") auto

declare read_length_loop.simps [simp del]

definition read_fixed_header ::
  "'n port \<Rightarrow> 'n \<Rightarrow> ((int + u8 list \<times> nat \<times> nat) \<times> 'n) option" where
  "read_fixed_header P n = do {
     (rc, hdr, n) \<leftarrow> iot_mqtt_read_net P (replicate 5 0) 0 1 n;
     if rc \<le> 0 then Some (Inl E_ST_MQTT_NETWORK_ERROR, n) else read_length_loop P hdr 1 0 1 n }"

partial_function (option) read_body_loop ::
  "'n port \<Rightarrow> u8 list \<Rightarrow> nat \<Rightarrow> nat \<Rightarrow> 'n \<Rightarrow> (nat \<times> u8 list \<times> 'n) option" where
  "read_body_loop P data sz rd n =
     (if rd = sz then Some (rd, data, n)
      else if sz < rd then None
      else do {
        (rc, data, n) \<leftarrow> iot_mqtt_read_net P data rd (sz - rd) n;
        if rc < 0 then Some (rd, data, n) else read_body_loop P data sz (rd + nat rc) n })"

definition read_finish :: "'n port \<Rightarrow> int \<Rightarrow> 'n world \<Rightarrow> (int \<times> 'n world) option" where
  "read_finish P rd w = do {
     w \<leftarrow> (if rd > 0 then restart_last_received P w else Some w);
     w \<leftarrow> (if rd = E_ST_MQTT_NETWORK_ERROR
          then disconnected_event P MQTT_DISCONNECTED_NETWORK_ERROR w else Some w);
     Some (rd, w) }"

text \<open>The second half of the read stream: the chunk, the rest of the packet, and its processing.\<close>

definition read_packet_body ::
  "'n port \<Rightarrow> u8 list \<Rightarrow> nat \<Rightarrow> nat \<Rightarrow> 'n world \<Rightarrow> (int \<times> 'n world) option" where
  "read_packet_body P hdr rd rem w = (case iot_mqtt_chunk_create (rd + rem) w of
     (None, w) \<Rightarrow> read_finish P E_ST_MQTT_BUFFER_OVERFLOW w
   | (Some a, w) \<Rightarrow> do {
       c \<leftarrow> get_chunk w a;
       d \<leftarrow> chunk_data c;
       (d, _) \<leftarrow> write_bytes (take rd hdr) (d, 0);
       (got, d, n) \<leftarrow> read_body_loop P d (chunk_size c) rd (w_net w);
       w \<leftarrow> upd_chunk (\<lambda>c. c\<lparr>chunk_data := Some d\<rparr>) a (w\<lparr>w_net := n\<rparr>);
       if got = chunk_size c
       then do {
         b0 \<leftarrow> read_byte d 0;
         pid \<leftarrow> MQTTPacket_getPacketId (load_first P) d;
         w \<leftarrow> upd_chunk (\<lambda>c. c\<lparr>chunk_state := PACKET_CHUNK_READ_COMPLETED,
                packet_type := uint (drop_bit 4 (b0 AND 0xf0)), qos := uint (drop_bit 1 (b0 AND 0x06)),
                packet_id := of_nat pid\<rparr>) a w;
         w \<leftarrow> iot_mqtt_process_post_read P a w;
         read_finish P (int got) w }
       else do {
         w \<leftarrow> iot_mqtt_chunk_destroy (Some a) w;
         read_finish P E_ST_MQTT_NETWORK_ERROR w } })"

definition iot_mqtt_run_read_stream :: "'n port \<Rightarrow> 'n world \<Rightarrow> (int \<times> 'n world) option" where
  "iot_mqtt_run_read_stream P w = (case w_cli w of
     None \<Rightarrow> Some (E_ST_MQTT_FAILURE, w)
   | Some c \<Rightarrow>
       if magic c \<noteq> MQTT_CLIENT_STRUCT_MAGIC_NUMBER then Some (E_ST_MQTT_FAILURE, w)
       else if \<not> read_lock c then Some (0, w)
       else if \<not> isconnected c then read_finish P E_ST_MQTT_DISCONNECTED w
       else (case port_net_read_poll P (w_net w) 0 of (rc, n) \<Rightarrow>
         let w = w\<lparr>w_net := n\<rparr> in
         if rc < 0 then read_finish P E_ST_MQTT_NETWORK_ERROR w
         else if rc = 0 then read_finish P 0 w
         else do {
           (r, n) \<leftarrow> read_fixed_header P (w_net w);
           let w = w\<lparr>w_net := n\<rparr>;
           case r of Inl rd \<Rightarrow> read_finish P rd w
           | Inr (hdr, rd, rem) \<Rightarrow> read_packet_body P hdr rd rem w }))"

section \<open>Keep alive\<close>

text \<open>\<open>_iot_mqtt_check_alive\<close>; the second timer is looked at only when the first is running.\<close>

definition iot_mqtt_check_alive :: "'n port \<Rightarrow> 'n world \<Rightarrow> (int \<times> 'n world) option" where
  "iot_mqtt_check_alive P w = (case w_cli w of
     None \<Rightarrow> Some (E_ST_MQTT_PING_FAIL, w)
   | Some c \<Rightarrow>
       if magic c \<noteq> MQTT_CLIENT_STRUCT_MAGIC_NUMBER then Some (E_ST_MQTT_PING_FAIL, w)
       else if \<not> client_manage_lock c then Some (E_ST_MQTT_PING_FAIL, w)
       else do {
         ts \<leftarrow> last_sent c;
         idle \<leftarrow> (if \<not> iot_os_timer_is_active (os_time P (w_net w)) ts then Some True
                 else do { tr \<leftarrow> last_received c;
                           Some (\<not> iot_os_timer_is_active (os_time P (w_net w)) tr) });
         if \<not> idle then Some (0, w)
         else do {
           p \<leftarrow> ping_packet c;
           ch \<leftarrow> get_chunk w p;
           if chunk_state ch \<in> {PACKET_CHUNK_ACKNOWLEDGED, PACKET_CHUNK_INIT}
           then do {
             w \<leftarrow> upd_chunk (\<lambda>c. c\<lparr>chunk_state := PACKET_CHUNK_WRITE_PENDING, retry_count := 0\<rparr>) p w;
             (_, w) \<leftarrow> iot_mqtt_queue_push WRITE_PENDING p w;
             Some (0, w) }
           else if chunk_state ch = PACKET_CHUNK_TIMEOUT
           then do {
             w \<leftarrow> upd_chunk (\<lambda>c. c\<lparr>chunk_state := PACKET_CHUNK_INIT\<rparr>) p w;
             w \<leftarrow> disconnected_event P MQTT_DISCONNECTED_PING_TIMEOUT w;
             Some (E_ST_MQTT_PING_TIMEOUT, w) }
           else Some (0, w) } })"

section \<open>Retransmission\<close>

text \<open>
  One round of \<open>_iot_mqtt_process_pending_packets\<close>, for an expired chunk already taken out of the
  queue. The source tests the magic number again before each push; between the two tests nothing
  changes it, so the branches that destroy the chunk are left out.
\<close>

definition process_expired :: "nat \<Rightarrow> 'n world \<Rightarrow> 'n world option" where
  "process_expired a w = do {
     c \<leftarrow> get_chunk w a;
     let time_out = (\<lambda>w. do {
       w \<leftarrow> upd_chunk (\<lambda>c. c\<lparr>chunk_state := PACKET_CHUNK_TIMEOUT\<rparr>) a w;
       if have_owner c then Some w
       else do { (_, w) \<leftarrow> iot_mqtt_queue_push USER_EVENT a w; Some w } });
     if packet_type c = msg_code CONNECT then time_out w
     else do {
       w \<leftarrow> upd_chunk (\<lambda>c. c\<lparr>retry_count := retry_count c + 1\<rparr>) a w;
       if retry_count c + 1 < MQTT_PUBLISH_RETRY
       then do {
         w \<leftarrow> upd_chunk (\<lambda>c. c\<lparr>chunk_state := PACKET_CHUNK_WRITE_PENDING\<rparr>) a w;
         (_, w) \<leftarrow> iot_mqtt_queue_push WRITE_PENDING a w;
         Some w }
       else time_out w } }"

partial_function (option) iot_mqtt_process_pending_packets ::
  "'n port \<Rightarrow> 'n world \<Rightarrow> 'n world option" where
  "iot_mqtt_process_pending_packets P w = (case w_cli w of
     None \<Rightarrow> Some w
   | Some c \<Rightarrow>
       if magic c \<noteq> MQTT_CLIENT_STRUCT_MAGIC_NUMBER then Some w
       else do {
         (r, w) \<leftarrow> iot_mqtt_queue_pop_by_expiry P ACK_PENDING w;
         case r of
           None \<Rightarrow> Some w
         | Some a \<Rightarrow> do { w \<leftarrow> process_expired a w; iot_mqtt_process_pending_packets P w } })"

section \<open>User callbacks\<close>

definition publish_msg_of :: "publish_data \<Rightarrow> st_mqtt_msg" where
  "publish_msg_of out = \<lparr>msg_topic = ls_data (lenstring (pub_topicName out)),
     msg_topiclen = ls_len (lenstring (pub_topicName out)), msg_payload = pub_payload out,
     msg_payloadlen = pub_payloadlen out, msg_qos = pub_qos out, msg_retained = pub_retained out\<rparr>"

definition iot_mqtt_deliver_publish :: "'n port \<Rightarrow> chunk \<Rightarrow> 'n world \<Rightarrow> 'n world option" where
  "iot_mqtt_deliver_publish P c w = do {
     d \<leftarrow> chunk_data c;
     (_, out) \<leftarrow> MQTTDeserialize_publish (locals P) d;
     Some (w\<lparr>w_events := w_events w @ [ST_MQTT_EVENT_MSG_DELIVERED (publish_msg_of out)]\<rparr>) }"

definition iot_mqtt_notify_publish_failed :: "'n port \<Rightarrow> chunk \<Rightarrow> 'n world \<Rightarrow> 'n world option" where
  "iot_mqtt_notify_publish_failed P c w = do {
     d \<leftarrow> chunk_data c;
     (_, out) \<leftarrow> MQTTDeserialize_publish (locals P) d;
     if chunk_state c = PACKET_CHUNK_WRITE_FAIL
     then Some (w\<lparr>w_events := w_events w @ [ST_MQTT_EVENT_PUBLISH_FAILED (publish_msg_of out)]\<rparr>)
     else if chunk_state c = PACKET_CHUNK_TIMEOUT
     then Some (w\<lparr>w_events := w_events w @ [ST_MQTT_EVENT_PUBLISH_TIMEOUT (publish_msg_of out)]\<rparr>)
     else Some w }"

definition user_callback_event :: "'n port \<Rightarrow> chunk \<Rightarrow> 'n world \<Rightarrow> 'n world option" where
  "user_callback_event P c w =
     (case chunk_state c of
        PACKET_CHUNK_TIMEOUT \<Rightarrow>
          if packet_type c = msg_code PUBLISH then iot_mqtt_notify_publish_failed P c w else Some w
      | PACKET_CHUNK_WRITE_FAIL \<Rightarrow>
          if packet_type c = msg_code PUBLISH then iot_mqtt_notify_publish_failed P c w else Some w
      | PACKET_CHUNK_READ_COMPLETED \<Rightarrow>
          if packet_type c = msg_code PUBLISH then iot_mqtt_deliver_publish P c w else Some w
      | EVENT_CHUNK_DISCONNECTED \<Rightarrow>
          Some (w\<lparr>w_events := w_events w @ [ST_MQTT_EVENT_DISCONNECTED (return_code c)]\<rparr>)
      | _ \<Rightarrow> Some w)"

partial_function (option) iot_mqtt_process_user_callback ::
  "'n port \<Rightarrow> 'n world \<Rightarrow> 'n world option" where
  "iot_mqtt_process_user_callback P w = (case w_cli w of
     None \<Rightarrow> Some w
   | Some c \<Rightarrow>
       if magic c \<noteq> MQTT_CLIENT_STRUCT_MAGIC_NUMBER then Some w
       else do {
         (r, w) \<leftarrow> iot_mqtt_queue_pop USER_EVENT w;
         case r of
           None \<Rightarrow> Some w
         | Some a \<Rightarrow> do {
             c \<leftarrow> get_chunk w a;
             w \<leftarrow> user_callback_event P c w;
             w \<leftarrow> iot_mqtt_chunk_destroy (Some a) w;
             iot_mqtt_process_user_callback P w } })"

section \<open>The cycle and the loops around it\<close>

definition iot_mqtt_run_cycle :: "'n port \<Rightarrow> 'n world \<Rightarrow> (int \<times> 'n world) option" where
  "iot_mqtt_run_cycle P w = do {
     (rc, w) \<leftarrow> iot_mqtt_run_write_stream P w;
     if rc < 0 then Some (rc, w)
     else do {
       (rc, w) \<leftarrow> iot_mqtt_run_read_stream P w;
       if rc < 0 then Some (rc, w)
       else do {
         w \<leftarrow> iot_mqtt_process_pending_packets P w;
         iot_mqtt_check_alive P w } } }"

definition iot_mqtt_is_pending_work :: "'n world \<Rightarrow> bool option" where
  "iot_mqtt_is_pending_work w = do {
     c \<leftarrow> w_cli w;
     Some (read_lock c \<and> (q_head (write_pending_queue c) \<noteq> None
       \<or> q_head (user_event_callback_queue c) \<noteq> None)) }"

partial_function (option) listen_loop :: "'n port \<Rightarrow> 'n world \<Rightarrow> 'n world option" where
  "listen_loop P w = (case port_net_read_poll P (w_net w) 0xffffffff of (rc, n) \<Rightarrow> do {
     let w = w\<lparr>w_net := n\<rparr>;
     (rc, w) \<leftarrow> (if rc > 0 then do {
                  (rc, w) \<leftarrow> iot_mqtt_run_read_stream P w;
                  if w_queue w \<noteq> None
                  then do { (_, w) \<leftarrow> iot_mqtt_signal_pending_work w; Some (rc, w) }
                  else Some (rc, w) }
                else Some (rc, w));
     c \<leftarrow> w_cli w;
     if rc \<ge> 0 \<and> isconnected c then listen_loop P w else Some w })"

definition iot_mqtt_listen_socket :: "'n port \<Rightarrow> 'n world \<Rightarrow> 'n world option" where
  "iot_mqtt_listen_socket P w = do {
     w \<leftarrow> listen_loop P w;
     Some (upd_client (\<lambda>c. c\<lparr>socket_thread := False\<rparr>) w) }"

partial_function (option) pending_work_loop :: "'n port \<Rightarrow> 'n world \<Rightarrow> 'n world option" where
  "pending_work_loop P w = do {
     (_, w) \<leftarrow> iot_mqtt_run_cycle P w;
     w \<leftarrow> iot_mqtt_process_user_callback P w;
     b \<leftarrow> iot_mqtt_is_pending_work w;
     if b then pending_work_loop P w else Some w }"

definition iot_mqtt_pending_work :: "'n port \<Rightarrow> 'n world \<Rightarrow> 'n world option" where
  "iot_mqtt_pending_work P w = (if w_cli w = None then Some w else pending_work_loop P w)"

end
