(* ===== verification/Mqtt_Api.thy ===== *)
theory Mqtt_Api
  imports Mqtt_Cycle
begin

text \<open>
  The public operations of \<^verbatim>\<open>src/mqtt/client/iot_mqtt_client.c\<close>: creating and destroying a client,
  connecting, subscribing, publishing, disconnecting, and the loop that waits for a packet to be
  acknowledged.
\<close>

section \<open>Driving the client\<close>

partial_function (option) yield_loop :: "'n port \<Rightarrow> timer \<Rightarrow> 'n world \<Rightarrow> (int \<times> 'n world) option" where
  "yield_loop P t w = do {
     (rc, w) \<leftarrow> iot_mqtt_run_cycle P w;
     w \<leftarrow> iot_mqtt_process_user_callback P w;
     if iot_os_timer_is_active (os_time P (w_net w)) t \<and> rc = 0 then yield_loop P t w
     else Some (rc, w) }"

definition st_mqtt_yield :: "'n port \<Rightarrow> nat \<Rightarrow> 'n world \<Rightarrow> (int \<times> 'n world) option" where
  "st_mqtt_yield P time w = do {
     let finish = (\<lambda>rc w. if rc = 0
       then do { b \<leftarrow> iot_mqtt_is_pending_work w; Some (if b then 1 else rc, w) } else Some (rc, w));
     if time = 0
     then do {
       (rc, w) \<leftarrow> iot_mqtt_run_cycle P w;
       w \<leftarrow> iot_mqtt_process_user_callback P w;
       finish rc w }
     else (case new_timer P time w of
       (None, w) \<Rightarrow> Some (E_ST_MQTT_FAILURE, w)
     | (Some t, w) \<Rightarrow> do { (rc, w) \<leftarrow> yield_loop P t w; finish rc w }) }"

text \<open>
  \<open>_iot_mqtt_wait_for\<close> runs the cycle until the state of the chunk is final, then destroys the chunk.
  \<open>wait_check\<close> is the \<open>switch\<close> behind a cycle that returned \<open>rc\<close>: the return code when it jumps to
  \<open>exit\<close>, nothing when the loop goes round again.
\<close>

definition wait_check :: "'n port \<Rightarrow> int \<Rightarrow> nat \<Rightarrow> 'n world \<Rightarrow> (int option \<times> 'n world) option" where
  "wait_check P rc a w = do {
     c \<leftarrow> get_chunk w a;
     case chunk_state c of
       PACKET_CHUNK_WRITE_PENDING \<Rightarrow>
         if rc < 0
         then do {
           (tmp, w) \<leftarrow> iot_mqtt_queue_pop_by_type_and_id WRITE_PENDING (packet_type c) (packet_id c) w;
           Some (if tmp \<noteq> None then Some rc else None, w) }
         else Some (None, w)
     | PACKET_CHUNK_ACK_PENDING \<Rightarrow>
         if rc < 0
         then do {
           (tmp, w) \<leftarrow> iot_mqtt_queue_pop_by_type_and_id ACK_PENDING (packet_type c) (packet_id c) w;
           Some (if tmp \<noteq> None then Some rc else None, w) }
         else Some (None, w\<lparr>w_net := os_delay P MQTT_ACKPENDING_WAITCYCLE (w_net w)\<rparr>)
     | PACKET_CHUNK_WRITE_COMPLETED \<Rightarrow> Some (Some (return_code c), w)
     | PACKET_CHUNK_ACKNOWLEDGED \<Rightarrow> Some (Some (return_code c), w)
     | PACKET_CHUNK_QUEUE_DESTROYED \<Rightarrow> Some (Some E_ST_MQTT_FAILURE, w)
     | PACKET_CHUNK_WRITE_FAIL \<Rightarrow> Some (Some E_ST_MQTT_FAILURE, w)
     | PACKET_CHUNK_TIMEOUT \<Rightarrow> Some (Some E_ST_MQTT_PACKET_TIMEOUT, w)
     | _ \<Rightarrow> Some (None, w) }"

partial_function (option) wait_for_loop :: "'n port \<Rightarrow> nat \<Rightarrow> 'n world \<Rightarrow> (int \<times> 'n world) option" where
  "wait_for_loop P a w = do {
     (rc, w) \<leftarrow> iot_mqtt_run_cycle P w;
     (r, w) \<leftarrow> wait_check P rc a w;
     case r of Some rc \<Rightarrow> Some (rc, w) | None \<Rightarrow> wait_for_loop P a w }"

definition iot_mqtt_wait_for :: "'n port \<Rightarrow> nat \<Rightarrow> 'n world \<Rightarrow> (int \<times> 'n world) option" where
  "iot_mqtt_wait_for P a w = do {
     (rc, w) \<leftarrow> wait_for_loop P a w;
     w \<leftarrow> iot_mqtt_chunk_destroy (Some a) w;
     Some (rc, w) }"

text \<open>
  The blocking operations build a packet, queue it and wait. What they do before the wait is a
  definition of its own: it yields the return code when it fails, or the chunk to wait for.
\<close>

type_synonym begun = "int + nat"

definition await :: "'n port \<Rightarrow> begun \<times> 'n world \<Rightarrow> (int \<times> 'n world) option" where
  "await P rw = (case rw of (Inl rc, w) \<Rightarrow> Some (rc, w) | (Inr a, w) \<Rightarrow> iot_mqtt_wait_for P a w)"

section \<open>Creating and destroying a client\<close>

definition zero_client :: MQTTClient where
  "zero_client = \<lparr>magic = 0, next_packetid = 0, keep_alive = 0, isconnected = False, net_ctx = False,
     last_sent = None, last_received = None, client_manage_lock = False, write_lock = False,
     read_lock = False, socket_thread = False, ping_packet = None,
     write_pending_queue = \<lparr>q_head = None, q_tail = None, q_sem = False\<rparr>,
     ack_pending_queue = \<lparr>q_head = None, q_tail = None, q_sem = False\<rparr>,
     user_event_callback_queue = \<lparr>q_head = None, q_tail = None, q_sem = False\<rparr>\<rparr>"

definition init_mutex ::
  "'n port \<Rightarrow> (bool \<Rightarrow> MQTTClient \<Rightarrow> MQTTClient) \<Rightarrow> 'n world \<Rightarrow> bool \<times> 'n world" where
  "init_mutex P set_sem w = (case mutex_init_ok P (w_net w) of (ok, n) \<Rightarrow>
     (ok, upd_client (set_sem ok) (w\<lparr>w_net := n\<rparr>)))"

text \<open>The label \<open>error_handle\<close> of \<open>st_mqtt_create\<close>.\<close>

definition create_error :: "'n world \<Rightarrow> (int \<times> 'n world) option" where
  "create_error w = do {
     c \<leftarrow> w_cli w;
     w \<leftarrow> iot_mqtt_queue_destroy WRITE_PENDING w;
     w \<leftarrow> iot_mqtt_queue_destroy ACK_PENDING w;
     w \<leftarrow> iot_mqtt_queue_destroy USER_EVENT w;
     w \<leftarrow> iot_mqtt_chunk_destroy (ping_packet c) w;
     Some (E_ST_MQTT_FAILURE, w\<lparr>w_cli := None\<rparr>) }"

definition st_mqtt_create :: "'n port \<Rightarrow> bool \<Rightarrow> 'n world \<Rightarrow> (int \<times> 'n world) option" where
  "st_mqtt_create P callback_ok w =
     (if \<not> callback_ok then Some (E_ST_MQTT_FAILURE, w)
      else case world_malloc w of
        (None, w) \<Rightarrow> Some (E_ST_MQTT_FAILURE, w\<lparr>w_cli := None\<rparr>)
      | (Some _, w) \<Rightarrow>
          let w = w\<lparr>w_cli := Some (zero_client\<lparr>magic := MQTT_CLIENT_STRUCT_MAGIC_NUMBER, next_packetid := 1\<rparr>)\<rparr>;
              (ok, w) = init_mutex P (\<lambda>b c. c\<lparr>client_manage_lock := b\<rparr>) w in
          if \<not> ok then create_error w else
          let (ok, w) = init_mutex P (\<lambda>b c. c\<lparr>write_lock := b\<rparr>) w in
          if \<not> ok then create_error w else
          let (ok, w) = init_mutex P (\<lambda>b c. c\<lparr>read_lock := b\<rparr>) w in
          if \<not> ok then create_error w else
          let (rc, w) = iot_mqtt_queue_init P WRITE_PENDING w in
          if rc \<noteq> 0 then create_error w else
          let (rc, w) = iot_mqtt_queue_init P ACK_PENDING w in
          if rc \<noteq> 0 then create_error w else
          let (rc, w) = iot_mqtt_queue_init P USER_EVENT w in
          if rc \<noteq> 0 then create_error w else
          (case iot_mqtt_chunk_create MQTT_PINGREQ_PACKET_SIZE w of
             (None, w) \<Rightarrow> create_error w
           | (Some p, w) \<Rightarrow> do {
               c \<leftarrow> get_chunk w p;
               d \<leftarrow> chunk_data c;
               (_, d) \<leftarrow> MQTTSerialize_pingreq d (int MQTT_PINGREQ_PACKET_SIZE);
               w \<leftarrow> upd_chunk (\<lambda>c. c\<lparr>chunk_data := Some d, packet_type := msg_code PINGREQ,
                                     have_owner := True\<rparr>) p w;
               Some (0, upd_client (\<lambda>c. c\<lparr>ping_packet := Some p\<rparr>) w) }))"

text \<open>
  \<open>st_mqtt_destroy\<close>. Waiting for the socket thread is letting the thread run to its end: the
  connection is closed and the magic number cleared, so its loop does not go round again. The last
  step frees the client.
\<close>

definition st_mqtt_destroy :: "'n port \<Rightarrow> 'n world \<Rightarrow> 'n world option" where
  "st_mqtt_destroy P w = (case w_cli w of
     None \<Rightarrow> Some w
   | Some c \<Rightarrow>
       if magic c \<noteq> MQTT_CLIENT_STRUCT_MAGIC_NUMBER then Some w
       else do {
         let w = upd_client (\<lambda>c. c\<lparr>magic := 0\<rparr>) w;
         w \<leftarrow> iot_mqtt_close_net P w;
         w \<leftarrow> (if socket_thread c then iot_mqtt_listen_socket P w else Some w);
         (q, m) \<leftarrow> iot_mqtt_delete_pending_task (\<lambda>owner. owner = w_id w) (w_queue w) (w_qmem w);
         let w = w\<lparr>w_queue := q, w_qmem := m\<rparr>;
         let w = (if net_ctx c
                  then (upd_client (\<lambda>c. c\<lparr>net_ctx := False\<rparr>) w)\<lparr>w_net := port_net_free P (w_net w)\<rparr> else w);
         let w = upd_client (\<lambda>c. c\<lparr>write_lock := False, read_lock := False\<rparr>) w;
         w \<leftarrow> iot_mqtt_queue_destroy WRITE_PENDING w;
         w \<leftarrow> iot_mqtt_queue_destroy ACK_PENDING w;
         w \<leftarrow> iot_mqtt_queue_destroy USER_EVENT w;
         w \<leftarrow> (if client_manage_lock c then iot_mqtt_chunk_destroy (ping_packet c) w else Some w);
         Some (w\<lparr>w_cli := None\<rparr>) })"

section \<open>Connecting\<close>

record st_mqtt_connect_data =
  mqtt_ver :: u8
  cd_username :: "u8 list option"
  cd_password :: "u8 list option"
  cd_clientid :: "u8 list option"
  alive_interval :: u16
  cd_cleansession :: u8
  will_flag :: u8
  cd_will_topic :: "u8 list option"
  cd_will_message :: "u8 list option"
  cd_will_retained :: u8
  cd_will_qos :: u8

definition with_cstring :: "u8 list option \<Rightarrow> MQTTString" where
  "with_cstring s = MQTTString_initializer\<lparr>cstring := s\<rparr>"

definition connect_options :: "st_mqtt_connect_data \<Rightarrow> MQTTPacket_connectData" where
  "connect_options d =
     (let opts = MQTTPacket_connectData_initializer;
          opts = (if will_flag d \<noteq> 0
               then opts\<lparr>willFlag := 1, will := (will opts)\<lparr>
                      will_topicName := with_cstring (cd_will_topic d),
                      will_message := with_cstring (cd_will_message d),
                      will_retained := cd_will_retained d, will_qos := cd_will_qos d\<rparr>\<rparr>
               else opts\<lparr>willFlag := 0\<rparr>)
      in opts\<lparr>MQTTVersion := mqtt_ver d, clientID := with_cstring (cd_clientid d),
           username := with_cstring (cd_username d), password := with_cstring (cd_password d),
           keepAliveInterval := alive_interval d, cleansession := cd_cleansession d\<rparr>)"

text \<open>The two keep alive timers; the second is not created when the first could not be.\<close>

definition connect_timers :: "'n port \<Rightarrow> u32 \<Rightarrow> 'n world \<Rightarrow> bool \<times> 'n world" where
  "connect_timers P ka w =
     (let w = upd_client (\<lambda>c. c\<lparr>keep_alive := ka\<rparr>) w;
          (ts, w) = new_timer P (unat (ka * 1000)) w;
          w = upd_client (\<lambda>c. c\<lparr>last_sent := ts\<rparr>) w
      in if ts = None then (False, w)
         else let (tr, w) = new_timer P (unat (ka * 1000)) w
              in (tr \<noteq> None, upd_client (\<lambda>c. c\<lparr>last_received := tr\<rparr>) w))"

text \<open>The part of \<open>st_mqtt_connect\<close> between the connection and the wait.\<close>

definition connect_begin ::
  "'n port \<Rightarrow> MQTTPacket_connectData \<Rightarrow> 'n world \<Rightarrow> (begun \<times> 'n world) option" where
  "connect_begin P opts w =
     (let sz = MQTTSerialize_connect_size opts in
      case iot_mqtt_chunk_create (nat sz) w of
        (None, w) \<Rightarrow> Some (Inl E_ST_MQTT_BUFFER_OVERFLOW, w)
      | (Some a, w) \<Rightarrow> do {
          ch \<leftarrow> get_chunk w a;
          d \<leftarrow> chunk_data ch;
          (_, d) \<leftarrow> MQTTSerialize_connect d sz opts;
          w \<leftarrow> upd_chunk (\<lambda>c. c\<lparr>chunk_data := Some d, packet_type := msg_code CONNECT,
                                have_owner := True\<rparr>) a w;
          c \<leftarrow> w_cli w;
          if magic c \<noteq> MQTT_CLIENT_STRUCT_MAGIC_NUMBER
          then do { w \<leftarrow> iot_mqtt_chunk_destroy (Some a) w; Some (Inl E_ST_MQTT_FAILURE, w) }
          else do {
            let (ok, w) = connect_timers P (ucast (keepAliveInterval opts)) w;
            if \<not> ok then Some (Inl E_ST_MQTT_FAILURE, w)
            else do {
              w \<leftarrow> upd_chunk (\<lambda>c. c\<lparr>chunk_state := PACKET_CHUNK_WRITE_PENDING\<rparr>) a w;
              (_, w) \<leftarrow> iot_mqtt_queue_push WRITE_PENDING a w;
              Some (Inr a, w) } } })"

text \<open>The label \<open>exit\<close> of \<open>st_mqtt_connect\<close>.\<close>

definition connect_exit :: "'n port \<Rightarrow> int \<Rightarrow> 'n world \<Rightarrow> 'n world option" where
  "connect_exit P rc w =
     (if rc < 0
      then do {
        w \<leftarrow> iot_mqtt_close_net P w;
        Some (upd_client (\<lambda>c. c\<lparr>last_sent := None, last_received := None\<rparr>) w) }
      else Some (upd_client (\<lambda>c. c\<lparr>socket_thread := True\<rparr>) w))"

definition st_mqtt_connect ::
  "'n port \<Rightarrow> st_mqtt_broker_info \<Rightarrow> st_mqtt_connect_data \<Rightarrow> 'n world \<Rightarrow> (int \<times> 'n world) option" where
  "st_mqtt_connect P broker d w = (case iot_mqtt_connect_net P broker w of (rc, w) \<Rightarrow>
     if rc < 0 then Some (rc, w)
     else do {
       (rc, w) \<leftarrow> connect_begin P (connect_options d) w \<bind> await P;
       w \<leftarrow> connect_exit P rc w;
       Some (rc, w) })"

section \<open>Subscribing\<close>

text \<open>The next packet identifier, as three operations compute it.\<close>

definition fresh_packetid :: "u32 \<Rightarrow> u32" where
  "fresh_packetid i = (if i \<ge> MAX_PACKET_ID then 1 else i + 1)"

text \<open>Queueing an owned packet for writing.\<close>

definition submit_owned ::
  "msgTypes \<Rightarrow> u8 list \<Rightarrow> nat \<Rightarrow> 'n world \<Rightarrow> (begun \<times> 'n world) option" where
  "submit_owned t d a w = do {
     w \<leftarrow> upd_chunk (\<lambda>c. c\<lparr>chunk_data := Some d, packet_type := msg_code t, have_owner := True,
                           chunk_state := PACKET_CHUNK_WRITE_PENDING\<rparr>) a w;
     (_, w) \<leftarrow> iot_mqtt_queue_push WRITE_PENDING a w;
     Some (Inr a, w) }"

definition live_client :: "'n world \<Rightarrow> bool" where
  "live_client w = (case w_cli w of None \<Rightarrow> False | Some c \<Rightarrow> magic c = MQTT_CLIENT_STRUCT_MAGIC_NUMBER)"

text \<open>
  What \<open>st_mqtt_subscribe\<close> and \<open>st_mqtt_unsubscribe\<close> share: a chunk of the computed size, the next packet
  identifier, the serializer, and the owned chunk in the write queue.
\<close>

definition packet_begin ::
  "msgTypes \<Rightarrow> int \<Rightarrow> (u8 list \<Rightarrow> u16 \<Rightarrow> (int \<times> u8 list) option) \<Rightarrow> 'n world \<Rightarrow> (begun \<times> 'n world) option" where
  "packet_begin t sz serialize w = (case iot_mqtt_chunk_create (nat sz) w of
     (None, w) \<Rightarrow> Some (Inl E_ST_MQTT_BUFFER_OVERFLOW, w)
   | (Some a, w) \<Rightarrow>
       if \<not> live_client w
       then do { w \<leftarrow> iot_mqtt_chunk_destroy (Some a) w; Some (Inl E_ST_MQTT_FAILURE, w) }
       else do {
         c \<leftarrow> w_cli w;
         let pid = fresh_packetid (next_packetid c);
         let w = upd_client (\<lambda>c. c\<lparr>next_packetid := pid\<rparr>) w;
         w \<leftarrow> upd_chunk (\<lambda>c. c\<lparr>packet_id := pid\<rparr>) a w;
         ch \<leftarrow> get_chunk w a;
         d \<leftarrow> chunk_data ch;
         (_, d) \<leftarrow> serialize d (ucast pid);
         submit_owned t d a w })"

definition subscribe_begin ::
  "u8 list list \<Rightarrow> int list \<Rightarrow> 'n world \<Rightarrow> (begun \<times> 'n world) option" where
  "subscribe_begin topics qs w =
     (if topics = [] then Some (Inl E_ST_MQTT_FAILURE, w)
      else case world_malloc w of
        (None, w) \<Rightarrow> Some (Inl E_ST_MQTT_FAILURE, w)
      | (Some _, w) \<Rightarrow>
          let Topics = map (with_cstring \<circ> Some) topics; sz = MQTTSerialize_subscribe_size Topics in
          packet_begin SUBSCRIBE sz (\<lambda>d pid. MQTTSerialize_subscribe d sz 0 pid Topics qs) w)"

definition st_mqtt_subscribe ::
  "'n port \<Rightarrow> u8 list list \<Rightarrow> int list \<Rightarrow> 'n world \<Rightarrow> (int \<times> 'n world) option" where
  "st_mqtt_subscribe P topics qs w = subscribe_begin topics qs w \<bind> await P"

definition unsubscribe_begin ::
  "u8 list list \<Rightarrow> 'n world \<Rightarrow> (begun \<times> 'n world) option" where
  "unsubscribe_begin topics w =
     (if topics = [] then Some (Inl E_ST_MQTT_FAILURE, w)
      else case world_malloc w of
        (None, w) \<Rightarrow> Some (Inl E_ST_MQTT_FAILURE, w)
      | (Some _, w) \<Rightarrow>
          let Topics = map (with_cstring \<circ> Some) topics; sz = MQTTSerialize_unsubscribe_size Topics in
          packet_begin UNSUBSCRIBE sz (\<lambda>d pid. MQTTSerialize_unsubscribe d sz 0 pid Topics) w)"

definition st_mqtt_unsubscribe ::
  "'n port \<Rightarrow> u8 list list \<Rightarrow> 'n world \<Rightarrow> (int \<times> 'n world) option" where
  "st_mqtt_unsubscribe P topics w = unsubscribe_begin topics w \<bind> await P"

section \<open>Publishing\<close>

text \<open>What the caller hands over in an \<open>st_mqtt_msg\<close>: topic, payload, its length, flags.\<close>

record publish_request =
  req_topic :: "u8 list option"
  req_payload :: "u8 list option"
  req_payloadlen :: int
  req_qos :: int
  req_retained :: u8

definition iot_mqtt_push_publish_packet ::
  "publish_request \<Rightarrow> bool \<Rightarrow> 'n world \<Rightarrow> (nat option \<times> 'n world) option" where
  "iot_mqtt_push_publish_packet msg is_sync w = (case w_cli w of
     None \<Rightarrow> Some (None, w)
   | Some c \<Rightarrow>
       if magic c \<noteq> MQTT_CLIENT_STRUCT_MAGIC_NUMBER then Some (None, w)
       else if \<not> client_manage_lock c then Some (None, w)
       else let topic = with_cstring (req_topic msg);
                sz = MQTTSerialize_publish_size (req_qos msg) topic (req_payloadlen msg) in
         case iot_mqtt_chunk_create (nat sz) w of
           (None, w) \<Rightarrow> Some (None, w)
         | (Some a, w) \<Rightarrow> do {
             let acked = (req_qos msg = 1 \<or> req_qos msg = 2);
             let pid = (if acked then fresh_packetid (next_packetid c) else 0);
             let w = (if acked then upd_client (\<lambda>c. c\<lparr>next_packetid := pid\<rparr>) w else w);
             ch \<leftarrow> get_chunk w a;
             d \<leftarrow> chunk_data ch;
             (_, d) \<leftarrow> MQTTSerialize_publish d sz 0 (req_qos msg) (req_retained msg) (ucast pid) topic
                        (req_payload msg) (req_payloadlen msg);
             w \<leftarrow> upd_chunk (\<lambda>c. c\<lparr>chunk_data := Some d, packet_id := pid,
                    packet_type := msg_code PUBLISH, have_owner := is_sync, qos := req_qos msg,
                    chunk_state := PACKET_CHUNK_WRITE_PENDING\<rparr>) a w;
             (_, w) \<leftarrow> iot_mqtt_queue_push WRITE_PENDING a w;
             Some (Some a, w) })"

definition st_mqtt_publish :: "'n port \<Rightarrow> publish_request \<Rightarrow> 'n world \<Rightarrow> (int \<times> 'n world) option" where
  "st_mqtt_publish P msg w = do {
     (r, w) \<leftarrow> iot_mqtt_push_publish_packet msg True w;
     case r of None \<Rightarrow> Some (E_ST_MQTT_FAILURE, w) | Some a \<Rightarrow> iot_mqtt_wait_for P a w }"

definition st_mqtt_publish_async :: "publish_request \<Rightarrow> 'n world \<Rightarrow> (int \<times> 'n world) option" where
  "st_mqtt_publish_async msg w = do {
     (r, w) \<leftarrow> iot_mqtt_push_publish_packet msg False w;
     let rc = (if r = None then E_ST_MQTT_FAILURE else 0);
     _ \<leftarrow> w_cli w;
     if w_queue w \<noteq> None then do { (_, w) \<leftarrow> iot_mqtt_signal_pending_work w; Some (rc, w) }
     else Some (rc, w) }"

definition st_mqtt_change_ping_period :: "'n port \<Rightarrow> u32 \<Rightarrow> 'n world \<Rightarrow> 'n world" where
  "st_mqtt_change_ping_period P new_period w = (case w_cli w of
     None \<Rightarrow> w
   | Some c \<Rightarrow>
       if magic c = MQTT_CLIENT_STRUCT_MAGIC_NUMBER \<and> client_manage_lock c
       then let w = upd_client (\<lambda>c. c\<lparr>keep_alive := new_period\<rparr>) w;
                (ts, w) = new_timer P (unat (new_period * 1000)) w;
                w = upd_client (\<lambda>c. c\<lparr>last_sent := ts\<rparr>) w;
                (tr, w) = new_timer P (unat (new_period * 1000)) w
            in upd_client (\<lambda>c. c\<lparr>last_received := tr\<rparr>) w
       else w)"

definition disconnect_begin :: "'n world \<Rightarrow> (begun \<times> 'n world) option" where
  "disconnect_begin w = (case iot_mqtt_chunk_create MQTT_DISCONNECT_PACKET_SIZE w of
     (None, w) \<Rightarrow> Some (Inl E_ST_MQTT_BUFFER_OVERFLOW, w)
   | (Some a, w) \<Rightarrow> do {
       ch \<leftarrow> get_chunk w a;
       d \<leftarrow> chunk_data ch;
       (_, d) \<leftarrow> MQTTSerialize_disconnect d (int MQTT_DISCONNECT_PACKET_SIZE);
       if \<not> live_client w
       then do { w \<leftarrow> iot_mqtt_chunk_destroy (Some a) w; Some (Inl E_ST_MQTT_FAILURE, w) }
       else submit_owned DISCONNECT d a w })"

definition st_mqtt_disconnect :: "'n port \<Rightarrow> 'n world \<Rightarrow> (int \<times> 'n world) option" where
  "st_mqtt_disconnect P w = do {
     (rc, w) \<leftarrow> disconnect_begin w \<bind> await P;
     if live_client w then do { w \<leftarrow> iot_mqtt_close_net P w; Some (rc, w) } else Some (rc, w) }"

end
