(* ===== verification/Mqtt_Queues.thy ===== *)
theory Mqtt_Queues
  imports Mqtt_Api
begin

text \<open>
  The three chunk queues of a client in one heap. \<open>queues w Q\<close> says that the queue \<open>k\<close> holds the
  chunks \<open>Q k\<close> in order, that no chunk is in two queues, and that a chunk outside the queues has a
  null link. The lemmas give every primitive of \<open>Mqtt_State\<close> its effect on \<open>Q\<close> and on the chunks; they
  are what the rest of the client's proofs use, and no later proof looks at a pointer.
\<close>

section \<open>Views of the world\<close>

text \<open>Everything of a client but its queues, and everything of a world but heap and queues.\<close>

definition client_core :: "MQTTClient \<Rightarrow> MQTTClient" where
  "client_core c = c\<lparr>write_pending_queue := \<lparr>q_head = None, q_tail = None, q_sem = True\<rparr>,
     ack_pending_queue := \<lparr>q_head = None, q_tail = None, q_sem = True\<rparr>,
     user_event_callback_queue := \<lparr>q_head = None, q_tail = None, q_sem = True\<rparr>\<rparr>"

definition core :: "'n world \<Rightarrow> 'n world" where
  "core w = w\<lparr>w_mem := \<lparr>cells = Map.empty, brk = 0, oom = oom (w_mem w)\<rparr>,
     w_cli := map_option client_core (w_cli w)\<rparr>"

definition queues :: "'n world \<Rightarrow> (queue_name \<Rightarrow> nat list) \<Rightarrow> bool" where
  "queues w Q \<longleftrightarrow>
     (\<exists>c. w_cli w = Some c \<and> (\<forall>k. q_sem (get_queue k c) \<and> rep (cells (w_mem w)) (get_queue k c) (Q k)))
   \<and> (\<forall>k l. k \<noteq> l \<longrightarrow> set (Q k) \<inter> set (Q l) = {})
   \<and> mem_ok (w_mem w)
   \<and> (\<forall>a\<in>dom (cells (w_mem w)). (\<forall>k. a \<notin> set (Q k)) \<longrightarrow> detached (cells (w_mem w)) a)"

lemma get_set_queue [simp]: "get_queue l (set_queue k q c) = (if l = k then q else get_queue l c)"
  by (cases k; cases l) simp_all

lemma set_get_queue [simp]: "set_queue k (get_queue k c) c = c"
  by (cases k) simp_all

lemma client_core_set_queue [simp]: "client_core (set_queue k q c) = client_core c"
  by (cases k) (simp_all add: client_core_def)

lemma core_put_queue [simp]: "core (put_queue k h q w) = core w"
  by (cases "w_cli w") (simp_all add: core_def put_queue_def)

lemma get_chunk_put_queue [simp]: "get_chunk (put_queue k h q w) = vals h"
  by (simp add: get_chunk_def put_queue_def fun_eq_iff)

lemma put_queue_id: "w_cli w = Some c \<Longrightarrow> put_queue k (cells (w_mem w)) (get_queue k c) w = w"
  by (simp add: put_queue_def)

lemma get_chunk_dom: "get_chunk w a = Some c \<Longrightarrow> a \<in> dom (cells (w_mem w))"
  by (auto simp: get_chunk_def vals_def)

lemma core_sel [simp]:
  "w_net (core w) = w_net w" "w_events (core w) = w_events w" "w_junk (core w) = w_junk w"
  "w_queue (core w) = w_queue w" "w_qmem (core w) = w_qmem w" "w_id (core w) = w_id w"
  "w_signal (core w) = w_signal w" "w_cli (core w) = map_option client_core (w_cli w)"
  "oom (w_mem (core w)) = oom (w_mem w)"
  by (simp_all add: core_def)

lemma core_upd_net: "core (w\<lparr>w_net := n\<rparr>) = (core w)\<lparr>w_net := n\<rparr>"
  by (cases w) (simp add: core_def)

lemma coreD:
  assumes "core w' = core w"
  shows "w_net w' = w_net w" "w_events w' = w_events w" "w_junk w' = w_junk w"
    "w_queue w' = w_queue w" "w_qmem w' = w_qmem w" "w_id w' = w_id w" "w_signal w' = w_signal w"
    "map_option client_core (w_cli w') = map_option client_core (w_cli w)"
    "oom (w_mem w') = oom (w_mem w)"
  using assms by (metis core_sel)+

lemma client_core_sel [simp]:
  "magic (client_core c) = magic c" "next_packetid (client_core c) = next_packetid c"
  "keep_alive (client_core c) = keep_alive c" "isconnected (client_core c) = isconnected c"
  "net_ctx (client_core c) = net_ctx c" "last_sent (client_core c) = last_sent c"
  "last_received (client_core c) = last_received c" "write_lock (client_core c) = write_lock c"
  "client_manage_lock (client_core c) = client_manage_lock c" "read_lock (client_core c) = read_lock c"
  "socket_thread (client_core c) = socket_thread c" "ping_packet (client_core c) = ping_packet c"
  by (simp_all add: client_core_def)

lemma client_coreD:
  assumes "client_core c' = client_core c"
  shows "magic c' = magic c" "next_packetid c' = next_packetid c" "keep_alive c' = keep_alive c"
    "isconnected c' = isconnected c" "net_ctx c' = net_ctx c" "last_sent c' = last_sent c"
    "last_received c' = last_received c" "write_lock c' = write_lock c"
    "client_manage_lock c' = client_manage_lock c" "read_lock c' = read_lock c"
    "socket_thread c' = socket_thread c" "ping_packet c' = ping_packet c"
  using assms by (metis client_core_sel)+

section \<open>Pushing and popping\<close>

lemma queuesE:
  assumes "queues w Q"
  obtains c where "w_cli w = Some c" "\<And>k. q_sem (get_queue k c)"
    "\<And>k. rep (cells (w_mem w)) (get_queue k c) (Q k)"
  using assms by (auto simp: queues_def)

lemma queues_disjoint: "queues w Q \<Longrightarrow> k \<noteq> l \<Longrightarrow> a \<in> set (Q k) \<Longrightarrow> a \<notin> set (Q l)"
  by (auto simp: queues_def)

lemma queues_detached: "queues w Q \<Longrightarrow> get_chunk w a = Some c \<Longrightarrow> \<forall>k. a \<notin> set (Q k) \<Longrightarrow>
    detached (cells (w_mem w)) a"
  by (metis get_chunk_dom queues_def)

lemma queues_live: "queues w Q \<Longrightarrow> a \<in> set (Q k) \<Longrightarrow> \<exists>c. get_chunk w a = Some c"
proof -
  assume q: "queues w Q" and a: "a \<in> set (Q k)"
  obtain c where "\<And>k. rep (cells (w_mem w)) (get_queue k c) (Q k)" by (rule queuesE [OF q]) blast
  then have "a \<in> dom (cells (w_mem w))" using rep_dom a by blast
  then show ?thesis by (auto simp: get_chunk_def vals_def)
qed

lemma queues_distinct: "queues w Q \<Longrightarrow> distinct (Q k)"
  by (auto elim!: queuesE simp: rep_def)

text \<open>
  Replacing one queue and the heap: what has to be checked for the others to stay. \<open>X\<close> is the set of
  nodes whose links may have changed.
\<close>

lemma queues_put:
  assumes "queues w Q" and c: "w_cli w = Some c"
    and "rep h q as" and "q_sem q" and "vals h = vals (cells (w_mem w))"
    and frame: "\<forall>b. b \<notin> X \<longrightarrow> h b = cells (w_mem w) b" and X: "X \<subseteq> set (Q k) \<union> set as"
    and new: "\<forall>b\<in>set as. b \<notin> set (Q k) \<longrightarrow> (\<forall>l. b \<notin> set (Q l))"
    and out: "\<forall>b\<in>set (Q k). b \<notin> set as \<longrightarrow> detached h b"
  shows "queues (put_queue k h q w) (Q(k := as))"
proof -
  let ?h = "cells (w_mem w)"
  have dom: "dom h = dom ?h" using assms(5) by (simp flip: dom_vals)
  have mem: "mem_ok (w_mem (put_queue k h q w))"
    using assms(1) dom by (simp add: queues_def put_queue_def mem_ok_def)
  have other: "rep h (get_queue l c) (Q l)" "set as \<inter> set (Q l) = {}" if l: "l \<noteq> k" for l
  proof -
    have disj: "set (Q k) \<inter> set (Q l) = {}" using assms(1) l by (metis queues_def)
    show "set as \<inter> set (Q l) = {}" using disj new by auto
    then have "\<forall>b\<in>set (Q l). h b = ?h b" using frame X disj by blast
    then show "rep h (get_queue l c) (Q l)"
      using assms(1) c rep_frame [of "Q l" h ?h "get_queue l c"] by (auto elim!: queuesE)
  qed
  have sem: "q_sem (get_queue l c)" for l using assms(1) c by (auto elim!: queuesE)
  have det: "detached h b" if b: "b \<in> dom h" "\<forall>l. b \<notin> set ((Q(k := as)) l)" for b
  proof (cases "b \<in> set (Q k)")
    case True
    with b(2) show ?thesis using out by (metis fun_upd_same)
  next
    case False
    have "b \<notin> set as" using b(2) by (metis fun_upd_same)
    then have "b \<notin> X" "\<forall>l. b \<notin> set (Q l)"
      using X False b(2) by (auto simp: fun_upd_apply split: if_splits)
    then show ?thesis using assms(1) b(1) dom frame by (auto simp: queues_def detached_def)
  qed
  show ?thesis
    unfolding queues_def
  proof (intro conjI)
    show "\<exists>c'. w_cli (put_queue k h q w) = Some c' \<and> (\<forall>l. q_sem (get_queue l c')
        \<and> rep (cells (w_mem (put_queue k h q w))) (get_queue l c') ((Q(k := as)) l))"
      using c assms(3,4) other(1) sem by (auto simp: put_queue_def)
    show "\<forall>l m. l \<noteq> m \<longrightarrow> set ((Q(k := as)) l) \<inter> set ((Q(k := as)) m) = {}"
      using other(2) assms(1) by (auto simp: queues_def)
    show "\<forall>b\<in>dom (cells (w_mem (put_queue k h q w))). (\<forall>l. b \<notin> set ((Q(k := as)) l)) \<longrightarrow>
        detached (cells (w_mem (put_queue k h q w))) b"
      using det by (simp add: put_queue_def)
  qed (rule mem)
qed

lemma queue_push_spec:
  assumes "queues w Q" and "get_chunk w a = Some ch" and "\<forall>l. a \<notin> set (Q l)"
  obtains w' where "iot_mqtt_queue_push k a w = Some (0, w')" "queues w' (Q(k := Q k @ [a]))"
    "get_chunk w' = get_chunk w" "core w' = core w"
proof -
  let ?h = "cells (w_mem w)"
  obtain c where c: "w_cli w = Some c" "q_sem (get_queue k c)" "rep ?h (get_queue k c) (Q k)"
    using assms(1) by (elim queuesE) blast
  have "detached ?h a" by (rule queues_detached [OF assms])
  then obtain h q where push: "link_push ?h (get_queue k c) a = Some (h, q)" "rep h q (Q k @ [a])"
      "vals h = vals ?h" "\<forall>b. b \<notin> set (Q k) \<longrightarrow> h b = ?h b" "q_sem q = q_sem (get_queue k c)"
    using linked.push_R [OF c(3)] assms(3) by blast
  have "queues (put_queue k h q w) (Q(k := Q k @ [a]))"
    by (rule queues_put [OF assms(1) c(1) push(2) _ push(3,4)]) (use push c assms(3) in auto)
  moreover have "iot_mqtt_queue_push k a w = Some (0, put_queue k h q w)"
    using c push by (simp add: iot_mqtt_queue_push_def)
  moreover have "get_chunk (put_queue k h q w) = get_chunk w" using push(3) by (simp add: get_chunk_def fun_eq_iff)
  ultimately show thesis using that by simp
qed

lemma queue_pop_spec:
  assumes "queues w Q"
  obtains (empty) "Q k = []" "iot_mqtt_queue_pop k w = Some (None, w)"
  | (popped) a as w' ch where "Q k = a # as" "iot_mqtt_queue_pop k w = Some (Some a, w')"
    "queues w' (Q(k := as))" "get_chunk w' = get_chunk w" "core w' = core w" "get_chunk w a = Some ch"
proof -
  let ?h = "cells (w_mem w)"
  obtain c where c: "w_cli w = Some c" "q_sem (get_queue k c)" "rep ?h (get_queue k c) (Q k)"
    using assms(1) by (elim queuesE) blast
  show thesis
  proof (cases "Q k")
    case Nil
    then show ?thesis using that(1) c by (simp add: iot_mqtt_queue_pop_def linked.pop_Nil put_queue_id)
  next
    case (Cons a as)
    then obtain h q where pop: "link_pop ?h (get_queue k c) = Some (Some a, h, q)" "rep h q as"
        "detached h a" "vals h = vals ?h" "\<forall>b. b \<noteq> a \<longrightarrow> h b = ?h b" "q_sem q = q_sem (get_queue k c)"
      using linked.pop_Cons [of ?h "get_queue k c" a as] c(3) by auto
    have "queues (put_queue k h q w) (Q(k := as))"
    proof (rule queues_put [OF assms c(1) pop(2) _ pop(4), where X = "{a}"])
      show "\<forall>b\<in>set (Q k). b \<notin> set as \<longrightarrow> detached h b" using Cons pop(3) by auto
    qed (use pop c Cons in auto)
    moreover have "get_chunk (put_queue k h q w) = get_chunk w"
      using pop(4) by (simp add: get_chunk_def fun_eq_iff)
    moreover obtain ch where "get_chunk w a = Some ch" using queues_live [OF assms, of a k] Cons by auto
    ultimately show ?thesis
      using that(2) [OF Cons, of "put_queue k h q w" ch] c pop by (simp add: iot_mqtt_queue_pop_def)
  qed
qed

text \<open>The searches: the first chunk that passes the test leaves the queue.\<close>

lemma queue_pop_by_spec:
  assumes "queues w Q"
  obtains (none) "\<forall>a\<in>set (Q k). \<forall>ch. get_chunk w a = Some ch \<longrightarrow> \<not> T ch" "queue_pop_by T k w = Some (None, w)"
  | (found) ys a zs w' ch where "Q k = ys @ a # zs" "\<forall>b\<in>set ys. \<forall>ch. get_chunk w b = Some ch \<longrightarrow> \<not> T ch"
    "get_chunk w a = Some ch" "T ch" "queue_pop_by T k w = Some (Some a, w')"
    "queues w' (Q(k := ys @ zs))" "get_chunk w' = get_chunk w" "core w' = core w"
proof -
  let ?h = "cells (w_mem w)"
  obtain c where c: "w_cli w = Some c" "q_sem (get_queue k c)" "rep ?h (get_queue k c) (Q k)"
    using assms(1) by (elim queuesE) blast
  show thesis
  proof (rule linked.pop_by_cases [OF c(3), of T], goal_cases)
    case 1
    then show ?case
      using that(1) c by (simp add: queue_pop_by_def put_queue_id get_chunk_def)
  next
    case (2 ys a zs v h q)
    have "queues (put_queue k h q w) (Q(k := ys @ zs))"
    proof (rule queues_put [OF assms c(1) 2(6) _ 2(8), where X = "set (ys @ [a])"])
      show "\<forall>b. b \<notin> set (ys @ [a]) \<longrightarrow> h b = ?h b" using 2(9) .
      show "\<forall>b\<in>set (Q k). b \<notin> set (ys @ zs) \<longrightarrow> detached h b" using 2(1,7) by auto
    qed (use 2 c in auto)
    moreover have "get_chunk (put_queue k h q w) = get_chunk w"
      using 2(8) by (simp add: get_chunk_def fun_eq_iff)
    moreover have "queue_pop_by T k w = Some (Some a, put_queue k h q w)"
      using c 2(5) by (simp add: queue_pop_by_def)
    moreover have ys: "\<forall>b\<in>set ys. \<forall>ch. get_chunk w b = Some ch \<longrightarrow> \<not> T ch" "get_chunk w a = Some v"
      using 2(2,3) by (simp_all add: get_chunk_def)
    ultimately show ?case
      using that(2) [OF 2(1) ys 2(4), of "put_queue k h q w"] by simp
  qed
qed

section \<open>Chunks\<close>

lemma queues_heap:
  assumes "queues w Q" and "w_cli w' = w_cli w" and "mem_ok (w_mem w')"
    and same: "\<forall>b. (\<exists>k. b \<in> set (Q k)) \<longrightarrow> map_option nxt (cells (w_mem w') b) = map_option nxt (cells (w_mem w) b)"
    and det: "\<forall>b\<in>dom (cells (w_mem w')). (\<forall>k. b \<notin> set (Q k)) \<longrightarrow> detached (cells (w_mem w')) b"
  shows "queues w' Q"
proof -
  have "path (cells (w_mem w')) p (Q k) = path (cells (w_mem w)) p (Q k)" for k p
    using same by (intro path_cong) blast
  then have "rep (cells (w_mem w')) q (Q k) = rep (cells (w_mem w)) q (Q k)" for k q
    by (simp add: rep_def)
  then show ?thesis using assms by (simp add: queues_def)
qed

lemma upd_chunk_spec:
  assumes "queues w Q" and "get_chunk w a = Some ch"
  obtains w' where "upd_chunk f a w = Some w'" "queues w' Q"
    "get_chunk w' = (get_chunk w)(a \<mapsto> f ch)" "core w' = core w"
proof -
  obtain n where n: "cells (w_mem w) a = Some n" "val n = ch"
    using assms(2) by (auto simp: get_chunk_def vals_def)
  let ?h = "(cells (w_mem w))(a \<mapsto> n\<lparr>val := f (val n)\<rparr>)"
  let ?w = "w\<lparr>w_mem := (w_mem w)\<lparr>cells := ?h\<rparr>\<rparr>"
  have "upd_chunk f a w = Some ?w" using n by (simp add: upd_chunk_def)
  moreover have "queues ?w Q"
  proof (rule queues_heap [OF assms(1)])
    show "mem_ok (w_mem ?w)"
      using assms(1) n by (auto simp: queues_def mem_ok_def)
    have "detached ?h b = detached (cells (w_mem w)) b" for b using n by (auto simp: detached_def)
    then show "\<forall>b\<in>dom (cells (w_mem ?w)). (\<forall>k. b \<notin> set (Q k)) \<longrightarrow> detached (cells (w_mem ?w)) b"
      using assms(1) n by (auto simp: queues_def)
  qed (use n in auto)
  moreover have "get_chunk ?w = (get_chunk w)(a \<mapsto> f ch)"
    using n by (auto simp: get_chunk_def vals_def fun_eq_iff)
  moreover have "core ?w = core w" by (simp add: core_def)
  ultimately show thesis by (rule that)
qed

lemma chunk_destroy_spec:
  assumes "queues w Q" and "get_chunk w a = Some ch" and "\<forall>k. a \<notin> set (Q k)"
  obtains w' where "iot_mqtt_chunk_destroy (Some a) w = Some w'" "queues w' Q"
    "get_chunk w' = (get_chunk w)(a := None)" "core w' = core w"
proof -
  obtain n where n: "cells (w_mem w) a = Some n"
    using assms(2) by (auto simp: get_chunk_def vals_def)
  let ?h = "(cells (w_mem w))(a := None)"
  let ?w = "w\<lparr>w_mem := (w_mem w)\<lparr>cells := ?h\<rparr>\<rparr>"
  have "iot_mqtt_chunk_destroy (Some a) w = Some ?w"
    using n by (simp add: iot_mqtt_chunk_destroy_def iot_os_free_def)
  moreover have "queues ?w Q"
  proof (rule queues_heap [OF assms(1)])
    show "mem_ok (w_mem ?w)" using assms(1) by (auto simp: queues_def mem_ok_def)
    show "\<forall>b\<in>dom (cells (w_mem ?w)). (\<forall>k. b \<notin> set (Q k)) \<longrightarrow> detached (cells (w_mem ?w)) b"
      using assms(1) by (auto simp: queues_def detached_def)
  qed (use assms(3) in auto)
  moreover have "get_chunk ?w = (get_chunk w)(a := None)"
    by (auto simp: get_chunk_def vals_def fun_eq_iff)
  moreover have "core ?w = core w" by (simp add: core_def)
  ultimately show thesis by (rule that)
qed

text \<open>Allocation: a new chunk is outside every queue; only the allocator can make it fail.\<close>

lemma world_malloc_spec:
  assumes "queues w Q"
  obtains (failed) w' where "world_malloc w = (None, w')" "queues w' Q" "get_chunk w' = get_chunk w"
    "core w' = core w" "\<exists>n. oom (w_mem w) n"
  | (made) d w' where "world_malloc w = (Some d, w')" "queues w' Q" "get_chunk w' = get_chunk w"
    "core w' = core w" "cells (w_mem w) d = None" "cells (w_mem w') = cells (w_mem w)" "d < brk (w_mem w')"
proof -
  let ?w = "w\<lparr>w_mem := (w_mem w)\<lparr>brk := Suc (brk (w_mem w))\<rparr>\<rparr>"
  have mem: "\<forall>a\<in>dom (cells (w_mem w)). a < brk (w_mem w)" using assms by (simp add: queues_def mem_ok_def)
  have fresh: "cells (w_mem w) (brk (w_mem w)) = None"
    using bspec [OF mem, of "brk (w_mem w)"] by (cases "cells (w_mem w) (brk (w_mem w))") auto
  have q: "queues ?w Q"
  proof (rule queues_heap [OF assms])
    show "mem_ok (w_mem ?w)" using mem by (simp add: mem_ok_def less_Suc_eq)
  qed (use assms in \<open>simp_all add: queues_def\<close>)
  have "get_chunk ?w = get_chunk w" "core ?w = core w"
    by (simp_all add: get_chunk_def core_def fun_eq_iff)
  with q fresh show thesis
    using that by (cases "oom (w_mem w) (brk (w_mem w))")
      (auto simp: world_malloc_def iot_os_malloc_def)
qed

lemma queues_out:
  assumes "queues w Q" and "cells (w_mem w) a = None"
  shows "\<forall>k. a \<notin> set (Q k)"
proof (intro allI notI)
  fix k
  assume "a \<in> set (Q k)"
  from queues_live [OF assms(1) this] show False using assms(2) by (simp add: get_chunk_def vals_def)
qed

lemma queues_new:
  fixes ch :: chunk
  assumes "queues w Q" and "cells (w_mem w) a = None" and "a < brk (w_mem w)"
  defines "w' \<equiv> w\<lparr>w_mem := (w_mem w)\<lparr>cells := (cells (w_mem w))(a \<mapsto> \<lparr>val = ch, nxt = None\<rparr>)\<rparr>\<rparr>"
  shows "queues w' Q" "get_chunk w' = (get_chunk w)(a \<mapsto> ch)" "core w' = core w"
proof -
  have out: "\<forall>k. a \<notin> set (Q k)" using queues_out [OF assms(1,2)] .
  show "queues w' Q"
  proof (rule queues_heap [OF assms(1)])
    show "mem_ok (w_mem w')" using assms(1,3) by (auto simp: w'_def queues_def mem_ok_def)
    show "\<forall>b. (\<exists>k. b \<in> set (Q k)) \<longrightarrow> map_option nxt (cells (w_mem w') b) = map_option nxt (cells (w_mem w) b)"
      using out by (auto simp: w'_def)
    show "\<forall>b\<in>dom (cells (w_mem w')). (\<forall>k. b \<notin> set (Q k)) \<longrightarrow> detached (cells (w_mem w')) b"
      using assms(1) by (auto simp: w'_def queues_def detached_def)
  qed (simp add: w'_def)
  show "get_chunk w' = (get_chunk w)(a \<mapsto> ch)" "core w' = core w"
    by (auto simp: w'_def get_chunk_def vals_def core_def fun_eq_iff)
qed

lemma chunk_create_spec:
  assumes "queues w Q"
  obtains (failed) w' where "iot_mqtt_chunk_create sz w = (None, w')" "queues w' Q"
    "get_chunk w' = get_chunk w" "core w' = core w" "\<exists>n. oom (w_mem w) n"
  | (made) a w' d where "iot_mqtt_chunk_create sz w = (Some a, w')" "queues w' Q"
    "get_chunk w a = None" "\<forall>k. a \<notin> set (Q k)" "core w' = core w"
    "get_chunk w' = (get_chunk w)(a \<mapsto> zero_chunk\<lparr>chunk_data := d, chunk_size := sz\<rparr>)"
    "(d = None \<and> sz = 0) \<or> (\<exists>x. d = Some x \<and> length x = sz)"
proof -
  show thesis
  proof (cases rule: world_malloc_spec [OF assms])
    case (1 w1)
    then show ?thesis using failed by (simp add: iot_mqtt_chunk_create_def)
  next
    case (2 a w1)
    note m1 = 2
    have a: "get_chunk w a = None" using m1(5) by (simp add: get_chunk_def vals_def)
    have zc: "zero_chunk\<lparr>chunk_data := None, chunk_size := 0\<rparr> = zero_chunk" by (simp add: zero_chunk_def)
    show ?thesis
    proof (cases rule: world_malloc_spec [OF m1(2)])
      case (1 w2)
      show ?thesis
      proof (cases "sz = 0")
        case True
        have live: "cells (w_mem w2) a = None" "a < brk (w_mem w2)"
          using 1(3) m1 1(1) a by (auto simp: world_malloc_def iot_os_malloc_def get_chunk_def vals_def fun_eq_iff split: if_splits)
        note new = queues_new [OF 1(2) live, of zero_chunk]
        show ?thesis
          by (rule made [of a _ None]) (use True new 1 m1 a zc queues_out [OF 1(2) live(1)] in \<open>simp_all add: iot_mqtt_chunk_create_def\<close>)
      next
        case False
        then show ?thesis
          using failed [of w2] 1 m1 coreD(9) [OF m1(4)] by (simp add: iot_mqtt_chunk_create_def)
      qed
    next
      case (2 e w2)
      have live: "cells (w_mem w2) a = None" "a < brk (w_mem w2)"
        using 2(1,6) m1 by (auto simp: world_malloc_def iot_os_malloc_def split: if_splits)
      note new = queues_new [OF 2(2) live,
          of "zero_chunk\<lparr>chunk_data := Some (fresh_bytes w2 e sz), chunk_size := sz\<rparr>"]
      show ?thesis
        by (rule made [of a _ "Some (fresh_bytes w2 e sz)"])
          (use new 2 m1 a queues_out [OF 2(2) live(1)] in \<open>simp_all add: iot_mqtt_chunk_create_def fresh_bytes_def\<close>)
    qed
  qed
qed

section \<open>Updates outside the heap\<close>

lemma queues_env [simp]:
  "queues (w\<lparr>w_net := n\<rparr>) Q = queues w Q" "queues (w\<lparr>w_events := e\<rparr>) Q = queues w Q"
  "queues (w\<lparr>w_queue := q\<rparr>) Q = queues w Q" "queues (w\<lparr>w_qmem := m\<rparr>) Q = queues w Q"
  "queues (w\<lparr>w_signal := s\<rparr>) Q = queues w Q"
  by (simp_all add: queues_def)

lemma get_chunk_env [simp]:
  "get_chunk (w\<lparr>w_net := n\<rparr>) = get_chunk w" "get_chunk (w\<lparr>w_events := e\<rparr>) = get_chunk w"
  "get_chunk (w\<lparr>w_queue := q\<rparr>) = get_chunk w" "get_chunk (w\<lparr>w_qmem := m\<rparr>) = get_chunk w"
  "get_chunk (w\<lparr>w_signal := s\<rparr>) = get_chunk w" "get_chunk (upd_client f w) = get_chunk w"
  "get_chunk (w\<lparr>w_cli := cli\<rparr>) = get_chunk w"
  by (simp_all add: get_chunk_def fun_eq_iff upd_client_def)

lemma queues_upd_client:
  assumes "queues w Q" and "\<And>c k. get_queue k (f c) = get_queue k c"
  shows "queues (upd_client f w) Q"
  using assms by (auto simp: queues_def upd_client_def)

end
