(* ===== verification/Mqtt_Invariant.thy ===== *)
theory Mqtt_Invariant
  imports Mqtt_Queues
begin

text \<open>
  The invariant of the MQTT client and that every step of the work cycle keeps it. Since an operation
  that touches memory outside its buffers, a freed chunk or a null pointer yields \<^const>\<open>None\<close>, the
  lemmas that an operation yields \<^const>\<open>Some\<close> are at the same time memory safety and termination.
\<close>

section \<open>The invariant\<close>

text \<open>A buffer the publish reader accepts without reading past its end.\<close>

definition deliverable :: "u8 list \<Rightarrow> bool" where
  "deliverable d \<longleftrightarrow> d \<noteq> [] \<and> (\<forall>out. MQTTDeserialize_publish out d \<noteq> None)"

text \<open>The packets that can have an owner: those an API call waits for, and the ping packet.\<close>

definition owned_types :: "int set" where
  "owned_types = msg_code ` {CONNECT, SUBSCRIBE, UNSUBSCRIBE, PUBLISH, PUBREL, PINGREQ, DISCONNECT}"

definition chunk_wf :: "chunk \<Rightarrow> bool" where
  "chunk_wf c \<longleftrightarrow>
     (case chunk_data c of Some d \<Rightarrow> length d = chunk_size c | None \<Rightarrow> chunk_size c = 0)
   \<and> (packet_type c = msg_code PUBLISH \<longrightarrow> (\<exists>d. chunk_data c = Some d \<and> deliverable d))
   \<and> (have_owner c \<longrightarrow> packet_type c \<in> owned_types)
   \<and> 0 \<le> retry_count c \<and> retry_count c \<le> MQTT_PUBLISH_RETRY"

text \<open>What being in a queue says about a chunk.\<close>

fun state_ok :: "queue_name \<Rightarrow> chunk \<Rightarrow> bool" where
  "state_ok WRITE_PENDING c \<longleftrightarrow> chunk_state c = PACKET_CHUNK_WRITE_PENDING \<and> retry_count c < MQTT_PUBLISH_RETRY"
| "state_ok ACK_PENDING c \<longleftrightarrow> chunk_state c = PACKET_CHUNK_ACK_PENDING \<and> retry_count c < MQTT_PUBLISH_RETRY"
| "state_ok USER_EVENT c \<longleftrightarrow> \<not> have_owner c"

definition chunks_ok :: "(nat \<rightharpoonup> chunk) \<Rightarrow> (queue_name \<Rightarrow> nat list) \<Rightarrow> bool" where
  "chunks_ok H Q \<longleftrightarrow> (\<forall>a c. H a = Some c \<longrightarrow> chunk_wf c)
     \<and> (\<forall>k a c. a \<in> set (Q k) \<longrightarrow> H a = Some c \<longrightarrow> state_ok k c)"

definition client_ok :: "MQTTClient \<Rightarrow> bool" where
  "client_ok c \<longleftrightarrow> magic c = MQTT_CLIENT_STRUCT_MAGIC_NUMBER \<and> client_manage_lock c \<and> write_lock c
     \<and> read_lock c \<and> (isconnected c \<longrightarrow> last_sent c \<noteq> None \<and> last_received c \<noteq> None)"

definition is_ping :: "chunk \<Rightarrow> bool" where
  "is_ping c \<longleftrightarrow> have_owner c \<and> packet_type c = msg_code PINGREQ"

definition ping_ok :: "MQTTClient option \<Rightarrow> (nat \<rightharpoonup> chunk) \<Rightarrow> bool" where
  "ping_ok cli H \<longleftrightarrow> (\<exists>c p ch. cli = Some c \<and> client_ok c \<and> ping_packet c = Some p \<and> H p = Some ch \<and> is_ping ch)"

definition client_inv :: "'n world \<Rightarrow> (queue_name \<Rightarrow> nat list) \<Rightarrow> bool" where
  "client_inv w Q \<longleftrightarrow> queues w Q \<and> chunks_ok (get_chunk w) Q \<and> ping_ok (w_cli (core w)) (get_chunk w)"

lemma invD:
  assumes "client_inv w Q"
  shows "queues w Q" "chunks_ok (get_chunk w) Q" "ping_ok (w_cli (core w)) (get_chunk w)"
  using assms by (simp_all add: client_inv_def)

lemma client_ok_core [simp]: "client_ok (client_core c) = client_ok c"
  by (simp add: client_ok_def)

lemma inv_client:
  assumes "client_inv w Q"
  obtains c where "w_cli w = Some c" "client_ok c" "magic c = MQTT_CLIENT_STRUCT_MAGIC_NUMBER"
    "client_manage_lock c" "write_lock c" "read_lock c"
  using assms by (auto simp: client_inv_def ping_ok_def client_ok_def)

lemma inv_ping:
  assumes "client_inv w Q" and "w_cli w = Some c"
  obtains p ch where "ping_packet c = Some p" "get_chunk w p = Some ch" "is_ping ch"
  using assms by (auto simp: client_inv_def ping_ok_def)

lemma inv_wf: "client_inv w Q \<Longrightarrow> get_chunk w a = Some c \<Longrightarrow> chunk_wf c"
  by (auto simp: client_inv_def chunks_ok_def)

lemma inv_state: "client_inv w Q \<Longrightarrow> a \<in> set (Q k) \<Longrightarrow> get_chunk w a = Some c \<Longrightarrow> state_ok k c"
  by (auto simp: client_inv_def chunks_ok_def)

text \<open>A chunk whose state is neither of the two queue states, owned, is in no queue.\<close>

lemma inv_out:
  assumes "client_inv w Q" and "get_chunk w a = Some c" and "have_owner c"
    and "chunk_state c \<noteq> PACKET_CHUNK_WRITE_PENDING" and "chunk_state c \<noteq> PACKET_CHUNK_ACK_PENDING"
  shows "\<forall>k. a \<notin> set (Q k)"
proof (intro allI notI)
  fix k
  assume "a \<in> set (Q k)"
  with inv_state [OF assms(1) this assms(2)] assms show False by (cases k) auto
qed

text \<open>The chunk at an address has a property.\<close>

definition marked :: "(nat \<rightharpoonup> chunk) \<Rightarrow> (chunk \<Rightarrow> bool) \<Rightarrow> nat \<Rightarrow> bool" where
  "marked H R a \<longleftrightarrow> (case H a of None \<Rightarrow> False | Some c \<Rightarrow> R c)"

section \<open>What an operation keeps\<close>

text \<open>
  Owned chunks stay live and owned: their owner still holds the pointer. The one exception in the code
  is a failed allocation, so the relation asks for an allocator that does not fail. The work queue is
  not touched either.
\<close>

definition kept :: "'n world \<Rightarrow> 'n world \<Rightarrow> bool" where
  "kept w w' \<longleftrightarrow> oom (w_mem w') = oom (w_mem w) \<and> w_queue w' = w_queue w \<and> w_qmem w' = w_qmem w \<and>
     ((\<forall>n. \<not> oom (w_mem w) n) \<longrightarrow>
      (\<forall>a c. get_chunk w a = Some c \<and> have_owner c \<longrightarrow> (\<exists>c'. get_chunk w' a = Some c' \<and> have_owner c')))"

lemma kept_refl [simp]: "kept w w"
  by (simp add: kept_def)

lemma kept_trans: "kept w w1 \<Longrightarrow> kept w1 w2 \<Longrightarrow> kept w w2"
  unfolding kept_def by metis

lemma keptI:
  assumes "core w' = core w"
    and "\<And>a c. get_chunk w a = Some c \<Longrightarrow> have_owner c \<Longrightarrow> \<exists>c'. get_chunk w' a = Some c' \<and> have_owner c'"
  shows "kept w w'"
  using assms coreD(4,5,9) [OF assms(1)] by (auto simp: kept_def)

lemma kept_same: "core w' = core w \<Longrightarrow> get_chunk w' = get_chunk w \<Longrightarrow> kept w w'"
  by (rule keptI) auto

lemma kept_env [simp]:
  "kept w (w'\<lparr>w_net := n\<rparr>) = kept w w'" "kept w (w'\<lparr>w_events := e\<rparr>) = kept w w'"
  "kept w (w'\<lparr>w_signal := s\<rparr>) = kept w w'" "kept w (upd_client f w') = kept w w'"
  "kept (w\<lparr>w_net := n\<rparr>) w' = kept w w'"
  by (simp_all add: kept_def upd_client_def get_chunk_def)

section \<open>The primitives keep the invariant\<close>

lemma inv_env [simp]:
  "client_inv (w\<lparr>w_net := n\<rparr>) Q = client_inv w Q" "client_inv (w\<lparr>w_events := e\<rparr>) Q = client_inv w Q"
  "client_inv (w\<lparr>w_queue := q\<rparr>) Q = client_inv w Q" "client_inv (w\<lparr>w_qmem := m\<rparr>) Q = client_inv w Q"
  "client_inv (w\<lparr>w_signal := s\<rparr>) Q = client_inv w Q"
  by (simp_all add: client_inv_def)

lemma inv_upd_client:
  assumes "client_inv w Q" and "\<And>c k. get_queue k (f c) = get_queue k c"
    and "\<And>c. client_ok c \<Longrightarrow> client_ok (f c)" and "\<And>c. ping_packet (f c) = ping_packet c"
  shows "client_inv (upd_client f w) Q"
  using assms queues_upd_client [OF invD(1) [OF assms(1)], of f]
  by (auto simp: client_inv_def ping_ok_def upd_client_def)

lemma chunks_ok_subset:
  "chunks_ok H Q \<Longrightarrow> (\<And>k. set (Q' k) \<subseteq> set (Q k)) \<Longrightarrow> chunks_ok H Q'"
  unfolding chunks_ok_def by blast

lemma ping_ok_mono:
  assumes "ping_ok cli H" and "\<And>p ch. H p = Some ch \<Longrightarrow> is_ping ch \<Longrightarrow> \<exists>ch'. H' p = Some ch' \<and> is_ping ch'"
  shows "ping_ok cli H'"
  using assms unfolding ping_ok_def by metis

lemma inv_pushE:
  assumes "client_inv w Q" and "get_chunk w a = Some ch" and "\<forall>l. a \<notin> set (Q l)" and "state_ok k ch"
  obtains w' where "iot_mqtt_queue_push k a w = Some (0, w')" "client_inv w' (Q(k := Q k @ [a]))"
    "get_chunk w' = get_chunk w" "core w' = core w" "kept w w'"
proof -
  obtain w' where w': "iot_mqtt_queue_push k a w = Some (0, w')" "queues w' (Q(k := Q k @ [a]))"
    "get_chunk w' = get_chunk w" "core w' = core w"
    by (rule queue_push_spec [OF invD(1) [OF assms(1)] assms(2,3)])
  have "chunks_ok (get_chunk w) (Q(k := Q k @ [a]))"
    using invD(2) [OF assms(1)] assms(2,4) by (auto simp: chunks_ok_def)
  then have "client_inv w' (Q(k := Q k @ [a]))" using w' invD(3) [OF assms(1)] unfolding client_inv_def by metis
  then show thesis using that w' kept_same by blast
qed

lemma inv_popE:
  assumes "client_inv w Q"
  obtains (empty) "Q k = []" "iot_mqtt_queue_pop k w = Some (None, w)"
  | (popped) a as w' ch where "Q k = a # as" "iot_mqtt_queue_pop k w = Some (Some a, w')"
    "client_inv w' (Q(k := as))" "get_chunk w' = get_chunk w" "core w' = core w" "kept w w'"
    "get_chunk w' a = Some ch" "state_ok k ch" "\<forall>l. a \<notin> set ((Q(k := as)) l)"
proof (cases rule: queue_pop_spec [OF invD(1) [OF assms], of k])
  case (2 a as w' ch)
  have "chunks_ok (get_chunk w) (Q(k := as))"
    using chunks_ok_subset [OF invD(2) [OF assms]] 2(1) by (auto simp: subset_iff)
  then have inv: "client_inv w' (Q(k := as))" using 2 invD(3) [OF assms] unfolding client_inv_def by metis
  have "a \<notin> set as" using queues_distinct [OF invD(1) [OF assms], of k] 2(1) by simp
  then have "\<forall>l. a \<notin> set ((Q(k := as)) l)" using queues_disjoint [OF invD(1) [OF assms], of k] 2(1) by auto
  moreover have "state_ok k ch" using inv_state [OF assms, of a k] 2 by simp
  ultimately show thesis using popped [OF 2(1,2) inv 2(4,5)] 2 kept_same by metis
qed (rule empty)

lemma inv_pop_byE:
  assumes "client_inv w Q"
  obtains (none) "\<forall>a\<in>set (Q k). \<forall>ch. get_chunk w a = Some ch \<longrightarrow> \<not> T ch" "queue_pop_by T k w = Some (None, w)"
  | (found) ys a zs w' ch where "Q k = ys @ a # zs" "\<forall>b\<in>set ys. \<forall>ch. get_chunk w b = Some ch \<longrightarrow> \<not> T ch"
    "T ch" "queue_pop_by T k w = Some (Some a, w')" "client_inv w' (Q(k := ys @ zs))"
    "get_chunk w' = get_chunk w" "core w' = core w" "kept w w'"
    "get_chunk w' a = Some ch" "state_ok k ch" "\<forall>l. a \<notin> set ((Q(k := ys @ zs)) l)"
proof (cases rule: queue_pop_by_spec [OF invD(1) [OF assms], of k T])
  case (2 ys a zs w' ch)
  have "chunks_ok (get_chunk w) (Q(k := ys @ zs))"
    using chunks_ok_subset [OF invD(2) [OF assms]] 2(1) by (auto simp: subset_iff)
  then have inv: "client_inv w' (Q(k := ys @ zs))" using 2 invD(3) [OF assms] unfolding client_inv_def by metis
  have "a \<notin> set (ys @ zs)" using queues_distinct [OF invD(1) [OF assms], of k] 2(1) by simp
  then have "\<forall>l. a \<notin> set ((Q(k := ys @ zs)) l)"
    using queues_disjoint [OF invD(1) [OF assms], of k] 2(1) by auto
  moreover have "state_ok k ch" using inv_state [OF assms, of a k] 2 by simp
  moreover have "get_chunk w' a = Some ch" "kept w w'" using 2 kept_same by metis+
  ultimately show thesis using found [OF 2(1,2,4,5) inv 2(7,8)] by blast
qed (rule none)

lemma inv_updE:
  assumes "client_inv w Q" and "get_chunk w a = Some ch" and "chunk_wf (f ch)"
    and "\<And>k. a \<in> set (Q k) \<Longrightarrow> state_ok k (f ch)"
    and "have_owner ch \<Longrightarrow> have_owner (f ch)" and "is_ping ch \<Longrightarrow> is_ping (f ch)"
  obtains w' where "upd_chunk f a w = Some w'" "client_inv w' Q"
    "get_chunk w' = (get_chunk w)(a \<mapsto> f ch)" "core w' = core w" "kept w w'"
proof -
  obtain w' where w': "upd_chunk f a w = Some w'" "queues w' Q"
    "get_chunk w' = (get_chunk w)(a \<mapsto> f ch)" "core w' = core w"
    by (rule upd_chunk_spec [OF invD(1) [OF assms(1)] assms(2)])
  have "chunks_ok (get_chunk w') Q"
    using invD(2) [OF assms(1)] assms(3,4) w'(3) by (auto simp: chunks_ok_def)
  moreover have "ping_ok (w_cli (core w')) (get_chunk w')"
    unfolding w'(4) by (rule ping_ok_mono [OF invD(3) [OF assms(1)]]) (use assms(2,6) w'(3) in auto)
  ultimately have "client_inv w' Q" using w'(2) by (simp add: client_inv_def)
  moreover have "kept w w'" by (rule keptI [OF w'(4)]) (use w'(3) assms(2,5) in auto)
  ultimately show thesis using that w' by blast
qed

lemma inv_destroyE:
  assumes "client_inv w Q" and "get_chunk w a = Some ch" and "\<forall>k. a \<notin> set (Q k)" and "\<not> is_ping ch"
  obtains w' where "iot_mqtt_chunk_destroy (Some a) w = Some w'" "client_inv w' Q"
    "get_chunk w' = (get_chunk w)(a := None)" "core w' = core w" "\<not> have_owner ch \<Longrightarrow> kept w w'"
proof -
  obtain w' where w': "iot_mqtt_chunk_destroy (Some a) w = Some w'" "queues w' Q"
    "get_chunk w' = (get_chunk w)(a := None)" "core w' = core w"
    by (rule chunk_destroy_spec [OF invD(1) [OF assms(1)] assms(2,3)])
  have "chunks_ok (get_chunk w') Q" using invD(2) [OF assms(1)] w'(3) by (auto simp: chunks_ok_def)
  moreover have "ping_ok (w_cli (core w')) (get_chunk w')"
    unfolding w'(4) by (rule ping_ok_mono [OF invD(3) [OF assms(1)]]) (use assms(2,4) w'(3) in auto)
  ultimately have "client_inv w' Q" using w'(2) by (simp add: client_inv_def)
  moreover have "kept w w'" if "\<not> have_owner ch"
    by (rule keptI [OF w'(4)]) (use w'(3) assms(2) that in auto)
  ultimately show thesis using that w' by blast
qed

lemma zero_chunk_wf: "d = None \<and> sz = 0 \<or> (\<exists>x. d = Some x \<and> length x = sz) \<Longrightarrow>
    chunk_wf (zero_chunk\<lparr>chunk_data := d, chunk_size := sz\<rparr>)"
  by (auto simp: chunk_wf_def zero_chunk_def)

lemma inv_createE:
  assumes "client_inv w Q"
  obtains (failed) w' where "iot_mqtt_chunk_create sz w = (None, w')" "client_inv w' Q"
    "get_chunk w' = get_chunk w" "core w' = core w" "kept w w'" "\<exists>n. oom (w_mem w) n"
  | (made) a w' d where "iot_mqtt_chunk_create sz w = (Some a, w')" "client_inv w' Q" "core w' = core w"
    "get_chunk w a = None" "\<forall>k. a \<notin> set (Q k)" "kept w w'"
    "get_chunk w' = (get_chunk w)(a \<mapsto> zero_chunk\<lparr>chunk_data := d, chunk_size := sz\<rparr>)"
    "(d = None \<and> sz = 0) \<or> (\<exists>x. d = Some x \<and> length x = sz)"
proof (cases rule: chunk_create_spec [OF invD(1) [OF assms], of sz])
  case (1 w')
  then have "client_inv w' Q" using assms unfolding client_inv_def by metis
  then show thesis using failed 1 kept_same by blast
next
  case (2 a w' d)
  have "chunks_ok (get_chunk w') Q"
    using invD(2) [OF assms] 2(4,6) zero_chunk_wf [OF 2(7)] by (auto simp: chunks_ok_def)
  moreover have "ping_ok (w_cli (core w')) (get_chunk w')"
    unfolding 2(5) by (rule ping_ok_mono [OF invD(3) [OF assms]]) (use 2(3,6) in auto)
  ultimately have "client_inv w' Q" using 2(2) by (simp add: client_inv_def)
  moreover have "kept w w'" by (rule keptI [OF 2(5)]) (use 2(3,6) in auto)
  ultimately show thesis using made 2 by blast
qed

end
