(* ===== verification/Mqtt_Safety.thy ===== *)
theory Mqtt_Safety
  imports Mqtt_Invariant
begin

text \<open>
  Every handler of the work cycle, started in a state that satisfies the invariant, ends, touches only
  memory it may touch, and keeps the invariant. The hypotheses are about the platform (the network
  transfers something or reports an error) and about what the broker sends.
\<close>

section \<open>Hypotheses about the platform\<close>

definition write_progress :: "'n port \<Rightarrow> bool" where
  "write_progress P \<longleftrightarrow> (\<forall>n bs ret n'. bs \<noteq> [] \<longrightarrow> port_net_write P n bs = (ret, n') \<longrightarrow>
     ret < 0 \<or> 1 \<le> ret \<and> ret \<le> int (length bs))"

definition read_progress :: "'n port \<Rightarrow> bool" where
  "read_progress P \<longleftrightarrow> (\<forall>n len ret bs n'. 0 < len \<longrightarrow> port_net_read P n len = (ret, bs, n') \<longrightarrow>
     length bs \<le> len \<and> (ret < 0 \<or> 1 \<le> ret \<and> ret \<le> int len))"

lemma write_net_loop_ends:
  assumes "write_progress P" and "sentLen < len" and "len \<le> length buf"
  shows "\<exists>rc n'. iot_mqtt_write_net_loop P buf sentLen len n = Some (rc, n') \<and> (rc < 0 \<or> rc = int len)"
  using assms(2)
proof (induction "len - sentLen" arbitrary: sentLen n rule: less_induct)
  case less
  let ?bs = "take (len - sentLen) (drop sentLen buf)"
  have ne: "?bs \<noteq> []" "length ?bs = len - sentLen" using less.prems assms(3) by auto
  obtain ret n1 where w: "port_net_write P n ?bs = (ret, n1)" by fastforce
  then have "ret < 0 \<or> 1 \<le> ret \<and> ret \<le> int (len - sentLen)"
    using assms(1) ne unfolding write_progress_def by (metis (no_types))
  then consider "ret < 0" | "0 < ret" "sentLen + nat ret = len" | "0 < ret" "sentLen + nat ret < len"
    using less.prems by linarith
  then show ?case
  proof cases
    case 3
    then have "len - (sentLen + nat ret) < len - sentLen" using less.prems by simp
    then show ?thesis
      using less.hyps [of "sentLen + nat ret"] 3 w by (subst iot_mqtt_write_net_loop.simps) simp
  qed (use w in \<open>subst iot_mqtt_write_net_loop.simps, simp\<close>)+
qed

lemma write_chunk_loop_ends:
  assumes "write_progress P" and "length data = sz"
  shows "\<exists>k n'. write_chunk_loop P data sz 0 n = Some (k, n') \<and> (k = sz \<or> k = 0)"
proof (cases "sz = 0")
  case True
  then show ?thesis by (subst write_chunk_loop.simps) simp
next
  case False
  obtain rc n1 where w: "iot_mqtt_write_net P data sz n = Some (rc, n1)" "rc < 0 \<or> rc = int sz"
    using write_net_loop_ends [OF assms(1), of 0 sz data n] False assms(2)
    by (auto simp: iot_mqtt_write_net_def)
  have stop: "write_chunk_loop P data sz sz n1 = Some (sz, n1)" by (subst write_chunk_loop.simps) simp
  show ?thesis
  proof (cases "rc < 0")
    case True
    then show ?thesis using False assms(2) w by (subst write_chunk_loop.simps) simp
  next
    case rc: False
    then show ?thesis using False assms(2) w stop by (subst write_chunk_loop.simps) simp
  qed
qed

section \<open>Connection state\<close>

definition conn :: "'n world \<Rightarrow> bool" where
  "conn w \<longleftrightarrow> (\<exists>c. w_cli w = Some c \<and> isconnected c)"

lemma conn_core: "core w' = core w \<Longrightarrow> conn w' = conn w"
  using coreD(8) [of w' w] unfolding conn_def
  by (cases "w_cli w"; cases "w_cli w'") (auto dest: client_coreD(4))

lemma conn_env [simp]:
  "conn (w\<lparr>w_net := n\<rparr>) = conn w" "conn (w\<lparr>w_events := e\<rparr>) = conn w" "conn (w\<lparr>w_mem := m\<rparr>) = conn w"
  by (simp_all add: conn_def)

text \<open>The outcome of a handler: defined, with the invariant, and nothing owned lost.\<close>

definition safe_step :: "'n world \<Rightarrow> 'n world option \<Rightarrow> bool" where
  "safe_step w r \<longleftrightarrow> (\<exists>w' Q'. r = Some w' \<and> client_inv w' Q' \<and> kept w w' \<and> conn w' = conn w)"

lemma safe_stepI: "r = Some w' \<Longrightarrow> client_inv w' Q' \<Longrightarrow> kept w w' \<Longrightarrow> conn w' = conn w \<Longrightarrow> safe_step w r"
  by (auto simp: safe_step_def)

lemma safe_step_from:
  assumes "safe_step w1 r" and "kept w w1" and "conn w1 = conn w"
  shows "safe_step w r"
  using assms kept_trans unfolding safe_step_def by metis

lemma safe_step_core: "safe_step w1 r \<Longrightarrow> core w1 = core w \<Longrightarrow> kept w w1 \<Longrightarrow> safe_step w r"
  using safe_step_from conn_core by blast

lemma new_timer_eq: "\<exists>t n. new_timer P ms w = (t, w\<lparr>w_net := n\<rparr>)"
  by (auto simp: new_timer_def iot_os_timer_create_def split: prod.splits option.splits if_splits)

text \<open>Two chunks with the same data, type, owner and retry count are equally well formed.\<close>

lemma chunk_wf_cong:
  "chunk_data d = chunk_data c \<Longrightarrow> chunk_size d = chunk_size c \<Longrightarrow> packet_type d = packet_type c \<Longrightarrow>
   have_owner d = have_owner c \<Longrightarrow> retry_count d = retry_count c \<Longrightarrow> chunk_wf d = chunk_wf c"
  unfolding chunk_wf_def by presburger

lemma inv_upd_metaE:
  assumes "client_inv w Q" and "get_chunk w a = Some ch" and "\<forall>k. a \<notin> set (Q k)"
    and "chunk_data (f ch) = chunk_data ch" "chunk_size (f ch) = chunk_size ch"
      "packet_type (f ch) = packet_type ch" "have_owner (f ch) = have_owner ch"
      "retry_count (f ch) = retry_count ch"
  obtains w' where "upd_chunk f a w = Some w'" "client_inv w' Q"
    "get_chunk w' = (get_chunk w)(a \<mapsto> f ch)" "core w' = core w" "kept w w'"
  using inv_updE [OF assms(1,2), of f thesis] inv_wf [OF assms(1,2)] chunk_wf_cong [OF assms(4-8)] assms
  by (auto simp: is_ping_def)

section \<open>Writing\<close>

lemma await_ack_safe:
  assumes "client_inv w Q" and "get_chunk w a = Some ch" and "\<forall>k. a \<notin> set (Q k)"
    and "retry_count ch < MQTT_PUBLISH_RETRY"
  obtains w' t n where "await_ack P ms a w = Some w'" "client_inv w' (Q(ACK_PENDING := Q ACK_PENDING @ [a]))"
    "kept w w'" "core w' = core (w\<lparr>w_net := n\<rparr>)"
    "get_chunk w' = (get_chunk w)(a \<mapsto> ch\<lparr>chunk_state := PACKET_CHUNK_ACK_PENDING, expiry_time := t\<rparr>)"
proof -
  obtain w1 where w1: "upd_chunk (\<lambda>c. c\<lparr>chunk_state := PACKET_CHUNK_ACK_PENDING\<rparr>) a w = Some w1" "client_inv w1 Q"
    "get_chunk w1 = (get_chunk w)(a \<mapsto> ch\<lparr>chunk_state := PACKET_CHUNK_ACK_PENDING\<rparr>)" "core w1 = core w" "kept w w1"
    by (rule inv_upd_metaE [OF assms(1-3), of "\<lambda>c. c\<lparr>chunk_state := PACKET_CHUNK_ACK_PENDING\<rparr>"]) auto
  obtain t n where t: "new_timer P ms w1 = (t, w1\<lparr>w_net := n\<rparr>)" using new_timer_eq [of P ms w1] by blast
  let ?w1 = "w1\<lparr>w_net := n\<rparr>" and ?ch = "ch\<lparr>chunk_state := PACKET_CHUNK_ACK_PENDING\<rparr>"
  have i1: "client_inv ?w1 Q" "get_chunk ?w1 a = Some ?ch" using w1 by auto
  obtain w2 where w2: "upd_chunk (\<lambda>c. c\<lparr>expiry_time := t\<rparr>) a ?w1 = Some w2" "client_inv w2 Q"
    "get_chunk w2 = (get_chunk ?w1)(a \<mapsto> ?ch\<lparr>expiry_time := t\<rparr>)" "core w2 = core ?w1" "kept ?w1 w2"
    by (rule inv_upd_metaE [OF i1 assms(3), of "\<lambda>c. c\<lparr>expiry_time := t\<rparr>"]) auto
  have "get_chunk w2 a = Some (?ch\<lparr>expiry_time := t\<rparr>)" using w2 by simp
  then obtain w3 where w3: "iot_mqtt_queue_push ACK_PENDING a w2 = Some (0, w3)"
    "client_inv w3 (Q(ACK_PENDING := Q ACK_PENDING @ [a]))" "get_chunk w3 = get_chunk w2" "core w3 = core w2" "kept w2 w3"
    by (rule inv_pushE [OF w2(2) _ assms(3)]) (use assms(4) in auto)
  have "core ?w1 = core (w\<lparr>w_net := n\<rparr>)"
    using w1(4) by (simp add: core_upd_net)
  moreover have "kept w w3"
    using kept_trans [OF kept_trans [of w ?w1 w2] w3(5)] w1(5) w2(5) by simp
  ultimately show thesis
    using that [of w3 n t] w1 w2 w3 t by (simp add: await_ack_def)
qed

lemma core_net_conn: "core w' = core (w\<lparr>w_net := n\<rparr>) \<Longrightarrow> conn w' = conn w"
  using conn_core [of w' "w\<lparr>w_net := n\<rparr>"] by simp

lemma await_ack_step:
  assumes "client_inv w Q" and "get_chunk w a = Some ch" and "\<forall>k. a \<notin> set (Q k)"
    and "retry_count ch < MQTT_PUBLISH_RETRY"
  shows "safe_step w (await_ack P ms a w)"
proof (rule await_ack_safe [OF assms, of P ms])
  fix w' t n
  assume "await_ack P ms a w = Some w'" "client_inv w' (Q(ACK_PENDING := Q ACK_PENDING @ [a]))"
    "kept w w'" "core w' = core (w\<lparr>w_net := n\<rparr>)"
  then show ?thesis by (intro safe_stepI core_net_conn)
qed

lemma post_write_safe:
  assumes "client_inv w Q" and "get_chunk w a = Some ch" and "\<forall>k. a \<notin> set (Q k)"
    and "retry_count ch < MQTT_PUBLISH_RETRY"
  shows "safe_step w (iot_mqtt_process_post_write P a w)"
proof -
  note ack = await_ack_step [OF assms]
  obtain w1 where w1: "upd_chunk (\<lambda>c. c\<lparr>chunk_state := PACKET_CHUNK_WRITE_COMPLETED\<rparr>) a w = Some w1" "client_inv w1 Q"
    "get_chunk w1 = (get_chunk w)(a \<mapsto> ch\<lparr>chunk_state := PACKET_CHUNK_WRITE_COMPLETED\<rparr>)" "core w1 = core w" "kept w w1"
    by (rule inv_upd_metaE [OF assms(1-3), of "\<lambda>c. c\<lparr>chunk_state := PACKET_CHUNK_WRITE_COMPLETED\<rparr>"]) auto
  have fin: "safe_step w (Some w1)" using w1 conn_core by (auto intro!: safe_stepI)
  have free1: "safe_step w (iot_mqtt_chunk_destroy (Some a) w1)" if "\<not> have_owner ch"
    by (rule inv_destroyE [OF w1(2) _ assms(3)])
      (use that w1 kept_trans in \<open>auto simp: is_ping_def intro!: safe_stepI conn_core\<close>)
  have free: "safe_step w (iot_mqtt_chunk_destroy (Some a) w)" if "\<not> have_owner ch"
    by (rule inv_destroyE [OF assms(1,2,3)]) (use that in \<open>auto simp: is_ping_def intro!: safe_stepI conn_core\<close>)
  have own: "have_owner ch \<longrightarrow> packet_type ch \<in> owned_types"
    using inv_wf [OF assms(1,2)] by (simp add: chunk_wf_def)
  show ?thesis
    unfolding iot_mqtt_process_post_write_def assms(2)
    using ack fin free1 free own w1(1) by (auto simp: owned_types_def)
qed

lemma close_net_safe:
  assumes "client_inv w Q"
  obtains w' n where "iot_mqtt_close_net P w = Some w'" "client_inv w' Q" "get_chunk w' = get_chunk w"
    "kept w w'" "\<not> conn w'"
proof -
  obtain c where c: "w_cli w = Some c" "read_lock c" "write_lock c" using assms by (rule inv_client)
  show thesis
  proof (cases "isconnected c")
    case True
    let ?w = "upd_client (\<lambda>c. c\<lparr>isconnected := False\<rparr>) w"
    have "client_inv ?w Q"
    proof (rule inv_upd_client [OF assms])
      show "get_queue k (c\<lparr>isconnected := False\<rparr>) = get_queue k c" for k c by (cases k) auto
    qed (auto simp: client_ok_def)
    moreover have "kept w (?w\<lparr>w_net := port_net_close P (w_net w)\<rparr>)" by simp
    moreover have "\<not> conn (?w\<lparr>w_net := port_net_close P (w_net w)\<rparr>)" using c by (simp add: conn_def upd_client_def)
    ultimately show ?thesis
      using that [of "?w\<lparr>w_net := port_net_close P (w_net w)\<rparr>"] c True
      by (simp add: iot_mqtt_close_net_def)
  next
    case False
    then show ?thesis using that [of w] c assms by (simp add: iot_mqtt_close_net_def conn_def)
  qed
qed

lemma disconnected_event_safe:
  assumes "client_inv w Q"
  obtains w' Q' where "disconnected_event P reason w = Some w'" "client_inv w' Q'" "kept w w'" "\<not> conn w'"
proof -
  obtain w1 where w1: "iot_mqtt_close_net P w = Some w1" "client_inv w1 Q" "kept w w1" "\<not> conn w1"
    by (rule close_net_safe [OF assms])
  show thesis
  proof (cases rule: inv_createE [OF w1(2), of 0])
    case (1 w2)
    moreover have "kept w w2" "\<not> conn w2" using 1 w1 kept_trans [of w w1 w2] conn_core [of w2 w1] by auto
    ultimately show ?thesis using that [of w2 Q] w1 by (simp add: disconnected_event_def)
  next
    case (2 e w2 d)
    let ?f = "\<lambda>c. c\<lparr>chunk_state := EVENT_CHUNK_DISCONNECTED, return_code := reason\<rparr>"
    have e: "get_chunk w2 e = Some (zero_chunk\<lparr>chunk_data := d, chunk_size := 0\<rparr>)" using 2 by simp
    obtain w3 where w3: "upd_chunk ?f e w2 = Some w3" "client_inv w3 Q"
      "get_chunk w3 = (get_chunk w2)(e \<mapsto> ?f (zero_chunk\<lparr>chunk_data := d, chunk_size := 0\<rparr>))"
      "core w3 = core w2" "kept w2 w3"
      by (rule inv_upd_metaE [OF 2(2) e 2(5), of ?f]) auto
    have "get_chunk w3 e = Some (?f (zero_chunk\<lparr>chunk_data := d, chunk_size := 0\<rparr>))" using w3 by simp
    then obtain w4 where w4: "iot_mqtt_queue_push USER_EVENT e w3 = Some (0, w4)"
      "client_inv w4 (Q(USER_EVENT := Q USER_EVENT @ [e]))" "core w4 = core w3" "kept w3 w4"
      by (rule inv_pushE [OF w3(2) _ 2(5)]) (auto simp: zero_chunk_def)
    have "\<not> conn w4" using w1(4) 2(3) w3(4) w4(3) conn_core by metis
    moreover have "kept w w4" using w1(3) 2(6) w3(5) w4(4) kept_trans by metis
    ultimately show ?thesis
      using that [of w4] w1 2 w3 w4 by (simp add: disconnected_event_def)
  qed
qed

lemma write_failed_safe:
  assumes "client_inv w Q" and "get_chunk w a = Some ch" and "\<forall>k. a \<notin> set (Q k)"
  obtains w' Q' where "write_failed P rc a w = Some (rc, w')" "client_inv w' Q'" "kept w w'"
proof -
  let ?f = "\<lambda>c. c\<lparr>chunk_state := PACKET_CHUNK_WRITE_FAIL, return_code := rc\<rparr>"
  obtain w1 where w1: "upd_chunk ?f a w = Some w1" "client_inv w1 Q" "get_chunk w1 = (get_chunk w)(a \<mapsto> ?f ch)"
    "core w1 = core w" "kept w w1"
    by (rule inv_upd_metaE [OF assms, of ?f]) auto
  have a: "get_chunk w1 a = Some (?f ch)" using w1 by simp
  obtain w2 Q2 where w2: "(if \<not> have_owner ch then do { (_, w) \<leftarrow> iot_mqtt_queue_push USER_EVENT a w1; Some w }
      else Some w1) = Some w2" "client_inv w2 Q2" "kept w1 w2"
  proof (cases "have_owner ch")
    case False
    with a obtain w2 where "iot_mqtt_queue_push USER_EVENT a w1 = Some (0, w2)"
      "client_inv w2 (Q(USER_EVENT := Q USER_EVENT @ [a]))" "kept w1 w2"
      by (elim inv_pushE [OF w1(2) _ assms(3)]) auto
    then show ?thesis using that False by simp
  qed (use that w1 in auto)
  obtain w3 Q3 where w3: "(if rc = E_ST_MQTT_NETWORK_ERROR
      then disconnected_event P MQTT_DISCONNECTED_NETWORK_ERROR w2 else Some w2) = Some w3" "client_inv w3 Q3" "kept w2 w3"
  proof (cases "rc = E_ST_MQTT_NETWORK_ERROR")
    case True
    obtain w3 Q3 where "disconnected_event P MQTT_DISCONNECTED_NETWORK_ERROR w2 = Some w3"
      "client_inv w3 Q3" "kept w2 w3" by (rule disconnected_event_safe [OF w2(2)])
    then show ?thesis using that True by simp
  qed (use that w2 in auto)
  have "kept w w3" using w1(5) w2(3) w3(3) kept_trans by metis
  then show thesis using that [of w3 Q3] w1 a w2 w3 by (simp add: write_failed_def)
qed

lemma upd_client_step:
  assumes "client_inv w Q" and "\<And>c k. get_queue k (f c) = get_queue k c"
    and "\<And>c. client_ok c \<Longrightarrow> client_ok (f c)" and "\<And>c. ping_packet (f c) = ping_packet c"
    and "\<And>c. isconnected (f c) = isconnected c"
  shows "safe_step w (Some (upd_client f w))"
proof (rule safe_stepI [OF refl inv_upd_client [OF assms(1-4)]])
  show "conn (upd_client f w) = conn w" using assms(5) by (auto simp: conn_def upd_client_def)
qed (use assms in simp_all)

lemma restart_last_sent_safe:
  assumes "client_inv w Q" and "conn w"
  shows "safe_step w (restart_last_sent P w)"
proof -
  obtain c where c: "w_cli w = Some c" "client_ok c" "magic c = MQTT_CLIENT_STRUCT_MAGIC_NUMBER"
    "client_manage_lock c" using assms(1) by (rule inv_client)
  obtain t where t: "last_sent c = Some t" using assms(2) c by (auto simp: conn_def client_ok_def)
  let ?f = "\<lambda>c. c\<lparr>last_sent := Some (iot_os_timer_start P t w)\<rparr>"
  have "safe_step w (Some (upd_client ?f w))"
  proof (rule upd_client_step [OF assms(1)])
    show "get_queue k (?f c) = get_queue k c" for k c by (cases k) auto
  qed (auto simp: client_ok_def)
  then show ?thesis using c t by (simp add: restart_last_sent_def)
qed

lemma restart_last_received_safe:
  assumes "client_inv w Q" and "conn w"
  shows "safe_step w (restart_last_received P w)"
proof -
  obtain c where c: "w_cli w = Some c" "client_ok c" "magic c = MQTT_CLIENT_STRUCT_MAGIC_NUMBER"
    "client_manage_lock c" using assms(1) by (rule inv_client)
  obtain t where t: "last_received c = Some t" using assms(2) c by (auto simp: conn_def client_ok_def)
  let ?f = "\<lambda>c. c\<lparr>last_received := Some (iot_os_timer_start P t w)\<rparr>"
  have "safe_step w (Some (upd_client ?f w))"
  proof (rule upd_client_step [OF assms(1)])
    show "get_queue k (?f c) = get_queue k c" for k c by (cases k) auto
  qed (auto simp: client_ok_def)
  then show ?thesis using c t by (simp add: restart_last_received_def)
qed

text \<open>
  The outcome of a stream: a return code, the invariant, and a connection that is still there when
  the code is not negative.
\<close>

definition safe_stream :: "'n world \<Rightarrow> (int \<times> 'n world) option \<Rightarrow> bool" where
  "safe_stream w r \<longleftrightarrow> (\<exists>rc w' Q'. r = Some (rc, w') \<and> client_inv w' Q' \<and> kept w w' \<and> (rc \<ge> 0 \<longrightarrow> conn w \<longrightarrow> conn w'))"

lemma safe_streamI:
  "r = Some (rc, w') \<Longrightarrow> client_inv w' Q' \<Longrightarrow> kept w w' \<Longrightarrow> (rc \<ge> 0 \<Longrightarrow> conn w \<Longrightarrow> conn w') \<Longrightarrow> safe_stream w r"
  by (auto simp: safe_stream_def)

theorem run_write_stream_safe:
  assumes "client_inv w Q" and "write_progress P"
  shows "safe_stream w (iot_mqtt_run_write_stream P w)"
proof -
  obtain c where c: "w_cli w = Some c" "magic c = MQTT_CLIENT_STRUCT_MAGIC_NUMBER" "write_lock c"
    using assms(1) by (rule inv_client)
  note run = iot_mqtt_run_write_stream_def [of P w]
  show ?thesis
  proof (cases rule: inv_popE [OF assms(1), of WRITE_PENDING])
    case 1
    then show ?thesis using c assms(1) by (intro safe_streamI [of _ 0 w]) (simp_all add: run)
  next
    case (2 a as w1 ch)
    let ?Q = "Q(WRITE_PENDING := as)"
    obtain w2 Q2 where fail: "write_failed P E_ST_MQTT_DISCONNECTED a w1 = Some (E_ST_MQTT_DISCONNECTED, w2)"
      "client_inv w2 Q2" "kept w1 w2" by (rule write_failed_safe [OF 2(3,7,9)])
    show ?thesis
    proof (cases "isconnected c")
      case False
      then show ?thesis using c 2 fail kept_trans [OF 2(6) fail(3)]
        by (intro safe_streamI [of _ "-2" w2 Q2]) (simp_all add: run)
    next
      case True
      define d where "d = (case chunk_data ch of Some d \<Rightarrow> d | None \<Rightarrow> [])"
      have len: "length d = chunk_size ch"
        using inv_wf [OF 2(3,7)] by (auto simp: chunk_wf_def d_def split: option.splits)
      obtain k n where k: "write_chunk_loop P d (chunk_size ch) 0 (w_net w1) = Some (k, n)"
          "k = chunk_size ch \<or> k = 0"
        using write_chunk_loop_ends [OF assms(2) len] by blast
      let ?w1 = "w1\<lparr>w_net := n\<rparr>"
      have i: "client_inv ?w1 ?Q" "get_chunk ?w1 a = Some ch" "kept w ?w1" "conn ?w1 = conn w"
        using 2 conn_core [of w1 w] by auto
      have conn: "conn w" using True c by (simp add: conn_def)
      show ?thesis
      proof (cases "k = chunk_size ch")
        case False
        obtain w2 Q2 where fail: "write_failed P E_ST_MQTT_NETWORK_ERROR a ?w1 = Some (E_ST_MQTT_NETWORK_ERROR, w2)"
          "client_inv w2 Q2" "kept ?w1 w2" by (rule write_failed_safe [OF i(1,2) 2(9)])
        show ?thesis using c 2(2,7) True k(1) False fail kept_trans [OF i(3) fail(3)]
          by (intro safe_streamI [of _ "-9" w2 Q2]) (simp_all add: run flip: d_def)
      next
        case ok: True
        have "retry_count ch < MQTT_PUBLISH_RETRY" using 2(8) by simp
        from post_write_safe [OF i(1,2) 2(9) this, of P] obtain w2 Q2 where
          w2: "iot_mqtt_process_post_write P a ?w1 = Some w2" "client_inv w2 Q2" "kept ?w1 w2" "conn w2 = conn ?w1"
          unfolding safe_step_def by blast
        obtain w3 Q3 where w3: "(if k > 0 then restart_last_sent P w2 else Some w2) = Some w3"
          "client_inv w3 Q3" "kept w2 w3" "conn w3"
        proof (cases "k > 0")
          case True
          have "conn w2" using w2(4) i(4) conn by simp
          from restart_last_sent_safe [OF w2(2) this] show ?thesis
            using that True \<open>conn w2\<close> by (auto simp: safe_step_def)
        qed (use that w2 i conn in auto)
        have "kept w w3" using i(3) w2(3) w3(3) kept_trans by metis
        then show ?thesis using c 2(2,7) True k(1) ok w2(1) w3
          by (intro safe_streamI [of _ "int k" w3 Q3]) (simp_all add: run flip: d_def)
      qed
    qed
  qed
qed

end
