(* ===== verification/Mqtt_Receive.thy ===== *)
theory Mqtt_Receive
  imports Mqtt_Safety
begin

text \<open>
  The receiving side of the work cycle: the reading loops end, and every handler of a received packet
  keeps the invariant, provided the packet is one the packet readers can read without leaving it.
\<close>

section \<open>Reading from the network\<close>

lemma write_bytes_fits:
  "p + length bs \<le> length b \<Longrightarrow> \<exists>b'. write_bytes bs (b, p) = Some (b', p + length bs) \<and> length b' = length b"
  by (simp add: write_bytes_def)

lemma read_net_loop_ends:
  assumes "read_progress P" and "recvLen < len" and "off + len \<le> length buf"
  shows "\<exists>rc buf' n'. iot_mqtt_read_net_loop P buf off recvLen len n = Some (rc, buf', n')
    \<and> length buf' = length buf \<and> (rc < 0 \<or> rc = int len)"
  using assms(2,3)
proof (induction "len - recvLen" arbitrary: recvLen n buf rule: less_induct)
  case less
  obtain ret bs n1 where r: "port_net_read P n (len - recvLen) = (ret, bs, n1)" by (metis prod_cases3)
  have ret: "length bs \<le> len - recvLen" "ret < 0 \<or> 1 \<le> ret \<and> ret \<le> int (len - recvLen)"
    using assms(1) r less.prems(1) unfolding read_progress_def by (metis zero_less_diff)+
  have "off + recvLen + length bs \<le> length buf" using ret(1) less.prems by linarith
  then obtain b1 where b1: "write_bytes bs (buf, off + recvLen) = Some (b1, off + recvLen + length bs)"
      "length b1 = length buf"
    using write_bytes_fits by blast
  consider "ret < 0" | "0 < ret" "recvLen + nat ret = len" | "0 < ret" "recvLen + nat ret < len"
    using ret(2) less.prems by linarith
  then show ?case
  proof cases
    case 3
    then have "len - (recvLen + nat ret) < len - recvLen" using less.prems by simp
    then show ?thesis
      using less.hyps [of "recvLen + nat ret" b1] 3 r b1 less.prems
      by (subst iot_mqtt_read_net_loop.simps) simp
  qed (use r b1 in \<open>subst iot_mqtt_read_net_loop.simps, simp\<close>)+
qed

lemma read_net_ends:
  assumes "read_progress P" and "off + len \<le> length buf"
  obtains rc buf' n' where "iot_mqtt_read_net P buf off len n = Some (rc, buf', n')"
    "length buf' = length buf" "rc < 0 \<or> rc = int len"
proof (cases "len = 0")
  case True
  then show ?thesis using that [of 0 buf n] by (simp add: iot_mqtt_read_net_def)
next
  case False
  then show ?thesis
    using that read_net_loop_ends [OF assms(1), of 0 len off buf n] assms(2)
    by (auto simp: iot_mqtt_read_net_def)
qed

text \<open>The fixed header: at most five bytes, and the array is not overrun.\<close>

lemma read_length_loop_ends:
  assumes "read_progress P" and "length hdr = 5" and "1 \<le> rd" and "rd \<le> 5"
  shows "\<exists>r n'. read_length_loop P hdr rd rem mult n = Some (r, n') \<and>
    (case r of Inl rc \<Rightarrow> rc = E_ST_MQTT_NETWORK_ERROR
     | Inr (hdr', rd', rem') \<Rightarrow> length hdr' = 5 \<and> rd < rd' \<and> rd' \<le> 5)"
  using assms(2-4)
proof (induction "5 - rd" arbitrary: rd hdr rem mult n)
  case 0
  then show ?case by (subst read_length_loop.simps) simp
next
  case (Suc x)
  then have rd: "rd < 5" by simp
  obtain rc h1 n1 where r: "iot_mqtt_read_net P hdr rd 1 n = Some (rc, h1, n1)" "length h1 = length hdr"
    by (rule read_net_ends [OF assms(1), of rd 1 hdr n]) (use Suc.prems rd in auto)
  show ?case
  proof (cases "rc \<le> 0")
    case True
    then show ?thesis using r rd by (subst read_length_loop.simps) simp
  next
    case False
    have b: "read_byte h1 rd = Some (h1 ! rd)" using r rd Suc.prems by (simp add: read_byte_def)
    show ?thesis
    proof (cases "h1 ! rd AND 128 = 0")
      case True
      then show ?thesis using r rd False b Suc.prems by (subst read_length_loop.simps) simp
    next
      case more: False
      have "\<exists>r n'. read_length_loop P h1 (Suc rd) rem' (mult * 128) n1 = Some (r, n') \<and>
        (case r of Inl rc \<Rightarrow> rc = E_ST_MQTT_NETWORK_ERROR
         | Inr (hdr', rd', rem') \<Rightarrow> length hdr' = 5 \<and> Suc rd < rd' \<and> rd' \<le> 5)" for rem'
        by (rule Suc.hyps(1)) (use Suc rd r in auto)
      then show ?thesis using r rd False b more
        by (subst read_length_loop.simps) (fastforce simp: Let_def split: sum.splits)
    qed
  qed
qed

lemma read_fixed_header_ends:
  assumes "read_progress P"
  obtains (error) n' where "read_fixed_header P n = Some (Inl E_ST_MQTT_NETWORK_ERROR, n')"
  | (header) hdr rd rem n' where "read_fixed_header P n = Some (Inr (hdr, rd, rem), n')"
    "length hdr = 5" "1 < rd" "rd \<le> 5"
proof -
  obtain rc h1 n1 where r: "iot_mqtt_read_net P (replicate 5 0) 0 1 n = Some (rc, h1, n1)" "length h1 = 5"
    by (rule read_net_ends [OF assms, of 0 1 "replicate 5 0" n]) auto
  show thesis
  proof (cases "rc \<le> 0")
    case True
    then show ?thesis using error r by (simp add: read_fixed_header_def)
  next
    case False
    with r read_length_loop_ends [OF assms r(2), of 1 0 1 n1] show ?thesis
      using error header by (fastforce simp: read_fixed_header_def split: sum.splits)
  qed
qed

lemma read_body_loop_ends:
  assumes "read_progress P" and "length data = sz" and "rd \<le> sz"
  obtains got d n' where "read_body_loop P data sz rd n = Some (got, d, n')" "length d = sz"
    "got = sz \<or> got = rd"
proof (cases "rd = sz")
  case True
  then show ?thesis using that [of sz data n] assms(2) by (simp add: read_body_loop.simps)
next
  case False
  obtain rc d n1 where r: "iot_mqtt_read_net P data rd (sz - rd) n = Some (rc, d, n1)" "length d = length data"
    "rc < 0 \<or> rc = int (sz - rd)"
    by (rule read_net_ends [OF assms(1), of rd "sz - rd" data n]) (use assms in auto)
  have stop: "read_body_loop P d sz sz n1 = Some (sz, d, n1)" by (subst read_body_loop.simps) simp
  show ?thesis
  proof (cases "rc < 0")
    case True
    then show ?thesis using that [of rd d n1] False r assms by (simp add: read_body_loop.simps [of P data])
  next
    case rc: False
    then have "rd + nat rc = sz" using r(3) assms(3) by auto
    then show ?thesis using that [of sz d n1] False r assms rc stop by (simp add: read_body_loop.simps [of P data])
  qed
qed

section \<open>Packets that can be read\<close>

definition wire_ok :: "'n port \<Rightarrow> u8 list \<Rightarrow> bool" where
  "wire_ok P d \<longleftrightarrow> MQTTPacket_getPacketId (load_first P) d \<noteq> None \<and>
     (\<forall>b. read_byte d 0 = Some b \<longrightarrow>
        (header_type b = msg_code PUBLISH \<longrightarrow> deliverable d)
      \<and> (header_type b = msg_code CONNACK \<longrightarrow> MQTTDeserialize_connack d (0, 0) \<noteq> None)
      \<and> (header_type b = msg_code SUBACK \<longrightarrow> MQTTDeserialize_suback (char_signed P) 1 1 (0, []) d \<noteq> None))"

text \<open>
  Every packet that can be read completely, from a state in which the poll announced data, is one of
  these.
\<close>

definition broker_ok :: "'n port \<Rightarrow> bool" where
  "broker_ok P \<longleftrightarrow> (\<forall>n0 rc n hdr rd rem n1 x d n2.
     port_net_read_poll P n0 0 = (rc, n) \<longrightarrow> rc > 0 \<longrightarrow>
     read_fixed_header P n = Some (Inr (hdr, rd, rem), n1) \<longrightarrow> length x = rd + rem \<longrightarrow>
     take rd x = take rd hdr \<longrightarrow> read_body_loop P x (rd + rem) rd n1 = Some (rd + rem, d, n2) \<longrightarrow> wire_ok P d)"

section \<open>Handlers of received packets\<close>

lemma inv_changed:
  assumes "client_inv w Q" and "queues w' Q" and "core w' = core w"
    and "get_chunk w b = Some ch" and "get_chunk w' = (get_chunk w)(b \<mapsto> ch')"
    and "chunk_wf ch'" and "\<forall>k. b \<notin> set (Q k)" and "have_owner ch' = have_owner ch" and "\<not> is_ping ch"
  shows "client_inv w' Q" "kept w w'"
proof -
  have "chunks_ok (get_chunk w') Q" using invD(2) [OF assms(1)] assms(5-7) by (auto simp: chunks_ok_def)
  moreover have "ping_ok (w_cli (core w')) (get_chunk w')"
    unfolding assms(3) by (rule ping_ok_mono [OF invD(3) [OF assms(1)]]) (use assms in auto)
  ultimately show "client_inv w' Q" using assms(2) by (simp add: client_inv_def)
  show "kept w w'" by (rule keptI [OF assms(3)]) (use assms in auto)
qed

lemma serialize_ack_spec:
  assumes "queues w Q" and "get_chunk w b = Some ch" and "chunk_data ch = Some x" and "length x = 4"
    and "chunk_size ch = 4"
  obtains w' where "serialize_ack_chunk t b w = Some w'" "queues w' Q" "core w' = core w"
    "get_chunk w' = (get_chunk w)(b \<mapsto> ch\<lparr>packet_type := msg_code t,
       chunk_data := Some (ack_packet t 0 (ucast (packet_id ch)))\<rparr>)"
proof -
  let ?p = "ack_packet t 0 (ucast (packet_id ch))"
  let ?f = "\<lambda>c. c\<lparr>packet_type := msg_code t, chunk_data := Some ?p\<rparr>"
  have "MQTTSerialize_ack x 4 (msg_code t) 0 (ucast (packet_id ch)) = Some (4, ?p)"
    using ack_msg.ser_fits [of 4 x "(t, 0, ucast (packet_id ch))"] assms(4) by simp
  moreover obtain w' where "upd_chunk ?f b w = Some w'" "queues w' Q"
    "get_chunk w' = (get_chunk w)(b \<mapsto> ?f ch)" "core w' = core w"
    by (rule upd_chunk_spec [OF assms(1,2), of ?f])
  ultimately show thesis using that [of w'] assms by (simp add: serialize_ack_chunk_def)
qed

lemma ack_chunk_wf:
  assumes "t \<noteq> PUBLISH" and "have_owner ch \<longrightarrow> msg_code t \<in> owned_types" and "chunk_size ch = 4"
    and "0 \<le> retry_count ch" "retry_count ch \<le> MQTT_PUBLISH_RETRY"
  shows "chunk_wf (ch\<lparr>packet_type := msg_code t, chunk_data := Some (ack_packet t 0 i)\<rparr>)"
  using assms msg_code_inj [of t PUBLISH] by (auto simp: chunk_wf_def)

text \<open>
  What an acknowledgement does: the first waiting packet of the type and identifier it answers leaves the
  queue; its owner is told the return code, a packet without an owner is freed. The acknowledgement itself
  is freed.
\<close>

definition answers :: "int \<times> u32 \<Rightarrow> chunk \<Rightarrow> bool" where
  "answers ti c \<longleftrightarrow> packet_type c = fst ti \<and> packet_id c = snd ti"

definition settle :: "'n port \<Rightarrow> chunk \<Rightarrow> nat option \<Rightarrow> (nat \<rightharpoonup> chunk) \<Rightarrow> (nat \<rightharpoonup> chunk)" where
  "settle P ack r H = (case r of None \<Rightarrow> H | Some b \<Rightarrow>
     let tc = the (H b) in
     if have_owner tc
     then H(b \<mapsto> tc\<lparr>return_code := the (ack_return_code P ack (return_code tc)),
                    chunk_state := PACKET_CHUNK_ACKNOWLEDGED, expiry_time := None\<rparr>)
     else H(b := None))"

lemma received_ack_effect:
  assumes "client_inv w Q" and "get_chunk w a = Some ch" and "\<forall>k. a \<notin> set (Q k)" and "\<not> have_owner ch"
    and "\<And>old. ack_return_code P ch old \<noteq> None" and "ack_target ch = Some ti"
  defines "M \<equiv> marked (get_chunk w) (answers ti)"
  obtains w' where "iot_mqtt_process_received_ack P a w = Some w'" "kept w w'" "core w' = core w"
    "client_inv w' (Q(ACK_PENDING := without_first M (Q ACK_PENDING)))"
    "get_chunk w' = (settle P ch (find M (Q ACK_PENDING)) (get_chunk w))(a := None)"
proof -
  have nping: "\<not> is_ping ch" using assms(4) by (simp add: is_ping_def)
  have pop: "iot_mqtt_queue_pop_by_type_and_id k (fst ti) (snd ti) v = queue_pop_by (answers ti) k v" for k v
    by (simp add: iot_mqtt_queue_pop_by_type_and_id_def answers_def [abs_def])
  show thesis
  proof (cases rule: inv_pop_byE [OF assms(1), of ACK_PENDING "answers ti"])
    case 1
    have "\<forall>b\<in>set (Q ACK_PENDING). \<not> M b" using 1(1) by (auto simp: M_def marked_def split: option.splits)
    then have M: "find M (Q ACK_PENDING) = None" "Q(ACK_PENDING := without_first M (Q ACK_PENDING)) = Q"
      by (simp_all add: find_none)
    obtain w1 where "iot_mqtt_chunk_destroy (Some a) w = Some w1" "client_inv w1 Q" "core w1 = core w" "kept w w1"
      "get_chunk w1 = (get_chunk w)(a := None)"
      by (rule inv_destroyE [OF assms(1-3) nping]) (use assms(4) in auto)
    then show ?thesis using that [of w1] assms(2,6) 1(2) unfolding M
      by (simp add: iot_mqtt_process_received_ack_def pop settle_def split_beta)
  next
    case (2 ys b zs w1 tc)
    have b: "get_chunk w b = Some tc" using 2(6,9) by simp
    have "\<forall>b\<in>set ys. \<not> M b" "M b" using 2(2,3) b by (auto simp: M_def marked_def split: option.splits)
    then have M: "find M (Q ACK_PENDING) = Some b" "without_first M (Q ACK_PENDING) = ys @ zs"
      unfolding 2(1) by (simp_all add: find_split)
    define Q1 where "Q1 = Q(ACK_PENDING := ys @ zs)"
    note found = 2 [folded Q1_def]
    have ab: "a \<noteq> b" using assms(3) 2(1) by (metis in_set_conv_decomp)
    have out: "\<forall>k. a \<notin> set (Q1 k)" using assms(3) 2(1) by (auto simp: Q1_def dest: spec [of _ ACK_PENDING])
    obtain rc where rc: "ack_return_code P ch (return_code tc) = Some rc" using assms(5) by blast
    let ?f = "\<lambda>c. c\<lparr>return_code := rc, chunk_state := PACKET_CHUNK_ACKNOWLEDGED, expiry_time := None\<rparr>"
    obtain w2 where w2: "(if have_owner tc then upd_chunk ?f b w1 else iot_mqtt_chunk_destroy (Some b) w1) = Some w2"
      "client_inv w2 Q1" "core w2 = core w1" "kept w1 w2" "get_chunk w2 = settle P ch (Some b) (get_chunk w)"
    proof (cases "have_owner tc")
      case True
      show ?thesis
        by (rule inv_upd_metaE [OF found(5,9,11), of ?f]) (use that True rc 2(6) b in \<open>auto simp: settle_def\<close>)
    next
      case False
      show ?thesis
        by (rule inv_destroyE [OF found(5,9,11)]) (use that False 2(6) b in \<open>auto simp: is_ping_def settle_def\<close>)
    qed
    have a2: "get_chunk w2 a = Some ch" unfolding w2(5) using ab assms(2) by (simp add: settle_def Let_def)
    obtain w3 where w3: "iot_mqtt_chunk_destroy (Some a) w2 = Some w3" "client_inv w3 Q1" "core w3 = core w2" "kept w2 w3"
      "get_chunk w3 = (get_chunk w2)(a := None)"
      by (rule inv_destroyE [OF w2(2) a2 out nping]) (use assms(4) in auto)
    have "kept w w3" "core w3 = core w" using 2(7,8) w2(3,4) w3(3,4) kept_trans by metis+
    moreover have "iot_mqtt_process_received_ack P a w = Some w3"
      using assms(2,6) 2(4,9) rc w2(1) w3(1)
      by (auto simp: iot_mqtt_process_received_ack_def pop split_beta split: if_splits)
    ultimately show ?thesis using that [of w3] w3(2,5) w2(5) unfolding M Q1_def by simp
  qed
qed

lemma received_ack_safe:
  assumes "client_inv w Q" and "get_chunk w a = Some ch" and "\<forall>k. a \<notin> set (Q k)" and "\<not> have_owner ch"
    and "\<And>old. ack_return_code P ch old \<noteq> None"
  shows "safe_step w (iot_mqtt_process_received_ack P a w)"
proof (cases "ack_target ch")
  case None
  then show ?thesis using assms by (intro safe_stepI [of _ w Q]) (simp_all add: iot_mqtt_process_received_ack_def)
next
  case (Some ti)
  show ?thesis by (rule received_ack_effect [OF assms Some]) (intro safe_stepI conn_core)
qed

lemma deliver_or_drop_safe:
  assumes "client_inv w Q" and "get_chunk w a = Some ch" and "\<forall>k. a \<notin> set (Q k)" and "\<not> have_owner ch"
    and "packet_type ch = msg_code PUBLISH"
  shows "safe_step w (deliver_or_drop a ch w)"
proof -
  obtain d where d: "chunk_data ch = Some d" "d \<noteq> []"
    using inv_wf [OF assms(1,2)] assms(5) by (auto simp: chunk_wf_def deliverable_def)
  obtain w1 where w1: "iot_mqtt_chunk_destroy (Some a) w = Some w1" "client_inv w1 Q" "core w1 = core w" "kept w w1"
    by (rule inv_destroyE [OF assms(1-3)]) (use assms(4) in \<open>auto simp: is_ping_def\<close>)
  obtain w2 where w2: "iot_mqtt_queue_push USER_EVENT a w = Some (0, w2)"
    "client_inv w2 (Q(USER_EVENT := Q USER_EVENT @ [a]))" "core w2 = core w" "kept w w2"
    by (rule inv_pushE [OF assms(1-3), of USER_EVENT]) (use assms(4) in auto)
  have "safe_step w (Some w1)" "safe_step w (Some w2)"
    using safe_stepI [OF refl w1(2,4) conn_core [OF w1(3)]]
      safe_stepI [OF refl w2(2,4) conn_core [OF w2(3)]] by simp_all
  then show ?thesis using d w1(1) w2(1) by (simp add: deliver_or_drop_def read_byte_def)
qed

lemma serialize_ack_safe:
  assumes "client_inv w Q" and "get_chunk w b = Some ch" and "\<forall>k. b \<notin> set (Q k)"
    and "chunk_data ch = Some x" and "length x = 4" and "chunk_size ch = 4"
    and "t \<noteq> PUBLISH" and "\<not> have_owner ch"
  obtains w' where "serialize_ack_chunk t b w = Some w'" "client_inv w' Q" "core w' = core w" "kept w w'"
    "get_chunk w' = (get_chunk w)(b \<mapsto> ch\<lparr>packet_type := msg_code t,
       chunk_data := Some (ack_packet t 0 (ucast (packet_id ch)))\<rparr>)"
proof (rule serialize_ack_spec [OF invD(1) [OF assms(1)] assms(2,4-6), of t])
  fix w'
  let ?ch = "ch\<lparr>packet_type := msg_code t, chunk_data := Some (ack_packet t 0 (ucast (packet_id ch)))\<rparr>"
  assume s: "serialize_ack_chunk t b w = Some w'" "queues w' Q" "core w' = core w"
    "get_chunk w' = (get_chunk w)(b \<mapsto> ?ch)"
  have wf: "chunk_wf ?ch"
    using inv_wf [OF assms(1,2)] assms by (intro ack_chunk_wf) (auto simp: chunk_wf_def)
  have "\<not> is_ping ch" using assms(8) by (simp add: is_ping_def)
  from inv_changed [OF assms(1) s(2,3) assms(2) s(4) wf assms(3) _ this] s show thesis
    using that by simp
qed

lemma queue_publish_ack_safe:
  assumes "client_inv w Q" and "get_chunk w b = Some (zero_chunk\<lparr>chunk_data := Some x, chunk_size := 4\<rparr>)"
    and "\<forall>k. b \<notin> set (Q k)" and "length x = 4"
  obtains w' zc where "queue_publish_ack c b w = Some w'" "client_inv w' (Q(WRITE_PENDING := Q WRITE_PENDING @ [b]))"
    "core w' = core w" "kept w w'" "get_chunk w' = (get_chunk w)(b \<mapsto> zc)"
proof -
  let ?z = "zero_chunk\<lparr>chunk_data := Some x, chunk_size := 4\<rparr>" and ?f = "\<lambda>p. p\<lparr>packet_id := packet_id c\<rparr>"
  obtain w2 where w2: "upd_chunk ?f b w = Some w2" "client_inv w2 Q"
    "get_chunk w2 = (get_chunk w)(b \<mapsto> ?f ?z)" "core w2 = core w" "kept w w2"
    by (rule inv_upd_metaE [OF assms(1-3), of ?f]) auto
  have z: "get_chunk w2 b = Some (?f ?z)" using w2(3) by simp
  obtain w3 zc where w3: "(if qos c = 1 then serialize_ack_chunk PUBACK b w2
      else if qos c = 2 then serialize_ack_chunk PUBREC b w2 else Some w2) = Some w3"
    "client_inv w3 Q" "core w3 = core w2" "kept w2 w3" "get_chunk w3 = (get_chunk w2)(b \<mapsto> zc)"
    "\<not> have_owner zc" "retry_count zc = 0"
  proof (cases "qos c = 1 \<or> qos c = 2")
    case True
    define t where "t = (if qos c = 1 then PUBACK else PUBREC)"
    show ?thesis
      by (rule serialize_ack_safe [OF w2(2) z assms(3), of x t])
        (use that True assms(4) in \<open>auto simp: t_def zero_chunk_def\<close>)
  next
    case False
    then show ?thesis using that [of w2 "?f ?z"] w2(2) z by (simp add: zero_chunk_def fun_upd_idem)
  qed
  let ?g = "\<lambda>p. p\<lparr>chunk_state := PACKET_CHUNK_WRITE_PENDING\<rparr>"
  have b3: "get_chunk w3 b = Some zc" using w3(5) by simp
  obtain w4 where w4: "upd_chunk ?g b w3 = Some w4" "client_inv w4 Q"
    "get_chunk w4 = (get_chunk w3)(b \<mapsto> ?g zc)" "core w4 = core w3" "kept w3 w4"
    by (rule inv_upd_metaE [OF w3(2) b3 assms(3), of ?g]) auto
  have b4: "get_chunk w4 b = Some (?g zc)" using w4(3) by simp
  obtain w5 where w5: "iot_mqtt_queue_push WRITE_PENDING b w4 = Some (0, w5)"
    "client_inv w5 (Q(WRITE_PENDING := Q WRITE_PENDING @ [b]))"
    "get_chunk w5 = get_chunk w4" "core w5 = core w4" "kept w4 w5"
    by (rule inv_pushE [OF w4(2) b4 assms(3), of WRITE_PENDING]) (use w3(7) in auto)
  have "core w5 = core w" "kept w w5" using w2(4,5) w3(3,4) w4(4,5) w5(4,5) kept_trans by metis+
  then show thesis
    using that [of w5 "?g zc"] w2(1,3) w3(1,5) w4(1,3) w5 by (simp add: queue_publish_ack_def)
qed

lemma received_publish_safe:
  assumes "client_inv w Q" and "get_chunk w a = Some ch" and "\<forall>k. a \<notin> set (Q k)" and "\<not> have_owner ch"
    and "packet_type ch = msg_code PUBLISH"
  shows "safe_step w (iot_mqtt_process_received_publish a w)"
proof (cases "qos ch = 0")
  case True
  then show ?thesis using deliver_or_drop_safe [OF assms] assms(2)
    by (simp add: iot_mqtt_process_received_publish_def)
next
  case qos: False
  note def = iot_mqtt_process_received_publish_def [of a w]
  show ?thesis
  proof (cases rule: inv_createE [OF assms(1), of MQTT_ACK_PACKET_SIZE])
    case (1 w1)
    have a: "get_chunk w1 a = Some ch" using 1 assms(2) by simp
    obtain w2 where "iot_mqtt_chunk_destroy (Some a) w1 = Some w2" "client_inv w2 Q" "core w2 = core w1" "kept w1 w2"
      by (rule inv_destroyE [OF 1(2) a assms(3)]) (use assms(4) in \<open>auto simp: is_ping_def\<close>)
    moreover from this have "kept w w2" "core w2 = core w" using 1(4,5) kept_trans by metis+
    ultimately show ?thesis using qos assms(2) 1(1) conn_core [of w2 w]
      by (intro safe_stepI [of _ w2 Q]) (simp_all add: def)
  next
    case (2 b w1 x)
    obtain bs where x: "x = Some bs" "length bs = 4" using 2(8) by auto
    have ab: "a \<noteq> b" using 2(4) assms(2) by auto
    have b: "get_chunk w1 b = Some (zero_chunk\<lparr>chunk_data := Some bs, chunk_size := 4\<rparr>)"
      using 2(7) x by simp
    define Q5 where "Q5 = Q(WRITE_PENDING := Q WRITE_PENDING @ [b])"
    obtain w5 zc where w5: "queue_publish_ack ch b w1 = Some w5" "client_inv w5 Q5" "core w5 = core w1"
      "kept w1 w5" "get_chunk w5 = (get_chunk w1)(b \<mapsto> zc)"
      unfolding Q5_def by (rule queue_publish_ack_safe [OF 2(2) b 2(5) x(2)])
    have a5: "get_chunk w5 a = Some ch" using w5(5) 2(7) ab assms(2) by simp
    have out: "\<forall>k. a \<notin> set (Q5 k)" using assms(3) ab by (simp add: Q5_def)
    have "core w5 = core w" "kept w w5" using 2(3,6) w5(3,4) kept_trans by metis+
    with deliver_or_drop_safe [OF w5(2) a5 out assms(4,5)] have "safe_step w (deliver_or_drop a ch w5)"
      by (rule safe_step_core)
    then show ?thesis using qos assms(2) 2(1) w5(1) by (simp add: def)
  qed
qed

section \<open>PUBREC and PUBREL\<close>

text \<open>
  Recycling breaks the invariant of the chunk in between (its data is gone, its type not yet changed),
  so the steps are followed on the queues alone and the invariant is restored at the end.
\<close>

lemma recycle_chunk_safe:
  assumes "client_inv w Q" and "get_chunk w b = Some tc" and "\<forall>k. b \<notin> set (Q k)"
    and type: "packet_type tc = msg_code PUBLISH \<or> packet_type tc = msg_code PUBREC"
    and "retry_count tc < MQTT_PUBLISH_RETRY"
  shows "safe_step w (recycle_chunk b w)"
proof -
  have nping: "\<not> is_ping tc" using type by (auto simp: is_ping_def)
  have wf: "chunk_wf tc" by (rule inv_wf [OF assms(1,2)])
  let ?f = "\<lambda>c. c\<lparr>chunk_data := None, chunk_size := MQTT_ACK_PACKET_SIZE\<rparr>"
  obtain w1 where w1: "upd_chunk ?f b w = Some w1" "queues w1 Q" "get_chunk w1 = (get_chunk w)(b \<mapsto> ?f tc)"
    "core w1 = core w" by (rule upd_chunk_spec [OF invD(1) [OF assms(1)] assms(2), of ?f])
  note def = recycle_chunk_def [of b w]
  show ?thesis
  proof (cases rule: world_malloc_spec [OF w1(2)])
    case (1 w2)
    have b: "get_chunk w2 b = Some (?f tc)" using 1(3) w1(3) by simp
    obtain w3 where w3: "iot_mqtt_chunk_destroy (Some b) w2 = Some w3" "queues w3 Q"
      "get_chunk w3 = (get_chunk w2)(b := None)" "core w3 = core w2"
      by (rule chunk_destroy_spec [OF 1(2) b assms(3)])
    have core: "core w3 = core w" using w3(4) 1(4) w1(4) by simp
    have H: "get_chunk w3 = (get_chunk w)(b := None)" using w3(3) 1(3) w1(3) by (simp add: fun_eq_iff)
    have "chunks_ok (get_chunk w3) Q" using invD(2) [OF assms(1)] H by (auto simp: chunks_ok_def)
    moreover have "ping_ok (w_cli (core w3)) (get_chunk w3)"
      unfolding core by (rule ping_ok_mono [OF invD(3) [OF assms(1)]]) (use nping assms(2) H in auto)
    ultimately have "client_inv w3 Q" using w3(2) by (simp add: client_inv_def)
    moreover have "kept w w3"
      using 1(5) coreD(4,5,9) [OF core] coreD(9) [OF w1(4)] by (auto simp: kept_def)
    ultimately show ?thesis using w1(1) 1(1) w3(1) conn_core [OF core]
      by (intro safe_stepI [of _ w3 Q]) (simp_all add: def)
  next
    case (2 x w2)
    let ?d = "fresh_bytes w2 x MQTT_ACK_PACKET_SIZE"
    let ?g = "\<lambda>c. c\<lparr>chunk_data := Some ?d\<rparr>"
    define t where "t = (if packet_type tc = msg_code PUBLISH then PUBREL else PUBCOMP)"
    have b2: "get_chunk w2 b = Some (?f tc)" using 2(3) w1(3) by simp
    obtain w3 where w3: "upd_chunk ?g b w2 = Some w3" "queues w3 Q"
      "get_chunk w3 = (get_chunk w2)(b \<mapsto> ?g (?f tc))" "core w3 = core w2"
      by (rule upd_chunk_spec [OF 2(2) b2, of ?g])
    have b3: "get_chunk w3 b = Some (?g (?f tc))" using w3(3) by simp
    let ?c4 = "?g (?f tc)\<lparr>packet_type := msg_code t,
      chunk_data := Some (ack_packet t 0 (ucast (packet_id (?g (?f tc)))))\<rparr>"
    obtain w4 where w4: "serialize_ack_chunk t b w3 = Some w4" "queues w4 Q" "core w4 = core w3"
      "get_chunk w4 = (get_chunk w3)(b \<mapsto> ?c4)"
      by (rule serialize_ack_spec [OF w3(2) b3, of ?d t]) (simp_all add: fresh_bytes_def)
    have H: "get_chunk w4 = (get_chunk w)(b \<mapsto> ?c4)" using w4(4) w3(3) 2(3) w1(3) by simp
    have core: "core w4 = core w" using w4(3) w3(4) 2(4) w1(4) by simp
    have "have_owner tc \<longrightarrow> packet_type tc = msg_code PUBLISH"
      using wf type by (auto simp: chunk_wf_def owned_types_def)
    then have "chunk_wf ?c4"
      using wf by (intro ack_chunk_wf) (auto simp: t_def chunk_wf_def owned_types_def)
    note i4 = inv_changed [OF assms(1) w4(2) core assms(2) H this assms(3) _ nping, simplified]
    have b4: "get_chunk w4 b = Some ?c4" using H by simp
    let ?h = "\<lambda>c. c\<lparr>chunk_state := PACKET_CHUNK_WRITE_PENDING\<rparr>"
    obtain w5 where w5: "upd_chunk ?h b w4 = Some w5" "client_inv w5 Q"
      "get_chunk w5 = (get_chunk w4)(b \<mapsto> ?h ?c4)" "core w5 = core w4" "kept w4 w5"
      by (rule inv_upd_metaE [OF i4(1) b4 assms(3), of ?h]) auto
    have b5: "get_chunk w5 b = Some (?h ?c4)" using w5(3) by simp
    obtain w6 where w6: "iot_mqtt_queue_push WRITE_PENDING b w5 = Some (0, w6)"
      "client_inv w6 (Q(WRITE_PENDING := Q WRITE_PENDING @ [b]))" "core w6 = core w5" "kept w5 w6"
      by (rule inv_pushE [OF w5(2) b5 assms(3), of WRITE_PENDING]) (use assms(5) in auto)
    have "core w6 = core w" "kept w w6" using core i4(2) w5(4,5) w6(3,4) kept_trans by metis+
    moreover have "recycle_chunk b w = Some w6"
      using w1(1) 2(1) w3(1) b3 w4(1) w5(1) w6(1) type by (auto simp: def t_def)
    ultimately show ?thesis using w6(2) by (intro safe_stepI [of _ w6] conn_core)
  qed
qed

lemma received_pubrec_pubrel_safe:
  assumes "client_inv w Q" and "get_chunk w a = Some ch" and "\<forall>k. a \<notin> set (Q k)" and "\<not> have_owner ch"
    and "packet_type ch = msg_code PUBREC \<or> packet_type ch = msg_code PUBREL"
  shows "safe_step w (iot_mqtt_process_received_pubrec_pubrel a w)"
proof -
  define t where "t = (if packet_type ch = msg_code PUBREC then msg_code PUBLISH else msg_code PUBREC)"
  let ?T = "\<lambda>c. packet_type c = t \<and> packet_id c = packet_id ch"
  have nping: "\<not> is_ping ch" using assms(4) by (simp add: is_ping_def)
  have def: "iot_mqtt_process_received_pubrec_pubrel a w = do {
      (tmp, w) \<leftarrow> queue_pop_by ?T ACK_PENDING w;
      w \<leftarrow> iot_mqtt_chunk_destroy (Some a) w;
      case tmp of None \<Rightarrow> Some w | Some b \<Rightarrow> recycle_chunk b w }"
    using assms(2,5) by (auto simp: iot_mqtt_process_received_pubrec_pubrel_def
        iot_mqtt_queue_pop_by_type_and_id_def t_def)
  show ?thesis
  proof (cases rule: inv_pop_byE [OF assms(1), of ACK_PENDING ?T])
    case 1
    obtain w1 where "iot_mqtt_chunk_destroy (Some a) w = Some w1" "client_inv w1 Q" "core w1 = core w" "kept w w1"
      by (rule inv_destroyE [OF assms(1-3) nping]) (use assms(4) in auto)
    then show ?thesis using 1(2) by (intro safe_stepI [of _ w1 Q] conn_core) (simp_all add: def)
  next
    case (2 ys b zs w1 tc)
    define Q1 where "Q1 = Q(ACK_PENDING := ys @ zs)"
    note found = 2 [folded Q1_def]
    have ab: "a \<noteq> b" using assms(3) 2(1) by (metis in_set_conv_decomp)
    have out: "\<forall>k. a \<notin> set (Q1 k)" using assms(3) 2(1) by (auto simp: Q1_def dest: spec [of _ ACK_PENDING])
    have a1: "get_chunk w1 a = Some ch" using 2(6) assms(2) by simp
    obtain w2 where w2: "iot_mqtt_chunk_destroy (Some a) w1 = Some w2" "client_inv w2 Q1"
      "get_chunk w2 = (get_chunk w1)(a := None)" "core w2 = core w1" "kept w1 w2"
      by (rule inv_destroyE [OF found(5) a1 out nping]) (use assms(4) in auto)
    have b2: "get_chunk w2 b = Some tc" using w2(3) 2(9) ab by simp
    have "packet_type tc = msg_code PUBLISH \<or> packet_type tc = msg_code PUBREC"
      using 2(3) by (auto simp: t_def split: if_splits)
    moreover have "retry_count tc < MQTT_PUBLISH_RETRY" using 2(10) by simp
    ultimately have "safe_step w2 (recycle_chunk b w2)"
      by (rule recycle_chunk_safe [OF w2(2) b2 found(11)])
    moreover have "core w2 = core w" "kept w w2" using 2(7,8) w2(4,5) kept_trans by metis+
    ultimately have "safe_step w (recycle_chunk b w2)" by (rule safe_step_core)
    then show ?thesis using 2(4) w2(1) by (simp add: def)
  qed
qed

text \<open>The dispatch: a received chunk, fresh, unowned and readable.\<close>

lemma post_read_safe:
  assumes "client_inv w Q" and "get_chunk w a = Some ch" and "\<forall>k. a \<notin> set (Q k)" and "\<not> have_owner ch"
    and "packet_type ch = msg_code CONNACK \<or> packet_type ch = msg_code SUBACK \<Longrightarrow>
      ack_return_code P ch 0 \<noteq> None"
  shows "safe_step w (iot_mqtt_process_post_read P a w)"
proof -
  have "ack_return_code P ch old \<noteq> None" for old
    using assms(5) by (cases "packet_type ch = msg_code CONNACK \<or> packet_type ch = msg_code SUBACK")
      (auto simp: ack_return_code_def)
  note ack = received_ack_safe [OF assms(1-4) this]
  note pub = received_publish_safe [OF assms(1-4)]
  note rec = received_pubrec_pubrel_safe [OF assms(1-4)]
  have nping: "\<not> is_ping ch" using assms(4) by (simp add: is_ping_def)
  obtain w1 where "iot_mqtt_chunk_destroy (Some a) w = Some w1" "client_inv w1 Q" "core w1 = core w" "kept w w1"
    by (rule inv_destroyE [OF assms(1-3) nping]) (use assms(4) in auto)
  then have drop: "safe_step w (iot_mqtt_chunk_destroy (Some a) w)"
    by (intro safe_stepI [of _ w1 Q] conn_core)
  show ?thesis
    unfolding iot_mqtt_process_post_read_def assms(2)
    using ack pub rec drop by simp
qed

section \<open>The read stream\<close>

lemma read_finish_safe:
  assumes "client_inv w Q" and "rd > 0 \<Longrightarrow> conn w"
  shows "safe_stream w (read_finish P rd w)"
proof (cases "rd > 0")
  case True
  from restart_last_received_safe [OF assms(1) assms(2) [OF True], of P] obtain w1 Q1 where
    "restart_last_received P w = Some w1" "client_inv w1 Q1" "kept w w1" "conn w1 = conn w"
    unfolding safe_step_def by blast
  then show ?thesis using True by (intro safe_streamI [of _ rd w1 Q1]) (simp_all add: read_finish_def)
next
  case False
  obtain w1 Q1 where d: "disconnected_event P MQTT_DISCONNECTED_NETWORK_ERROR w = Some w1"
    "client_inv w1 Q1" "kept w w1" by (rule disconnected_event_safe [OF assms(1)])
  show ?thesis
  proof (cases "rd = E_ST_MQTT_NETWORK_ERROR")
    case True
    then show ?thesis using d by (intro safe_streamI [of _ rd w1 Q1]) (simp_all add: read_finish_def)
  next
    case ne: False
    then show ?thesis using False assms(1) by (intro safe_streamI [of _ rd w Q]) (simp_all add: read_finish_def)
  qed
qed

lemma safe_stream_from:
  assumes "safe_stream w1 r" and "kept w w1" and "conn w1 = conn w"
  shows "safe_stream w r"
  using assms kept_trans unfolding safe_stream_def by metis

lemma received_chunk:
  fixes q :: int and i :: u32
  assumes "wire_ok P d" and "read_byte d 0 = Some b" and "chunk_size c = length d"
    and "retry_count c = 0" and "\<not> have_owner c"
  defines "c' \<equiv> c\<lparr>chunk_data := Some d, chunk_state := PACKET_CHUNK_READ_COMPLETED,
    packet_type := header_type b, qos := q, packet_id := i\<rparr>"
  shows "chunk_wf c'" and "packet_type c' = msg_code CONNACK \<or> packet_type c' = msg_code SUBACK \<Longrightarrow>
      ack_return_code P c' 0 \<noteq> None"
  using assms by (auto simp: chunk_wf_def wire_ok_def ack_return_code_def split: prod.splits)

text \<open>After the whole packet arrived in the chunk \<open>a\<close>.\<close>

lemma read_complete_safe:
  assumes "client_inv w Q" and "conn w" and "get_chunk w a = Some c" and "\<forall>k. a \<notin> set (Q k)"
    and "c = zero_chunk\<lparr>chunk_data := Some d, chunk_size := length d\<rparr>" and "wire_ok P d" and "0 < length d"
  shows "\<exists>pid b0. read_byte d 0 = Some b0 \<and> MQTTPacket_getPacketId (load_first P) d = Some pid \<and>
    safe_stream w (do {
      w \<leftarrow> upd_chunk (\<lambda>c. c\<lparr>chunk_state := PACKET_CHUNK_READ_COMPLETED,
             packet_type := uint (drop_bit 4 (b0 AND 0xf0)), qos := uint (drop_bit 1 (b0 AND 0x06)),
             packet_id := of_nat pid\<rparr>) a w;
      w \<leftarrow> iot_mqtt_process_post_read P a w;
      read_finish P (int (length d)) w })"
proof -
  obtain pid where pid: "MQTTPacket_getPacketId (load_first P) d = Some pid" using assms(6) by (auto simp: wire_ok_def)
  obtain b0 where b0: "read_byte d 0 = Some b0" using assms(7) by (simp add: read_byte_def)
  let ?f = "\<lambda>c. c\<lparr>chunk_state := PACKET_CHUNK_READ_COMPLETED, packet_type := header_type b0,
     qos := header_qos b0, packet_id := of_nat pid\<rparr>"
  have c: "chunk_size c = length d" "retry_count c = 0" "\<not> have_owner c" "chunk_data c = Some d"
    using assms(5) by (simp_all add: zero_chunk_def)
  note rc = received_chunk [OF assms(6) b0 c(1-3), where q = "header_qos b0" and i = "of_nat pid"]
  have fc: "?f c = c\<lparr>chunk_data := Some d, chunk_state := PACKET_CHUNK_READ_COMPLETED,
    packet_type := header_type b0, qos := header_qos b0, packet_id := of_nat pid\<rparr>"
    using c(4) by simp
  obtain w1 where w1: "upd_chunk ?f a w = Some w1" "client_inv w1 Q" "get_chunk w1 = (get_chunk w)(a \<mapsto> ?f c)"
    "core w1 = core w" "kept w w1"
    by (rule inv_updE [OF assms(1,3), of ?f]) (use rc(1) fc assms(4) c(3) in \<open>auto simp: is_ping_def\<close>)
  have a1: "get_chunk w1 a = Some (?f c)" using w1(3) by simp
  from post_read_safe [OF w1(2) a1 assms(4), of P] rc(2) fc c(3) obtain w2 Q2 where
    w2: "iot_mqtt_process_post_read P a w1 = Some w2" "client_inv w2 Q2" "kept w1 w2" "conn w2 = conn w1"
    by (auto simp: safe_step_def)
  have conn: "conn w2" "conn w2 = conn w" using w2(4) conn_core [OF w1(4)] assms(2) by simp_all
  have "safe_stream w2 (read_finish P (int (length d)) w2)" by (rule read_finish_safe [OF w2(2)]) (rule conn(1))
  then have "safe_stream w (read_finish P (int (length d)) w2)"
    by (rule safe_stream_from) (use kept_trans [OF w1(5) w2(3)] conn in auto)
  then show ?thesis using pid b0 w1(1) w2(1) unfolding mask_type mask_qos by simp
qed

lemma read_packet_body_safe:
  assumes "client_inv w Q" and "conn w" and "read_progress P" and "broker_ok P"
    and hdr: "read_fixed_header P n0 = Some (Inr (hdr, rd, rem), w_net w)" "length hdr = 5" "1 < rd" "rd \<le> 5"
    and poll: "port_net_read_poll P n' 0 = (prc, n0)" "prc > 0"
  shows "safe_stream w (read_packet_body P hdr rd rem w)"
proof (cases rule: inv_createE [OF assms(1), of "rd + rem"])
  case (1 w1)
  have "safe_stream w1 (read_finish P E_ST_MQTT_BUFFER_OVERFLOW w1)" by (rule read_finish_safe [OF 1(2)]) simp
  then have "safe_stream w (read_finish P E_ST_MQTT_BUFFER_OVERFLOW w1)"
    by (rule safe_stream_from) (use 1 conn_core in auto)
  then show ?thesis using 1(1) by (simp add: read_packet_body_def)
next
  case (2 a w1 y)
  obtain x where x: "y = Some x" "length x = rd + rem" using 2(8) hdr(3) by auto
  let ?z = "zero_chunk\<lparr>chunk_data := y, chunk_size := rd + rem\<rparr>"
  have a1: "get_chunk w1 a = Some ?z" using 2(7) by simp
  obtain x1 where x1: "write_bytes (take rd hdr) (x, 0) = Some (x1, rd)" "length x1 = rd + rem"
      "take rd x1 = take rd hdr"
    using x(2) hdr(2,4) by (simp add: write_bytes_def min_def)
  obtain got d n where d: "read_body_loop P x1 (rd + rem) rd (w_net w1) = Some (got, d, n)"
      "length d = rd + rem" "got = rd + rem \<or> got = rd"
    by (rule read_body_loop_ends [OF assms(3) x1(2), of rd]) simp
  let ?w1 = "w1\<lparr>w_net := n\<rparr>" and ?f = "\<lambda>c. c\<lparr>chunk_data := Some d\<rparr>"
  have i1: "client_inv ?w1 Q" "get_chunk ?w1 a = Some ?z" "conn ?w1 = conn w" "kept w ?w1"
    using 2(2,6) a1 conn_core [OF 2(3)] by simp_all
  have wf: "chunk_wf (?f ?z)" using d(2) by (simp add: chunk_wf_def zero_chunk_def)
  obtain w2 where w2: "upd_chunk ?f a ?w1 = Some w2" "client_inv w2 Q" "get_chunk w2 = (get_chunk ?w1)(a \<mapsto> ?f ?z)"
    "core w2 = core ?w1" "kept ?w1 w2"
    by (rule inv_updE [OF i1(1,2), of ?f]) (use wf 2(5) in \<open>auto simp: is_ping_def zero_chunk_def\<close>)
  have a2: "get_chunk w2 a = Some (?f ?z)" using w2(3) by simp
  have k2: "kept w w2" "conn w2 = conn w" using kept_trans [OF i1(4) w2(5)] conn_core [OF w2(4)] i1(3) by simp_all
  have def: "read_packet_body P hdr rd rem w = (if got = rd + rem
      then do {
        b0 \<leftarrow> read_byte d 0;
        pid \<leftarrow> MQTTPacket_getPacketId (load_first P) d;
        w \<leftarrow> upd_chunk (\<lambda>c. c\<lparr>chunk_state := PACKET_CHUNK_READ_COMPLETED,
               packet_type := uint (drop_bit 4 (b0 AND 0xf0)), qos := uint (drop_bit 1 (b0 AND 0x06)),
               packet_id := of_nat pid\<rparr>) a w2;
        w \<leftarrow> iot_mqtt_process_post_read P a w;
        read_finish P (int got) w }
      else do { w \<leftarrow> iot_mqtt_chunk_destroy (Some a) w2; read_finish P E_ST_MQTT_NETWORK_ERROR w })"
    using 2(1) a1 x x1(1) d(1) w2(1) by (simp add: read_packet_body_def zero_chunk_def)
  show ?thesis
  proof (cases "got = rd + rem")
    case True
    have net: "w_net w1 = w_net w" using coreD(1) [OF 2(3)] .
    have "wire_ok P d"
      using assms(4) poll hdr(1) x1(2,3) d(1) unfolding True net broker_ok_def by blast
    then have "\<exists>pid b0. read_byte d 0 = Some b0 \<and> MQTTPacket_getPacketId (load_first P) d = Some pid \<and>
      safe_stream w2 (do {
        w \<leftarrow> upd_chunk (\<lambda>c. c\<lparr>chunk_state := PACKET_CHUNK_READ_COMPLETED,
               packet_type := uint (drop_bit 4 (b0 AND 0xf0)), qos := uint (drop_bit 1 (b0 AND 0x06)),
               packet_id := of_nat pid\<rparr>) a w2;
        w \<leftarrow> iot_mqtt_process_post_read P a w;
        read_finish P (int (length d)) w })"
      by (intro read_complete_safe [OF w2(2) _ a2 2(5)]) (use k2 assms(2) d(2) hdr(3) in auto)
    then show ?thesis using safe_stream_from [OF _ k2] True d(2) by (auto simp: def)
  next
    case False
    have "\<not> have_owner (?f ?z)" by (simp add: zero_chunk_def)
    moreover from this have "\<not> is_ping (?f ?z)" by (simp add: is_ping_def)
    ultimately obtain w3 where w3: "iot_mqtt_chunk_destroy (Some a) w2 = Some w3" "client_inv w3 Q"
      "core w3 = core w2" "kept w2 w3"
      using inv_destroyE [OF w2(2) a2 2(5)] by metis
    have "safe_stream w3 (read_finish P E_ST_MQTT_NETWORK_ERROR w3)" by (rule read_finish_safe [OF w3(2)]) simp
    then have "safe_stream w (read_finish P E_ST_MQTT_NETWORK_ERROR w3)"
      by (rule safe_stream_from) (use kept_trans [OF k2(1) w3(4)] k2(2) conn_core [OF w3(3)] in auto)
    then show ?thesis using False w3(1) by (simp add: def)
  qed
qed

theorem run_read_stream_safe:
  assumes "client_inv w Q" and "read_progress P" and "broker_ok P"
  shows "safe_stream w (iot_mqtt_run_read_stream P w)"
    and "\<exists>rc w'. iot_mqtt_run_read_stream P w = Some (rc, w') \<and> (rc \<ge> 0 \<longrightarrow> conn w')"
proof -
  obtain c where c: "w_cli w = Some c" "magic c = MQTT_CLIENT_STRUCT_MAGIC_NUMBER" "read_lock c"
    using assms(1) by (rule inv_client)
  have fin: "safe_stream w (read_finish P rd (w\<lparr>w_net := n\<rparr>))" if "rd \<le> 0" for rd n
    by (rule safe_stream_from [OF read_finish_safe [of "w\<lparr>w_net := n\<rparr>" Q]]) (use assms(1) that in auto)
  have all: "safe_stream w (iot_mqtt_run_read_stream P w)"
  proof (cases "isconnected c")
    case False
    then show ?thesis using c fin [of "-2" "w_net w"] by (simp add: iot_mqtt_run_read_stream_def)
  next
    case True
    obtain rc n where poll: "port_net_read_poll P (w_net w) 0 = (rc, n)" by fastforce
    show ?thesis
    proof (cases "rc > 0")
      case False
      then have "rc < 0 \<or> rc = 0" by auto
      then show ?thesis using c True poll fin [of "-9" n] fin [of 0 n]
        by (auto simp: iot_mqtt_run_read_stream_def)
    next
      case rc: True
      show ?thesis
      proof (cases rule: read_fixed_header_ends [OF assms(2), of n])
        case (1 n1)
        then show ?thesis using c True poll rc fin [of "-9" n1] by (simp add: iot_mqtt_run_read_stream_def)
      next
        case (2 hdr rd rem n1)
        have "safe_stream (w\<lparr>w_net := n1\<rparr>) (read_packet_body P hdr rd rem (w\<lparr>w_net := n1\<rparr>))"
          by (rule read_packet_body_safe [OF _ _ assms(2,3), of _ _ n])
            (use 2 assms(1) c True poll rc in \<open>auto simp: conn_def\<close>)
        then have "safe_stream w (read_packet_body P hdr rd rem (w\<lparr>w_net := n1\<rparr>))"
          by (rule safe_stream_from) simp_all
        then show ?thesis using c True poll rc 2(1) by (simp add: iot_mqtt_run_read_stream_def)
      qed
    qed
  qed
  show "safe_stream w (iot_mqtt_run_read_stream P w)" by (rule all)
  show "\<exists>rc w'. iot_mqtt_run_read_stream P w = Some (rc, w') \<and> (rc \<ge> 0 \<longrightarrow> conn w')"
  proof (cases "isconnected c")
    case True
    then show ?thesis using all c by (auto simp: safe_stream_def conn_def)
  next
    case False
    then show ?thesis using c by (simp add: iot_mqtt_run_read_stream_def read_finish_def)
  qed
qed

end
