(* ===== verification/Mqtt_Work.thy ===== *)
theory Mqtt_Work
  imports Mqtt_Receive
begin

text \<open>
  The rest of the work cycle: retransmission, keep alive, user callbacks, and the cycle itself. Both
  loops over a queue end because each round takes one chunk out of the queue and puts none back in.
\<close>

section \<open>Retransmission\<close>

text \<open>
  What the retransmission does, on the lists of queued chunks: an expired packet goes back to the write
  queue with its retry counter increased, as long as it is not a CONNECT and has retries left; otherwise
  it has timed out, and goes to the callback queue unless an owner waits for it.
\<close>

definition retried :: "chunk \<Rightarrow> bool" where
  "retried c \<longleftrightarrow> packet_type c \<noteq> msg_code CONNECT \<and> retry_count c + 1 < MQTT_PUBLISH_RETRY"

definition expire_chunk :: "chunk \<Rightarrow> chunk" where
  "expire_chunk c =
     (if packet_type c = msg_code CONNECT then c\<lparr>chunk_state := PACKET_CHUNK_TIMEOUT\<rparr>
      else c\<lparr>retry_count := retry_count c + 1,
             chunk_state := if retried c then PACKET_CHUNK_WRITE_PENDING else PACKET_CHUNK_TIMEOUT\<rparr>)"

definition expire_to :: "nat \<Rightarrow> chunk \<Rightarrow> (queue_name \<Rightarrow> nat list) \<Rightarrow> queue_name \<Rightarrow> nat list" where
  "expire_to a c Q = (if retried c then Q(WRITE_PENDING := Q WRITE_PENDING @ [a])
     else if have_owner c then Q else Q(USER_EVENT := Q USER_EVENT @ [a]))"

lemma time_out_safe:
  assumes "client_inv w Q" and "get_chunk w a = Some ch" and "\<forall>k. a \<notin> set (Q k)"
  obtains w' where "(do {
       w \<leftarrow> upd_chunk (\<lambda>c. c\<lparr>chunk_state := PACKET_CHUNK_TIMEOUT\<rparr>) a w;
       if have_owner ch then Some w
       else do { (_, w) \<leftarrow> iot_mqtt_queue_push USER_EVENT a w; Some w } }) = Some w'"
    "client_inv w' (if have_owner ch then Q else Q(USER_EVENT := Q USER_EVENT @ [a]))" "kept w w'" "core w' = core w"
    "get_chunk w' = (get_chunk w)(a \<mapsto> ch\<lparr>chunk_state := PACKET_CHUNK_TIMEOUT\<rparr>)"
proof -
  let ?f = "\<lambda>c. c\<lparr>chunk_state := PACKET_CHUNK_TIMEOUT\<rparr>"
  obtain w1 where w1: "upd_chunk ?f a w = Some w1" "client_inv w1 Q" "get_chunk w1 = (get_chunk w)(a \<mapsto> ?f ch)"
    "core w1 = core w" "kept w w1" by (rule inv_upd_metaE [OF assms, of ?f]) auto
  have a1: "get_chunk w1 a = Some (?f ch)" using w1(3) by simp
  show thesis
  proof (cases "have_owner ch")
    case True
    then show ?thesis using that [of w1] w1 by simp
  next
    case False
    with a1 obtain w2 where w2: "iot_mqtt_queue_push USER_EVENT a w1 = Some (0, w2)"
      "client_inv w2 (Q(USER_EVENT := Q USER_EVENT @ [a]))" "get_chunk w2 = get_chunk w1" "core w2 = core w1" "kept w1 w2"
      by (elim inv_pushE [OF w1(2) _ assms(3)]) auto
    then show ?thesis using that [of w2] False w1 kept_trans [OF w1(5) w2(5)] by simp
  qed
qed

lemma process_expired_safe:
  assumes "client_inv w Q" and "get_chunk w a = Some ch" and "\<forall>k. a \<notin> set (Q k)"
    and "retry_count ch < MQTT_PUBLISH_RETRY"
  obtains w' where "process_expired a w = Some w'" "client_inv w' (expire_to a ch Q)"
    "get_chunk w' = (get_chunk w)(a \<mapsto> expire_chunk ch)" "kept w w'" "core w' = core w"
proof (cases "packet_type ch = msg_code CONNECT")
  case True
  then have "expire_to a ch Q = (if have_owner ch then Q else Q(USER_EVENT := Q USER_EVENT @ [a]))"
    "expire_chunk ch = ch\<lparr>chunk_state := PACKET_CHUNK_TIMEOUT\<rparr>" by (simp_all add: expire_to_def retried_def expire_chunk_def)
  then show ?thesis using that True assms(2)
    by (cases rule: time_out_safe [OF assms(1-3)]) (simp add: process_expired_def)
next
  case False
  let ?f = "\<lambda>c. c\<lparr>retry_count := retry_count c + 1\<rparr>"
  have wf: "chunk_wf (?f ch)"
    using inv_wf [OF assms(1,2)] assms(4) by (auto simp: chunk_wf_def split: option.splits)
  obtain w1 where w1: "upd_chunk ?f a w = Some w1" "client_inv w1 Q" "get_chunk w1 = (get_chunk w)(a \<mapsto> ?f ch)"
    "core w1 = core w" "kept w w1"
    by (rule inv_updE [OF assms(1,2), of ?f]) (use wf assms(3) in \<open>auto simp: is_ping_def\<close>)
  have a1: "get_chunk w1 a = Some (?f ch)" using w1(3) by simp
  show ?thesis
  proof (cases "retry_count ch + 1 < MQTT_PUBLISH_RETRY")
    case True
    let ?g = "\<lambda>c. c\<lparr>chunk_state := PACKET_CHUNK_WRITE_PENDING\<rparr>"
    obtain w2 where w2: "upd_chunk ?g a w1 = Some w2" "client_inv w2 Q"
      "get_chunk w2 = (get_chunk w1)(a \<mapsto> ?g (?f ch))" "core w2 = core w1" "kept w1 w2"
      by (rule inv_upd_metaE [OF w1(2) a1 assms(3), of ?g]) auto
    have a2: "get_chunk w2 a = Some (?g (?f ch))" using w2(3) by simp
    obtain w3 where w3: "iot_mqtt_queue_push WRITE_PENDING a w2 = Some (0, w3)"
      "client_inv w3 (Q(WRITE_PENDING := Q WRITE_PENDING @ [a]))" "get_chunk w3 = get_chunk w2" "core w3 = core w2" "kept w2 w3"
      by (rule inv_pushE [OF w2(2) a2 assms(3), of WRITE_PENDING]) (use True in auto)
    have "kept w w3" "core w3 = core w" using w1(4,5) w2(4,5) w3(4,5) kept_trans by metis+
    moreover have "expire_to a ch Q = Q(WRITE_PENDING := Q WRITE_PENDING @ [a])" "expire_chunk ch = ?g (?f ch)"
      using True False by (simp_all add: expire_to_def retried_def expire_chunk_def)
    ultimately show ?thesis using that [of w3] False True assms(2) w1 w2 w3 by (simp add: process_expired_def)
  next
    case last: False
    obtain w' where to: "(do {
         w \<leftarrow> upd_chunk (\<lambda>c. c\<lparr>chunk_state := PACKET_CHUNK_TIMEOUT\<rparr>) a w1;
         if have_owner (?f ch) then Some w
         else do { (_, w) \<leftarrow> iot_mqtt_queue_push USER_EVENT a w; Some w } }) = Some w'"
      "client_inv w' (if have_owner (?f ch) then Q else Q(USER_EVENT := Q USER_EVENT @ [a]))" "kept w1 w'" "core w' = core w1"
      "get_chunk w' = (get_chunk w1)(a \<mapsto> (?f ch)\<lparr>chunk_state := PACKET_CHUNK_TIMEOUT\<rparr>)"
      by (rule time_out_safe [OF w1(2) a1 assms(3)])
    have "kept w w'" "core w' = core w" using w1(4,5) to(3,4) kept_trans by metis+
    moreover have "expire_to a ch Q = (if have_owner ch then Q else Q(USER_EVENT := Q USER_EVENT @ [a]))"
      "expire_chunk ch = (?f ch)\<lparr>chunk_state := PACKET_CHUNK_TIMEOUT\<rparr>"
      using last False by (simp_all add: expire_to_def retried_def expire_chunk_def)
    ultimately show ?thesis using that [of w'] False last assms(2) w1 to by (simp add: process_expired_def)
  qed
qed

text \<open>The expired packets of a list, and what becomes of the queues once all have been taken out.\<close>

definition late :: "'n port \<Rightarrow> 'n \<Rightarrow> chunk \<Rightarrow> bool" where
  "late P n c \<longleftrightarrow> (case expiry_time c of None \<Rightarrow> False | Some t \<Rightarrow> \<not> iot_os_timer_is_active (os_time P n) t)"

definition expire_all :: "(nat \<rightharpoonup> chunk) \<Rightarrow> (chunk \<Rightarrow> bool) \<Rightarrow> (queue_name \<Rightarrow> nat list) \<Rightarrow> queue_name \<Rightarrow> nat list" where
  "expire_all H T Q =
     Q(ACK_PENDING := filter (Not \<circ> marked H T) (Q ACK_PENDING),
       WRITE_PENDING := Q WRITE_PENDING @ filter (marked H (\<lambda>c. T c \<and> retried c)) (Q ACK_PENDING),
       USER_EVENT := Q USER_EVENT @ filter (marked H (\<lambda>c. T c \<and> \<not> retried c \<and> \<not> have_owner c)) (Q ACK_PENDING))"

lemma filter_marked_upd [simp]:
  assumes "a \<notin> set xs"
  shows "filter (marked (H(a \<mapsto> x)) R) xs = filter (marked H R) xs"
    "filter (Not \<circ> marked (H(a \<mapsto> x)) R) xs = filter (Not \<circ> marked H R) xs"
  by (rule filter_cong [OF refl], use assms in \<open>auto simp: marked_def\<close>)+

lemma filter_unmarked:
  assumes "\<forall>a\<in>set xs. \<forall>c. H a = Some c \<longrightarrow> \<not> T c"
  shows "filter (marked H (\<lambda>c. T c \<and> R c)) xs = []" "filter (Not \<circ> marked H T) xs = xs"
  using assms by (auto simp: marked_def filter_empty_conv filter_id_conv split: option.splits)

lemma expire_all_none:
  assumes "\<forall>a\<in>set (Q ACK_PENDING). \<forall>c. H a = Some c \<longrightarrow> \<not> T c"
  shows "expire_all H T Q = Q"
  by (simp add: expire_all_def filter_unmarked [OF assms])

lemma expire_all_step:
  assumes "Q ACK_PENDING = ys @ a # zs" and "\<forall>b\<in>set ys. \<forall>c. H b = Some c \<longrightarrow> \<not> T c"
    and "H a = Some ch" and "T ch" and "a \<notin> set (ys @ zs)"
  shows "expire_all (H(a \<mapsto> x)) T (expire_to a ch (Q(ACK_PENDING := ys @ zs))) = expire_all H T Q"
proof (rule ext)
  fix k
  have a: "marked H R a = R ch" for R using assms(3) by (simp add: marked_def)
  show "expire_all (H(a \<mapsto> x)) T (expire_to a ch (Q(ACK_PENDING := ys @ zs))) k = expire_all H T Q k"
    using assms(1,4,5) by (cases k) (simp_all add: expire_all_def expire_to_def a filter_unmarked [OF assms(2)])
qed

theorem process_pending_safe:
  assumes "client_inv w Q"
  shows "\<exists>w'. iot_mqtt_process_pending_packets P w = Some w' \<and> kept w w' \<and> core w' = core w
    \<and> client_inv w' (expire_all (get_chunk w) (late P (w_net w)) Q)
    \<and> get_chunk w' = (\<lambda>a. if a \<in> set (Q ACK_PENDING) then map_option (\<lambda>c. if late P (w_net w) c then expire_chunk c else c) (get_chunk w a)
        else get_chunk w a)"
  using assms
proof (induction "length (Q ACK_PENDING)" arbitrary: w Q rule: less_induct)
  case less
  obtain c where c: "w_cli w = Some c" "magic c = MQTT_CLIENT_STRUCT_MAGIC_NUMBER"
    using less.prems by (rule inv_client)
  let ?T = "late P (w_net w)"
  have expiry: "iot_mqtt_queue_pop_by_expiry P k w = queue_pop_by ?T k w" for k
    by (simp add: iot_mqtt_queue_pop_by_expiry_def late_def [abs_def])
  note def = iot_mqtt_process_pending_packets.simps [of P w] expiry
  show ?case
  proof (cases rule: inv_pop_byE [OF less.prems, of ACK_PENDING ?T])
    case 1
    have "map_option (\<lambda>c. if ?T c then expire_chunk c else c) (get_chunk w a) = get_chunk w a" if "a \<in> set (Q ACK_PENDING)" for a
      using 1(1) that by (cases "get_chunk w a") auto
    then have "get_chunk w = (\<lambda>a. if a \<in> set (Q ACK_PENDING)
        then map_option (\<lambda>c. if ?T c then expire_chunk c else c) (get_chunk w a) else get_chunk w a)" by (simp add: fun_eq_iff)
    then show ?thesis using c less.prems 1(2) expire_all_none [of Q "get_chunk w" ?T] 1(1)
      by (intro exI [of _ w]) (simp add: def)
  next
    case (2 ys a zs w1 ch)
    define Q1 where "Q1 = Q(ACK_PENDING := ys @ zs)"
    note found = 2 [folded Q1_def]
    have "retry_count ch < MQTT_PUBLISH_RETRY" using 2(10) by simp
    then obtain w2 where w2: "process_expired a w1 = Some w2" "client_inv w2 (expire_to a ch Q1)"
      "get_chunk w2 = (get_chunk w1)(a \<mapsto> expire_chunk ch)" "kept w1 w2" "core w2 = core w1"
      by (rule process_expired_safe [OF found(5,9,11)])
    have net: "w_net w2 = w_net w" using coreD(1) [OF w2(5)] coreD(1) [OF 2(7)] by simp
    have ack: "expire_to a ch Q1 ACK_PENDING = ys @ zs" by (simp add: expire_to_def Q1_def)
    then have "length (expire_to a ch Q1 ACK_PENDING) < length (Q ACK_PENDING)" using 2(1) by simp
    from less.hyps [OF this w2(2)] obtain w3 where w3:
      "iot_mqtt_process_pending_packets P w2 = Some w3" "kept w2 w3" "core w3 = core w2"
      "client_inv w3 (expire_all (get_chunk w2) ?T (expire_to a ch Q1))"
      "get_chunk w3 = (\<lambda>b. if b \<in> set (ys @ zs) then map_option (\<lambda>c. if ?T c then expire_chunk c else c) (get_chunk w2 b)
         else get_chunk w2 b)" unfolding net ack by blast
    have out: "a \<notin> set (ys @ zs)" using 2(11) by (metis fun_upd_same)
    have H: "get_chunk w a = Some ch" using 2(6,9) by simp
    have "expire_all (get_chunk w2) ?T (expire_to a ch Q1) = expire_all (get_chunk w) ?T Q"
      unfolding w2(3) 2(6) Q1_def using 2(1,2) H 2(3) out by (rule expire_all_step)
    moreover have "get_chunk w3 = (\<lambda>b. if b \<in> set (Q ACK_PENDING)
        then map_option (\<lambda>c. if ?T c then expire_chunk c else c) (get_chunk w b) else get_chunk w b)"
      using 2(1,3) out H by (auto simp: w3(5) w2(3) 2(6) fun_eq_iff)
    moreover have "kept w w3" "core w3 = core w" using 2(7,8) w2(4,5) w3(2,3) kept_trans by metis+
    ultimately show ?thesis using c 2(4) w2(1) w3(1,4) by (intro exI [of _ w3]) (simp add: def)
  qed
qed

section \<open>User callbacks\<close>

text \<open>What the user is told about a chunk of the callback queue.\<close>

definition chunk_events :: "'n port \<Rightarrow> chunk \<Rightarrow> st_mqtt_event list" where
  "chunk_events P c =
     (let msg = publish_msg_of (snd (the (MQTTDeserialize_publish (locals P) (the (chunk_data c)))))
      in if chunk_state c = EVENT_CHUNK_DISCONNECTED then [ST_MQTT_EVENT_DISCONNECTED (return_code c)]
         else if packet_type c \<noteq> msg_code PUBLISH then []
         else if chunk_state c = PACKET_CHUNK_READ_COMPLETED then [ST_MQTT_EVENT_MSG_DELIVERED msg]
         else if chunk_state c = PACKET_CHUNK_WRITE_FAIL then [ST_MQTT_EVENT_PUBLISH_FAILED msg]
         else if chunk_state c = PACKET_CHUNK_TIMEOUT then [ST_MQTT_EVENT_PUBLISH_TIMEOUT msg]
         else [])"

lemma user_callback_event_ok:
  assumes "chunk_wf c"
  shows "user_callback_event P c w = Some (w\<lparr>w_events := w_events w @ chunk_events P c\<rparr>)"
proof (cases "packet_type c = msg_code PUBLISH")
  case True
  then obtain d where d: "chunk_data c = Some d" "MQTTDeserialize_publish (locals P) d \<noteq> None"
    using assms by (auto simp: chunk_wf_def deliverable_def)
  then obtain rc out where "MQTTDeserialize_publish (locals P) d = Some (rc, out)" by auto
  with d(1) True show ?thesis
    by (simp add: user_callback_event_def chunk_events_def iot_mqtt_notify_publish_failed_def
        iot_mqtt_deliver_publish_def split: packet_chunk_state.split)
next
  case False
  then show ?thesis by (simp add: user_callback_event_def chunk_events_def split: packet_chunk_state.split)
qed

theorem process_user_callback_safe:
  assumes "client_inv w Q"
  shows "\<exists>w'. iot_mqtt_process_user_callback P w = Some w' \<and> client_inv w' (Q(USER_EVENT := []))
    \<and> w_events w' = w_events w @ concat (map (\<lambda>a. chunk_events P (the (get_chunk w a))) (Q USER_EVENT))
    \<and> kept w w' \<and> conn w' = conn w"
  using assms
proof (induction "length (Q USER_EVENT)" arbitrary: w Q rule: less_induct)
  case less
  obtain c where c: "w_cli w = Some c" "magic c = MQTT_CLIENT_STRUCT_MAGIC_NUMBER"
    using less.prems by (rule inv_client)
  note def = iot_mqtt_process_user_callback.simps [of P w]
  show ?case
  proof (cases rule: inv_popE [OF less.prems, of USER_EVENT])
    case 1
    then have "Q(USER_EVENT := []) = Q" by (simp add: fun_upd_idem)
    then show ?thesis using c less.prems 1 by (intro exI [of _ w]) (simp add: def)
  next
    case (2 a as w1 ch)
    define Q1 where "Q1 = Q(USER_EVENT := as)"
    note popped = 2 [folded Q1_def]
    note es = user_callback_event_ok [OF inv_wf [OF 2(3,7)], of P w1]
    let ?w1 = "w1\<lparr>w_events := w_events w1 @ chunk_events P ch\<rparr>"
    have i1: "client_inv ?w1 Q1" "get_chunk ?w1 a = Some ch" using popped by simp_all
    have "\<not> have_owner ch" "\<not> is_ping ch" using 2(8) by (simp_all add: is_ping_def)
    then obtain w2 where w2: "iot_mqtt_chunk_destroy (Some a) ?w1 = Some w2" "client_inv w2 Q1"
      "get_chunk w2 = (get_chunk ?w1)(a := None)" "core w2 = core ?w1" "kept ?w1 w2"
      using inv_destroyE [OF i1 popped(9)] by metis
    have as: "Q1 USER_EVENT = as" "Q1(USER_EVENT := []) = Q(USER_EVENT := [])" by (simp_all add: Q1_def)
    then have "length (Q1 USER_EVENT) < length (Q USER_EVENT)" using 2(1) by simp
    from less.hyps [OF this w2(2)] obtain w3 where w3: "iot_mqtt_process_user_callback P w2 = Some w3"
      "client_inv w3 (Q(USER_EVENT := []))" "kept w2 w3" "conn w3 = conn w2"
      "w_events w3 = w_events w2 @ concat (map (\<lambda>a. chunk_events P (the (get_chunk w2 a))) as)" unfolding as by blast
    have "a \<notin> set as" using 2(9) by (metis fun_upd_same)
    then have "map (\<lambda>a. chunk_events P (the (get_chunk w2 a))) as = map (\<lambda>a. chunk_events P (the (get_chunk w a))) as"
      using w2(3) 2(4) by (intro map_cong) auto
    moreover have "w_events w2 = w_events w @ chunk_events P ch" using coreD(2) [OF w2(4)] coreD(2) [OF 2(5)] by simp
    ultimately have ev: "w_events w3 = w_events w @ concat (map (\<lambda>a. chunk_events P (the (get_chunk w a))) (Q USER_EVENT))"
      unfolding w3(5) using 2(1,4,7) by (simp only: list.map concat.simps) simp
    have "kept w ?w1" "conn ?w1 = conn w" using 2(5,6) conn_core by auto
    then have "kept w w3" "conn w3 = conn w"
      using w2(5) w3(3,4) conn_core [OF w2(4)] kept_trans by metis+
    then show ?thesis using c 2(2,7) es w2(1) w3(1,2) ev by (intro exI [of _ w3]) (simp add: def)
  qed
qed

section \<open>Keep alive\<close>

lemma check_alive_safe:
  assumes "client_inv w Q" and "conn w"
  shows "\<exists>rc w' Q'. iot_mqtt_check_alive P w = Some (rc, w') \<and> client_inv w' Q' \<and> kept w w'"
proof -
  obtain c where c: "w_cli w = Some c" "client_ok c" "magic c = MQTT_CLIENT_STRUCT_MAGIC_NUMBER" "client_manage_lock c"
    using assms(1) by (rule inv_client)
  obtain ts tr where t: "last_sent c = Some ts" "last_received c = Some tr"
    using assms(2) c by (auto simp: conn_def client_ok_def)
  define idle where "idle \<longleftrightarrow> \<not> iot_os_timer_is_active (os_time P (w_net w)) ts
    \<or> \<not> iot_os_timer_is_active (os_time P (w_net w)) tr"
  obtain p ch where p: "ping_packet c = Some p" "get_chunk w p = Some ch" "is_ping ch"
    by (rule inv_ping [OF assms(1) c(1)])
  have def: "iot_mqtt_check_alive P w = (if \<not> idle then Some (0, w)
      else if chunk_state ch \<in> {PACKET_CHUNK_ACKNOWLEDGED, PACKET_CHUNK_INIT}
      then do {
        w \<leftarrow> upd_chunk (\<lambda>c. c\<lparr>chunk_state := PACKET_CHUNK_WRITE_PENDING, retry_count := 0\<rparr>) p w;
        (_, w) \<leftarrow> iot_mqtt_queue_push WRITE_PENDING p w;
        Some (0, w) }
      else if chunk_state ch = PACKET_CHUNK_TIMEOUT
      then do {
        w \<leftarrow> upd_chunk (\<lambda>c. c\<lparr>chunk_state := PACKET_CHUNK_INIT\<rparr>) p w;
        w \<leftarrow> disconnected_event P MQTT_DISCONNECTED_PING_TIMEOUT w;
        Some (E_ST_MQTT_PING_TIMEOUT, w) }
      else Some (0, w))"
    using c t p by (auto simp: iot_mqtt_check_alive_def idle_def)
  have out: "\<forall>k. p \<notin> set (Q k)"
    if "chunk_state ch \<in> {PACKET_CHUNK_ACKNOWLEDGED, PACKET_CHUNK_INIT, PACKET_CHUNK_TIMEOUT}"
    by (rule inv_out [OF assms(1) p(2)]) (use p(3) that in \<open>auto simp: is_ping_def\<close>)
  consider (stay) "\<not> idle \<or> chunk_state ch \<notin> {PACKET_CHUNK_ACKNOWLEDGED, PACKET_CHUNK_INIT, PACKET_CHUNK_TIMEOUT}"
    | (ping) "idle" "chunk_state ch \<in> {PACKET_CHUNK_ACKNOWLEDGED, PACKET_CHUNK_INIT}"
    | (lost) "idle" "chunk_state ch = PACKET_CHUNK_TIMEOUT"
    by auto
  then show ?thesis
  proof cases
    case stay
    then show ?thesis using assms(1) by (intro exI [of _ 0] exI [of _ w] exI [of _ Q]) (auto simp: def)
  next
    case ping
    let ?f = "\<lambda>c. c\<lparr>chunk_state := PACKET_CHUNK_WRITE_PENDING, retry_count := 0\<rparr>"
    have po: "\<forall>k. p \<notin> set (Q k)" by (rule out) (use ping(2) in auto)
    have wf: "chunk_wf (?f ch)" using inv_wf [OF assms(1) p(2)] by (simp add: chunk_wf_def split: option.splits)
    obtain w1 where w1: "upd_chunk ?f p w = Some w1" "client_inv w1 Q" "get_chunk w1 = (get_chunk w)(p \<mapsto> ?f ch)"
      "core w1 = core w" "kept w w1"
      by (rule inv_updE [OF assms(1) p(2), of ?f]) (use wf po in \<open>auto simp: is_ping_def\<close>)
    have p1: "get_chunk w1 p = Some (?f ch)" using w1(3) by simp
    obtain w2 where w2: "iot_mqtt_queue_push WRITE_PENDING p w1 = Some (0, w2)"
      "client_inv w2 (Q(WRITE_PENDING := Q WRITE_PENDING @ [p]))" "kept w1 w2"
      by (rule inv_pushE [OF w1(2) p1 po, of WRITE_PENDING]) auto
    then show ?thesis using ping w1(1,5) kept_trans [OF w1(5) w2(3)]
      by (intro exI [of _ 0] exI [of _ w2] exI) (auto simp: def)
  next
    case lost
    let ?f = "\<lambda>c. c\<lparr>chunk_state := PACKET_CHUNK_INIT\<rparr>"
    have po: "\<forall>k. p \<notin> set (Q k)" by (rule out) (use lost(2) in auto)
    obtain w1 where w1: "upd_chunk ?f p w = Some w1" "client_inv w1 Q" "kept w w1"
      by (rule inv_upd_metaE [OF assms(1) p(2) po, of ?f]) auto
    obtain w2 Q2 where w2: "disconnected_event P MQTT_DISCONNECTED_PING_TIMEOUT w1 = Some w2" "client_inv w2 Q2" "kept w1 w2"
      by (rule disconnected_event_safe [OF w1(2)])
    then show ?thesis using lost w1 kept_trans [OF w1(3) w2(3)]
      by (intro exI [of _ "-12"] exI [of _ w2] exI) (auto simp: def)
  qed
qed

section \<open>The cycle\<close>

theorem run_cycle_safe:
  assumes "client_inv w Q" and "write_progress P" and "read_progress P" and "broker_ok P"
  shows "\<exists>rc w' Q'. iot_mqtt_run_cycle P w = Some (rc, w') \<and> client_inv w' Q' \<and> kept w w'"
proof -
  from run_write_stream_safe [OF assms(1,2)] obtain rc1 w1 Q1 where
    1: "iot_mqtt_run_write_stream P w = Some (rc1, w1)" "client_inv w1 Q1" "kept w w1"
    unfolding safe_stream_def by blast
  from run_read_stream_safe [OF 1(2) assms(3,4)] obtain rc2 w2 Q2 where
    2: "iot_mqtt_run_read_stream P w1 = Some (rc2, w2)" "client_inv w2 Q2" "kept w1 w2" "rc2 \<ge> 0 \<longrightarrow> conn w2"
    unfolding safe_stream_def by auto
  from process_pending_safe [OF 2(2)] obtain w3 Q3 where
    3: "iot_mqtt_process_pending_packets P w2 = Some w3" "client_inv w3 Q3" "kept w2 w3" "core w3 = core w2" by blast
  have kept: "kept w w2" "kept w w3" using 1(3) 2(3) 3(3) kept_trans by metis+
  show ?thesis
  proof (cases "rc1 < 0 \<or> rc2 < 0")
    case True
    then show ?thesis using 1 2 kept by (cases "rc1 < 0") (auto simp: iot_mqtt_run_cycle_def)
  next
    case False
    then have "conn w3" using 2(4) conn_core [OF 3(4)] by simp
    from check_alive_safe [OF 3(2) this, of P] False show ?thesis
      using 1(1) 2(1) 3(1) kept(2) kept_trans by (fastforce simp: iot_mqtt_run_cycle_def)
  qed
qed

end
