(* ===== verification/Mqtt_Broker.thy ===== *)
theory Mqtt_Broker
  imports Mqtt_Work
begin

text \<open>
  The packets a broker sends according to the protocol, and that the client reads every one of them
  inside its buffer: the assumption on the peer that the safety of the client rests on.
\<close>

lemma publish_packet_deliverable:
  assumes "length topic < 65536" and "0 \<le> q" "q < 3" and "uint dup < 2" "uint retained < 2"
    and "length (publish_body q pid topic payload) < 268435456"
  shows "deliverable (publish_packet dup q retained pid topic payload @ post)"
proof -
  have "MQTTDeserialize_publish out (publish_packet dup q retained pid topic payload @ post) \<noteq> None" for out
    using deserialize_publish_packet [of topic q dup retained pid payload out post] assms by simp
  then show ?thesis by (auto simp: deliverable_def publish_packet_def packet_bytes_def)
qed

definition server_publish :: "u8 list \<Rightarrow> bool" where
  "server_publish d \<longleftrightarrow> (\<exists>dup q retained pid topic payload. d = publish_packet dup q retained pid topic payload
     \<and> 0 \<le> q \<and> q < 3 \<and> uint dup < 2 \<and> uint retained < 2 \<and> length topic < 65536
     \<and> length (publish_body q pid topic payload) < 268435456)"

definition server_packet :: "u8 list \<Rightarrow> bool" where
  "server_packet d \<longleftrightarrow> server_publish d
     \<or> (\<exists>t pid. t \<in> {PUBACK, PUBREC, PUBREL, PUBCOMP, UNSUBACK} \<and> d = ack_packet t 0 pid)
     \<or> (\<exists>sp rc. uint sp < 2 \<and> d = connack_packet sp rc)
     \<or> (\<exists>pid qs. length qs < 268435454 \<and> d = suback_packet pid qs)
     \<or> d = zero_packet PINGRESP"

lemma packet_type_byte:
  "read_byte (packet_bytes h body @ post) 0 = Some h"
  by (simp add: packet_bytes_def read_byte_def)

lemma getPacketId_other:
  assumes "t \<in> {CONNACK, PINGRESP}"
  shows "MQTTPacket_getPacketId lf (packet_bytes (MQTTHeader_byte (msg_code t) d q r) body) = Some 0"
proof -
  have h: "header_type (MQTTHeader_byte (msg_code t) d q r) = msg_code t" by (simp add: field_simps_c)
  have rd: "read_byte (packet_bytes (MQTTHeader_byte (msg_code t) d q r) body) 0 = Some (MQTTHeader_byte (msg_code t) d q r)"
    using packet_type_byte [of _ body "[]"] by simp
  show ?thesis
    using assms unfolding MQTTPacket_getPacketId_def mask_type mask_qos by (auto simp: rd h)
qed

lemma deserialize_suback_defined:
  assumes "length qs < 268435454" and "maxcount \<le> int cap"
  shows "MQTTDeserialize_suback sg cap maxcount old (suback_packet pid qs) \<noteq> None"
proof -
  define h where "h = MQTTHeader_byte (msg_code SUBACK) 0 0 0"
  define body where "body = u16_bytes (unat pid) @ qs"
  define buf where "buf = packet_bytes h body"
  have len: "length body < 268435456" using assms(1) by (simp add: body_def)
  from read_id_body [OF len body_def, of h "[]", simplified, folded buf_def] obtain k where
    rd: "readChar buf 0 = Some (h, Suc 0)" "MQTTPacket_decodeBuf buf (Suc 0) = Some (k, length body)"
      "readInt buf (Suc k) = Some (unat pid, Suc k + 2)"
    and k: "Suc k + 2 = length (h # rem_len_bytes (length body) @ u16_bytes (unat pid))"
    by (auto simp del: rem_len_bytes.simps)
  have "Suc k + length body \<le> length buf" using k by (simp add: buf_def packet_bytes_def body_def)
  from suback_loop_safe [OF assms(2) this, of sg "Suc k + 2" "[]"] rd
  show ?thesis by (auto simp: MQTTDeserialize_suback_def buf_def body_def h_def suback_packet_def)
qed

lemma publish_wire_ok:
  assumes "server_publish d" and "\<not> load_first P"
  shows "wire_ok P d"
proof -
  obtain dup q retained pid topic payload where d: "d = publish_packet dup q retained pid topic payload"
    "0 \<le> q" "q < 3" "uint dup < 2" "uint retained < 2" "length topic < 65536"
    "length (publish_body q pid topic payload) < 268435456"
    using assms(1) by (auto simp: server_publish_def)
  have "MQTTPacket_getPacketId False d \<noteq> None"
    using getPacketId_publish [of topic q pid payload dup retained "[]"] d by simp
  moreover have "deliverable d" using publish_packet_deliverable [of topic q dup retained pid payload "[]"] d by simp
  moreover have "read_byte d 0 = Some (MQTTHeader_byte (msg_code PUBLISH) (uint dup) q (uint retained))"
    using packet_type_byte [of _ _ "[]"] by (simp add: d(1) publish_packet_def)
  ultimately show ?thesis using assms(2) by (simp add: wire_ok_def field_simps_c)
qed

lemma wire_ok_other:
  assumes "d = packet_bytes (MQTTHeader_byte (msg_code t) x q r) body" and "t \<notin> {PUBLISH, CONNACK, SUBACK}"
    and "MQTTPacket_getPacketId (load_first P) d \<noteq> None"
  shows "wire_ok P d"
proof -
  have "msg_code t \<noteq> msg_code PUBLISH" "msg_code t \<noteq> msg_code CONNACK" "msg_code t \<noteq> msg_code SUBACK"
    using assms(2) unfolding msg_code_inj by auto
  then show ?thesis
    using assms(1,3) packet_type_byte [of _ _ "[]"] by (simp add: wire_ok_def field_simps_c)
qed

lemma server_packet_wire_ok:
  assumes "server_packet d" and "\<not> load_first P"
  shows "wire_ok P d"
proof -
  note id_of = getPacketId_ack [where post = "[]", unfolded append_Nil2]
  consider "server_publish d"
    | t pid where "t \<in> {PUBACK, PUBREC, PUBREL, PUBCOMP, UNSUBACK}" "d = ack_packet t 0 pid"
    | sp rc where "uint sp < 2" "d = connack_packet sp rc"
    | pid qs where "length qs < 268435454" "d = suback_packet pid qs"
    | "d = zero_packet PINGRESP"
    using assms(1) unfolding server_packet_def by blast
  then show ?thesis
  proof cases
    case (2 t pid)
    have "MQTTPacket_getPacketId (load_first P) d = Some (unat pid)"
      unfolding 2(2) ack_packet_def by (rule id_of [where rest = "[]"]) (use 2(1) in auto)
    then have "MQTTPacket_getPacketId (load_first P) d \<noteq> None" by simp
    with 2 show ?thesis by (intro wire_ok_other) (auto simp: ack_packet_def)
  next
    case (3 sp rc)
    then show ?thesis
      using getPacketId_other [of CONNACK] deserialize_connack_packet [OF 3(1), of rc "[]"] packet_type_byte [of _ _ "[]"]
      by (simp add: wire_ok_def connack_packet_def field_simps_c)
  next
    case (4 pid qs)
    have "MQTTPacket_getPacketId (load_first P) d = Some (unat pid)"
      unfolding 4(2) suback_packet_def by (rule id_of [where rest = qs]) (use 4(1) in auto)
    then have "MQTTPacket_getPacketId (load_first P) d \<noteq> None" by simp
    with 4 deserialize_suback_defined [OF 4(1), of 1 1] packet_type_byte [of _ _ "[]"] show ?thesis
      by (auto simp: wire_ok_def suback_packet_def field_simps_c)
  next
    case 5
    then show ?thesis using getPacketId_other [of PINGRESP]
      by (intro wire_ok_other [of _ PINGRESP 0 0 0 "[]"]) (auto simp: zero_packet_def)
  qed (use publish_wire_ok assms(2) in blast)
qed

text \<open>The peer speaks the protocol: every packet the client can read completely is one of the above.\<close>

definition broker_conforms :: "'n port \<Rightarrow> bool" where
  "broker_conforms P \<longleftrightarrow> (\<forall>n0 rc n hdr rd rem n1 x d n2.
     port_net_read_poll P n0 0 = (rc, n) \<longrightarrow> rc > 0 \<longrightarrow>
     read_fixed_header P n = Some (Inr (hdr, rd, rem), n1) \<longrightarrow> length x = rd + rem \<longrightarrow>
     take rd x = take rd hdr \<longrightarrow> read_body_loop P x (rd + rem) rd n1 = Some (rd + rem, d, n2) \<longrightarrow> server_packet d)"

lemma broker_conforms_ok: "broker_conforms P \<Longrightarrow> \<not> load_first P \<Longrightarrow> broker_ok P"
  unfolding broker_conforms_def broker_ok_def using server_packet_wire_ok by blast

end
