(* ===== verification/Mqtt_Publish.thy ===== *)
theory Mqtt_Publish
  imports Mqtt_Broker
begin

text \<open>
  Creating a client establishes the invariant; queueing a message and the timer callbacks, which only
  signal the work queue, keep it.
\<close>

section \<open>Creating a client\<close>

lemma upd_client_chain [simp]:
  "w_mem (upd_client f w) = w_mem w" "w_net (upd_client f w) = w_net w" "w_queue (upd_client f w) = w_queue w"
  "w_qmem (upd_client f w) = w_qmem w" "w_cli (upd_client f w) = map_option f (w_cli w)"
  by (simp_all add: upd_client_def)

lemma serialize_pingreq_eq:
  "length d = 2 \<Longrightarrow> MQTTSerialize_pingreq d 2 = Some (2, zero_packet PINGREQ)"
  using zero_msg.ser_fits [of 2 d PINGREQ] by (simp add: MQTTSerialize_pingreq_def)

text \<open>The state right before the ping packet is created: empty queues, every lock there.\<close>

definition created_client :: MQTTClient where
  "created_client = zero_client\<lparr>magic := MQTT_CLIENT_STRUCT_MAGIC_NUMBER, next_packetid := 1,
     client_manage_lock := True, write_lock := True, read_lock := True,
     write_pending_queue := \<lparr>q_head = None, q_tail = None, q_sem = True\<rparr>,
     ack_pending_queue := \<lparr>q_head = None, q_tail = None, q_sem = True\<rparr>,
     user_event_callback_queue := \<lparr>q_head = None, q_tail = None, q_sem = True\<rparr>\<rparr>"

lemma queues_created:
  assumes "w_cli w = Some created_client" and "mem_ok (w_mem w)" and "cells (w_mem w) = Map.empty"
  shows "queues w (\<lambda>_. [])"
proof -
  have "q_sem (get_queue k created_client) \<and> rep (cells (w_mem w)) (get_queue k created_client) []" for k
    by (cases k) (simp_all add: created_client_def rep_Nil)
  then show ?thesis using assms by (simp add: queues_def)
qed

lemma create_ping_inv:
  assumes "queues w (\<lambda>_. [])" and "cells (w_mem w) = Map.empty" and "w_cli w = Some created_client"
    and "iot_mqtt_chunk_create MQTT_PINGREQ_PACKET_SIZE w = (Some p, w1)" and "get_chunk w1 p = Some c"
    and "chunk_data c = Some d" and "MQTTSerialize_pingreq d (int MQTT_PINGREQ_PACKET_SIZE) = Some (rc, d')"
    and "upd_chunk (\<lambda>c. c\<lparr>chunk_data := Some d', packet_type := msg_code PINGREQ, have_owner := True\<rparr>) p w1 = Some w2"
  shows "client_inv (upd_client (\<lambda>c. c\<lparr>ping_packet := Some p\<rparr>) w2) (\<lambda>_. [])"
proof (cases rule: chunk_create_spec [OF assms(1), of MQTT_PINGREQ_PACKET_SIZE])
  case (1 w')
  then show ?thesis using assms(4) by simp
next
  case (2 a w' y)
  let ?f = "\<lambda>c. c\<lparr>chunk_data := Some d', packet_type := msg_code PINGREQ, have_owner := True\<rparr>"
  have eq: "a = p" "w' = w1" using 2(1) assms(4) by simp_all
  have c: "c = zero_chunk\<lparr>chunk_data := y, chunk_size := 2\<rparr>" using 2(6) assms(5) eq by simp
  have "length d = 2" using 2(7) c assms(6) by auto
  then have d': "length d' = 2" using assms(7) serialize_pingreq_eq [of d] by auto
  have q1: "queues w1 (\<lambda>_. [])" using 2(2) eq by simp
  obtain w2' where w2': "upd_chunk ?f p w1 = Some w2'" "queues w2' (\<lambda>_. [])"
    "get_chunk w2' = (get_chunk w1)(p \<mapsto> ?f c)" "core w2' = core w1"
    by (rule upd_chunk_spec [OF q1 assms(5)])
  then have w2: "queues w2 (\<lambda>_. [])" "get_chunk w2 = (get_chunk w1)(p \<mapsto> ?f c)" "core w2 = core w1"
    using assms(8) by simp_all
  have H: "get_chunk w2 = [p \<mapsto> ?f c]"
    using w2(2) 2(6) eq assms(2) by (auto simp: get_chunk_def vals_def fun_eq_iff)
  have wf: "chunk_wf (?f c)" using d' c by (simp add: chunk_wf_def owned_types_def zero_chunk_def)
  obtain c2 where c2: "w_cli w2 = Some c2" "client_core c2 = client_core created_client"
    using coreD(8) [OF w2(3)] coreD(8) [OF 2(5)] eq assms(3) by auto
  have ok: "client_ok c2" using client_coreD [OF c2(2)]
    by (simp add: client_ok_def created_client_def zero_client_def)
  have "queues (upd_client (\<lambda>c. c\<lparr>ping_packet := Some p\<rparr>) w2) (\<lambda>_. [])"
  proof (rule queues_upd_client [OF w2(1)])
    show "get_queue k (c\<lparr>ping_packet := Some p\<rparr>) = get_queue k c" for c k by (cases k) auto
  qed
  moreover have "chunks_ok (get_chunk w2) (\<lambda>_. [])" using H wf by (simp add: chunks_ok_def)
  moreover have "client_ok (c2\<lparr>ping_packet := Some p\<rparr>)" using ok by (simp add: client_ok_def)
  then have "ping_ok (w_cli (core (upd_client (\<lambda>c. c\<lparr>ping_packet := Some p\<rparr>) w2))) (get_chunk w2)"
    using H c2 c by (simp add: ping_ok_def is_ping_def zero_chunk_def)
  ultimately show ?thesis by (simp add: client_inv_def)
qed

lemma init_mutex_eq:
  "init_mutex P f w = (fst (mutex_init_ok P (w_net w)),
     upd_client (f (fst (mutex_init_ok P (w_net w)))) (w\<lparr>w_net := snd (mutex_init_ok P (w_net w))\<rparr>))"
  by (simp add: init_mutex_def split: prod.split)

lemma queue_init_eq:
  "iot_mqtt_queue_init P k w = (if fst (mutex_init_ok P (w_net w)) then 0 else -1,
     upd_client (set_queue k \<lparr>q_head = None, q_tail = None, q_sem = fst (mutex_init_ok P (w_net w))\<rparr>)
       (w\<lparr>w_net := snd (mutex_init_ok P (w_net w))\<rparr>))"
  by (simp add: iot_mqtt_queue_init_def split: prod.split)

lemma create_error_rc: "create_error w = Some (rc, w') \<Longrightarrow> rc = E_ST_MQTT_FAILURE"
  by (auto simp: create_error_def bind_eq_Some_conv)

text \<open>On success every initialisation succeeded, so the state before the ping packet is known.\<close>

lemma st_mqtt_create_success:
  fixes w :: "'n world"
  assumes "st_mqtt_create P True w = Some (0, w')"
  obtains w1 p w2 c d rc d' w3 where "w_cli w1 = Some created_client" "cells (w_mem w1) = cells (w_mem w)"
    "brk (w_mem w1) = Suc (brk (w_mem w))" "oom (w_mem w1) = oom (w_mem w)"
    "iot_mqtt_chunk_create MQTT_PINGREQ_PACKET_SIZE w1 = (Some p, w2)" "get_chunk w2 p = Some c"
    "chunk_data c = Some d" "MQTTSerialize_pingreq d (int MQTT_PINGREQ_PACKET_SIZE) = Some (rc, d')"
    "upd_chunk (\<lambda>c. c\<lparr>chunk_data := Some d', packet_type := msg_code PINGREQ, have_owner := True\<rparr>) p w2 = Some w3"
    "w' = upd_client (\<lambda>c. c\<lparr>ping_packet := Some p\<rparr>) w3" "w_queue w1 = w_queue w" "w_qmem w1 = w_qmem w"
proof -
  define a0 where "a0 = w\<lparr>w_mem := (w_mem w)\<lparr>brk := Suc (brk (w_mem w))\<rparr>,
    w_cli := Some (zero_client\<lparr>magic := MQTT_CLIENT_STRUCT_MAGIC_NUMBER, next_packetid := 1\<rparr>)\<rparr>"
  define a1 where "a1 = init_mutex P (\<lambda>b c. c\<lparr>client_manage_lock := b\<rparr>) a0"
  define a2 where "a2 = init_mutex P (\<lambda>b c. c\<lparr>write_lock := b\<rparr>) (snd a1)"
  define a3 where "a3 = init_mutex P (\<lambda>b c. c\<lparr>read_lock := b\<rparr>) (snd a2)"
  define a4 where "a4 = iot_mqtt_queue_init P WRITE_PENDING (snd a3)"
  define a5 where "a5 = iot_mqtt_queue_init P ACK_PENDING (snd a4)"
  define a6 where "a6 = iot_mqtt_queue_init P USER_EVENT (snd a5)"
  note a = a1_def a2_def a3_def a4_def a5_def a6_def
  have no_err: "\<And>v. create_error v \<noteq> Some (0, w')" using create_error_rc by fastforce
  have malloc: "\<not> oom (w_mem w) (brk (w_mem w))"
    using assms by (auto simp: st_mqtt_create_def world_malloc_def iot_os_malloc_def split: if_splits)
  define ping where "ping = (\<lambda>w :: 'n world. case iot_mqtt_chunk_create MQTT_PINGREQ_PACKET_SIZE w of
       (None, w) \<Rightarrow> create_error w
     | (Some p, w) \<Rightarrow> do {
         c \<leftarrow> get_chunk w p;
         d \<leftarrow> chunk_data c;
         (_, d) \<leftarrow> MQTTSerialize_pingreq d (int MQTT_PINGREQ_PACKET_SIZE);
         w \<leftarrow> upd_chunk (\<lambda>c. c\<lparr>chunk_data := Some d, packet_type := msg_code PINGREQ,
                               have_owner := True\<rparr>) p w;
         Some (0, upd_client (\<lambda>c. c\<lparr>ping_packet := Some p\<rparr>) w) })"
  have chain: "st_mqtt_create P True w =
     (if \<not> fst a1 then create_error (snd a1) else if \<not> fst a2 then create_error (snd a2)
      else if \<not> fst a3 then create_error (snd a3) else if fst a4 \<noteq> 0 then create_error (snd a4)
      else if fst a5 \<noteq> 0 then create_error (snd a5) else if fst a6 \<noteq> 0 then create_error (snd a6)
      else ping (snd a6))"
    using malloc unfolding a ping_def a0_def
    by (simp add: st_mqtt_create_def world_malloc_def iot_os_malloc_def Let_def case_prod_beta)
  then have ok: "fst a1" "fst a2" "fst a3" "fst a4 = 0" "fst a5 = 0" "fst a6 = 0" and w': "ping (snd a6) = Some (0, w')"
    using assms no_err by (auto split: if_splits)
  have "w_cli (snd a6) = Some created_client"
    using ok by (simp add: a init_mutex_eq queue_init_eq a0_def created_client_def zero_client_def split: if_splits)
  moreover have "w_mem (snd a6) = (w_mem w)\<lparr>brk := Suc (brk (w_mem w))\<rparr>" "w_queue (snd a6) = w_queue w"
    "w_qmem (snd a6) = w_qmem w"
    by (simp_all add: a init_mutex_eq queue_init_eq a0_def)
  ultimately show thesis
    using w' that [of "snd a6"] no_err
    by (auto simp: ping_def bind_eq_Some_conv split: prod.splits option.splits)
qed

theorem create_establishes:
  assumes "st_mqtt_create P True w = Some (0, w')" and "cells (w_mem w) = Map.empty"
  shows "client_inv w' (\<lambda>_. [])"
proof (rule st_mqtt_create_success [OF assms(1)])
  fix w1 p w2 c d rc d' w3
  assume a: "w_cli w1 = Some created_client" "cells (w_mem w1) = cells (w_mem w)"
    and rest: "iot_mqtt_chunk_create MQTT_PINGREQ_PACKET_SIZE w1 = (Some p, w2)" "get_chunk w2 p = Some c"
    "chunk_data c = Some d" "MQTTSerialize_pingreq d (int MQTT_PINGREQ_PACKET_SIZE) = Some (rc, d')"
    "upd_chunk (\<lambda>c. c\<lparr>chunk_data := Some d', packet_type := msg_code PINGREQ, have_owner := True\<rparr>) p w2 = Some w3"
    and w': "w' = upd_client (\<lambda>c. c\<lparr>ping_packet := Some p\<rparr>) w3"
  have empty: "cells (w_mem w1) = Map.empty" using a(2) assms(2) by simp
  have "queues w1 (\<lambda>_. [])" by (rule queues_created [OF a(1) _ empty]) (simp add: mem_ok_def empty)
  from create_ping_inv [OF this empty a(1) rest] show ?thesis by (simp add: w')
qed

section \<open>Publishing\<close>

lemma fresh_packetid_range: "1 \<le> unat (fresh_packetid i) \<and> unat (fresh_packetid i) \<le> 65535"
proof (cases "i \<ge> MAX_PACKET_ID")
  case False
  then have "unat i < 65535" by (simp add: word_le_nat_alt)
  then have "unat (i + 1) = unat i + 1" by (subst unat_add_lem [THEN iffD1]) simp_all
  with \<open>unat i < 65535\<close> show ?thesis using False by (simp add: fresh_packetid_def)
qed (simp add: fresh_packetid_def)

lemma fresh_packetid_new: "unat i \<le> 65535 \<Longrightarrow> unat (fresh_packetid i) = (if unat i = 65535 then 1 else unat i + 1)"
proof -
  assume "unat i \<le> 65535"
  moreover have "i \<ge> MAX_PACKET_ID \<longleftrightarrow> 65535 \<le> unat i" by (simp add: word_le_nat_alt)
  moreover have "unat (i + 1) = unat i + 1" if "unat i < 65535" using that
    by (subst unat_add_lem [THEN iffD1]) simp_all
  ultimately show ?thesis by (auto simp: fresh_packetid_def)
qed

lemma with_cstring_ok [simp]: "mqtt_string_ok (with_cstring s)"
  by (simp add: with_cstring_def MQTTString_initializer_def mqtt_string_ok_def split: option.split)

definition publish_request_ok :: "publish_request \<Rightarrow> bool" where
  "publish_request_ok msg \<longleftrightarrow> 0 \<le> req_qos msg \<and> req_qos msg < 3 \<and> uint (req_retained msg) < 2
   \<and> length (mqtt_bytes (with_cstring (req_topic msg))) < 65536
   \<and> (\<exists>d. req_payload msg = Some d \<and> req_payloadlen msg = int (length d)
        \<and> length (publish_body (req_qos msg) 0 (mqtt_bytes (with_cstring (req_topic msg))) d) < 268435456)"

text \<open>
  What queueing a message does: unless an allocation fails, one new chunk at the end of the write queue,
  holding the serialized message, with a packet identifier between 1 and 65535 when it needs one.
\<close>

lemma push_publish_safe:
  assumes "client_inv w Q" and "publish_request_ok msg"
  obtains (failed) w' where "iot_mqtt_push_publish_packet msg is_sync w = Some (None, w')"
    "client_inv w' Q" "kept w w'" "conn w' = conn w" "\<exists>n. oom (w_mem w) n"
  | (queued) w' a ch where "iot_mqtt_push_publish_packet msg is_sync w = Some (Some a, w')"
    "client_inv w' (Q(WRITE_PENDING := Q WRITE_PENDING @ [a]))" "kept w w'" "conn w' = conn w"
    "get_chunk w' a = Some ch" "packet_type ch = msg_code PUBLISH" "have_owner ch = is_sync"
    "req_qos msg > 0 \<longrightarrow> 1 \<le> unat (packet_id ch) \<and> unat (packet_id ch) \<le> 65535"
    "\<exists>post. chunk_data ch = Some (publish_packet 0 (req_qos msg) (req_retained msg) (ucast (packet_id ch))
       (mqtt_bytes (with_cstring (req_topic msg))) (the (req_payload msg)) @ post)"
    "chunk_size ch = nat (MQTTSerialize_publish_size (req_qos msg) (with_cstring (req_topic msg)) (req_payloadlen msg))"
    "qos ch = req_qos msg" "return_code ch = 0" "get_chunk w a = None" "get_chunk w' = (get_chunk w)(a \<mapsto> ch)"
proof -
  obtain c where c: "w_cli w = Some c" "magic c = MQTT_CLIENT_STRUCT_MAGIC_NUMBER" "client_manage_lock c"
    using assms(1) by (rule inv_client)
  let ?t = "with_cstring (req_topic msg)" and ?q = "req_qos msg"
  obtain pl where pl: "req_payload msg = Some pl" "req_payloadlen msg = int (length pl)"
    and len: "length (publish_body ?q 0 (mqtt_bytes ?t) pl) < 268435456"
    and q: "0 \<le> ?q" "?q < 3" "uint (req_retained msg) < 2" "length (mqtt_bytes ?t) < 65536"
    using assms(2) by (auto simp: publish_request_ok_def)
  define sz where "sz = MQTTSerialize_publish_size ?q ?t (int (length pl))"
  define acked where "acked \<longleftrightarrow> ?q = 1 \<or> ?q = 2"
  define pid where "pid = (if acked then fresh_packetid (next_packetid c) else 0)"
  let ?pkt = "publish_packet 0 ?q (req_retained msg) (ucast pid) (mqtt_bytes ?t) pl"
  have len': "length (publish_body ?q (ucast pid) (mqtt_bytes ?t) pl) < 268435456" using len by simp
  have psz: "int (length ?pkt) \<le> sz"
    using publish_msg.pkt_size [of "(0, ?q, req_retained msg, ucast pid, ?t, pl)"] len' pl
    by (simp add: sz_def)
  have pos: "0 < length ?pkt" by (simp add: publish_packet_def packet_bytes_def)
  note def = iot_mqtt_push_publish_packet_def [of msg is_sync w]
  show thesis
  proof (cases rule: inv_createE [OF assms(1), of "nat sz"])
    case (1 w1)
    then show ?thesis using failed [of w1] c pl conn_core [OF 1(4)] by (simp add: def Let_def flip: sz_def)
  next
    case (2 a w1 y)
    obtain x where x: "y = Some x" "length x = nat sz" using 2(8) psz pos by auto
    let ?w1 = "if acked then upd_client (\<lambda>c. c\<lparr>next_packetid := pid\<rparr>) w1 else w1"
    let ?z = "zero_chunk\<lparr>chunk_data := y, chunk_size := nat sz\<rparr>"
    have get: "get_queue k (c\<lparr>next_packetid := pid\<rparr>) = get_queue k c" for k c by (cases k) simp_all
    have i1: "client_inv ?w1 Q" "kept w ?w1" "conn ?w1 = conn w" "get_chunk ?w1 a = Some ?z"
      using inv_upd_client [OF 2(2), of "\<lambda>c. c\<lparr>next_packetid := pid\<rparr>"] get 2 conn_core [OF 2(3)]
      by (auto simp: client_ok_def conn_def)
    have ser: "MQTTSerialize_publish x sz 0 ?q (req_retained msg) (ucast pid) ?t (Some pl) (int (length pl))
        = Some (int (length ?pkt), ?pkt @ drop (length ?pkt) x)"
      using publish_msg.ser_fits [of "(0, ?q, req_retained msg, ucast pid, ?t, pl)" sz x] len' x(2) psz pl
      by (simp add: sz_def)
    let ?d = "?pkt @ drop (length ?pkt) x"
    have dl: "length ?d = nat sz" using x(2) psz by simp
    let ?f = "\<lambda>c. c\<lparr>chunk_data := Some ?d, packet_id := pid, packet_type := msg_code PUBLISH,
      have_owner := is_sync, qos := ?q, chunk_state := PACKET_CHUNK_WRITE_PENDING\<rparr>"
    have "deliverable ?d" by (rule publish_packet_deliverable) (use q len' in simp_all)
    then have wf: "chunk_wf (?f ?z)" using dl by (simp add: chunk_wf_def owned_types_def zero_chunk_def)
    obtain w2 where w2: "upd_chunk ?f a ?w1 = Some w2" "client_inv w2 Q" "get_chunk w2 = (get_chunk ?w1)(a \<mapsto> ?f ?z)"
      "core w2 = core ?w1" "kept ?w1 w2"
      by (rule inv_updE [OF i1(1,4), of ?f]) (use wf 2(5) in \<open>auto simp: is_ping_def zero_chunk_def\<close>)
    have a2: "get_chunk w2 a = Some (?f ?z)" using w2(3) by simp
    obtain w3 where w3: "iot_mqtt_queue_push WRITE_PENDING a w2 = Some (0, w3)"
      "client_inv w3 (Q(WRITE_PENDING := Q WRITE_PENDING @ [a]))" "get_chunk w3 = get_chunk w2"
      "core w3 = core w2" "kept w2 w3"
      by (rule inv_pushE [OF w2(2) a2 2(5), of WRITE_PENDING]) (auto simp: zero_chunk_def)
    have "kept w w3" "conn w3 = conn w"
      using i1(2,3) w2(5) w3(5) kept_trans conn_core [OF w2(4)] conn_core [OF w3(4)] by metis+
    moreover have "iot_mqtt_push_publish_packet msg is_sync w = Some (Some a, w3)"
      using c 2(1) i1(4) x(1) ser pl w2(1) w3(1)
      by (cases acked) (simp_all add: def Let_def zero_chunk_def pid_def flip: sz_def acked_def)
    moreover have "1 \<le> unat pid \<and> unat pid \<le> 65535" if "?q > 0"
    proof -
      have acked using that q by (auto simp: acked_def)
      then show ?thesis using fresh_packetid_range [of "next_packetid c"] by (simp add: pid_def)
    qed
    ultimately show ?thesis
      using queued [of a w3 "?f ?z"] w3(2,3) a2 pl w2(3) 2(4,7) by (auto simp: sz_def zero_chunk_def)
  qed
qed

section \<open>The work queue\<close>

definition work_ok :: "'n world \<Rightarrow> bool" where
  "work_ok w \<longleftrightarrow> (\<forall>q. w_queue w = Some q \<longrightarrow> (\<exists>xs. items (w_qmem w) q xs))"

lemma work_ok_kept: "work_ok w \<Longrightarrow> kept w w' \<Longrightarrow> work_ok w'"
  by (simp add: work_ok_def kept_def)

lemma signal_safe:
  assumes "client_inv w Q" and "work_ok w"
  shows "\<exists>err w'. iot_mqtt_signal_pending_work w = Some (err, w') \<and> client_inv w' Q \<and> work_ok w'
    \<and> (w_queue w \<noteq> None \<longrightarrow> (\<forall>n. \<not> oom (w_qmem w) n) \<longrightarrow> err = IOT_ERROR_NONE \<and> w_signal w')"
proof (cases "w_queue w")
  case None
  then show ?thesis using assms
    by (simp add: iot_mqtt_signal_pending_work_def iot_util_queue_send_def work_ok_def)
next
  case (Some q)
  then obtain xs where xs: "items (w_qmem w) q xs" using assms(2) by (auto simp: work_ok_def)
  let ?m = "w_qmem w"
  show ?thesis
  proof (cases "oom ?m (brk ?m) \<or> oom ?m (Suc (brk ?m))")
    case True
    obtain k where "brk ?m \<le> k" "iot_util_queue_send (Some q) (Some (w_id w)) ?m
        = Some (IOT_ERROR_MEM_ALLOC, Some q, ?m\<lparr>brk := k\<rparr>)"
      using queue_send_oom [OF True, of q "w_id w"] by (elim exE conjE) (rule that)
    moreover from this(1) have "items (?m\<lparr>brk := k\<rparr>) q xs" by (rule items_brk [OF xs])
    ultimately show ?thesis using Some assms(1) True
      by (intro exI [of _ IOT_ERROR_MEM_ALLOC] exI [of _ "w\<lparr>w_queue := Some q, w_qmem := ?m\<lparr>brk := k\<rparr>\<rparr>"])
        (auto simp: iot_mqtt_signal_pending_work_def work_ok_def)
  next
    case False
    then obtain q' m' where "iot_util_queue_send (Some q) (Some (w_id w)) ?m = Some (IOT_ERROR_NONE, Some q', m')"
        "items m' q' (xs @ [w_id w])"
      using queue_send_items [OF xs] by blast
    then show ?thesis using Some assms(1)
      by (intro exI [of _ IOT_ERROR_NONE] exI [of _ "w\<lparr>w_queue := Some q', w_qmem := m', w_signal := True\<rparr>"])
        (auto simp: iot_mqtt_signal_pending_work_def work_ok_def)
  qed
qed

lemma timer_callback_safe:
  assumes "client_inv w Q" and "work_ok w"
  shows "\<exists>w'. iot_mqtt_chunk_expire_timeout w = Some w' \<and> client_inv w' Q \<and> work_ok w'"
    and "\<exists>w'. iot_mqtt_ping_timeout w = Some w' \<and> client_inv w' Q \<and> work_ok w'"
  using signal_safe [OF assms] assms
  by (auto simp: iot_mqtt_chunk_expire_timeout_def iot_mqtt_ping_timeout_def)

lemma publish_async_safe:
  assumes "client_inv w Q" and "work_ok w" and "publish_request_ok msg"
  shows "\<exists>rc w' Q'. st_mqtt_publish_async msg w = Some (rc, w') \<and> client_inv w' Q' \<and> work_ok w'"
proof -
  obtain r w1 Q1 where r: "iot_mqtt_push_publish_packet msg False w = Some (r, w1)" "client_inv w1 Q1" "kept w w1"
    by (cases rule: push_publish_safe [OF assms(1,3), of False]) auto
  have ok: "work_ok w1" by (rule work_ok_kept [OF assms(2) r(3)])
  obtain c where c: "w_cli w1 = Some c" using r(2) by (rule inv_client)
  from signal_safe [OF r(2) ok] obtain err w2 where
    "iot_mqtt_signal_pending_work w1 = Some (err, w2)" "client_inv w2 Q1" "work_ok w2" by blast
  then show ?thesis using r c ok by (auto simp: st_mqtt_publish_async_def)
qed

lemma create_work_ok:
  assumes "st_mqtt_create P True w = Some (0, w')" and "cells (w_mem w) = Map.empty" and "work_ok w"
  shows "work_ok w'"
proof (rule st_mqtt_create_success [OF assms(1)])
  fix w1 p w2 c d rc d' w3
  assume w1: "w_cli w1 = Some created_client" "cells (w_mem w1) = cells (w_mem w)" "w_queue w1 = w_queue w" "w_qmem w1 = w_qmem w"
    and w2: "iot_mqtt_chunk_create MQTT_PINGREQ_PACKET_SIZE w1 = (Some p, w2)"
    and w3: "upd_chunk (\<lambda>c. c\<lparr>chunk_data := Some d', packet_type := msg_code PINGREQ, have_owner := True\<rparr>) p w2 = Some w3"
    and w': "w' = upd_client (\<lambda>c. c\<lparr>ping_packet := Some p\<rparr>) w3"
  have "cells (w_mem w1) = Map.empty" using w1(2) assms(2) by simp
  then have q: "queues w1 (\<lambda>_. [])" by (intro queues_created [OF w1(1)]) (simp_all add: mem_ok_def)
  have "w_queue w2 = w_queue w1 \<and> w_qmem w2 = w_qmem w1"
    by (cases rule: chunk_create_spec [OF q, of MQTT_PINGREQ_PACKET_SIZE])
      (use w2 in \<open>auto dest: coreD(4,5)\<close>)
  moreover have "w_queue w3 = w_queue w2 \<and> w_qmem w3 = w_qmem w2"
    using w3 by (auto simp: upd_chunk_def bind_eq_Some_conv)
  ultimately show ?thesis using assms(3) w1 by (simp add: work_ok_def w')
qed

end
