(* ===== verification/Mqtt_Submit.thy ===== *)
theory Mqtt_Submit
  imports Mqtt_Publish
begin

text \<open>
  The blocking operations: what connecting, subscribing, unsubscribing and disconnecting do before they
  wait, and one round of the wait, all keep the invariant of the client.
\<close>

section \<open>Queueing an owned packet\<close>

definition own_types :: "msgTypes set" where
  "own_types = {CONNECT, SUBSCRIBE, UNSUBSCRIBE, DISCONNECT}"

lemma kept_upd_client_left [simp]: "kept (upd_client f w) w' = kept w w'"
  by (simp add: kept_def upd_client_def get_chunk_def)

lemma submit_owned_safe:
  assumes "client_inv w Q" and "get_chunk w a = Some (zero_chunk\<lparr>chunk_data := y, chunk_size := sz, packet_id := i\<rparr>)"
    and "\<forall>k. a \<notin> set (Q k)" and "t \<in> own_types" and "length d = sz"
  obtains w' where "submit_owned t d a w = Some (Inr a, w')" "client_inv w' (Q(WRITE_PENDING := Q WRITE_PENDING @ [a]))"
    "kept w w'" "core w' = core w"
    "get_chunk w' a = Some (zero_chunk\<lparr>chunk_data := Some d, chunk_size := sz, packet_id := i, packet_type := msg_code t,
       have_owner := True, chunk_state := PACKET_CHUNK_WRITE_PENDING\<rparr>)"
proof -
  let ?f = "\<lambda>c. c\<lparr>chunk_data := Some d, packet_type := msg_code t, have_owner := True,
    chunk_state := PACKET_CHUNK_WRITE_PENDING\<rparr>"
  let ?c = "zero_chunk\<lparr>chunk_data := y, chunk_size := sz, packet_id := i\<rparr>"
  have "chunk_wf (?f ?c)"
    using assms(4,5) by (auto simp: chunk_wf_def zero_chunk_def own_types_def owned_types_def)
  then obtain w1 where w1: "upd_chunk ?f a w = Some w1" "client_inv w1 Q" "get_chunk w1 = (get_chunk w)(a \<mapsto> ?f ?c)"
    "core w1 = core w" "kept w w1"
    using inv_updE [OF assms(1,2), of ?f thesis] assms(3) by (auto simp: is_ping_def zero_chunk_def)
  have "get_chunk w1 a = Some (?f ?c)" using w1(3) by simp
  then obtain w2 where w2: "iot_mqtt_queue_push WRITE_PENDING a w1 = Some (0, w2)"
    "client_inv w2 (Q(WRITE_PENDING := Q WRITE_PENDING @ [a]))" "get_chunk w2 = get_chunk w1" "core w2 = core w1" "kept w1 w2"
    using inv_pushE [OF w1(2) _ assms(3), of "?f ?c" WRITE_PENDING thesis] by (auto simp: zero_chunk_def)
  have "submit_owned t d a w = Some (Inr a, w2)" using w1(1) w2(1) by (simp add: submit_owned_def)
  then show thesis using that [of w2] w1 w2 kept_trans [of w w1 w2] by simp
qed

text \<open>The outcome of a blocking operation up to its wait.\<close>

definition safe_begin :: "'n world \<Rightarrow> (begun \<times> 'n world) option \<Rightarrow> bool" where
  "safe_begin w r \<longleftrightarrow> (\<exists>b w' Q'. r = Some (b, w') \<and> client_inv w' Q' \<and> kept w w')"

lemma safe_beginI: "r = Some (b, w') \<Longrightarrow> client_inv w' Q' \<Longrightarrow> kept w w' \<Longrightarrow> safe_begin w r"
  unfolding safe_begin_def by blast

lemma inv_live: "client_inv w Q \<Longrightarrow> live_client w"
  by (elim inv_client) (simp add: live_client_def)

lemma next_packetid_inv:
  assumes "client_inv w Q"
  shows "client_inv (upd_client (\<lambda>c. c\<lparr>next_packetid := i\<rparr>) w) Q"
proof (rule inv_upd_client [OF assms])
  show "get_queue k (c\<lparr>next_packetid := i\<rparr>) = get_queue k c" for k c by (cases k) simp_all
qed (simp_all add: client_ok_def)

lemma packet_begin_safe:
  assumes "client_inv w Q" and "t \<in> own_types" and "0 < sz"
    and ser: "\<And>x i. length x = nat sz \<Longrightarrow> \<exists>rc d. serialize x i = Some (rc, d) \<and> length d = nat sz"
  shows "safe_begin w (packet_begin t sz serialize w)"
proof (cases rule: inv_createE [OF assms(1), of "nat sz"])
  case (1 w1)
  then show ?thesis by (intro safe_beginI [of _ _ w1 Q]) (simp_all add: packet_begin_def)
next
  case (2 a w1 y)
  obtain x where x: "y = Some x" "length x = nat sz" using 2(8) assms(3) by auto
  obtain c where c: "w_cli w1 = Some c" using 2(2) by (rule inv_client)
  define i where "i = fresh_packetid (next_packetid c)"
  let ?w1 = "upd_client (\<lambda>c. c\<lparr>next_packetid := i\<rparr>) w1" and ?f = "\<lambda>c :: chunk. c\<lparr>packet_id := i\<rparr>"
  let ?z = "zero_chunk\<lparr>chunk_data := Some x, chunk_size := nat sz\<rparr>"
  have inv1: "client_inv ?w1 Q" by (rule next_packetid_inv [OF 2(2)])
  have a1: "get_chunk ?w1 a = Some ?z" using 2(7) x by simp
  have "chunk_wf (?f ?z)" using x(2) by (simp add: chunk_wf_def zero_chunk_def)
  then obtain w2 where w2: "upd_chunk ?f a ?w1 = Some w2" "client_inv w2 Q" "get_chunk w2 = (get_chunk ?w1)(a \<mapsto> ?f ?z)"
    "core w2 = core ?w1" "kept ?w1 w2"
    using inv_updE [OF inv1 a1, of ?f thesis] 2(5) by (auto simp: is_ping_def zero_chunk_def)
  obtain rc d where d: "serialize x (ucast i) = Some (rc, d)" "length d = nat sz" using ser [OF x(2)] by blast
  have a2: "get_chunk w2 a = Some (zero_chunk\<lparr>chunk_data := Some x, chunk_size := nat sz, packet_id := i\<rparr>)"
    using w2(3) by simp
  obtain w3 where w3: "submit_owned t d a w2 = Some (Inr a, w3)" "client_inv w3 (Q(WRITE_PENDING := Q WRITE_PENDING @ [a]))" "kept w2 w3"
    by (rule submit_owned_safe [OF w2(2) a2 2(5) assms(2) d(2)])
  have "packet_begin t sz serialize w = Some (Inr a, w3)"
    using 2(1) inv_live [OF 2(2)] c w2(1) a2 d(1) w3(1) by (simp add: packet_begin_def Let_def zero_chunk_def flip: i_def)
  moreover have "kept w w3" using 2(6) w2(5) w3(3) kept_trans [of w w2 w3] kept_trans [of w w1 w2] by simp
  ultimately show ?thesis using w3(2) by (intro safe_beginI)
qed

section \<open>Subscribing and unsubscribing\<close>

definition subscribe_ok :: "u8 list list \<Rightarrow> int list \<Rightarrow> bool" where
  "subscribe_ok topics qs \<longleftrightarrow> length qs = length topics \<and>
     (\<forall>i. length (subscribe_body i (wire_subs (zip (map (with_cstring \<circ> Some) topics) qs))) < 268435456)"

definition unsubscribe_ok :: "u8 list list \<Rightarrow> bool" where
  "unsubscribe_ok topics \<longleftrightarrow>
     (\<forall>i. length (unsubscribe_body i (map (mqtt_bytes \<circ> with_cstring \<circ> Some) topics)) < 268435456)"

lemma world_malloc_inv:
  assumes "client_inv w Q"
  obtains (failed) w' where "world_malloc w = (None, w')" "client_inv w' Q" "kept w w'"
  | (made) d w' where "world_malloc w = (Some d, w')" "client_inv w' Q" "kept w w'"
proof (cases rule: world_malloc_spec [OF invD(1) [OF assms]])
  case (1 w')
  then have "client_inv w' Q" using assms unfolding client_inv_def by metis
  then show thesis using failed 1 kept_same by blast
next
  case (2 d w')
  then have "client_inv w' Q" using assms unfolding client_inv_def by metis
  then show thesis using made 2 kept_same by blast
qed

lemma safe_begin_from: "safe_begin w1 r \<Longrightarrow> kept w w1 \<Longrightarrow> safe_begin w r"
  unfolding safe_begin_def using kept_trans by blast

lemma subscribe_begin_safe:
  assumes "client_inv w Q" and "subscribe_ok topics qs"
  shows "safe_begin w (subscribe_begin topics qs w)"
proof (cases rule: world_malloc_inv [OF assms(1)])
  case (1 w1)
  then show ?thesis
    using assms(1) by (cases "topics = []") (auto simp: subscribe_begin_def intro!: safe_beginI)
next
  case (2 d w1)
  let ?T = "map (with_cstring \<circ> Some) topics"
  let ?s = "zip ?T qs" and ?sz = "MQTTSerialize_subscribe_size ?T"
  have sel: "map fst ?s = ?T" "map snd ?s = qs" using assms(2) by (simp_all add: subscribe_ok_def)
  have ok: "\<forall>(t, q)\<in>set ?s. mqtt_string_ok t" by (auto dest!: set_zip_leftD)
  have len: "length (subscribe_body i (wire_subs ?s)) < 268435456" for i using assms(2) by (simp add: subscribe_ok_def)
  have fits: "int (length (subscribe_packet 0 i (wire_subs ?s))) \<le> ?sz" for i
    using subscribe_msg.pkt_size [of "(0, i, ?s)"] ok len unfolding sel by (simp add: sel)
  have "0 < int (length (subscribe_packet 0 0 (wire_subs ?s)))" by (simp add: subscribe_packet_def packet_bytes_def)
  with fits [of 0] have pos: "0 < ?sz" by linarith
  have "safe_begin w1 (packet_begin SUBSCRIBE ?sz (\<lambda>d pid. MQTTSerialize_subscribe d ?sz 0 pid ?T qs) w1)"
  proof (rule packet_begin_safe [OF 2(2) _ pos])
    fix x :: "u8 list" and i
    assume "length x = nat ?sz"
    then show "\<exists>rc d. MQTTSerialize_subscribe x ?sz 0 i ?T qs = Some (rc, d) \<and> length d = nat ?sz"
      using subscribe_msg.ser_safe [of "(0, i, ?s)" ?sz x] ok len pos by (auto simp: sel)
  qed (simp add: own_types_def)
  then have "safe_begin w (packet_begin SUBSCRIBE ?sz (\<lambda>d pid. MQTTSerialize_subscribe d ?sz 0 pid ?T qs) w1)"
    using 2(3) by (rule safe_begin_from)
  then show ?thesis
    using 2(1) assms(1) by (auto simp: subscribe_begin_def Let_def intro!: safe_beginI [of _ _ w Q])
qed

lemma unsubscribe_begin_safe:
  assumes "client_inv w Q" and "unsubscribe_ok topics"
  shows "safe_begin w (unsubscribe_begin topics w)"
proof (cases rule: world_malloc_inv [OF assms(1)])
  case (1 w1)
  then show ?thesis
    using assms(1) by (cases "topics = []") (auto simp: unsubscribe_begin_def intro!: safe_beginI)
next
  case (2 d w1)
  let ?T = "map (with_cstring \<circ> Some) topics"
  let ?sz = "MQTTSerialize_unsubscribe_size ?T"
  have ok: "\<forall>t\<in>set ?T. mqtt_string_ok t" by auto
  have len: "length (unsubscribe_body i (map mqtt_bytes ?T)) < 268435456" for i
    using assms(2) by (simp add: unsubscribe_ok_def comp_assoc)
  have fits: "int (length (unsubscribe_packet 0 i (map mqtt_bytes ?T))) \<le> ?sz" for i
    using unsubscribe_msg.pkt_size [of "(0, i, ?T)"] ok len by simp
  have "0 < int (length (unsubscribe_packet 0 0 (map mqtt_bytes ?T)))"
    by (simp add: unsubscribe_packet_def packet_bytes_def)
  with fits [of 0] have pos: "0 < ?sz" by linarith
  have "safe_begin w1 (packet_begin UNSUBSCRIBE ?sz (\<lambda>d pid. MQTTSerialize_unsubscribe d ?sz 0 pid ?T) w1)"
  proof (rule packet_begin_safe [OF 2(2) _ pos])
    fix x :: "u8 list" and i
    assume "length x = nat ?sz"
    then show "\<exists>rc d. MQTTSerialize_unsubscribe x ?sz 0 i ?T = Some (rc, d) \<and> length d = nat ?sz"
      using unsubscribe_msg.ser_safe [of "(0, i, ?T)" ?sz x] ok len pos by auto
  qed (simp add: own_types_def)
  then have "safe_begin w (packet_begin UNSUBSCRIBE ?sz (\<lambda>d pid. MQTTSerialize_unsubscribe d ?sz 0 pid ?T) w1)"
    using 2(3) by (rule safe_begin_from)
  then show ?thesis
    using 2(1) assms(1) by (auto simp: unsubscribe_begin_def Let_def intro!: safe_beginI [of _ _ w Q])
qed

section \<open>Disconnecting\<close>

lemma disconnect_begin_safe:
  assumes "client_inv w Q"
  shows "safe_begin w (disconnect_begin w)"
proof (cases rule: inv_createE [OF assms, of MQTT_DISCONNECT_PACKET_SIZE])
  case (1 w1)
  then show ?thesis by (intro safe_beginI [of _ _ w1 Q]) (simp_all add: disconnect_begin_def)
next
  case (2 a w1 y)
  obtain x where x: "y = Some x" "length x = 2" using 2(8) by auto
  have ser: "MQTTSerialize_disconnect x 2 = Some (2, zero_packet DISCONNECT)"
    using zero_msg.ser_fits [of 2 x DISCONNECT] x(2) by (simp add: MQTTSerialize_disconnect_def)
  have a1: "get_chunk w1 a = Some (zero_chunk\<lparr>chunk_data := y, chunk_size := 2, packet_id := 0\<rparr>)"
    using 2(7) by (simp add: zero_chunk_def)
  obtain w2 where w2: "submit_owned DISCONNECT (zero_packet DISCONNECT) a w1 = Some (Inr a, w2)"
    "client_inv w2 (Q(WRITE_PENDING := Q WRITE_PENDING @ [a]))" "kept w1 w2"
    by (rule submit_owned_safe [OF 2(2) a1 2(5), of DISCONNECT "zero_packet DISCONNECT"]) (simp_all add: own_types_def)
  have "disconnect_begin w = Some (Inr a, w2)"
    using 2(1) a1 x(1) ser inv_live [OF 2(2)] w2(1) by (simp add: disconnect_begin_def zero_chunk_def)
  then show ?thesis using w2(2) kept_trans [OF 2(6) w2(3)] by (intro safe_beginI)
qed

section \<open>Waiting\<close>

text \<open>
  One round of the wait for an owned chunk. When the cycle failed, the code takes the first queued chunk
  with the type and the identifier of the waiting one out of the queue and frees the waiting one: that is
  the same chunk only as long as no other chunk carries this type and identifier.
\<close>

definition sole_chunk :: "'n world \<Rightarrow> nat \<Rightarrow> bool" where
  "sole_chunk w a \<longleftrightarrow> (\<exists>ch. get_chunk w a = Some ch \<and> have_owner ch \<and> \<not> is_ping ch \<and>
     (\<forall>b c. get_chunk w b = Some c \<and> packet_type c = packet_type ch \<and> packet_id c = packet_id ch \<longrightarrow> b = a))"

lemma wait_pop_safe:
  assumes "client_inv w Q" and "get_chunk w a = Some ch" and "sole_chunk w a"
    and "chunk_state ch = PACKET_CHUNK_WRITE_PENDING \<or> chunk_state ch = PACKET_CHUNK_ACK_PENDING"
    and "k = (if chunk_state ch = PACKET_CHUNK_WRITE_PENDING then WRITE_PENDING else ACK_PENDING)"
  obtains tmp w1 Q1 where "iot_mqtt_queue_pop_by_type_and_id k (packet_type ch) (packet_id ch) w = Some (tmp, w1)"
    "client_inv w1 Q1" "kept w w1" "get_chunk w1 a = Some ch" "tmp \<noteq> None \<longrightarrow> (\<forall>l. a \<notin> set (Q1 l))"
proof (cases rule: inv_pop_byE [OF assms(1), of k "\<lambda>c. packet_type c = packet_type ch \<and> packet_id c = packet_id ch"])
  case 1
  then show ?thesis using that [of None w Q] assms by (simp add: iot_mqtt_queue_pop_by_type_and_id_def)
next
  case (2 ys b zs w1 cb)
  have "b = a" using assms(2,3) 2(3,6,9) by (auto simp: sole_chunk_def)
  show ?thesis
  proof (rule that [OF _ 2(5,8)])
    show "iot_mqtt_queue_pop_by_type_and_id k (packet_type ch) (packet_id ch) w = Some (Some b, w1)"
      unfolding iot_mqtt_queue_pop_by_type_and_id_def by (rule 2(4))
    show "get_chunk w1 a = Some ch" using 2(6) assms(2) by simp
    show "Some b \<noteq> None \<longrightarrow> (\<forall>l. a \<notin> set ((Q(k := ys @ zs)) l))" using 2(11) \<open>b = a\<close> by blast
  qed
qed

lemma wait_check_safe:
  assumes "client_inv w Q" and "sole_chunk w a"
  shows "\<exists>r w1 Q1. wait_check P rc a w = Some (r, w1) \<and> client_inv w1 Q1 \<and> kept w w1
    \<and> (\<exists>c. get_chunk w1 a = Some c \<and> \<not> is_ping c) \<and> (r \<noteq> None \<longrightarrow> (\<forall>k. a \<notin> set (Q1 k)))"
proof -
  obtain ch where ch: "get_chunk w a = Some ch" "have_owner ch" "\<not> is_ping ch"
    using assms(2) by (auto simp: sole_chunk_def)
  show ?thesis
  proof (cases "chunk_state ch = PACKET_CHUNK_WRITE_PENDING \<or> chunk_state ch = PACKET_CHUNK_ACK_PENDING")
    case True
    obtain tmp w1 Q1 where "iot_mqtt_queue_pop_by_type_and_id
        (if chunk_state ch = PACKET_CHUNK_WRITE_PENDING then WRITE_PENDING else ACK_PENDING)
        (packet_type ch) (packet_id ch) w = Some (tmp, w1)"
      "client_inv w1 Q1" "kept w w1" "get_chunk w1 a = Some ch" "tmp \<noteq> None \<longrightarrow> (\<forall>l. a \<notin> set (Q1 l))"
      by (rule wait_pop_safe [OF assms(1) ch(1) assms(2) True refl])
    then show ?thesis using True ch assms(1) by (auto simp: wait_check_def)
  next
    case False
    then have "\<forall>k. a \<notin> set (Q k)" using inv_out [OF assms(1) ch(1,2)] by blast
    then show ?thesis using False ch assms(1) by (auto simp: wait_check_def split: packet_chunk_state.splits)
  qed
qed

lemma wait_destroy_safe:
  assumes "client_inv w Q" and "sole_chunk w a" and "wait_check P rc a w = Some (Some r, w1)"
  shows "\<exists>w2 Q2. iot_mqtt_chunk_destroy (Some a) w1 = Some w2 \<and> client_inv w2 Q2
    \<and> w_queue w2 = w_queue w \<and> w_qmem w2 = w_qmem w"
proof -
  obtain Q1 c where 1: "client_inv w1 Q1" "kept w w1" "get_chunk w1 a = Some c" "\<not> is_ping c" "\<forall>k. a \<notin> set (Q1 k)"
    using wait_check_safe [OF assms(1,2), of P rc] assms(3) by auto
  obtain w2 where "iot_mqtt_chunk_destroy (Some a) w1 = Some w2" "client_inv w2 Q1" "core w2 = core w1"
    by (rule inv_destroyE [OF 1(1,3,5,4)])
  then show ?thesis using 1(2) coreD(4,5) [of w2 w1] by (auto simp: kept_def)
qed

end
