(* ===== verification/Mqtt_Connection.thy ===== *)
theory Mqtt_Connection
  imports Mqtt_Submit
begin

text \<open>
  Connecting. Between \<open>_iot_mqtt_connect_net\<close>, which sets \<open>isconnected\<close>, and the creation of the two
  keep alive timers the client is not in a state the work cycle expects, so the invariant is followed on
  the same state with the flag cleared: nothing between the two reads the flag.
\<close>

abbreviation set_conn :: "bool \<Rightarrow> 'n world \<Rightarrow> 'n world" where
  "set_conn b w \<equiv> upd_client (\<lambda>c. c\<lparr>isconnected := b\<rparr>) w"

lemma upd_client_commute:
  "upd_client f (set_conn b w) = set_conn b (upd_client f w)"
  if "\<And>c. f (c\<lparr>isconnected := b\<rparr>) = (f c)\<lparr>isconnected := b\<rparr>"
  using that by (cases "w_cli w") (simp_all add: upd_client_def)

lemma upd_client_mem [simp]: "upd_client f (w\<lparr>w_mem := m\<rparr>) = (upd_client f w)\<lparr>w_mem := m\<rparr>"
  "upd_client f (w\<lparr>w_net := n\<rparr>) = (upd_client f w)\<lparr>w_net := n\<rparr>"
  by (simp_all add: upd_client_def)

lemma chunk_create_conn:
  "iot_mqtt_chunk_create sz (set_conn b w) = map_prod id (set_conn b) (iot_mqtt_chunk_create sz w)"
  by (auto simp: iot_mqtt_chunk_create_def world_malloc_def fresh_bytes_def upd_client_def Let_def
      split: option.splits prod.splits)

lemma upd_chunk_conn: "upd_chunk f a (set_conn b w) = map_option (set_conn b) (upd_chunk f a w)"
  by (cases "cells (w_mem w) a") (auto simp: upd_chunk_def upd_client_def)

lemma chunk_destroy_conn: "iot_mqtt_chunk_destroy (Some a) (set_conn b w) = map_option (set_conn b) (iot_mqtt_chunk_destroy (Some a) w)"
  by (cases "cells (w_mem w) a") (auto simp: iot_mqtt_chunk_destroy_def upd_client_def iot_os_free_def)

lemma new_timer_conn: "new_timer P ms (set_conn b w) = map_prod id (set_conn b) (new_timer P ms w)"
  by (auto simp: new_timer_def iot_os_timer_create_def iot_os_timer_start_def upd_client_def split: prod.splits option.splits)

lemma queue_push_conn:
  "iot_mqtt_queue_push k a (set_conn b w) = map_option (map_prod id (set_conn b)) (iot_mqtt_queue_push k a w)"
proof -
  have "get_queue k (c\<lparr>isconnected := b\<rparr>) = get_queue k c" "set_queue k q (c\<lparr>isconnected := b\<rparr>) = (set_queue k q c)\<lparr>isconnected := b\<rparr>" for c q
    by (cases k; simp)+
  then show ?thesis
    by (cases "w_cli w"; cases "link_push (cells (w_mem w)) (get_queue k (the (w_cli w))) a")
      (auto simp: iot_mqtt_queue_push_def put_queue_def upd_client_def)
qed

lemmas conn_simps = chunk_create_conn upd_chunk_conn chunk_destroy_conn new_timer_conn queue_push_conn

section \<open>The timers\<close>

lemma upd_timers_conn:
  "upd_client (\<lambda>c. c\<lparr>keep_alive := x\<rparr>) (set_conn b w) = set_conn b (upd_client (\<lambda>c. c\<lparr>keep_alive := x\<rparr>) w)"
  "upd_client (\<lambda>c. c\<lparr>last_sent := t\<rparr>) (set_conn b w) = set_conn b (upd_client (\<lambda>c. c\<lparr>last_sent := t\<rparr>) w)"
  "upd_client (\<lambda>c. c\<lparr>last_received := t\<rparr>) (set_conn b w) = set_conn b (upd_client (\<lambda>c. c\<lparr>last_received := t\<rparr>) w)"
  by (rule upd_client_commute, simp)+

lemma connect_timers_conn: "connect_timers P ka (set_conn b w) = map_prod id (set_conn b) (connect_timers P ka w)"
proof -
  let ?ms = "unat (ka * 1000)" and ?w1 = "upd_client (\<lambda>c. c\<lparr>keep_alive := ka\<rparr>) w"
  obtain ts w2 where ts: "new_timer P ?ms ?w1 = (ts, w2)" by fastforce
  obtain tr w3 where tr: "new_timer P ?ms (upd_client (\<lambda>c. c\<lparr>last_sent := ts\<rparr>) w2) = (tr, w3)" by fastforce
  show ?thesis by (simp add: connect_timers_def Let_def upd_timers_conn new_timer_conn ts tr)
qed

lemma disconnected_upd:
  assumes "client_inv w Q" and "\<not> conn w" and "\<And>c k. get_queue k (f c) = get_queue k c"
    and "\<And>c. ping_packet (f c) = ping_packet c" "\<And>c. isconnected (f c) = isconnected c" "\<And>c. magic (f c) = magic c"
      "\<And>c. client_manage_lock (f c) = client_manage_lock c" "\<And>c. write_lock (f c) = write_lock c"
      "\<And>c. read_lock (f c) = read_lock c"
  shows "client_inv (upd_client f w) Q" "\<not> conn (upd_client f w)"
proof -
  show "\<not> conn (upd_client f w)" using assms(2,5) by (auto simp: conn_def)
  show "client_inv (upd_client f w) Q"
    using assms queues_upd_client [OF invD(1) [OF assms(1)], of f]
    by (auto simp: client_inv_def ping_ok_def client_ok_def conn_def)
qed

lemma connect_timers_safe:
  assumes "client_inv w Q" and "\<not> conn w"
  obtains ok w' where "connect_timers P ka w = (ok, w')" "client_inv w' Q" "\<not> conn w'" "kept w w'"
    "get_chunk w' = get_chunk w" "ok \<longrightarrow> (\<exists>c. w_cli w' = Some c \<and> last_sent c \<noteq> None \<and> last_received c \<noteq> None)"
proof -
  have get: "get_queue k (c\<lparr>keep_alive := x\<rparr>) = get_queue k c" "get_queue k (c\<lparr>last_sent := t\<rparr>) = get_queue k c"
    "get_queue k (c\<lparr>last_received := t\<rparr>) = get_queue k c" for k c x t by (cases k; simp)+
  let ?w1 = "upd_client (\<lambda>c. c\<lparr>keep_alive := ka\<rparr>) w"
  have i1: "client_inv ?w1 Q" "\<not> conn ?w1" using disconnected_upd [OF assms, of "\<lambda>c. c\<lparr>keep_alive := ka\<rparr>"] get by simp_all
  obtain ts n where ts: "new_timer P (unat (ka * 1000)) ?w1 = (ts, ?w1\<lparr>w_net := n\<rparr>)"
    using new_timer_eq [of P "unat (ka * 1000)" ?w1] by (elim exE)
  let ?w2 = "upd_client (\<lambda>c. c\<lparr>last_sent := ts\<rparr>) (?w1\<lparr>w_net := n\<rparr>)"
  have i2: "client_inv ?w2 Q" "\<not> conn ?w2"
    using disconnected_upd [of "?w1\<lparr>w_net := n\<rparr>" Q "\<lambda>c. c\<lparr>last_sent := ts\<rparr>"] i1 get by simp_all
  obtain tr n' where tr: "new_timer P (unat (ka * 1000)) ?w2 = (tr, ?w2\<lparr>w_net := n'\<rparr>)"
    using new_timer_eq [of P "unat (ka * 1000)" ?w2] by (elim exE)
  let ?w3 = "upd_client (\<lambda>c. c\<lparr>last_received := tr\<rparr>) (?w2\<lparr>w_net := n'\<rparr>)"
  have i3: "client_inv ?w3 Q" "\<not> conn ?w3"
    using disconnected_upd [of "?w2\<lparr>w_net := n'\<rparr>" Q "\<lambda>c. c\<lparr>last_received := tr\<rparr>"] i2 get by simp_all
  obtain c where c: "w_cli w = Some c" using assms(1) by (rule inv_client)
  have eq: "connect_timers P ka w = (if ts = None then (False, ?w2) else (tr \<noteq> None, ?w3))"
    by (simp add: connect_timers_def Let_def ts tr del: upd_client_mem)
  show thesis
  proof (cases "ts = None")
    case True
    then show ?thesis using that [of False ?w2] i2 eq by simp
  next
    case False
    have "\<exists>c. w_cli ?w3 = Some c \<and> last_sent c = ts \<and> last_received c = tr" using c by (simp add: upd_client_def)
    moreover have "connect_timers P ka w = (tr \<noteq> None, ?w3)" using eq False by (simp only: if_False)
    moreover have "kept w ?w3" "get_chunk ?w3 = get_chunk w" by simp_all
    ultimately show ?thesis using that [of "tr \<noteq> None" ?w3] i3 False by blast
  qed
qed

lemma core_timers:
  assumes "w_cli w = Some c" and "last_sent c \<noteq> None \<and> last_received c \<noteq> None"
    and "map_option client_core (w_cli w') = map_option client_core (w_cli w)"
  shows "\<exists>c. w_cli w' = Some c \<and> last_sent c \<noteq> None \<and> last_received c \<noteq> None"
proof -
  obtain c' where c': "w_cli w' = Some c'" "client_core c' = client_core c" using assms(1,3) by auto
  show ?thesis using client_coreD(6,7) [OF c'(2)] c'(1) assms(2) by simp
qed

section \<open>The connect packet\<close>

lemma connect_begin_safe:
  assumes "client_inv w Q" and "\<not> conn w" and "connect_ok opts"
  obtains r w' Q' where "\<forall>b. connect_begin P opts (set_conn b w) = Some (r, set_conn b w')" "client_inv w' Q'"
    "\<not> conn w'" "kept w w'"
    "case r of Inl e \<Rightarrow> e < 0 | Inr a \<Rightarrow> \<exists>c. w_cli w' = Some c \<and> last_sent c \<noteq> None \<and> last_received c \<noteq> None"
proof -
  let ?sz = "MQTTSerialize_connect_size opts"
  have fits: "int (length (connect_packet opts)) \<le> ?sz" by (rule connect_msg.pkt_size [OF assms(3)])
  have "0 < int (length (connect_packet opts))" by (simp add: connect_packet_def packet_bytes_def)
  with fits have pos: "0 < ?sz" by linarith
  show thesis
  proof (cases rule: inv_createE [OF assms(1), of "nat ?sz"])
    case (1 w1)
    then show ?thesis
      using that [of "Inl E_ST_MQTT_BUFFER_OVERFLOW" w1 Q] assms(2) conn_core [OF 1(4)]
      by (simp add: connect_begin_def chunk_create_conn Let_def)
  next
    case (2 a w1 y)
    obtain x where x: "y = Some x" "length x = nat ?sz" using 2(8) pos by auto
    obtain rc d where d: "MQTTSerialize_connect x ?sz opts = Some (rc, d)" "length d = nat ?sz"
      using connect_msg.ser_safe [OF assms(3), of ?sz x] x(2) pos by auto
    let ?z = "zero_chunk\<lparr>chunk_data := Some x, chunk_size := nat ?sz\<rparr>"
    let ?f = "\<lambda>c. c\<lparr>chunk_data := Some d, packet_type := msg_code CONNECT, have_owner := True\<rparr>"
    have a1: "get_chunk w1 a = Some ?z" using 2(7) x by simp
    have "chunk_wf (?f ?z)" using d(2) by (simp add: chunk_wf_def zero_chunk_def owned_types_def)
    then obtain w2 where w2: "upd_chunk ?f a w1 = Some w2" "client_inv w2 Q" "get_chunk w2 = (get_chunk w1)(a \<mapsto> ?f ?z)"
      "core w2 = core w1" "kept w1 w2"
      using inv_updE [OF 2(2) a1, of ?f thesis] 2(5) by (auto simp: is_ping_def zero_chunk_def)
    have nc2: "\<not> conn w2" using assms(2) conn_core [OF 2(3)] conn_core [OF w2(4)] by simp
    obtain c2 where c2: "w_cli w2 = Some c2" "magic c2 = MQTT_CLIENT_STRUCT_MAGIC_NUMBER" using w2(2) by (rule inv_client)
    obtain ok w3 where w3: "connect_timers P (ucast (keepAliveInterval opts)) w2 = (ok, w3)" "client_inv w3 Q" "\<not> conn w3"
      "kept w2 w3" "get_chunk w3 = get_chunk w2" "ok \<longrightarrow> (\<exists>c. w_cli w3 = Some c \<and> last_sent c \<noteq> None \<and> last_received c \<noteq> None)"
      by (rule connect_timers_safe [OF w2(2) nc2])
    have k3: "kept w w3" using kept_trans [OF kept_trans [OF 2(6) w2(5)] w3(4)] .
    have upto: "connect_begin P opts (set_conn b w) = (if \<not> ok then Some (Inl E_ST_MQTT_FAILURE, set_conn b w3)
        else do {
          w \<leftarrow> upd_chunk (\<lambda>c. c\<lparr>chunk_state := PACKET_CHUNK_WRITE_PENDING\<rparr>) a (set_conn b w3);
          (_, w) \<leftarrow> iot_mqtt_queue_push WRITE_PENDING a w;
          Some (Inr a, w) })" for b
      using 2(1) a1 d(1) w2(1) c2 w3(1)
      by (simp add: connect_begin_def Let_def chunk_create_conn upd_chunk_conn connect_timers_conn zero_chunk_def)
    show ?thesis
    proof (cases ok)
      case False
      then show ?thesis using that [of "Inl E_ST_MQTT_FAILURE" w3 Q] upto w3(2,3) k3 by simp
    next
      case True
      let ?g = "\<lambda>c. c\<lparr>chunk_state := PACKET_CHUNK_WRITE_PENDING\<rparr>"
      have a3: "get_chunk w3 a = Some (?f ?z)" using w3(5) w2(3) by simp
      obtain w4 where w4: "upd_chunk ?g a w3 = Some w4" "client_inv w4 Q" "get_chunk w4 = (get_chunk w3)(a \<mapsto> ?g (?f ?z))"
        "core w4 = core w3" "kept w3 w4"
        using inv_upd_metaE [OF w3(2) a3 2(5), of ?g thesis] by simp
      have a4: "get_chunk w4 a = Some (?g (?f ?z))" using w4(3) by simp
      obtain w5 where w5: "iot_mqtt_queue_push WRITE_PENDING a w4 = Some (0, w5)"
        "client_inv w5 (Q(WRITE_PENDING := Q WRITE_PENDING @ [a]))" "core w5 = core w4" "kept w4 w5"
        by (rule inv_pushE [OF w4(2) a4 2(5), of WRITE_PENDING]) (simp add: zero_chunk_def)
      obtain c3 where "w_cli w3 = Some c3" "last_sent c3 \<noteq> None \<and> last_received c3 \<noteq> None" using w3(6) True by blast
      moreover have "map_option client_core (w_cli w5) = map_option client_core (w_cli w3)"
        using coreD(8) [OF w5(3)] coreD(8) [OF w4(4)] by simp
      ultimately have "\<exists>c. w_cli w5 = Some c \<and> last_sent c \<noteq> None \<and> last_received c \<noteq> None"
        by (rule core_timers)
      moreover have "\<not> conn w5" using w3(3) conn_core [OF w4(4)] conn_core [OF w5(3)] by simp
      ultimately show ?thesis
        using that [of "Inr a" w5 "Q(WRITE_PENDING := Q WRITE_PENDING @ [a])"] upto True w4(1) w5(1,2)
          kept_trans [OF k3 kept_trans [OF w4(5) w5(4)]]
        by (simp add: upd_chunk_conn queue_push_conn)
    qed
  qed
qed

section \<open>The connection\<close>

text \<open>Opening the connection changes nothing but the connection flag and the network context.\<close>

lemma connect_net_cases:
  assumes "client_inv w Q" and "iot_mqtt_connect_net P broker w = (rc, w1)"
  obtains (refused) "rc < 0" "client_inv w1 Q" "kept w w1"
  | (opened) w0 where "rc = 0" "w1 = set_conn True w0" "client_inv w0 Q" "\<not> conn w0" "kept w w0"
proof -
  obtain c where c: "w_cli w = Some c" "magic c = MQTT_CLIENT_STRUCT_MAGIC_NUMBER" "read_lock c" "write_lock c"
    using assms(1) by (rule inv_client)
  let ?v = "if net_ctx c then (upd_client (\<lambda>c. c\<lparr>net_ctx := False\<rparr>) w)\<lparr>w_net := port_net_free P (w_net w)\<rparr> else w"
  have get: "get_queue k (c\<lparr>net_ctx := b\<rparr>) = get_queue k c"
    "get_queue k (c\<lparr>net_ctx := True, isconnected := False\<rparr>) = get_queue k c" for k c b by (cases k; simp)+
  have v: "client_inv ?v Q" "kept w ?v"
    using inv_upd_client [OF assms(1), of "\<lambda>c. c\<lparr>net_ctx := False\<rparr>"] get assms(1) by (auto simp: client_ok_def)
  obtain ok n where n: "port_net_connect P (w_net ?v) (broker_url broker) (snprintf_port (broker_port broker)) = (ok, n)"
    by fastforce
  have eq: "iot_mqtt_connect_net P broker w = (if \<not> ok then (E_ST_MQTT_FAILURE, ?v\<lparr>w_net := n\<rparr>)
      else (0, (upd_client (\<lambda>c. c\<lparr>net_ctx := True, isconnected := True\<rparr>) ?v)\<lparr>w_net := n\<rparr>))"
    using c n by (simp add: iot_mqtt_connect_net_def Let_def del: upd_client_mem)
  let ?w0 = "(upd_client (\<lambda>c. c\<lparr>net_ctx := True, isconnected := False\<rparr>) ?v)\<lparr>w_net := n\<rparr>"
  have w0: "client_inv ?w0 Q" "kept w ?w0"
    using inv_upd_client [OF v(1), of "\<lambda>c. c\<lparr>net_ctx := True, isconnected := False\<rparr>"] get v(2)
    by (simp_all add: client_ok_def)
  have nc: "\<not> conn ?w0" by (auto simp: conn_def upd_client_def)
  have flag: "(upd_client (\<lambda>c. c\<lparr>net_ctx := True, isconnected := True\<rparr>) ?v)\<lparr>w_net := n\<rparr> = set_conn True ?w0"
    using c by (simp add: upd_client_def)
  show thesis
  proof (cases ok)
    case False
    then show ?thesis using refused v eq assms(2) by auto
  next
    case True
    then show ?thesis using opened [OF _ _ w0(1) nc w0(2)] flag eq assms(2) by (simp del: upd_client_mem)
  qed
qed

lemma inv_connected:
  assumes "client_inv w Q" and "\<exists>c. w_cli w = Some c \<and> last_sent c \<noteq> None \<and> last_received c \<noteq> None"
  shows "client_inv (set_conn True w) Q"
proof -
  have "queues (set_conn True w) Q"
  proof (rule queues_upd_client [OF invD(1) [OF assms(1)]])
    show "get_queue k (c\<lparr>isconnected := True\<rparr>) = get_queue k c" for k c by (cases k) simp_all
  qed
  then show ?thesis
    using assms by (auto simp: client_inv_def ping_ok_def client_ok_def upd_client_def)
qed

lemma clear_timers_inv:
  assumes "client_inv w Q" and "\<not> conn w"
  shows "client_inv (upd_client (\<lambda>c. c\<lparr>last_sent := None, last_received := None\<rparr>) w) Q"
proof (rule disconnected_upd(1) [OF assms])
  show "get_queue k (c\<lparr>last_sent := None, last_received := None\<rparr>) = get_queue k c" for k c by (cases k) simp_all
qed simp_all

lemma connect_exit_safe:
  assumes "client_inv w Q"
  shows "\<exists>w'. connect_exit P rc w = Some w' \<and> client_inv w' Q \<and> kept w w'"
proof (cases "rc < 0")
  case True
  obtain w1 where "iot_mqtt_close_net P w = Some w1" "client_inv w1 Q" "kept w w1" "\<not> conn w1"
    by (rule close_net_safe [OF assms])
  then show ?thesis using True clear_timers_inv by (simp add: connect_exit_def)
next
  case False
  have "client_inv (upd_client (\<lambda>c. c\<lparr>socket_thread := True\<rparr>) w) Q"
  proof (rule inv_upd_client [OF assms])
    show "get_queue k (c\<lparr>socket_thread := True\<rparr>) = get_queue k c" for k c by (cases k) simp_all
  qed (simp_all add: client_ok_def)
  then show ?thesis using False by (simp add: connect_exit_def)
qed

text \<open>Leaving \<open>st_mqtt_connect\<close> while the timers may be missing closes the connection first.\<close>

lemma connect_exit_pending:
  assumes "client_inv w Q" and "\<not> conn w" and "rc < 0"
  shows "\<exists>w'. connect_exit P rc (set_conn True w) = Some w' \<and> client_inv w' Q \<and> kept w w' \<and> \<not> conn w'"
proof -
  obtain c where c: "w_cli w = Some c" "read_lock c" "write_lock c" using assms(1) by (rule inv_client)
  have "c\<lparr>isconnected := False\<rparr> = c" using c(1) assms(2) by (simp add: conn_def)
  then have "upd_client (\<lambda>c. c\<lparr>isconnected := False\<rparr>) (set_conn True w) = w"
    using c(1) by (simp add: upd_client_def)
  then have "iot_mqtt_close_net P (set_conn True w) = Some (w\<lparr>w_net := port_net_close P (w_net w)\<rparr>)"
    using c by (simp add: iot_mqtt_close_net_def upd_client_def)
  then show ?thesis using assms clear_timers_inv [OF assms(1,2)]
    by (simp add: connect_exit_def) (simp add: conn_def upd_client_def c(1))
qed

lemma connect_safe:
  assumes "client_inv w Q" and "iot_mqtt_connect_net P broker w = (0, w1)" and "connect_ok opts"
  shows "\<exists>b w2 Q2. connect_begin P opts w1 = Some (b, w2) \<and> kept w w2 \<and>
    (case b of Inl rc \<Rightarrow> rc < 0 \<and> (\<exists>w3. connect_exit P rc w2 = Some w3 \<and> client_inv w3 Q2 \<and> kept w2 w3)
     | Inr a \<Rightarrow> client_inv w2 Q2)"
  using assms(1,2)
proof (cases rule: connect_net_cases)
  case refused
  then show ?thesis by simp
next
  case (opened w0)
  obtain r w2 Q2 where r: "\<forall>b. connect_begin P opts (set_conn b w0) = Some (r, set_conn b w2)" "client_inv w2 Q2"
    "\<not> conn w2" "kept w0 w2"
    "case r of Inl e \<Rightarrow> e < 0 | Inr a \<Rightarrow> \<exists>c. w_cli w2 = Some c \<and> last_sent c \<noteq> None \<and> last_received c \<noteq> None"
    by (rule connect_begin_safe [OF opened(3,4) assms(3)])
  have k: "kept w w2" by (rule kept_trans [OF opened(5) r(4)])
  show ?thesis
  proof (cases r)
    case (Inl rc)
    then have "rc < 0" using r(5) by simp
    obtain w3 where "connect_exit P rc (set_conn True w2) = Some w3" "client_inv w3 Q2" "kept w2 w3"
      using connect_exit_pending [OF r(2,3) \<open>rc < 0\<close>, of P] by blast
    then show ?thesis using r(1) \<open>rc < 0\<close> Inl k opened(2)
      by (intro exI [of _ r] exI [of _ "set_conn True w2"] exI [of _ Q2]) auto
  next
    case (Inr a)
    then have "client_inv (set_conn True w2) Q2" using r(5) by (intro inv_connected [OF r(2)]) simp
    then show ?thesis using r(1) Inr k opened(2)
      by (intro exI [of _ r] exI [of _ "set_conn True w2"] exI [of _ Q2]) simp
  qed
qed

section \<open>Changing the ping period\<close>

lemma change_ping_period_safe:
  assumes "client_inv w Q" and "\<And>n. fst (timer_create_ok P n)"
  shows "client_inv (st_mqtt_change_ping_period P ms w) Q \<and> kept w (st_mqtt_change_ping_period P ms w)"
proof -
  obtain c where c: "w_cli w = Some c" "magic c = MQTT_CLIENT_STRUCT_MAGIC_NUMBER" "client_manage_lock c"
    using assms(1) by (rule inv_client)
  have made: "\<exists>t n. new_timer P k v = (Some t, v\<lparr>w_net := n\<rparr>)" for k v
    using assms(2) [of "w_net v"]
    by (auto simp: new_timer_def iot_os_timer_create_def split: prod.splits)
  let ?w1 = "upd_client (\<lambda>c. c\<lparr>keep_alive := ms\<rparr>) w"
  obtain t n where t: "new_timer P (unat (ms * 1000)) ?w1 = (Some t, ?w1\<lparr>w_net := n\<rparr>)" using made by blast
  let ?w2 = "upd_client (\<lambda>c. c\<lparr>last_sent := Some t\<rparr>) (?w1\<lparr>w_net := n\<rparr>)"
  obtain t' n' where t': "new_timer P (unat (ms * 1000)) ?w2 = (Some t', ?w2\<lparr>w_net := n'\<rparr>)" using made by blast
  have get: "get_queue k (c\<lparr>keep_alive := x\<rparr>) = get_queue k c" "get_queue k (c\<lparr>last_sent := y\<rparr>) = get_queue k c"
    "get_queue k (c\<lparr>last_received := y\<rparr>) = get_queue k c" for k c x y by (cases k; simp)+
  have "client_inv ?w1 Q" by (rule inv_upd_client [OF assms(1)]) (simp_all add: get client_ok_def)
  then have "client_inv ?w2 Q" by (intro inv_upd_client) (simp_all add: get client_ok_def)
  then have "client_inv (upd_client (\<lambda>c. c\<lparr>last_received := Some t'\<rparr>) (?w2\<lparr>w_net := n'\<rparr>)) Q"
    by (intro inv_upd_client) (simp_all add: get client_ok_def)
  moreover have "st_mqtt_change_ping_period P ms w = upd_client (\<lambda>c. c\<lparr>last_received := Some t'\<rparr>) (?w2\<lparr>w_net := n'\<rparr>)"
    using c t t' by (simp add: st_mqtt_change_ping_period_def Let_def del: upd_client_mem)
  ultimately show ?thesis by simp
qed

end
