(* ===== verification/Mqtt_Reach.thy ===== *)
theory Mqtt_Reach
  imports Mqtt_Connection
begin

text \<open>
  Every state the program can bring a client into. A step is one call of the work cycle, of the reader
  thread or of the user callback loop, one round of a wait, a timer callback, the part of a public
  operation that runs before or after its wait, or a change of the platform. The threads of the program
  interleave at this grain: each step holds the client's locks while it touches the shared fields.
\<close>

section \<open>Steps\<close>

inductive client_step :: "'n port \<Rightarrow> 'n world \<Rightarrow> 'n world \<Rightarrow> bool" for P where
  cycle: "iot_mqtt_run_cycle P w = Some (rc, w') \<Longrightarrow> client_step P w w'"
| listen: "iot_mqtt_run_read_stream P w = Some (rc, w') \<Longrightarrow> client_step P w w'"
| callback: "iot_mqtt_process_user_callback P w = Some w' \<Longrightarrow> client_step P w w'"
| expire: "iot_mqtt_chunk_expire_timeout w = Some w' \<Longrightarrow> client_step P w w'"
| ping: "iot_mqtt_ping_timeout w = Some w' \<Longrightarrow> client_step P w w'"
| publish_async: "publish_request_ok msg \<Longrightarrow> st_mqtt_publish_async msg w = Some (rc, w') \<Longrightarrow> client_step P w w'"
| publish: "publish_request_ok msg \<Longrightarrow> iot_mqtt_push_publish_packet msg True w = Some (r, w') \<Longrightarrow> client_step P w w'"
| subscribe: "subscribe_ok topics qs \<Longrightarrow> subscribe_begin topics qs w = Some (b, w') \<Longrightarrow> client_step P w w'"
| unsubscribe: "unsubscribe_ok topics \<Longrightarrow> unsubscribe_begin topics w = Some (b, w') \<Longrightarrow> client_step P w w'"
| disconnect: "disconnect_begin w = Some (b, w') \<Longrightarrow> client_step P w w'"
| close: "iot_mqtt_close_net P w = Some w' \<Longrightarrow> client_step P w w'"
| connect_refused: "iot_mqtt_connect_net P broker w = (rc, w') \<Longrightarrow> rc < 0 \<Longrightarrow> client_step P w w'"
| connect: "connect_ok opts \<Longrightarrow> iot_mqtt_connect_net P broker w = (0, w1) \<Longrightarrow>
    connect_begin P opts w1 = Some (Inr a, w') \<Longrightarrow> client_step P w w'"
| connect_aborted: "connect_ok opts \<Longrightarrow> iot_mqtt_connect_net P broker w = (0, w1) \<Longrightarrow>
    connect_begin P opts w1 = Some (Inl rc, w2) \<Longrightarrow> connect_exit P rc w2 = Some w' \<Longrightarrow> client_step P w w'"
| connect_exit: "connect_exit P rc w = Some w' \<Longrightarrow> client_step P w w'"
| wait: "sole_chunk w a \<Longrightarrow> wait_check P rc a w = Some (None, w') \<Longrightarrow> client_step P w w'"
| wait_exit: "sole_chunk w a \<Longrightarrow> wait_check P rc a w = Some (Some r, w1) \<Longrightarrow>
    iot_mqtt_chunk_destroy (Some a) w1 = Some w' \<Longrightarrow> client_step P w w'"
| ping_period: "(\<And>n. fst (timer_create_ok P n)) \<Longrightarrow> client_step P w (st_mqtt_change_ping_period P ms w)"
| platform: "client_step P w (w\<lparr>w_net := n\<rparr>)"

inductive reachable :: "'n port \<Rightarrow> 'n world \<Rightarrow> bool" for P where
  created: "st_mqtt_create P True w = Some (0, w') \<Longrightarrow> cells (w_mem w) = Map.empty \<Longrightarrow> work_ok w \<Longrightarrow>
    reachable P w'"
| step: "reachable P w \<Longrightarrow> client_step P w w' \<Longrightarrow> reachable P w'"

inductive_cases client_stepE: "client_step P w w'"

section \<open>The invariant holds in every reachable state\<close>

definition good :: "'n world \<Rightarrow> bool" where
  "good w \<longleftrightarrow> (\<exists>Q. client_inv w Q) \<and> work_ok w"

lemma good_kept: "work_ok w \<Longrightarrow> client_inv w' Q' \<Longrightarrow> kept w w' \<Longrightarrow> good w'"
  using work_ok_kept by (auto simp: good_def)

lemma good_begin: "work_ok w \<Longrightarrow> safe_begin w (Some (b, w')) \<Longrightarrow> good w'"
  by (auto simp: safe_begin_def intro: good_kept)

lemma step_good:
  assumes "write_progress P" and "read_progress P" and "broker_ok P" and "client_step P w w'" and "good w"
  shows "good w'"
proof -
  obtain Q where inv: "client_inv w Q" and work: "work_ok w" using assms(5) by (auto simp: good_def)
  note keep = good_kept [OF work]
  from assms(4) show ?thesis
  proof (cases rule: client_step.cases)
    case (cycle rc)
    then show ?thesis using run_cycle_safe [OF inv assms(1-3)] keep by force
  next
    case (listen rc)
    then show ?thesis using run_read_stream_safe(1) [OF inv assms(2,3)] keep by (force simp: safe_stream_def)
  next
    case callback
    then show ?thesis using process_user_callback_safe [OF inv, of P] keep by force
  next
    case expire
    then show ?thesis using timer_callback_safe(1) [OF inv work] by (force simp: good_def)
  next
    case ping
    then show ?thesis using timer_callback_safe(2) [OF inv work] by (force simp: good_def)
  next
    case (publish_async msg rc)
    then show ?thesis using publish_async_safe [OF inv work] by (force simp: good_def)
  next
    case (publish msg r)
    show ?thesis by (cases rule: push_publish_safe [OF inv publish(1), of True]) (use publish(2) keep in auto)
  next
    case (subscribe topics qs b)
    then show ?thesis using subscribe_begin_safe [OF inv] good_begin [OF work] by metis
  next
    case (unsubscribe topics b)
    then show ?thesis using unsubscribe_begin_safe [OF inv] good_begin [OF work] by metis
  next
    case (disconnect b)
    then show ?thesis using disconnect_begin_safe [OF inv] good_begin [OF work] by metis
  next
    case close
    show ?thesis by (rule close_net_safe [OF inv, of P]) (use close keep in auto)
  next
    case (connect_refused broker rc)
    from inv connect_refused(1) show ?thesis
      by (cases rule: connect_net_cases) (use connect_refused(2) keep in auto)
  next
    case (connect opts broker w1 a)
    then show ?thesis using connect_safe [OF inv connect(2,1)] keep by auto
  next
    case (connect_aborted opts broker w1 rc w2)
    then obtain Q2 where "client_inv w' Q2" "kept w w2" "kept w2 w'"
      using connect_safe [OF inv connect_aborted(2,1)] by auto
    then show ?thesis using keep kept_trans by blast
  next
    case (connect_exit rc)
    then show ?thesis using connect_exit_safe [OF inv, of P rc] keep by auto
  next
    case (wait a rc)
    then show ?thesis using wait_check_safe [OF inv wait(1), of P rc] keep by auto
  next
    case (wait_exit a rc r w1)
    then show ?thesis using wait_destroy_safe [OF inv wait_exit(1,2)] work by (auto simp: good_def work_ok_def)
  next
    case (ping_period ms)
    then show ?thesis using change_ping_period_safe [OF inv, of P ms] keep by blast
  next
    case (platform n)
    then show ?thesis using inv work by (auto simp: good_def work_ok_def)
  qed
qed

lemma reachable_good:
  assumes "write_progress P" and "read_progress P" and "broker_ok P" and "reachable P w"
  shows "good w"
  using assms(4)
proof (induction rule: reachable.induct)
  case (created w w')
  then show ?case using create_establishes create_work_ok by (auto simp: good_def)
next
  case (step w w')
  then show ?case using step_good [OF assms(1-3)] by blast
qed

end
