(* ===== verification/Mqtt_Stream.thy ===== *)
theory Mqtt_Stream
  imports Mqtt_Submit
begin

text \<open>
  Reading a packet from a byte stream. The platform hands the bytes over in pieces of its own choice;
  the reader puts them together again into the packet the peer sent, whatever the pieces are.
\<close>

section \<open>A platform that delivers bytes\<close>

text \<open>
  \<open>delivers P n bs n'\<close>: asked for \<open>len\<close> bytes, the platform answers with between one and \<open>len\<close> of the next
  bytes, and is in state \<open>n'\<close> when all of \<open>bs\<close> have been handed over.
\<close>

inductive delivers :: "'n port \<Rightarrow> 'n \<Rightarrow> u8 list \<Rightarrow> 'n \<Rightarrow> bool" for P where
  all: "delivers P n [] n"
| piece: "bs \<noteq> [] \<Longrightarrow>
    (\<And>len. 0 < len \<Longrightarrow> \<exists>k n1. port_net_read P n len = (int k, take k bs, n1) \<and> 1 \<le> k \<and> k \<le> len
       \<and> k \<le> length bs \<and> delivers P n1 (drop k bs) n') \<Longrightarrow> delivers P n bs n'"

inductive_cases delivers_NilE: "delivers P n [] n'"
inductive_cases delivers_ConsE: "delivers P n (b # bs) n'"

lemma delivers_piece:
  assumes "delivers P n bs n'" and "bs \<noteq> []" and "0 < len"
  obtains k n1 where "port_net_read P n len = (int k, take k bs, n1)" "1 \<le> k" "k \<le> len" "k \<le> length bs"
    "delivers P n1 (drop k bs) n'"
  using assms(1)
proof cases
  case piece
  from piece(2) [OF assms(3)] show thesis using that by blast
qed (use assms(2) in simp)

section \<open>The blocking read\<close>

lemma read_net_loop_delivers:
  assumes "delivers P n (bs @ rest) n'" and "r < len" and "length bs = len - r" and "off + len \<le> length buf"
  shows "\<exists>n1. iot_mqtt_read_net_loop P buf off r len n =
      Some (int len, take (off + r) buf @ bs @ drop (off + len) buf, n1) \<and> delivers P n1 rest n'"
  using assms
proof (induction "len - r" arbitrary: r n bs buf rule: less_induct)
  case less
  have ne: "bs @ rest \<noteq> []" "0 < len - r" using less.prems by auto
  obtain k n1 where k: "port_net_read P n (len - r) = (int k, take k (bs @ rest), n1)" "1 \<le> k" "k \<le> len - r"
    "delivers P n1 (drop k (bs @ rest)) n'" by (rule delivers_piece [OF less.prems(1) ne]) blast
  have le: "k \<le> length bs" using k(3) less.prems(3) by simp
  let ?b = "take (off + r) buf @ take k bs @ drop (off + r + k) buf"
  have wr: "write_bytes (take k bs) (buf, off + r) = Some (?b, off + r + k)"
    using less.prems le k(3) by (simp add: write_bytes_def min_def)
  have lb: "length ?b = length buf" using less.prems le k(3) by simp
  have rd: "port_net_read P n (len - r) = (int k, take k bs, n1)" using k(1) le by simp
  show ?case
  proof (cases "r + k < len")
    case True
    have "\<exists>n2. iot_mqtt_read_net_loop P ?b off (r + k) len n1 =
        Some (int len, take (off + (r + k)) ?b @ drop k bs @ drop (off + len) ?b, n2) \<and> delivers P n2 rest n'"
      using less.prems k(2,4) le True lb by (intro less.hyps) auto
    moreover have "take (off + (r + k)) ?b @ drop k bs @ drop (off + len) ?b = take (off + r) buf @ bs @ drop (off + len) buf"
    proof -
      have "take (off + (r + k)) ?b = take (off + r) buf @ take k bs"
        using less.prems le by (simp add: min_def)
      moreover have "drop (off + len) ?b = drop (off + len) buf" 
      proof -
        have "off + len - length (take (off + r) buf @ take k bs) = off + len - (off + r + k)" using less.prems le by simp
        then show ?thesis using True by (simp add: add.commute)
      qed
      ultimately show ?thesis using append_take_drop_id [of k bs] by (metis append.assoc)
    qed
    ultimately show ?thesis using rd wr True by (subst iot_mqtt_read_net_loop.simps) simp
  next
    case False
    then have all: "k = length bs" "r + k = len" "off + r + length bs = off + len" using k(3) le less.prems by auto
    have "iot_mqtt_read_net_loop P buf off r len n = Some (int len, take (off + r) buf @ bs @ drop (off + len) buf, n1)"
      using rd wr all(3) False all(2) [symmetric] unfolding all(1) by (subst iot_mqtt_read_net_loop.simps) simp
    then show ?thesis using k(4) all(1) by simp
  qed
qed

lemma read_net_delivers:
  assumes "delivers P n (bs @ rest) n'" and "off + length bs \<le> length buf"
  obtains n1 where "iot_mqtt_read_net P buf off (length bs) n =
    Some (int (length bs), take off buf @ bs @ drop (off + length bs) buf, n1)" "delivers P n1 rest n'"
proof (cases "bs = []")
  case True
  then show ?thesis using that [of n] assms by (simp add: iot_mqtt_read_net_def)
next
  case False
  then show ?thesis
    using read_net_loop_delivers [OF assms(1), of 0 "length bs" off buf] assms(2) that
    by (auto simp: iot_mqtt_read_net_def)
qed

text \<open>A platform that answers 0 for ever keeps the reader in its loop.\<close>

lemma read_net_loop_eof:
  assumes "\<And>k. port_net_read P n k = (0, [], n)" and "r < len" and "off + r \<le> length buf"
  shows "iot_mqtt_read_net_loop P buf off r len n = None"
proof -
  note ind = iot_mqtt_read_net_loop.raw_induct [of "\<lambda>(((((P, buf), off), r), len), n) y.
    \<not> ((\<forall>k. port_net_read P n k = (0, [], n)) \<and> r < len \<and> off + r \<le> length buf)", unfolded prod.case]
  have "\<not> ((\<forall>k. port_net_read P n k = (0, [], n)) \<and> r < len \<and> off + r \<le> length buf)"
    if "iot_mqtt_read_net_loop P buf off r len n = Some y" for y
    by (rule ind [OF _ that]) (force simp: write_bytes_def)
  then show ?thesis using assms by (cases "iot_mqtt_read_net_loop P buf off r len n") auto
qed

section \<open>The fixed header\<close>

lemma read_length_loop_delivers:
  assumes "delivers P n (rem_len_bytes m @ rest) n'" and "length hdr = 5" and "1 \<le> rd"
    and "rd + length (rem_len_bytes m) \<le> 5"
  shows "\<exists>n1. read_length_loop P hdr rd rem mult n = Some (Inr (take rd hdr @ rem_len_bytes m
      @ drop (rd + length (rem_len_bytes m)) hdr, rd + length (rem_len_bytes m), rem + m * mult), n1)
    \<and> delivers P n1 rest n'"
  using assms
proof (induction m arbitrary: n hdr rd rem mult rule: less_induct)
  case (less m)
  define b where "b = hd (rem_len_bytes m)"
  define tail where "tail = tl (rem_len_bytes m)"
  have bt: "rem_len_bytes m = b # tail" by (simp add: b_def tail_def)
  have rd: "rd < 5" using less.prems(4) bt by simp
  have dl: "delivers P n ([b] @ tail @ rest) n'" using less.prems(1) bt by simp
  obtain n1 where n1: "iot_mqtt_read_net P hdr rd 1 n = Some (1, take rd hdr @ [b] @ drop (Suc rd) hdr, n1)"
    "delivers P n1 (tail @ rest) n'"
    by (rule read_net_delivers [OF dl, of rd hdr]) (use rd less.prems(2) in auto)
  let ?h = "take rd hdr @ [b] @ drop (Suc rd) hdr"
  have h: "length ?h = 5" "read_byte ?h rd = Some b" using rd less.prems(2) by (auto simp: read_byte_def nth_append)
  show ?case
  proof (cases "m < 128")
    case True
    then have "b = of_nat m" "tail = []" by (simp_all add: b_def tail_def rem_len_bytes.simps [of m])
    then show ?thesis using n1 rd h True less.prems(3) bt
      by (subst read_length_loop.simps) (simp add: unat_and_127 and_128_eq_0 Let_def)
  next
    case False
    have b: "b = of_nat (m mod 128 + 128)" "tail = rem_len_bytes (m div 128)"
      using False by (simp_all add: b_def tail_def rem_len_bytes.simps [of m])
    have c: "unat b = m mod 128 + 128" unfolding b(1) using unat_of_nat_u8 [of "m mod 128 + 128"] by simp
    have low: "unat (b AND 127) = m mod 128" "b AND 128 \<noteq> 0" using c by (simp_all add: unat_and_127 and_128_eq_0)
    have "\<exists>n2. read_length_loop P ?h (Suc rd) (rem + m mod 128 * mult) (mult * 128) n1 =
        Some (Inr (take (Suc rd) ?h @ rem_len_bytes (m div 128) @ drop (Suc rd + length (rem_len_bytes (m div 128))) ?h,
          Suc rd + length (rem_len_bytes (m div 128)), rem + m mod 128 * mult + m div 128 * (mult * 128)), n2)
        \<and> delivers P n2 rest n'"
    proof (rule less.IH)
      show "m div 128 < m" using False by simp
      show "delivers P n1 (rem_len_bytes (m div 128) @ rest) n'" using n1(2) b(2) by simp
      show "Suc rd + length (rem_len_bytes (m div 128)) \<le> 5" using less.prems(4) bt b(2) by simp
    qed (use h(1) in simp_all)
    moreover have "rem + m mod 128 * mult + m div 128 * (mult * 128) = rem + m * mult"
    proof -
      have "m mod 128 * mult + m div 128 * (mult * 128) = (m mod 128 + m div 128 * 128) * mult"
        by (simp only: distrib_right mult.assoc mult.commute [of mult 128])
      then show ?thesis by (simp only: mod_div_mult_eq add.assoc)
    qed
    moreover have "take (Suc rd) ?h @ rem_len_bytes (m div 128) @ drop (Suc rd + length (rem_len_bytes (m div 128))) ?h
        = take rd hdr @ rem_len_bytes m @ drop (rd + length (rem_len_bytes m)) hdr"
      using rd less.prems(2) bt b(2) by (simp add: add.commute)
    moreover have "Suc rd + length (rem_len_bytes (m div 128)) = rd + length (rem_len_bytes m)" using bt b(2) by simp
    ultimately have "\<exists>n2. read_length_loop P ?h (Suc rd) (rem + m mod 128 * mult) (mult * 128) n1 =
        Some (Inr (take rd hdr @ rem_len_bytes m @ drop (rd + length (rem_len_bytes m)) hdr,
          rd + length (rem_len_bytes m), rem + m * mult), n2) \<and> delivers P n2 rest n'" by (simp only:)
    moreover have "read_length_loop P hdr rd rem mult n
        = read_length_loop P ?h (Suc rd) (rem + m mod 128 * mult) (mult * 128) n1"
    proof -
      have "\<not> rd - 1 \<ge> MAX_NUM_OF_REMAINING_LENGTH_BYTES" using rd less.prems(3) by simp
      then show ?thesis using n1(1) h(2) low by (subst read_length_loop.simps) (simp add: Let_def)
    qed
    ultimately show ?thesis by simp
  qed
qed

lemma read_fixed_header_delivers:
  assumes "delivers P n (packet_bytes h body) n'" and "length body < 268435456"
  defines "rd \<equiv> Suc (length (rem_len_bytes (length body)))"
  obtains hdr n1 where "read_fixed_header P n = Some (Inr (hdr, rd, length body), n1)" "length hdr = 5"
    "take rd hdr = h # rem_len_bytes (length body)" "rd \<le> 5" "delivers P n1 body n'"
proof -
  have short: "length (rem_len_bytes (length body)) \<le> 4" using length_rem_len_bytes [OF assms(2)] by simp
  have "delivers P n ([h] @ rem_len_bytes (length body) @ body) n'" using assms(1) by (simp add: packet_bytes_def)
  then obtain n1 where n1: "iot_mqtt_read_net P (replicate 5 0) 0 1 n = Some (1, h # replicate 4 0, n1)"
    "delivers P n1 (rem_len_bytes (length body) @ body) n'"
    by (rule read_net_delivers [of _ _ _ _ _ 0 "replicate 5 0"]) (auto simp: eval_nat_numeral)
  obtain n2 where n2: "read_length_loop P (h # replicate 4 0) 1 0 1 n1 = Some (Inr (take 1 (h # replicate 4 0)
      @ rem_len_bytes (length body) @ drop rd (h # replicate 4 0), rd, length body), n2)"
    "delivers P n2 body n'"
    using read_length_loop_delivers [OF n1(2), of "h # replicate 4 0" 1 0 1] short by (auto simp: rd_def)
  show thesis
    by (rule that [of "h # rem_len_bytes (length body) @ drop rd (h # replicate 4 0)" n2])
      (use n1(1) n2 short in \<open>auto simp: read_fixed_header_def rd_def\<close>)
qed

lemma read_body_loop_delivers:
  assumes "delivers P n body n'" and "length x = rd + length body"
  obtains n1 where "read_body_loop P x (rd + length body) rd n = Some (rd + length body, take rd x @ body, n1)"
    "delivers P n1 [] n'"
proof (cases "body = []")
  case True
  have "read_body_loop P x rd rd n = Some (rd, x, n)" by (subst read_body_loop.simps) simp
  then show ?thesis using that [of n] assms True by simp
next
  case False
  have "delivers P n (body @ []) n'" using assms(1) by simp
  from this and assms(2) obtain n1 where n1: "iot_mqtt_read_net P x rd (length body) n
      = Some (int (length body), take rd x @ body @ drop (rd + length body) x, n1)" "delivers P n1 [] n'"
    by (elim read_net_delivers [where off = rd and buf = x]) simp_all
  have stop: "read_body_loop P y s s n1 = Some (s, y, n1)" for y s by (subst read_body_loop.simps) simp
  have "read_body_loop P x (rd + length body) rd n = Some (rd + length body, take rd x @ body, n1)"
    using n1(1) assms(2) False by (subst read_body_loop.simps) (simp add: stop)
  then show ?thesis using that n1(2) by blast
qed

section \<open>The read stream\<close>

text \<open>The chunk the reader makes of a packet.\<close>

definition received_chunk :: "u8 \<Rightarrow> u8 list \<Rightarrow> nat \<Rightarrow> chunk" where
  "received_chunk h body pid = zero_chunk\<lparr>chunk_data := Some (packet_bytes h body),
     chunk_size := length (packet_bytes h body), chunk_state := PACKET_CHUNK_READ_COMPLETED,
     packet_type := uint (drop_bit 4 (h AND 0xf0)), qos := uint (drop_bit 1 (h AND 0x06)), packet_id := of_nat pid\<rparr>"

lemma read_finish_effect:
  assumes "client_inv w Q" and "conn w" and "0 < rc"
  obtains w' where "read_finish P rc w = Some (rc, w')" "client_inv w' Q" "get_chunk w' = get_chunk w"
    "w_events w' = w_events w" "kept w w'" "conn w'"
proof -
  obtain c where c: "w_cli w = Some c" "client_ok c" "magic c = MQTT_CLIENT_STRUCT_MAGIC_NUMBER" "client_manage_lock c"
    using assms(1) by (rule inv_client)
  obtain t where t: "last_received c = Some t" using assms(2) c by (auto simp: conn_def client_ok_def)
  let ?w = "upd_client (\<lambda>c. c\<lparr>last_received := Some (iot_os_timer_start P t w)\<rparr>) w"
  have "client_inv ?w Q"
  proof (rule inv_upd_client [OF assms(1)])
    show "get_queue k (c\<lparr>last_received := x\<rparr>) = get_queue k c" for k c x by (cases k) simp_all
  qed (simp_all add: client_ok_def)
  moreover have "conn ?w" using assms(2) by (auto simp: conn_def upd_client_def)
  moreover have "w_events ?w = w_events w" by (simp add: upd_client_def)
  moreover have "read_finish P rc w = Some (rc, ?w)"
    using c t assms(3) by (simp add: read_finish_def restart_last_received_def)
  ultimately show thesis using that by simp
qed

lemma read_stream_receives:
  assumes "client_inv w Q" and "conn w" and "\<forall>k. \<not> oom (w_mem w) k"
    and "port_net_read_poll P (w_net w) 0 = (rc, n)" and "0 < rc"
    and "delivers P n (packet_bytes h body) n'" and "length body < 268435456"
    and "MQTTPacket_getPacketId (load_first P) (packet_bytes h body) = Some pid"
    and "uint (drop_bit 4 (h AND 0xf0)) = msg_code PUBLISH \<longrightarrow> deliverable (packet_bytes h body)"
  obtains p v where "client_inv v Q" "\<forall>k. p \<notin> set (Q k)" "get_chunk w p = None"
    "get_chunk v = (get_chunk w)(p \<mapsto> received_chunk h body pid)" "w_events v = w_events w" "kept w v" "conn v"
    "oom (w_mem v) = oom (w_mem w)"
    "iot_mqtt_run_read_stream P w
       = iot_mqtt_process_post_read P p v \<bind> read_finish P (int (length (packet_bytes h body)))"
proof -
  obtain c where c: "w_cli w = Some c" "magic c = MQTT_CLIENT_STRUCT_MAGIC_NUMBER" "read_lock c"
    using assms(1) by (rule inv_client)
  have con: "isconnected c" using assms(2) c by (simp add: conn_def)
  define rd where "rd = Suc (length (rem_len_bytes (length body)))"
  let ?d = "packet_bytes h body"
  have len: "length ?d = rd + length body" by (simp add: length_packet_bytes rd_def)
  obtain hdr n1 where hdr: "read_fixed_header P n = Some (Inr (hdr, rd, length body), n1)" "length hdr = 5"
    "take rd hdr = h # rem_len_bytes (length body)" "rd \<le> 5" "delivers P n1 body n'"
    unfolding rd_def by (rule read_fixed_header_delivers [OF assms(6,7)])
  let ?w = "w\<lparr>w_net := n1\<rparr>"
  have iw: "client_inv ?w Q" using assms(1) by simp
  show thesis
  proof (cases rule: inv_createE [OF iw, of "rd + length body"])
    case (1 w1)
    then show ?thesis using assms(3) by simp
  next
    case (2 p w1 y)
    obtain x where x: "y = Some x" "length x = rd + length body" using 2(8) by (auto simp: rd_def)
    define x1 where "x1 = take rd hdr @ drop rd x"
    have x1: "write_bytes (take rd hdr) (x, 0) = Some (x1, rd)" "length x1 = rd + length body" "take rd x1 = take rd hdr"
      using x(2) hdr(2,4) by (simp_all add: x1_def write_bytes_def min_def)
    have net: "w_net w1 = n1" using coreD(1) [OF 2(3)] by simp
    obtain n2 where n2: "read_body_loop P x1 (rd + length body) rd n1 = Some (rd + length body, ?d, n2)"
      using read_body_loop_delivers [OF hdr(5) x1(2)] x1(3) hdr(3) by (auto simp: packet_bytes_def)
    let ?w1 = "w1\<lparr>w_net := n2\<rparr>" and ?f = "\<lambda>c. c\<lparr>chunk_data := Some ?d\<rparr>"
    let ?z = "zero_chunk\<lparr>chunk_data := y, chunk_size := rd + length body\<rparr>"
    have a1: "client_inv ?w1 Q" "get_chunk ?w1 p = Some ?z" using 2(2,7) by simp_all
    obtain w2 where w2: "upd_chunk ?f p ?w1 = Some w2" "client_inv w2 Q" "get_chunk w2 = (get_chunk ?w1)(p \<mapsto> ?f ?z)"
      "core w2 = core ?w1" "kept ?w1 w2"
      by (rule inv_updE [OF a1, of ?f]) (use 2(5) len in \<open>auto simp: chunk_wf_def zero_chunk_def is_ping_def\<close>)
    let ?g = "\<lambda>c. c\<lparr>chunk_state := PACKET_CHUNK_READ_COMPLETED, packet_type := uint (drop_bit 4 (h AND 0xf0)),
      qos := uint (drop_bit 1 (h AND 0x06)), packet_id := of_nat pid\<rparr>"
    have a2: "get_chunk w2 p = Some (?f ?z)" using w2(3) by simp
    have eq: "?g (?f ?z) = received_chunk h body pid" using len by (simp add: received_chunk_def zero_chunk_def)
    have "chunk_wf (received_chunk h body pid)"
      using assms(9) by (auto simp: received_chunk_def chunk_wf_def zero_chunk_def)
    then have wf: "chunk_wf (?g (?f ?z))" by (simp only: eq)
    have "\<not> have_owner (?f ?z)" by (simp add: zero_chunk_def)
    then have own: "have_owner (?f ?z) \<Longrightarrow> have_owner (?g (?f ?z))" "is_ping (?f ?z) \<Longrightarrow> is_ping (?g (?f ?z))"
      unfolding is_ping_def by blast+
    obtain v where v': "upd_chunk ?g p w2 = Some v" "client_inv v Q" "get_chunk v = (get_chunk w2)(p \<mapsto> ?g (?f ?z))"
      "core v = core w2" "kept w2 v"
      by (rule inv_updE [OF w2(2) a2, of ?g]) (use wf own 2(5) in blast)+
    note v = v' [unfolded eq]
    have "read_byte ?d 0 = Some h" by (simp add: packet_bytes_def read_byte_def)
    then have body: "read_packet_body P hdr rd (length body) ?w
        = iot_mqtt_process_post_read P p v \<bind> read_finish P (int (length ?d))"
      using 2(1) a1(2) x x1(1) n2 net w2(1) assms(8) v(1) len by (simp add: read_packet_body_def zero_chunk_def)
    have "get_chunk v = (get_chunk w)(p \<mapsto> received_chunk h body pid)"
      using v(3) w2(3) 2(7) by (simp add: fun_eq_iff)
    moreover have "w_events v = w_events w" using coreD(2) [OF v(4)] coreD(2) [OF w2(4)] coreD(2) [OF 2(3)] by simp
    moreover have "kept w v" using kept_trans [OF kept_trans [of w ?w1 w2] v(5)] 2(6) w2(5) by simp
    moreover have "conn v" using assms(2) conn_core [OF v(4)] conn_core [OF w2(4)] conn_core [OF 2(3)] by simp
    moreover have "oom (w_mem v) = oom (w_mem w)" using coreD(9) [OF v(4)] coreD(9) [OF w2(4)] coreD(9) [OF 2(3)] by simp
    ultimately show ?thesis
      using that [of v p] v(2) 2(4,5) body c con assms(4,5) hdr(1) by (simp add: iot_mqtt_run_read_stream_def)
  qed
qed

end
