(* ===== verification/Mqtt_Exchange.thy ===== *)
theory Mqtt_Exchange
  imports Mqtt_Stream
begin

text \<open>
  What the work cycle does to the packets, on the lists of queued chunks: which bytes go to the network
  and in which order, where a written packet goes, and how a publication of quality of service 1 ends.
\<close>

section \<open>The write stream\<close>

definition waits_for_ack :: "chunk \<Rightarrow> bool" where
  "waits_for_ack c \<longleftrightarrow> packet_type c \<in> msg_code ` {CONNECT, SUBSCRIBE, UNSUBSCRIBE, PUBREL, PUBREC, PINGREQ}
     \<or> packet_type c = msg_code PUBLISH \<and> qos c \<noteq> 0"

text \<open>A platform that takes a whole packet in one call.\<close>

lemma write_chunk_whole:
  assumes "port_net_write P n d = (int (length d), n')" and "d \<noteq> []"
  shows "write_chunk_loop P d (length d) 0 n = Some (length d, n')"
proof -
  have "iot_mqtt_write_net P d (length d) n = Some (int (length d), n')"
    using assms by (subst iot_mqtt_write_net_def, subst iot_mqtt_write_net_loop.simps) simp
  moreover have "write_chunk_loop P d (length d) (length d) n' = Some (length d, n')"
    by (subst write_chunk_loop.simps) simp
  ultimately show ?thesis using assms(2) by (subst write_chunk_loop.simps) simp
qed

text \<open>After the write: where the chunk goes and what becomes of it.\<close>

lemma post_write_effect:
  assumes "client_inv w Q" and "get_chunk w a = Some ch" and "\<forall>k. a \<notin> set (Q k)"
    and "retry_count ch < MQTT_PUBLISH_RETRY"
  obtains w' t n where "iot_mqtt_process_post_write P a w = Some w'" "core w' = core (w\<lparr>w_net := n\<rparr>)"
    "client_inv w' (if waits_for_ack ch then Q(ACK_PENDING := Q ACK_PENDING @ [a]) else Q)"
    "get_chunk w' = (get_chunk w)(a :=
       if waits_for_ack ch then Some (ch\<lparr>chunk_state := PACKET_CHUNK_ACK_PENDING, expiry_time := t\<rparr>)
       else if have_owner ch then Some (ch\<lparr>chunk_state := PACKET_CHUNK_WRITE_COMPLETED\<rparr>) else None)"
proof (cases "waits_for_ack ch")
  case True
  let ?ms = "if packet_type ch = msg_code CONNECT then MQTT_CONNECT_TIMEOUT else MQTT_RETRY_TIMEOUT"
  have eq: "iot_mqtt_process_post_write P a w = await_ack P ?ms a w"
    using True assms(2) by (auto simp: waits_for_ack_def iot_mqtt_process_post_write_def)
  show ?thesis
  proof (rule await_ack_safe [OF assms, of P ?ms])
    fix w' t n
    assume "await_ack P ?ms a w = Some w'" "client_inv w' (Q(ACK_PENDING := Q ACK_PENDING @ [a]))"
      "core w' = core (w\<lparr>w_net := n\<rparr>)"
      "get_chunk w' = (get_chunk w)(a \<mapsto> ch\<lparr>chunk_state := PACKET_CHUNK_ACK_PENDING, expiry_time := t\<rparr>)"
    then show ?thesis using that [of w' n t] eq True by simp
  qed
next
  case False
  let ?f = "\<lambda>c. c\<lparr>chunk_state := PACKET_CHUNK_WRITE_COMPLETED\<rparr>"
  have own: "have_owner ch \<longrightarrow> packet_type ch \<in> owned_types"
    using inv_wf [OF assms(1,2)] by (simp add: chunk_wf_def)
  obtain w1 where w1: "upd_chunk ?f a w = Some w1" "client_inv w1 Q" "get_chunk w1 = (get_chunk w)(a \<mapsto> ?f ch)" "core w1 = core w"
    by (rule inv_upd_metaE [OF assms(1-3), of ?f]) simp_all
  show ?thesis
  proof (cases "have_owner ch")
    case True
    with own have "packet_type ch \<in> owned_types" by simp
    with False have "packet_type ch = msg_code PUBLISH \<and> qos ch = 0 \<or> packet_type ch = msg_code DISCONNECT"
      unfolding owned_types_def waits_for_ack_def by blast
    then have "iot_mqtt_process_post_write P a w = Some w1"
      using True assms(2) w1(1) by (auto simp: iot_mqtt_process_post_write_def)
    then show ?thesis using that [of w1 "w_net w"] True False w1 by simp
  next
    case free: False
    have nping: "\<not> is_ping ch" "\<not> is_ping (?f ch)" using free by (simp_all add: is_ping_def)
    obtain w2 where w2: "iot_mqtt_chunk_destroy (Some a) w = Some w2" "client_inv w2 Q"
      "get_chunk w2 = (get_chunk w)(a := None)" "core w2 = core w"
      by (rule inv_destroyE [OF assms(1-3) nping(1)])
    have a1: "get_chunk w1 a = Some (?f ch)" using w1(3) by simp
    obtain w3 where w3: "iot_mqtt_chunk_destroy (Some a) w1 = Some w3" "client_inv w3 Q"
      "get_chunk w3 = (get_chunk w1)(a := None)" "core w3 = core w1"
      by (rule inv_destroyE [OF w1(2) a1 assms(3) nping(2)])
    show ?thesis
    proof (cases "packet_type ch = msg_code PUBLISH")
      case True
      then have "iot_mqtt_process_post_write P a w = Some w3"
        using False free assms(2) w1(1) w3(1) by (auto simp: iot_mqtt_process_post_write_def waits_for_ack_def)
      then show ?thesis using that [of w3 "w_net w"] free False w3 w1 by simp
    next
      case other: False
      then have "iot_mqtt_process_post_write P a w = Some w2"
        using False free assms(2) w2(1) by (auto simp: iot_mqtt_process_post_write_def waits_for_ack_def)
      then show ?thesis using that [of w2 "w_net w"] free False w2 by simp
    qed
  qed
qed

lemma write_stream_effect:
  assumes "client_inv w Q" and "conn w" and "Q WRITE_PENDING = a # as" and "get_chunk w a = Some ch"
    and "chunk_data ch = Some d" and "d \<noteq> []" and "port_net_write P (w_net w) d = (int (length d), n)"
  shows "\<exists>w' t. iot_mqtt_run_write_stream P w = Some (int (length d), w') \<and> conn w'
    \<and> client_inv w' (Q(WRITE_PENDING := as, ACK_PENDING := Q ACK_PENDING @ (if waits_for_ack ch then [a] else [])))
    \<and> get_chunk w' = (get_chunk w)(a :=
       if waits_for_ack ch then Some (ch\<lparr>chunk_state := PACKET_CHUNK_ACK_PENDING, expiry_time := t\<rparr>)
       else if have_owner ch then Some (ch\<lparr>chunk_state := PACKET_CHUNK_WRITE_COMPLETED\<rparr>) else None)"
proof (cases rule: inv_popE [OF assms(1), of WRITE_PENDING])
  case 1
  then show ?thesis using assms(3) by simp
next
  case (2 b bs w1 c')
  obtain c where c: "w_cli w = Some c" "magic c = MQTT_CLIENT_STRUCT_MAGIC_NUMBER" "write_lock c"
    using assms(1) by (rule inv_client)
  have same: "b = a" "bs = as" "c' = ch" "w_net w1 = w_net w"
    using 2(1,4,7) assms(3,4) coreD(1) [OF 2(5)] by simp_all
  note pop = 2 [unfolded same]
  have len: "chunk_size ch = length d" using inv_wf [OF assms(1,4)] assms(5) by (simp add: chunk_wf_def)
  let ?w1 = "w1\<lparr>w_net := n\<rparr>" and ?Q = "Q(WRITE_PENDING := as)"
  have i1: "client_inv ?w1 ?Q" "get_chunk ?w1 a = Some ch" "retry_count ch < MQTT_PUBLISH_RETRY" using pop by simp_all
  obtain w2 t m where w2: "iot_mqtt_process_post_write P a ?w1 = Some w2" "core w2 = core (?w1\<lparr>w_net := m\<rparr>)"
    "client_inv w2 (if waits_for_ack ch then ?Q(ACK_PENDING := ?Q ACK_PENDING @ [a]) else ?Q)"
    "get_chunk w2 = (get_chunk ?w1)(a :=
       if waits_for_ack ch then Some (ch\<lparr>chunk_state := PACKET_CHUNK_ACK_PENDING, expiry_time := t\<rparr>)
       else if have_owner ch then Some (ch\<lparr>chunk_state := PACKET_CHUNK_WRITE_COMPLETED\<rparr>) else None)"
    by (rule post_write_effect [OF i1(1,2) pop(9) i1(3)])
  have "(if waits_for_ack ch then ?Q(ACK_PENDING := ?Q ACK_PENDING @ [a]) else ?Q)
      = Q(WRITE_PENDING := as, ACK_PENDING := Q ACK_PENDING @ (if waits_for_ack ch then [a] else []))"
    by (auto simp: fun_eq_iff)
  note inv2 = w2(3) [unfolded this]
  have conn2: "conn w2" using core_net_conn [OF w2(2)] conn_core [OF pop(5)] assms(2) by simp
  obtain c2 s where c2: "w_cli w2 = Some c2" "magic c2 = MQTT_CLIENT_STRUCT_MAGIC_NUMBER" "client_manage_lock c2"
    "last_sent c2 = Some s"
  proof (rule inv_client [OF inv2])
    fix c2
    assume "w_cli w2 = Some c2" "client_ok c2" "magic c2 = MQTT_CLIENT_STRUCT_MAGIC_NUMBER" "client_manage_lock c2"
    then show ?thesis using that [of c2] conn2 by (auto simp: client_ok_def conn_def)
  qed
  define w3 where "w3 = upd_client (\<lambda>c. c\<lparr>last_sent := Some (iot_os_timer_start P s w2)\<rparr>) w2"
  have r: "restart_last_sent P w2 = Some w3" using c2 by (simp add: restart_last_sent_def w3_def)
  have "client_inv w3 (Q(WRITE_PENDING := as, ACK_PENDING := Q ACK_PENDING @ (if waits_for_ack ch then [a] else [])))"
    unfolding w3_def
  proof (rule inv_upd_client [OF inv2])
    show "get_queue k (c\<lparr>last_sent := x\<rparr>) = get_queue k c" for k c x by (cases k) simp_all
  qed (simp_all add: client_ok_def)
  moreover have "conn w3" using conn2 by (auto simp: w3_def conn_def upd_client_def)
  moreover have "get_chunk w3 = get_chunk w2" by (simp add: w3_def)
  moreover have "isconnected c" using assms(2) c(1) by (simp add: conn_def)
  then have "iot_mqtt_run_write_stream P w = Some (int (length d), w3)"
    using c pop(2,7) assms(5,6) len same(4) write_chunk_whole [OF assms(7,6)] w2(1) r
    by (simp add: iot_mqtt_run_write_stream_def)
  ultimately show ?thesis using w2(4) pop(4) by (intro exI [of _ w3] exI [of _ t]) simp
qed

section \<open>A publication of quality of service 1\<close>

text \<open>
  From the call to its return: the packet is queued, written, and once the PUBACK of the broker has been
  read the wait ends with the return code 0. The identifier is not the one of another publication in
  flight.
\<close>

lemma u16_of_packet_id: "unat i \<le> 65535 \<Longrightarrow> of_nat (unat (ucast i :: u16)) = (i :: u32)"
proof -
  assume "unat i \<le> 65535"
  then have "unat (ucast i :: u16) = unat i" by (simp add: unsigned_ucast_eq take_bit_nat_eq_self_iff)
  then show ?thesis by simp
qed

lemma mask_dup: "uint (drop_bit 3 (b AND 0x08)) = header_dup b"
proof -
  have "drop_bit 3 (b AND 0x08) = drop_bit 3 b AND mask 1"
    by (simp add: drop_bit_and mask_eq_exp_minus_1)
  then show ?thesis by (simp only: uint_and_mask uint_drop_bit) (simp add: header_dup_def)
qed

lemma publish_written:
  assumes inv: "client_inv w Q" and conn: "conn w" and ok: "publish_request_ok msg" and qos1: "req_qos msg = 1"
    and idle: "Q WRITE_PENDING = []"
    and push: "iot_mqtt_push_publish_packet msg True w = Some (Some a, w1)"
    and ch: "get_chunk w1 a = Some ch" and dat: "chunk_data ch = Some d"
    and net: "port_net_write P (w_net w1) d = (int (length d), n)"
  obtains w2 t where "iot_mqtt_run_write_stream P w1 = Some (int (length d), w2)" "conn w2"
    "client_inv w2 (Q(ACK_PENDING := Q ACK_PENDING @ [a]))" "get_chunk w a = None"
    "get_chunk w2 = (get_chunk w)(a \<mapsto> ch\<lparr>chunk_state := PACKET_CHUNK_ACK_PENDING, expiry_time := t\<rparr>)"
    "packet_type ch = msg_code PUBLISH" "have_owner ch" "return_code ch = 0" "unat (packet_id ch) \<le> 65535"
proof (cases rule: push_publish_safe [OF inv ok, of True])
  case 1
  then show ?thesis using push by simp
next
  case (2 v1 b c')
  have same: "v1 = w1" "b = a" "c' = ch" using 2(1,5) push ch by auto
  note q = 2 [unfolded same]
  have ne: "d \<noteq> []" using q(9) dat by (auto simp: publish_packet_def packet_bytes_def)
  have wait: "waits_for_ack ch" using q(6,11) qos1 by (simp add: waits_for_ack_def)
  have cw: "conn w1" using q(4) conn by simp
  have hd: "(Q(WRITE_PENDING := Q WRITE_PENDING @ [a])) WRITE_PENDING = [a]" using idle by simp
  have Q2: "(Q(WRITE_PENDING := Q WRITE_PENDING @ [a]))(WRITE_PENDING := [],
      ACK_PENDING := (Q(WRITE_PENDING := Q WRITE_PENDING @ [a])) ACK_PENDING @ [a]) = Q(ACK_PENDING := Q ACK_PENDING @ [a])"
    using idle by (auto simp: fun_eq_iff)
  obtain v2 t where v2: "iot_mqtt_run_write_stream P w1 = Some (int (length d), v2)" "conn v2"
    "client_inv v2 (Q(ACK_PENDING := Q ACK_PENDING @ [a]))"
    "get_chunk v2 = (get_chunk w1)(a \<mapsto> ch\<lparr>chunk_state := PACKET_CHUNK_ACK_PENDING, expiry_time := t\<rparr>)"
    using write_stream_effect [OF q(2) cw hd q(5) dat ne net] unfolding if_P [OF wait] Q2 by blast
  show ?thesis by (rule that [OF v2(1-3) q(13) _ q(6)]) (use v2(4) q(7,8,12,14) qos1 in auto)
qed

lemma publish_qos1_completes:
  assumes inv: "client_inv w Q" and conn: "conn w" and mem: "\<forall>k. \<not> oom (w_mem w2) k"
    and ok: "publish_request_ok msg" and qos1: "req_qos msg = 1" and idle: "Q WRITE_PENDING = []"
    and push: "iot_mqtt_push_publish_packet msg True w = Some (Some a, w1)"
    and ch: "get_chunk w1 a = Some ch" and dat: "chunk_data ch = Some d"
    and fresh: "\<forall>b\<in>set (Q ACK_PENDING). \<not> marked (get_chunk w) (answers (msg_code PUBLISH, packet_id ch)) b"
    and net: "port_net_write P (w_net w1) d = (int (length d), n)"
    and sent: "iot_mqtt_run_write_stream P w1 = Some (rc, w2)"
    and poll: "port_net_read_poll P (w_net w2) 0 = (prc, n1)" "0 < prc"
    and puback: "delivers P n1 (ack_packet PUBACK 0 (ucast (packet_id ch))) n2"
  shows "\<exists>w3. iot_mqtt_run_read_stream P w2 = Some (4, w3) \<and> wait_check P rc' a w3 = Some (Some 0, w3)"
proof (rule publish_written [OF inv conn ok qos1 idle push ch dat net])
  fix v2 t
  assume v2: "iot_mqtt_run_write_stream P w1 = Some (int (length d), v2)" "conn v2"
    "client_inv v2 (Q(ACK_PENDING := Q ACK_PENDING @ [a]))" "get_chunk w a = None"
    "get_chunk v2 = (get_chunk w)(a \<mapsto> ch\<lparr>chunk_state := PACKET_CHUNK_ACK_PENDING, expiry_time := t\<rparr>)"
    and c: "packet_type ch = msg_code PUBLISH" "have_owner ch" "return_code ch = 0" "unat (packet_id ch) \<le> 65535"
  have w2: "v2 = w2" using v2(1) sent by simp
  let ?h = "MQTTHeader_byte (msg_code PUBACK) 0 0 0" and ?i = "ucast (packet_id ch) :: u16"
  let ?body = "u16_bytes (unat ?i)" and ?Q = "Q(ACK_PENDING := Q ACK_PENDING @ [a])"
  have ack: "ack_packet PUBACK 0 ?i = packet_bytes ?h ?body" by (simp add: ack_packet_def)
  have len: "length (packet_bytes ?h ?body) = 4" "length ?body < 268435456"
    by (simp_all add: packet_bytes_def rem_len_bytes.simps)
  have id: "MQTTPacket_getPacketId (load_first P) (packet_bytes ?h ?body) = Some (unat ?i)"
    using getPacketId_ack [of ?body ?i "[]" PUBACK "load_first P" 0 0 0 "[]"] by simp
  have ty: "uint (drop_bit 4 (?h AND 0xf0)) = msg_code PUBACK" unfolding mask_type header_fields by simp
  then have np: "uint (drop_bit 4 (?h AND 0xf0)) = msg_code PUBLISH \<longrightarrow> deliverable (packet_bytes ?h ?body)"
    by simp
  obtain p v where v: "client_inv v ?Q" "\<forall>k. p \<notin> set (?Q k)" "get_chunk w2 p = None"
    "get_chunk v = (get_chunk w2)(p \<mapsto> received_chunk ?h ?body (unat ?i))" "conn v"
    and stream: "iot_mqtt_run_read_stream P w2
      = iot_mqtt_process_post_read P p v \<bind> read_finish P (int (length (packet_bytes ?h ?body)))"
    by (rule read_stream_receives [OF v2(3) [unfolded w2] v2(2) [unfolded w2] mem poll puback [unfolded ack] len(2) id np])
  define pa where "pa = received_chunk ?h ?body (unat ?i)"
  have pa: "get_chunk v p = Some pa" "packet_type pa = msg_code PUBACK" "packet_id pa = packet_id ch" "\<not> have_owner pa"
    using v(4) ty u16_of_packet_id [OF c(4)] by (simp_all add: pa_def received_chunk_def zero_chunk_def)
  have target: "ack_target pa = Some (msg_code PUBLISH, packet_id ch)" using pa(2,3) by (simp add: ack_target_def)
  have code: "ack_return_code P pa old = Some old" for old using pa(2) by (simp add: ack_return_code_def)
  then have defined: "\<And>old. ack_return_code P pa old \<noteq> None" by simp
  let ?M = "marked (get_chunk v) (answers (msg_code PUBLISH, packet_id ch))"
  let ?c = "ch\<lparr>chunk_state := PACKET_CHUNK_ACK_PENDING, expiry_time := t\<rparr>"
  have ap: "p \<noteq> a" using v(2) by (auto dest: spec [of _ ACK_PENDING])
  have a: "get_chunk v a = Some ?c" using v(4) v2(5) ap unfolding w2 by simp
  have old: "\<not> ?M b" if "b \<in> set (Q ACK_PENDING)" for b
  proof -
    have "b \<noteq> a" "b \<noteq> p" using that queues_live [OF invD(1) [OF inv] that] v2(4) v(2) by (auto dest: spec [of _ ACK_PENDING])
    then show ?thesis using fresh that v(4) v2(5) unfolding w2 by (auto simp: marked_def)
  qed
  have "?M a" using a c(1) by (simp add: marked_def answers_def)
  with old have find: "find ?M (?Q ACK_PENDING) = Some a" using find_split [of "Q ACK_PENDING" ?M a "[]"] by simp
  obtain v3 where v3: "iot_mqtt_process_received_ack P p v = Some v3" "core v3 = core v"
    "client_inv v3 (?Q(ACK_PENDING := without_first ?M (?Q ACK_PENDING)))"
    "get_chunk v3 = (settle P pa (find ?M (?Q ACK_PENDING)) (get_chunk v))(p := None)"
    by (rule received_ack_effect [OF v(1) pa(1) v(2) pa(4) defined target])
  have post: "iot_mqtt_process_post_read P p v = Some v3" using v3(1) pa(1,2) by (simp add: iot_mqtt_process_post_read_def)
  have c3: "conn v3" using conn_core [OF v3(2)] v(5) by simp
  obtain w3 where w3: "read_finish P 4 v3 = Some (4, w3)" "get_chunk w3 = get_chunk v3"
    by (rule read_finish_effect [OF v3(3) c3, of 4 P]) simp_all
  have "\<exists>c. get_chunk w3 a = Some c \<and> chunk_state c = PACKET_CHUNK_ACKNOWLEDGED \<and> return_code c = 0"
    using w3(2) v3(4) a c(2,3) ap unfolding find by (simp add: settle_def code)
  moreover have "iot_mqtt_run_read_stream P w2 = Some (4, w3)" using post w3(1) unfolding stream len(1) by simp
  ultimately show ?thesis by (auto simp: wait_check_def)
qed

section \<open>An incoming publication\<close>

text \<open>
  A PUBLISH of quality of service 0 the broker sends reaches the user callback unchanged, after the events
  that were queued before it.
\<close>

lemma publish_delivered:
  assumes inv: "client_inv w Q" and conn: "conn w" and mem: "\<forall>k. \<not> oom (w_mem w) k" and "\<not> load_first P"
    and poll: "port_net_read_poll P (w_net w) 0 = (prc, n1)" "0 < prc"
    and wire: "delivers P n1 (publish_packet 0 0 retained 0 topic payload) n2"
    and ok: "length topic < 65536" "uint retained < 2" "length (publish_body 0 0 topic payload) < 268435456"
  shows "\<exists>rc w1 w2 msg. iot_mqtt_run_read_stream P w = Some (rc, w1) \<and> iot_mqtt_process_user_callback P w1 = Some w2
    \<and> w_events w2 = w_events w @ concat (map (\<lambda>a. chunk_events P (the (get_chunk w a))) (Q USER_EVENT))
        @ [ST_MQTT_EVENT_MSG_DELIVERED msg]
    \<and> take (nat (msg_topiclen msg)) (the (msg_topic msg)) = topic
    \<and> take (nat (msg_payloadlen msg)) (msg_payload msg) = payload \<and> msg_qos msg = 0 \<and> msg_retained msg = retained"
proof -
  let ?h = "MQTTHeader_byte (msg_code PUBLISH) 0 0 (uint retained)" and ?body = "publish_body 0 0 topic payload"
  have pkt: "publish_packet 0 0 retained 0 topic payload = packet_bytes ?h ?body" by (simp add: publish_packet_def)
  have id: "MQTTPacket_getPacketId (load_first P) (packet_bytes ?h ?body) = Some 0"
    using getPacketId_publish [of topic 0 0 payload 0 retained "[]"] assms(4) ok pkt by simp
  have ty: "uint (drop_bit 4 (?h AND 0xf0)) = msg_code PUBLISH" "uint (drop_bit 1 (?h AND 0x06)) = 0"
    "uint (drop_bit 3 (?h AND 0x08)) = 0"
    unfolding mask_type mask_qos mask_dup header_fields by simp_all
  have "deliverable (packet_bytes ?h ?body)"
    using publish_packet_deliverable [of topic 0 0 retained 0 payload "[]"] ok pkt by simp
  then have dl: "uint (drop_bit 4 (?h AND 0xf0)) = msg_code PUBLISH \<longrightarrow> deliverable (packet_bytes ?h ?body)" by simp
  obtain p v where v: "client_inv v Q" "\<forall>k. p \<notin> set (Q k)" "get_chunk w p = None"
    "get_chunk v = (get_chunk w)(p \<mapsto> received_chunk ?h ?body 0)" "w_events v = w_events w" "conn v"
    "iot_mqtt_run_read_stream P w
       = iot_mqtt_process_post_read P p v \<bind> read_finish P (int (length (packet_bytes ?h ?body)))"
    by (rule read_stream_receives [OF inv conn mem poll wire [unfolded pkt] ok(3) id dl])
  let ?pa = "received_chunk ?h ?body 0"
  have pa: "get_chunk v p = Some ?pa" "packet_type ?pa = msg_code PUBLISH" "qos ?pa = 0" "\<not> have_owner ?pa"
    "chunk_data ?pa = Some (packet_bytes ?h ?body)" "chunk_state ?pa = PACKET_CHUNK_READ_COMPLETED"
    using v(4) ty by (simp_all add: received_chunk_def zero_chunk_def)
  obtain v1 where v1: "iot_mqtt_queue_push USER_EVENT p v = Some (0, v1)" "client_inv v1 (Q(USER_EVENT := Q USER_EVENT @ [p]))"
    "get_chunk v1 = get_chunk v" "core v1 = core v"
    by (rule inv_pushE [OF v(1) pa(1) v(2), of USER_EVENT]) (use pa(4) in simp)
  have "read_byte (packet_bytes ?h ?body) 0 = Some ?h" by (simp add: packet_bytes_def read_byte_def)
  then have post: "iot_mqtt_process_post_read P p v = Some v1"
    using pa v1(1) uint_0_iff [THEN iffD1, OF ty(3)]
    by (simp add: iot_mqtt_process_post_read_def iot_mqtt_process_received_publish_def deliver_or_drop_def)
  have c1: "conn v1" using conn_core [OF v1(4)] v(6) by simp
  have pos: "0 < int (length (packet_bytes ?h ?body))" by (simp add: packet_bytes_def)
  obtain w1 where w1: "read_finish P (int (length (packet_bytes ?h ?body))) v1 = Some (int (length (packet_bytes ?h ?body)), w1)"
    "client_inv w1 (Q(USER_EVENT := Q USER_EVENT @ [p]))" "get_chunk w1 = get_chunk v1" "w_events w1 = w_events v1"
    by (rule read_finish_effect [OF v1(2) c1 pos])
  obtain w2 where w2: "iot_mqtt_process_user_callback P w1 = Some w2" "w_events w2 = w_events w1
      @ concat (map (\<lambda>a. chunk_events P (the (get_chunk w1 a))) ((Q(USER_EVENT := Q USER_EVENT @ [p])) USER_EVENT))"
    using process_user_callback_safe [OF w1(2), of P] by blast
  define out where "out = snd (the (MQTTDeserialize_publish (locals P) (packet_bytes ?h ?body)))"
  have out: "MQTTDeserialize_publish (locals P) (packet_bytes ?h ?body) = Some (1, out)" "pub_qos out = 0"
    "pub_retained out = retained" "pub_payload out = payload" "pub_payloadlen out = int (length payload)"
    "lenstring (pub_topicName out) = \<lparr>ls_len = int (length topic), ls_data = Some (topic @ payload)\<rparr>"
    using deserialize_publish_packet [of topic 0 0 retained 0 payload "locals P" "[]"] ok pkt by (simp_all add: out_def)
  have ev: "chunk_events P ?pa = [ST_MQTT_EVENT_MSG_DELIVERED (publish_msg_of out)]"
    using pa out(1) by (simp add: chunk_events_def)
  have same: "get_chunk w1 b = get_chunk w b" if "b \<in> set (Q USER_EVENT)" for b
    using that v(2,4) v1(3) w1(3) by (auto dest: spec [of _ USER_EVENT])
  then have "map (\<lambda>a. chunk_events P (the (get_chunk w1 a))) (Q USER_EVENT)
      = map (\<lambda>a. chunk_events P (the (get_chunk w a))) (Q USER_EVENT)" by (intro map_cong) auto
  moreover have "get_chunk w1 p = Some ?pa" "w_events w1 = w_events w"
    using v1(3) w1(3,4) pa(1) coreD(2) [OF v1(4)] v(5) by simp_all
  ultimately have "w_events w2 = w_events w @ concat (map (\<lambda>a. chunk_events P (the (get_chunk w a))) (Q USER_EVENT))
      @ [ST_MQTT_EVENT_MSG_DELIVERED (publish_msg_of out)]"
    unfolding w2(2) fun_upd_same map_append concat_append using ev by (simp only:) simp
  then show ?thesis
    using v(7) post w1(1) w2(1) out by (intro exI [of _ "publish_msg_of out"] exI [of _ w2] exI [of _ w1] exI)
      (auto simp: publish_msg_of_def)
qed

end
