(* ===== verification/Mqtt_Demo.thy ===== *)
theory Mqtt_Demo
  imports Mqtt_Reach Mqtt_Exchange
begin

text \<open>
  A concrete platform on which the hypotheses of the client's theorems hold, and client states reached on
  it by running the operations: the peer takes everything written and has always one given packet to read,
  which it hands over byte by byte.
\<close>

section \<open>The platform\<close>

definition demo_port :: "u8 list \<Rightarrow> u8 list port" where
  "demo_port pkt = \<lparr>port_net_write = (\<lambda>n bs. (int (length bs), n)),
     port_net_read = (\<lambda>n len. case n of [] \<Rightarrow> (-1, [], []) | b # bs \<Rightarrow> (1, if len = 0 then [] else [b], bs)),
     port_net_read_poll = (\<lambda>n t. (1, pkt)),
     port_net_connect = (\<lambda>n url port. (True, n)), port_net_close = id, port_net_free = id,
     os_time = (\<lambda>n. 0), os_delay = (\<lambda>ms n. n), timer_create_ok = (\<lambda>n. (True, n)),
     mutex_init_ok = (\<lambda>n. (True, n)), char_signed = True, load_first = False,
     locals = \<lparr>pub_dup = 0, pub_qos = 0, pub_retained = 0, pub_packetid = 0,
       pub_topicName = MQTTString_initializer, pub_payload = [], pub_payloadlen = 0\<rparr>, local_int = 0\<rparr>"

lemma demo_port_sel [simp]:
  "port_net_read (demo_port pkt) n len = (case n of [] \<Rightarrow> (-1, [], []) | b # bs \<Rightarrow> (1, if len = 0 then [] else [b], bs))"
  "port_net_write (demo_port pkt) n bs = (int (length bs), n)" "port_net_read_poll (demo_port pkt) n t = (1, pkt)"
  "\<not> load_first (demo_port pkt)" "timer_create_ok (demo_port pkt) n = (True, n)"
  "os_time (demo_port pkt) n = 0"
  by (simp_all add: demo_port_def)

lemma demo_delivers: "delivers (demo_port pkt) bs bs []"
proof (induction bs)
  case (Cons b bs)
  then show ?case by (intro delivers.piece) (auto intro!: exI [of _ 1] exI [of _ bs])
qed (rule delivers.all)

lemma demo_progress: "write_progress (demo_port pkt)" "read_progress (demo_port pkt)"
  by (auto simp: write_progress_def read_progress_def Suc_le_eq split: list.splits)

lemma demo_conforms:
  assumes "server_packet (packet_bytes h body)" and "length body < 268435456"
  shows "broker_conforms (demo_port (packet_bytes h body))"
  unfolding broker_conforms_def
proof (intro allI impI)
  let ?P = "demo_port (packet_bytes h body)"
  fix n0 rc n hdr rd rem n1 x d n2
  assume poll: "port_net_read_poll ?P n0 0 = (rc, n)" and head: "read_fixed_header ?P n = Some (Inr (hdr, rd, rem), n1)"
    and x: "length x = rd + rem" "take rd x = take rd hdr" and d: "read_body_loop ?P x (rd + rem) rd n1 = Some (rd + rem, d, n2)"
  obtain hdr' n1' where "read_fixed_header ?P (packet_bytes h body)
      = Some (Inr (hdr', Suc (length (rem_len_bytes (length body))), length body), n1')"
    "take (Suc (length (rem_len_bytes (length body)))) hdr' = h # rem_len_bytes (length body)" "delivers ?P n1' body []"
    by (rule read_fixed_header_delivers [OF demo_delivers assms(2)])
  then have b: "rem = length body" "take rd hdr = h # rem_len_bytes (length body)" "delivers ?P n1 body []"
    using poll head by simp_all
  then have len: "length x = rd + length body" using x(1) by simp
  have "d = take rd x @ body"
    by (rule read_body_loop_delivers [OF b(3) len]) (use d b(1) in simp)
  then have "d = packet_bytes h body" using x(2) b(2) by (simp add: packet_bytes_def)
  then show "server_packet d" using assms(1) by simp
qed

section \<open>Two packets\<close>

abbreviation (input) pingresp :: "u8 list" where "pingresp \<equiv> [0xd0, 0]"

abbreviation (input) puback2 :: "u8 list" where "puback2 \<equiv> [0x40, 2, 0, 2]"

text \<open>PUBACK for the identifier 2.\<close>

lemma puback2: "ack_packet PUBACK 0 2 = puback2"
  by (simp add: ack_packet_def packet_bytes_def MQTTHeader_byte_def u16_bytes_def rem_len_bytes.simps [of "Suc (Suc 0)"])

lemma demo_ok:
  "broker_conforms (demo_port puback2)" "broker_ok (demo_port puback2)"
proof -
  have p: "puback2 = packet_bytes 0x40 [0, 2]" by (simp add: packet_bytes_def rem_len_bytes.simps [of "Suc (Suc 0)"])
  have "server_packet (packet_bytes 0x40 [0, 2])" 
    unfolding server_packet_def p [symmetric] puback2 [symmetric] by (intro disjI2 disjI1 exI [of _ PUBACK] exI [of _ 2]) simp
  then show "broker_conforms (demo_port puback2)" unfolding p by (rule demo_conforms) simp
  then show "broker_ok (demo_port puback2)" by (rule broker_conforms_ok) simp
qed

section \<open>A connected client\<close>

abbreviation (input) demo_ping :: "chunk node" where
  "demo_ping \<equiv> \<lparr>val = \<lparr>packet_type = 12, packet_id = 0, qos = 0, chunk_data = Some (zero_packet PINGREQ), chunk_size = 2,
     chunk_state = PACKET_CHUNK_INIT, expiry_time = None, retry_count = 0, have_owner = True, return_code = 0\<rparr>, nxt = None\<rparr>"

abbreviation (input) no_chunks :: queue where "no_chunks \<equiv> \<lparr>q_head = None, q_tail = None, q_sem = True\<rparr>"

abbreviation (input) demo_client :: MQTTClient where
  "demo_client \<equiv> \<lparr>magic = 428409095, next_packetid = 1, keep_alive = 0, isconnected = False, net_ctx = False,
     last_sent = None, last_received = None, client_manage_lock = True, write_lock = True, read_lock = True,
     socket_thread = False, ping_packet = Some (Suc 0), write_pending_queue = no_chunks,
     ack_pending_queue = no_chunks, user_event_callback_queue = no_chunks\<rparr>"

definition demo_world :: "u8 list world" where
  "demo_world = \<lparr>w_mem = \<lparr>cells = Map.empty, brk = 0, oom = (\<lambda>_. False)\<rparr>, w_junk = (\<lambda>_ _. 0), w_cli = None,
     w_net = [], w_events = [], w_queue = None, w_qmem = \<lparr>cells = Map.empty, brk = 0, oom = (\<lambda>_. False)\<rparr>,
     w_id = 1, w_signal = False\<rparr>"

definition demo_connect :: MQTTPacket_connectData where
  "demo_connect = MQTTPacket_connectData_initializer\<lparr>clientID := with_cstring (Some [0x61])\<rparr>"

definition demo_publish :: publish_request where
  "demo_publish = \<lparr>req_topic = Some [0x61], req_payload = Some [0x62], req_payloadlen = 1, req_qos = 1, req_retained = 0\<rparr>"

text \<open>Created; connected, with the CONNECT packet queued; the packet written; a publication queued; written.\<close>

definition demo_broker :: st_mqtt_broker_info where
  "demo_broker = \<lparr>broker_url = ''b'', broker_port = 8883\<rparr>"

abbreviation (input) demo_timer :: "nat \<Rightarrow> timer option" where
  "demo_timer ms \<equiv> Some \<lparr>period = ms, deadline = Some ms\<rparr>"

definition demo_created :: "u8 list world" where
  "demo_created = demo_world\<lparr>w_mem := \<lparr>cells = [Suc 0 \<mapsto> demo_ping], brk = 3, oom = \<lambda>_. False\<rparr>, w_cli := Some demo_client\<rparr>"

definition demo_opened :: "u8 list world" where
  "demo_opened = demo_created\<lparr>w_cli := Some (demo_client\<lparr>net_ctx := True, isconnected := True\<rparr>)\<rparr>"

abbreviation (input) demo_connect_chunk :: "packet_chunk_state \<Rightarrow> timer option \<Rightarrow> chunk node" where
  "demo_connect_chunk s t \<equiv> \<lparr>val = \<lparr>packet_type = 1, packet_id = 0, qos = 0, chunk_data = Some (connect_packet demo_connect),
     chunk_size = 15, chunk_state = s, expiry_time = t, retry_count = 0, have_owner = True, return_code = 0\<rparr>, nxt = None\<rparr>"

definition demo_connected :: "u8 list world" where
  "demo_connected = demo_world\<lparr>w_mem := \<lparr>cells = [Suc 0 \<mapsto> demo_ping, 3 \<mapsto> demo_connect_chunk PACKET_CHUNK_WRITE_PENDING None],
       brk = 5, oom = \<lambda>_. False\<rparr>,
     w_cli := Some (demo_client\<lparr>net_ctx := True, isconnected := True, keep_alive := 60, last_sent := demo_timer 60000,
       last_received := demo_timer 60000, write_pending_queue := \<lparr>q_head = Some 3, q_tail = Some 3, q_sem = True\<rparr>\<rparr>)\<rparr>"

definition demo_idle :: "u8 list world" where
  "demo_idle = demo_world\<lparr>w_mem := \<lparr>cells = [Suc 0 \<mapsto> demo_ping, 3 \<mapsto> demo_connect_chunk PACKET_CHUNK_ACK_PENDING (demo_timer 20000)],
       brk = 5, oom = \<lambda>_. False\<rparr>,
     w_cli := Some (demo_client\<lparr>net_ctx := True, isconnected := True, keep_alive := 60, last_sent := demo_timer 60000,
       last_received := demo_timer 60000, ack_pending_queue := \<lparr>q_head = Some 3, q_tail = Some 3, q_sem = True\<rparr>\<rparr>)\<rparr>"

lemmas run_simps = world_malloc_def iot_os_malloc_def upd_client_def init_mutex_def iot_mqtt_queue_init_def
  iot_mqtt_chunk_create_def fresh_bytes_def upd_chunk_def get_chunk_def vals_def Let_def zero_client_def zero_chunk_def

lemma demo_pingreq: "MQTTSerialize_zero [0, 0] 2 12 = Some (2, zero_packet PINGREQ)"
  using zero_msg.ser_fits [of 2 "[0, 0]" PINGREQ] by simp

lemma demo_create: "st_mqtt_create (demo_port puback2) True demo_world = Some (0, demo_created)"
  by (simp add: demo_created_def st_mqtt_create_def run_simps demo_world_def demo_port_def MQTTSerialize_pingreq_def upt_rec demo_pingreq)

lemma demo_open: "iot_mqtt_connect_net (demo_port puback2) demo_broker demo_created = (0, demo_opened)"
  by (simp add: demo_opened_def iot_mqtt_connect_net_def run_simps demo_created_def demo_port_def)

lemma demo_connect_ok: "connect_ok demo_connect" "MQTTSerialize_connect_size demo_connect = 15"
  by (simp_all add: connect_ok_def connect_strings_ok_def demo_connect_def MQTTPacket_connectData_initializer_def
      with_cstring_def connect_body_def MQTTSerialize_connect_size_def MQTTSerialize_connectLength_def
      MQTTString_initializer_def mqtt_string_ok_def opt_string_def string_present_def str_MQTT_def mqtt_bytes_def
      MQTTPacket_len_def MQTTstrlen_def)

lemma demo_connect_length: "length (connect_packet demo_connect) = 15"
  by (simp add: connect_packet_def length_packet_bytes length_rem_len_bytes demo_connect_def MQTTPacket_connectData_initializer_def
      with_cstring_def connect_body_def MQTTString_initializer_def opt_string_def string_present_def str_MQTT_def mqtt_bytes_def)

lemma demo_serialize: "MQTTSerialize_connect (replicate 15 0) 15 demo_connect = Some (15, connect_packet demo_connect)"
  using connect_msg.ser_fits [OF demo_connect_ok(1), of 15 "replicate 15 0"] demo_connect_ok(2)
  by (simp add: demo_connect_length)

lemma demo_begin: "connect_begin (demo_port puback2) demo_connect demo_opened = Some (Inr 3, demo_connected)"
proof -
  have ka: "keepAliveInterval demo_connect = 60" by (simp add: demo_connect_def MQTTPacket_connectData_initializer_def)
  show ?thesis
    by (simp add: connect_begin_def connect_timers_def new_timer_def iot_os_timer_create_def iot_os_timer_start_def ka
        demo_opened_def demo_created_def demo_connected_def demo_world_def demo_port_def run_simps demo_connect_ok(2)
        map_replicate_const demo_serialize iot_mqtt_queue_push_def put_queue_def link_push_def set_nxt_def fun_upd_twist)
qed

lemma demo_written: "iot_mqtt_run_write_stream (demo_port puback2) demo_connected = Some (15, demo_idle)"
proof -
  have "write_chunk_loop (demo_port puback2) (connect_packet demo_connect) 15 0 n = Some (15, n)" for n
    using write_chunk_whole [of "demo_port puback2" n "connect_packet demo_connect" n] demo_connect_length by force
  then show ?thesis
    by (simp add: iot_mqtt_run_write_stream_def demo_connected_def demo_idle_def demo_world_def run_simps iot_mqtt_queue_pop_def
        link_pop_def put_queue_def set_nxt_def iot_mqtt_process_post_write_def await_ack_def new_timer_def iot_os_timer_create_def
        iot_os_timer_start_def iot_mqtt_queue_push_def link_push_def restart_last_sent_def fun_upd_twist)
qed

lemma demo_reachable: "reachable (demo_port puback2) demo_connected"
proof -
  have "reachable (demo_port puback2) demo_created"
    by (rule reachable.created [OF demo_create]) (simp_all add: demo_world_def work_ok_def)
  moreover have "client_step (demo_port puback2) demo_created demo_connected"
    by (rule client_step.connect [OF demo_connect_ok(1) demo_open demo_begin])
  ultimately show ?thesis by (rule reachable.step)
qed

lemma demo_chunks:
  "get_chunk demo_connected = [Suc 0 \<mapsto> val demo_ping, 3 \<mapsto> val (demo_connect_chunk PACKET_CHUNK_WRITE_PENDING None)]"
  "get_chunk demo_idle = [Suc 0 \<mapsto> val demo_ping, 3 \<mapsto> val (demo_connect_chunk PACKET_CHUNK_ACK_PENDING (demo_timer 20000))]"
  by (auto simp: get_chunk_def vals_def demo_connected_def demo_idle_def)

lemma demo_connected_inv: "client_inv demo_connected ((\<lambda>_. [])(WRITE_PENDING := [3]))"
proof -
  have "good demo_connected" by (rule reachable_good [OF demo_progress demo_ok(2) demo_reachable])
  then obtain Q where inv: "client_inv demo_connected Q" by (auto simp: good_def)
  obtain c where c: "w_cli demo_connected = Some c" "rep (cells (w_mem demo_connected)) (get_queue k c) (Q k)" for k
    using invD(1) [OF inv] by (auto simp: queues_def)
  have cli: "get_queue WRITE_PENDING c = \<lparr>q_head = Some 3, q_tail = Some 3, q_sem = True\<rparr>"
    "get_queue ACK_PENDING c = no_chunks" "get_queue USER_EVENT c = no_chunks"
    using c(1) by (auto simp: demo_connected_def)
  have "Q ACK_PENDING = []" "Q USER_EVENT = []"
    using c(2) [of ACK_PENDING] c(2) [of USER_EVENT] unfolding cli by (auto simp: rep_def split: if_splits)
  moreover have "Q WRITE_PENDING = [3]"
  proof -
    have "path (cells (w_mem demo_connected)) (Some 3) (Q WRITE_PENDING)"
      using c(2) [of WRITE_PENDING, unfolded rep_def, THEN conjunct1] unfolding cli by simp
    moreover have "cells (w_mem demo_connected) 3 = Some (demo_connect_chunk PACKET_CHUNK_WRITE_PENDING None)"
      by (simp add: demo_connected_def)
    ultimately show ?thesis by (cases "Q WRITE_PENDING"; cases "tl (Q WRITE_PENDING)") auto
  qed
  ultimately have "Q k = ((\<lambda>_. [])(WRITE_PENDING := [3])) k" for k by (cases k) simp_all
  then have "Q = (\<lambda>_. [])(WRITE_PENDING := [3])" by (simp add: fun_eq_iff)
  then show ?thesis using inv by simp
qed

lemma demo_conn: "conn demo_connected" "conn demo_idle"
  by (simp_all add: conn_def demo_connected_def demo_idle_def)

lemma demo_idle_inv: "client_inv demo_idle ((\<lambda>_. [])(ACK_PENDING := [3]))"
proof -
  let ?d = "connect_packet demo_connect" and ?Q = "(\<lambda>_. [])(WRITE_PENDING := [3])"
  have ne: "?d \<noteq> []" by (simp add: connect_packet_def packet_bytes_def)
  obtain w t where w: "iot_mqtt_run_write_stream (demo_port puback2) demo_connected = Some (int (length ?d), w)"
    "client_inv w (?Q(WRITE_PENDING := [], ACK_PENDING := ?Q ACK_PENDING @
       (if waits_for_ack (val (demo_connect_chunk PACKET_CHUNK_WRITE_PENDING None)) then [3] else [])))"
    using write_stream_effect [OF demo_connected_inv demo_conn(1), of 3 "[]" "val (demo_connect_chunk PACKET_CHUNK_WRITE_PENDING None)"
        ?d "demo_port puback2" "w_net demo_connected"] ne by (auto simp: demo_chunks)
  have "waits_for_ack (val (demo_connect_chunk PACKET_CHUNK_WRITE_PENDING None))" by (simp add: waits_for_ack_def)
  moreover have "w = demo_idle" using w(1) demo_written by simp
  moreover have "?Q(WRITE_PENDING := [], ACK_PENDING := [3]) = (\<lambda>_. [])(ACK_PENDING := [3 :: nat])"
    by (auto simp: fun_eq_iff fun_upd_apply)
  ultimately show ?thesis using w(2) by simp
qed

section \<open>A publication\<close>

lemma demo_publish_ok: "publish_request_ok demo_publish"
  by (simp add: publish_request_ok_def demo_publish_def with_cstring_def MQTTString_initializer_def mqtt_bytes_def)

lemma demo_push:
  obtains w ch d where "iot_mqtt_push_publish_packet demo_publish True demo_idle = Some (Some 5, w)"
    "get_chunk w 5 = Some ch" "chunk_data ch = Some d" "packet_id ch = 2" "oom (w_mem w) = (\<lambda>_. False)"
proof -
  let ?t = "with_cstring (Some [0x61])" and ?x = "replicate 8 0 :: u8 list"
  have sz: "MQTTSerialize_publish_size 1 ?t 1 = 8"
    by (simp add: MQTTSerialize_publish_size_def MQTTSerialize_publishLength_def MQTTPacket_len_def MQTTstrlen_def
        with_cstring_def MQTTString_initializer_def)
  have id: "fresh_packetid 1 = 2" by (simp add: fresh_packetid_def word_le_nat_alt)
  obtain d rc where d: "MQTTSerialize_publish ?x 8 0 1 0 2 ?t (Some [0x62]) 1 = Some (rc, d)"
    using publish_msg.ser_safe [of "(0, 1, 0, 2, ?t, [0x62])" 8 ?x]
    by (auto simp: mqtt_string_ok_def with_cstring_def MQTTString_initializer_def mqtt_bytes_def)
  have "\<exists>w ch. iot_mqtt_push_publish_packet demo_publish True demo_idle = Some (Some 5, w)
    \<and> get_chunk w 5 = Some ch \<and> chunk_data ch = Some d \<and> packet_id ch = 2 \<and> oom (w_mem w) = (\<lambda>_. False)"
    by (simp add: iot_mqtt_push_publish_packet_def demo_idle_def demo_world_def demo_publish_def run_simps sz id
       map_replicate_const d iot_mqtt_queue_push_def put_queue_def link_push_def)
  then show thesis using that by blast
qed

end
