(* ===== verification/Util.thy ===== *)
theory Util
  imports Prelude
begin

text \<open>
  The conversions of \<^verbatim>\<open>src/iot_util.c\<close>: UUID and MAC addresses to and from text, Wi-Fi channels to
  and from frequencies, broker URLs, the retry back-off, and the memory dump. A C string is the list of
  its bytes without the terminator; reading it through an index sees the terminator at its end.
\<close>

section \<open>Characters\<close>

definition cstr :: "string \<Rightarrow> u8 list" where
  "cstr s = map (\<lambda>ch. of_nat (of_char ch)) s"

definition isalpha :: "u8 \<Rightarrow> bool" where
  "isalpha c \<longleftrightarrow> 65 \<le> unat c \<and> unat c \<le> 90 \<or> 97 \<le> unat c \<and> unat c \<le> 122"

definition isprint_c :: "u8 \<Rightarrow> bool" where
  "isprint_c c \<longleftrightarrow> 33 \<le> unat c \<and> unat c \<le> 126"

definition ishex :: "u8 \<Rightarrow> bool" where
  "ishex c \<longleftrightarrow> 48 \<le> unat c \<and> unat c \<le> 57 \<or> 97 \<le> unat c \<and> unat c \<le> 102
     \<or> 65 \<le> unat c \<and> unat c \<le> 90"

fun ishex_len :: "u8 list \<Rightarrow> nat \<Rightarrow> nat \<Rightarrow> bool option" where
  "ishex_len s p 0 = Some True"
| "ishex_len s p (Suc n) = do { c \<leftarrow> read_byte s p; if \<not> ishex c then Some False else ishex_len s (Suc p) n }"

text \<open>A test that is made only when the ones before it passed, so that nothing is read behind a failure.\<close>

definition andalso :: "bool option \<Rightarrow> bool option \<Rightarrow> bool option" where
  "andalso a b = (case a of Some True \<Rightarrow> b | _ \<Rightarrow> a)"

definition byte_test :: "(u8 \<Rightarrow> bool) \<Rightarrow> u8 list \<Rightarrow> nat \<Rightarrow> bool option" where
  "byte_test P s p = map_option P (read_byte s p)"

section \<open>UUIDs\<close>

abbreviation (input) dash :: u8 where "dash \<equiv> 45"
abbreviation (input) colon :: u8 where "colon \<equiv> 58"

text \<open>
  \<open>validate_uuid_format(str, str_len)\<close>: the checks of \<open>ptr\<close> from left to right, each at the offset
  that \<open>ptr\<close> has reached; the first that fails ends the function.
\<close>

definition uuid_checks :: "u8 list \<Rightarrow> bool option list" where
  "uuid_checks s =
     [ishex_len s 0 8, byte_test (\<lambda>c. c = dash) s 8, ishex_len s 9 4, byte_test (\<lambda>c. c = dash) s 13,
      byte_test (\<lambda>c. 49 \<le> unat c \<and> unat c \<le> 53) s 14, ishex_len s 15 3, byte_test (\<lambda>c. c = dash) s 18,
      ishex_len s 19 4, byte_test (\<lambda>c. c = dash) s 23, ishex_len s 24 12]"

definition validate_uuid_format :: "u8 list option \<Rightarrow> nat \<Rightarrow> iot_error option" where
  "validate_uuid_format str str_len = (case str of
     None \<Rightarrow> Some IOT_ERROR_INVALID_ARGS
   | Some s \<Rightarrow>
       if str_len \<noteq> 36 then Some IOT_ERROR_INVALID_ARGS
       else do {
         ok \<leftarrow> foldr andalso (uuid_checks (s @ [0])) (Some True);
         Some (if ok then IOT_ERROR_NONE else IOT_ERROR_INVALID_ARGS) })"

text \<open>The \<open>switch\<close> on a letter: what is or-ed into the byte, \<^const>\<open>None\<close> for a letter that is no digit.\<close>

definition hex_letter :: "u8 \<Rightarrow> u8 option" where
  "hex_letter c =
     (if c = 65 \<or> c = 97 then Some 0x0a else if c = 66 \<or> c = 98 then Some 0x0b
      else if c = 67 \<or> c = 99 then Some 0x0c else if c = 68 \<or> c = 100 then Some 0x0d
      else if c = 69 \<or> c = 101 then Some 0x0e else if c = 70 \<or> c = 102 then Some 0x0f else None)"

text \<open>Storing the digit: every second one completes the byte \<open>j\<close> of the array.\<close>

definition store_digit :: "u8 list \<Rightarrow> nat \<Rightarrow> nat \<Rightarrow> u8 \<Rightarrow> (u8 list \<times> nat \<times> u8) option" where
  "store_digit arr j k c =
     (if (j + 1) * 2 = k
      then (if j < length arr then Some (arr[j := c], Suc j, 0) else None)
      else Some (arr, j, push_bit 4 c))"

fun str_uuid_loop :: "u8 list \<Rightarrow> u8 list \<Rightarrow> nat \<Rightarrow> nat \<Rightarrow> u8 \<Rightarrow> u8 list option" where
  "str_uuid_loop [] arr j k c = Some arr"
| "str_uuid_loop (x # xs) arr j k c =
     (if x = dash then str_uuid_loop xs arr j k c
      else do {
        let c = (if isalpha x then (case hex_letter x of Some h \<Rightarrow> c OR h | None \<Rightarrow> c) else c OR (x - 48));
        (arr, j, c) \<leftarrow> store_digit arr j k c;
        str_uuid_loop xs arr j (Suc k) c })"

definition iot_util_convert_str_uuid ::
  "u8 list option \<Rightarrow> u8 list option \<Rightarrow> (iot_error \<times> u8 list option) option" where
  "iot_util_convert_str_uuid str uuid = (case (uuid, str) of
     (Some arr, Some s) \<Rightarrow> do {
       e \<leftarrow> validate_uuid_format (Some s) (length s);
       if e \<noteq> IOT_ERROR_NONE then Some (IOT_ERROR_INVALID_ARGS, uuid)
       else do { arr \<leftarrow> str_uuid_loop (take 36 s) arr 0 1 0; Some (IOT_ERROR_NONE, Some arr) } }
   | _ \<Rightarrow> Some (IOT_ERROR_INVALID_ARGS, uuid))"

definition hexdigit :: "nat \<Rightarrow> u8" where
  "hexdigit n = of_nat (if n < 10 then 48 + n else 87 + n)"

text \<open>What \<open>snprintf\<close> writes for \<^verbatim>\<open>%02x\<close> and an unsigned char.\<close>

definition hex02 :: "u8 \<Rightarrow> u8 list" where
  "hex02 b = [hexdigit (unat b div 16), hexdigit (unat b mod 16)]"

text \<open>The loop both printers share: the bytes, and the separator wherever the pattern has it.\<close>

fun print_bytes :: "u8 list \<Rightarrow> u8 \<Rightarrow> u8 list \<Rightarrow> wbuf \<Rightarrow> wbuf option" where
  "print_bytes ref pvt [] p = Some p"
| "print_bytes ref pvt (b # bs) p = do {
     (str, written) \<leftarrow> write_bytes (hex02 b) p;
     r \<leftarrow> read_byte (ref @ [0]) written;
     p \<leftarrow> (if r = pvt then write_bytes [pvt] (str, written) else Some (str, written));
     print_bytes ref pvt bs p }"

definition iot_util_convert_uuid_str ::
  "u8 list option \<Rightarrow> u8 list option \<Rightarrow> nat \<Rightarrow> (iot_error \<times> u8 list option) option" where
  "iot_util_convert_uuid_str uuid str max_sz = (case (uuid, str) of
     (Some arr, Some s) \<Rightarrow>
       if max_sz < 36 + 1 then Some (IOT_ERROR_INVALID_ARGS, str)
       else do {
         p \<leftarrow> (if length arr < 16 then None
              else print_bytes (cstr ''42365732-c6db-4bc9-8945-2a7ca10d6f23'') dash (take 16 arr) (s, 0));
         (s, _) \<leftarrow> write_bytes [0] p;
         Some (IOT_ERROR_NONE, Some s) }
   | _ \<Rightarrow> Some (IOT_ERROR_INVALID_ARGS, str))"

section \<open>MAC addresses\<close>

fun str_mac_loop :: "u8 list \<Rightarrow> nat \<Rightarrow> u8 list \<Rightarrow> nat \<Rightarrow> nat \<Rightarrow> u8 \<Rightarrow> (iot_error \<times> u8 list) option" where
  "str_mac_loop [] i arr j k c = Some (IOT_ERROR_NONE, arr)"
| "str_mac_loop (x # xs) i arr j k c =
     (if i mod 3 = 2
      then (if x = colon then str_mac_loop xs (Suc i) arr j k c else Some (IOT_ERROR_INVALID_ARGS, arr))
      else (case (if isalpha x then hex_letter x else Some (x - 48)) of
              None \<Rightarrow> Some (IOT_ERROR_INVALID_ARGS, arr)
            | Some h \<Rightarrow> do {
                (arr, j, c) \<leftarrow> store_digit arr j k (c OR h);
                str_mac_loop xs (Suc i) arr j (Suc k) c }))"

definition iot_util_convert_str_mac ::
  "u8 list option \<Rightarrow> u8 list option \<Rightarrow> (iot_error \<times> u8 list option) option" where
  "iot_util_convert_str_mac str mac = (case (mac, str) of
     (Some arr, Some s) \<Rightarrow>
       if length s \<noteq> 17 then Some (IOT_ERROR_INVALID_ARGS, mac)
       else do { (e, arr) \<leftarrow> str_mac_loop s 0 arr 0 1 0; Some (e, Some arr) }
   | _ \<Rightarrow> Some (IOT_ERROR_INVALID_ARGS, mac))"

text \<open>\<open>max_sz\<close> is an \<open>int\<close> compared with a \<open>size_t\<close>: a negative one counts as huge.\<close>

definition iot_util_convert_mac_str ::
  "u8 list option \<Rightarrow> u8 list option \<Rightarrow> int \<Rightarrow> (iot_error \<times> u8 list option) option" where
  "iot_util_convert_mac_str mac str max_sz = (case (mac, str) of
     (Some arr, Some s) \<Rightarrow>
       if 0 \<le> max_sz \<and> max_sz < 17 + 1 then Some (IOT_ERROR_INVALID_ARGS, str)
       else do {
         p \<leftarrow> (if length arr < 6 then None
              else print_bytes (cstr ''a1:b2:c3:d4:e5:f6'') colon (take 6 arr) (s, 0));
         (s, _) \<leftarrow> write_bytes [0] p;
         Some (IOT_ERROR_NONE, Some s) }
   | _ \<Rightarrow> Some (IOT_ERROR_INVALID_ARGS, str))"

section \<open>Channels\<close>

definition iot_util_convert_channel_freq :: "u8 \<Rightarrow> u16" where
  "iot_util_convert_channel_freq channel =
     (let ch = uint channel in
      if ch < 1 then 0
      else if ch < 14 then word_of_int (2412 + 5 * (ch - 1))
      else if ch = 14 then 2484
      else if ch > 31 \<and> ch < 174 then word_of_int (5160 + 5 * (ch - 32))
      else 0)"

definition iot_util_convert_freq_channel :: "u16 \<Rightarrow> u8" where
  "iot_util_convert_freq_channel freq =
     (let f = uint freq in
      if f = 0 then 0
      else if f < 2484 then word_of_int ((f - 2412) sdiv 5 + 1)
      else if f = 2484 then 14
      else if f \<ge> 5160 \<and> f \<le> 5865 then word_of_int ((f - 5160) sdiv 5 + 32)
      else 0)"

section \<open>URLs\<close>

record url_parse_t =
  url_protocol :: "u8 list option"
  url_domain :: "u8 list option"
  url_port :: int

text \<open>\<open>strstr\<close>: the offset of the first occurrence.\<close>

fun strstr_c :: "u8 list \<Rightarrow> u8 list \<Rightarrow> nat option" where
  "strstr_c [] pat = (if pat = [] then Some 0 else None)"
| "strstr_c (x # xs) pat =
     (if take (length pat) (x # xs) = pat then Some 0 else map_option Suc (strstr_c xs pat))"

definition isspace_c :: "u8 \<Rightarrow> bool" where
  "isspace_c c \<longleftrightarrow> c = 32 \<or> 9 \<le> unat c \<and> unat c \<le> 13"

definition isdigit_c :: "u8 \<Rightarrow> bool" where
  "isdigit_c c \<longleftrightarrow> 48 \<le> unat c \<and> unat c \<le> 57"

text \<open>\<open>atoi\<close> on a number that fits an \<open>int\<close>: blanks, a sign, digits.\<close>

definition atoi_c :: "u8 list \<Rightarrow> int" where
  "atoi_c s = (let s = dropWhile isspace_c s;
      (neg, s) = (case s of x # xs \<Rightarrow> if x = 45 then (True, xs) else if x = 43 then (False, xs) else (False, s)
                  | [] \<Rightarrow> (False, s));
      v = foldl (\<lambda>v x. v * 10 + (uint x - 48)) 0 (takeWhile isdigit_c s)
    in if neg then - v else v)"

text \<open>\<open>iot_util_url_parse\<close>; \<open>alloc1\<close> and \<open>alloc2\<close> are whether the two allocations succeed.\<close>

definition iot_util_url_parse ::
  "bool \<Rightarrow> bool \<Rightarrow> u8 list option \<Rightarrow> url_parse_t option \<Rightarrow> iot_error \<times> url_parse_t option" where
  "iot_util_url_parse alloc1 alloc2 url out = (case (url, out) of
     (Some u, Some o') \<Rightarrow>
       (case strstr_c u (cstr ''://'') of
          None \<Rightarrow> (IOT_ERROR_INVALID_ARGS, out)
        | Some p1 \<Rightarrow>
            let p_domain = drop (p1 + 3) u in
            (case strstr_c p_domain (cstr '':'') of
               None \<Rightarrow> (IOT_ERROR_INVALID_ARGS, out)
             | Some p2 \<Rightarrow>
                 if \<not> alloc1 then (IOT_ERROR_MEM_ALLOC, Some (o'\<lparr>url_protocol := None\<rparr>))
                 else if \<not> alloc2
                 then (IOT_ERROR_MEM_ALLOC, Some (o'\<lparr>url_protocol := None, url_domain := None\<rparr>))
                 else (IOT_ERROR_NONE, Some \<lparr>url_protocol = Some (take p1 u), url_domain = Some (take p2 p_domain),
                        url_port = atoi_c (drop (p2 + 1) p_domain)\<rparr>)))
   | _ \<Rightarrow> (IOT_ERROR_INVALID_ARGS, out))"

section \<open>Back-off\<close>

text \<open>\<open>iot_util_generator_backoff\<close>; \<open>rnd\<close> is what \<open>iot_bsp_random\<close> returns.\<close>

fun backoff_loop :: "nat \<Rightarrow> u32 \<Rightarrow> u32 \<Rightarrow> u32 + u32" where
  "backoff_loop 0 maximum backoff = Inr backoff"
| "backoff_loop (Suc n) maximum backoff =
     (let backoff = backoff * 2
      in if backoff * 1000 \<ge> maximum * 1000 then Inl (maximum * 1000) else backoff_loop n maximum backoff)"

definition iot_util_generator_backoff :: "u32 \<Rightarrow> u32 \<Rightarrow> u32 \<Rightarrow> u32" where
  "iot_util_generator_backoff rnd try_count maximum_backoff =
     (case backoff_loop (unat try_count) maximum_backoff 1 of
        Inl r \<Rightarrow> r
      | Inr backoff \<Rightarrow> backoff * 1000 + rnd mod 1000)"

section \<open>The memory dump\<close>

text \<open>
  The characters column of \<open>iot_util_dump_mem\<close> with the tag \<^verbatim>\<open>dump\<close>: the inner loop over one row of
  sixteen bytes. It prints a character before it tests whether the index has passed the length.
\<close>

fun dump_chars :: "u8 list \<Rightarrow> nat \<Rightarrow> nat \<Rightarrow> nat \<Rightarrow> u8 list option" where
  "dump_chars buf len j 0 = Some []"
| "dump_chars buf len j (Suc n) = do {
     c \<leftarrow> read_byte buf j;
     let out = (if isprint_c c then c else 46);
     if j \<ge> len then Some [out] else do { rest \<leftarrow> dump_chars buf len (Suc j) n; Some (out # rest) } }"

fun dump_hex :: "u8 list \<Rightarrow> u8 list \<Rightarrow> nat \<Rightarrow> nat \<Rightarrow> nat \<Rightarrow> u8 list option" where
  "dump_hex space buf len j 0 = Some []"
| "dump_hex space buf len j (Suc n) = do {
     out \<leftarrow> (if j < len then do { c \<leftarrow> read_byte buf j; Some (hex02 c @ space) } else Some [32, 32, 32]);
     rest \<leftarrow> dump_hex space buf len (Suc j) n;
     Some (out @ rest) }"

text \<open>The rows; \<open>addr\<close> prints the address of an offset (\<^verbatim>\<open>[%p] \<close>).\<close>

function dump_rows :: "(nat \<Rightarrow> u8 list) \<Rightarrow> string \<Rightarrow> u8 list \<Rightarrow> nat \<Rightarrow> nat \<Rightarrow> u8 list option" where
  "dump_rows addr tag buf len i =
     (if i < len
      then do {
        let newline = (if i = 0 then [] else [10]);
        let head = (if tag = ''dump'' then newline @ addr i else []);
        hex \<leftarrow> dump_hex (if tag = ''raw'' then [] else [32]) buf len i 16;
        chars \<leftarrow> (if tag = ''dump'' then dump_chars buf len i 16 else Some []);
        rest \<leftarrow> dump_rows addr tag buf len (i + 16);
        Some (head @ hex @ chars @ rest) }
      else Some [])"
  by pat_completeness auto
termination
  by (relation "measure (\<lambda>(addr, tag, buf, len, i). len - i)") auto

declare dump_rows.simps [simp del]

definition iot_util_dump_mem :: "(nat \<Rightarrow> u8 list) \<Rightarrow> string \<Rightarrow> u8 list \<Rightarrow> nat \<Rightarrow> u8 list option" where
  "iot_util_dump_mem addr tag buf len = do { out \<leftarrow> dump_rows addr tag buf len 0; Some (out @ [10]) }"


section \<open>Digits and bytes\<close>

definition digit_value :: "u8 \<Rightarrow> u8" where
  "digit_value x = (if isalpha x then (case hex_letter x of Some h \<Rightarrow> h | None \<Rightarrow> 0) else x - 48)"

lemma less_16_cases: "n < 16 \<Longrightarrow> n \<in> {0, 1, 2, 3, 4, 5, 6, 7, 8, 9, 10, 11, 12, 13, 14, 15 :: nat}"
  unfolding insert_iff empty_iff by presburger

lemma hexdigit_ishex: "n < 16 \<Longrightarrow> ishex (hexdigit n)"
  by (drule less_16_cases, elim insertE emptyE) (simp_all add: hexdigit_def ishex_def)

lemma hexdigit_sep: "n < 16 \<Longrightarrow> hexdigit n \<noteq> dash \<and> hexdigit n \<noteq> colon"
  by (drule less_16_cases, elim insertE emptyE) (simp_all add: hexdigit_def)

lemma hexdigit_value:
  "n < 16 \<Longrightarrow> (if isalpha (hexdigit n) then hex_letter (hexdigit n) else Some (hexdigit n - 48)) = Some (of_nat n)"
  by (drule less_16_cases, elim insertE emptyE) (simp_all add: hexdigit_def isalpha_def hex_letter_def)

lemma digit_value_hexdigit: "n < 16 \<Longrightarrow> digit_value (hexdigit n) = of_nat n"
  using hexdigit_value [of n] by (auto simp: digit_value_def split: if_splits)

lemmas hexdigit_props = hexdigit_ishex hexdigit_sep hexdigit_value digit_value_hexdigit

lemma nibbles: "push_bit 4 (of_nat (unat b div 16)) OR of_nat (unat b mod 16) = (b :: u8)"
proof -
  have hi: "of_nat (unat b div 16) = drop_bit 4 b"
    by (rule word_unat_eq_iff [THEN iffD2])
      (simp add: unat_drop_bit_eq drop_bit_eq_div unat_div order.strict_trans1 [OF div_le_dividend])
  have lo: "of_nat (unat b mod 16) = take_bit 4 b"
    by (rule word_unat_eq_iff [THEN iffD2])
      (simp add: unsigned_take_bit_eq take_bit_eq_mod unat_mod order.strict_trans1 [OF mod_less_eq_dividend])
  show ?thesis
    unfolding hi lo by (rule bit_eqI) (auto simp: bit_simps)
qed

lemma div16_less: "unat (b :: u8) div 16 < 16"
  using unat_u8_less [of b] by (simp add: less_mult_imp_div_less)

lemma or_digit: "(if isalpha x then (case hex_letter x of Some h \<Rightarrow> c OR h | None \<Rightarrow> c) else c OR (x - 48))
    = c OR digit_value x"
  by (simp add: digit_value_def split: option.split)


section \<open>Printing\<close>

text \<open>What the printing loop appends from an offset on, given where the reference has its separators.\<close>

fun print_text :: "u8 list \<Rightarrow> u8 \<Rightarrow> u8 list \<Rightarrow> nat \<Rightarrow> u8 list" where
  "print_text ref pvt [] p = []"
| "print_text ref pvt (b # bs) p =
     hex02 b @ (if (ref @ [0]) ! (p + 2) = pvt then pvt # print_text ref pvt bs (p + 3)
                else print_text ref pvt bs (p + 2))"

lemma length_hex02 [simp]: "length (hex02 b) = 2"
  by (simp add: hex02_def)

lemma print_bytes_text:
  "p + length (print_text ref pvt bs p) \<le> length ref \<Longrightarrow> length ref < length s \<Longrightarrow>
     print_bytes ref pvt bs (s, p) = write_bytes (print_text ref pvt bs p) (s, p)"
proof (induction ref pvt bs p arbitrary: s rule: print_text.induct)
  case (1 ref pvt p)
  then show ?case by (simp add: write_bytes_Nil)
next
  case (2 ref pvt b bs p)
  obtain s1 where w1: "write_bytes (hex02 b) (s, p) = Some (s1, p + 2)" and l1: "length s1 = length s"
    using "2.prems" by (auto simp: write_bytes_def)
  have r: "read_byte (ref @ [0]) (p + 2) = Some ((ref @ [0]) ! (p + 2))"
    using "2.prems" by (intro read_byte_lt) auto
  show ?case
  proof (cases "(ref @ [0]) ! (p + 2) = pvt")
    case True
    obtain s2 where w2: "write_bytes [pvt] (s1, p + 2) = Some (s2, p + 3)" and l2: "length s2 = length s"
      using "2.prems" True l1 by (auto simp: write_bytes_def)
    have "print_bytes ref pvt bs (s2, p + 3) = write_bytes (print_text ref pvt bs (p + 3)) (s2, p + 3)"
      using "2.IH"(1) [OF True, of s2] "2.prems" True l2 by simp
    then have "print_bytes ref pvt (b # bs) (s, p)
        = write_bytes (hex02 b) (s, p) \<bind> write_bytes [pvt] \<bind> write_bytes (print_text ref pvt bs (p + 3))"
      using w1 w2 r True by simp
    then show ?thesis using True by (simp add: write_bytes_append)
  next
    case False
    have "print_bytes ref pvt bs (s1, p + 2) = write_bytes (print_text ref pvt bs (p + 2)) (s1, p + 2)"
      using "2.IH"(2) [OF False, of s1] "2.prems" False l1 by simp
    then have "print_bytes ref pvt (b # bs) (s, p)
        = write_bytes (hex02 b) (s, p) \<bind> write_bytes (print_text ref pvt bs (p + 2))"
      using w1 r False by simp
    then show ?thesis using False by (simp add: write_bytes_append)
  qed
qed

lemma length_16E:
  assumes "length xs = 16"
  obtains a b c d e f g h i j k l m n p q where "xs = [a, b, c, d, e, f, g, h, i, j, k, l, m, n, p, q]"
  using assms by (auto simp: length_Suc_conv eval_nat_numeral)

lemma length_6E:
  assumes "length xs = 6"
  obtains a b c d e f where "xs = [a, b, c, d, e, f]"
  using assms by (auto simp: length_Suc_conv eval_nat_numeral)

section \<open>Text of UUIDs and MAC addresses\<close>

definition uuid_text :: "u8 list \<Rightarrow> u8 list" where
  "uuid_text bs = concat (map hex02 (take 4 bs)) @ [dash] @ concat (map hex02 (take 2 (drop 4 bs))) @ [dash]
     @ concat (map hex02 (take 2 (drop 6 bs))) @ [dash] @ concat (map hex02 (take 2 (drop 8 bs))) @ [dash]
     @ concat (map hex02 (drop 10 bs))"

definition mac_text :: "u8 list \<Rightarrow> u8 list" where
  "mac_text bs = tl (concat (map (\<lambda>b. colon # hex02 b) bs))"

lemma print_uuid_text:
  "length bs = 16 \<Longrightarrow> print_text (cstr ''42365732-c6db-4bc9-8945-2a7ca10d6f23'') dash bs 0 = uuid_text bs"
  by (elim length_16E) (simp add: uuid_text_def cstr_def)

lemma print_mac_text: "length bs = 6 \<Longrightarrow> print_text (cstr ''a1:b2:c3:d4:e5:f6'') colon bs 0 = mac_text bs"
  by (elim length_6E) (simp add: mac_text_def cstr_def)

lemma length_uuid_text: "length bs = 16 \<Longrightarrow> length (uuid_text bs) = 36"
  by (elim length_16E) (simp add: uuid_text_def)

lemma length_mac_text: "length bs = 6 \<Longrightarrow> length (mac_text bs) = 17"
  by (elim length_6E) (simp add: mac_text_def)

lemma convert_uuid_str_text:
  assumes "length bs = 16" and "37 \<le> max_sz" and "37 \<le> length s"
  shows "iot_util_convert_uuid_str (Some bs) (Some s) max_sz
    = Some (IOT_ERROR_NONE, Some (uuid_text bs @ 0 # drop 37 s))"
proof -
  let ?ref = "cstr ''42365732-c6db-4bc9-8945-2a7ca10d6f23''"
  have "length ?ref = 36" by (simp add: cstr_def)
  with print_bytes_text [of 0 ?ref dash bs s] have
    "print_bytes ?ref dash bs (s, 0) = write_bytes (uuid_text bs) (s, 0)"
    using assms by (simp add: print_uuid_text length_uuid_text)
  then show ?thesis
    using assms length_uuid_text [OF assms(1)]
    by (simp add: iot_util_convert_uuid_str_def write_bytes_def Cons_nth_drop_Suc [symmetric])
qed

lemma convert_mac_str_text:
  assumes "length bs = 6" and "18 \<le> max_sz" and "18 \<le> length s"
  shows "iot_util_convert_mac_str (Some bs) (Some s) max_sz
    = Some (IOT_ERROR_NONE, Some (mac_text bs @ 0 # drop 18 s))"
proof -
  let ?ref = "cstr ''a1:b2:c3:d4:e5:f6''"
  have "length ?ref = 17" by (simp add: cstr_def)
  with print_bytes_text [of 0 ?ref colon bs s] have
    "print_bytes ?ref colon bs (s, 0) = write_bytes (mac_text bs) (s, 0)"
    using assms by (simp add: print_mac_text length_mac_text)
  then show ?thesis
    using assms length_mac_text [OF assms(1)]
    by (simp add: iot_util_convert_mac_str_def write_bytes_def)
qed


section \<open>Parsing\<close>

text \<open>Two digits store one byte and leave the accumulator empty.\<close>

lemma str_uuid_loop_hex02:
  "j < length arr \<Longrightarrow> str_uuid_loop (hex02 b @ xs) arr j (2 * j + 1) 0
     = str_uuid_loop xs (arr[j := b]) (Suc j) (2 * Suc j + 1) 0"
  using hexdigit_props [of "unat b div 16"] hexdigit_props [of "unat b mod 16"] div16_less [of b] nibbles [of b]
  by (simp add: hex02_def or_digit store_digit_def)

lemma str_mac_loop_hex02:
  "j < length arr \<Longrightarrow> i mod 3 = 0 \<Longrightarrow> str_mac_loop (hex02 b @ xs) i arr j (2 * j + 1) 0
     = str_mac_loop xs (i + 2) (arr[j := b]) (Suc j) (2 * Suc j + 1) 0"
  using hexdigit_props [of "unat b div 16"] hexdigit_props [of "unat b mod 16"] div16_less [of b] nibbles [of b]
  by (simp add: hex02_def store_digit_def mod_Suc)

lemma str_uuid_loop_bytes:
  "j + length bs \<le> length arr \<Longrightarrow> str_uuid_loop (concat (map hex02 bs) @ xs) arr j (2 * j + 1) 0
     = str_uuid_loop xs (take j arr @ bs @ drop (j + length bs) arr) (j + length bs) (2 * (j + length bs) + 1) 0"
proof (induction bs arbitrary: arr j)
  case (Cons b bs)
  from Cons.IH [of "Suc j" "arr[j := b]"] str_uuid_loop_hex02 [of j arr b "concat (map hex02 bs) @ xs"] Cons.prems
  show ?case by (simp add: take_Suc_conv_app_nth)
qed simp

lemma parse_uuid_text:
  assumes "length bs = 16" and "length arr = 16"
  shows "str_uuid_loop (uuid_text bs) arr 0 1 0 = Some bs"
proof -
  have dash: "str_uuid_loop (dash # xs) a j k c = str_uuid_loop xs a j k c" for xs a j k c by simp
  have split: "take 4 bs @ take 2 (drop 4 bs) @ take 2 (drop 6 bs) @ take 2 (drop 8 bs) @ drop 10 bs = bs"
    using assms(1) by (elim length_16E) simp
  show ?thesis
    using assms str_uuid_loop_bytes [of 0 "take 4 bs" arr]
      str_uuid_loop_bytes [of 4 "take 2 (drop 4 bs)"] str_uuid_loop_bytes [of 6 "take 2 (drop 6 bs)"]
      str_uuid_loop_bytes [of 8 "take 2 (drop 8 bs)"] str_uuid_loop_bytes [of 10 "drop 10 bs" _ "[]"] split
    by (simp add: uuid_text_def dash del: str_uuid_loop.simps(2))
qed

lemma ishex_len_append:
  "list_all ishex xs \<Longrightarrow> p = length pre \<Longrightarrow> n = length xs \<Longrightarrow> ishex_len (pre @ xs @ post) p n = Some True"
proof (induction xs arbitrary: pre p n)
  case (Cons x xs)
  from Cons.IH [of "Suc p" "pre @ [x]"] Cons.prems show ?case by (simp add: read_byte_append)
qed simp

lemma byte_test_append: "P x \<Longrightarrow> p = length pre \<Longrightarrow> byte_test P (pre @ x # post) p = Some True"
  by (simp add: byte_test_def read_byte_append)

text \<open>The shape the checks accept.\<close>

lemma validate_uuid_shape:
  assumes "list_all ishex a" "list_all ishex b" "list_all ishex c" "list_all ishex d" "list_all ishex e"
    and "length a = 8" "length b = 4" "length c = 3" "length d = 4" "length e = 12"
    and "49 \<le> unat v" "unat v \<le> 53"
  shows "validate_uuid_format (Some (a @ dash # b @ dash # v # c @ dash # d @ dash # e)) 36 = Some IOT_ERROR_NONE"
proof -
  let ?hex = "ishex_len" and ?dash = "byte_test (\<lambda>c. c = dash)"
    and ?ver = "byte_test (\<lambda>c. 49 \<le> unat c \<and> unat c \<le> 53)"
  have "?hex ([] @ a @ dash # b @ dash # v # c @ dash # d @ dash # e @ [0]) 0 8 = Some True"
    by (rule ishex_len_append) (simp_all add: assms)
  moreover have "?dash ((a) @ dash # b @ dash # v # c @ dash # d @ dash # e @ [0]) 8 = Some True"
    by (rule byte_test_append) (simp_all add: assms)
  moreover have "?hex ((a @ [dash]) @ b @ dash # v # c @ dash # d @ dash # e @ [0]) 9 4 = Some True"
    by (rule ishex_len_append) (simp_all add: assms)
  moreover have "?dash ((a @ dash # b) @ dash # v # c @ dash # d @ dash # e @ [0]) 13 = Some True"
    by (rule byte_test_append) (simp_all add: assms)
  moreover have "?ver ((a @ dash # b @ [dash]) @ v # c @ dash # d @ dash # e @ [0]) 14 = Some True"
    by (rule byte_test_append) (simp_all add: assms)
  moreover have "?hex ((a @ dash # b @ [dash, v]) @ c @ dash # d @ dash # e @ [0]) 15 3 = Some True"
    by (rule ishex_len_append) (simp_all add: assms)
  moreover have "?dash ((a @ dash # b @ dash # v # c) @ dash # d @ dash # e @ [0]) 18 = Some True"
    by (rule byte_test_append) (simp_all add: assms)
  moreover have "?hex ((a @ dash # b @ dash # v # c @ [dash]) @ d @ dash # e @ [0]) 19 4 = Some True"
    by (rule ishex_len_append) (simp_all add: assms)
  moreover have "?dash ((a @ dash # b @ dash # v # c @ dash # d) @ dash # e @ [0]) 23 = Some True"
    by (rule byte_test_append) (simp_all add: assms)
  moreover have "?hex ((a @ dash # b @ dash # v # c @ dash # d @ [dash]) @ e @ [0]) 24 12 = Some True"
    by (rule ishex_len_append) (simp_all add: assms)
  ultimately show ?thesis
    by (simp add: validate_uuid_format_def uuid_checks_def andalso_def del: ishex_len.simps)
qed

lemma hex02_ishex: "list_all ishex (hex02 b)"
  using hexdigit_ishex [of "unat b div 16"] hexdigit_ishex [of "unat b mod 16"] div16_less [of b]
  by (simp add: hex02_def)

lemma concat_hex02_ishex: "list_all ishex (concat (map hex02 bs))"
  by (induction bs) (simp_all add: hex02_ishex)

lemma length_concat_hex02: "length (concat (map hex02 bs)) = 2 * length bs"
  by (induction bs) simp_all

lemma hexdigit_1_5: "1 \<le> n \<Longrightarrow> n \<le> 5 \<Longrightarrow> 49 \<le> unat (hexdigit n) \<and> unat (hexdigit n) \<le> 53"
  by (simp add: hexdigit_def unat_of_nat del: of_nat_add of_nat_numeral)

lemma validate_uuid_text:
  assumes "length bs = 16" and "1 \<le> unat (bs ! 6) div 16" and "unat (bs ! 6) div 16 \<le> 5"
  shows "validate_uuid_format (Some (uuid_text bs)) 36 = Some IOT_ERROR_NONE"
proof -
  let ?c = "hexdigit (unat (bs ! 6) mod 16) # hex02 (bs ! 7)"
  have "take 2 (drop 6 bs) = [bs ! 6, bs ! 7]" using assms(1) by (elim length_16E) simp
  then have "uuid_text bs = concat (map hex02 (take 4 bs)) @ dash # concat (map hex02 (take 2 (drop 4 bs))) @ dash
      # hexdigit (unat (bs ! 6) div 16) # ?c @ dash # concat (map hex02 (take 2 (drop 8 bs))) @ dash
      # concat (map hex02 (drop 10 bs))"
    by (simp add: uuid_text_def hex02_def)
  moreover have "list_all ishex ?c" using hex02_ishex hexdigit_ishex by simp
  ultimately show ?thesis
    using validate_uuid_shape [of "concat (map hex02 (take 4 bs))" "concat (map hex02 (take 2 (drop 4 bs)))" ?c
        "concat (map hex02 (take 2 (drop 8 bs)))" "concat (map hex02 (drop 10 bs))"]
      hexdigit_1_5 [OF assms(2,3)] assms(1)
    by (simp only: concat_hex02_ishex length_concat_hex02 length_take length_drop list.size length_hex02)
qed

lemma convert_str_uuid_text:
  assumes "length bs = 16" and "length arr = 16" and "1 \<le> unat (bs ! 6) div 16" and "unat (bs ! 6) div 16 \<le> 5"
  shows "iot_util_convert_str_uuid (Some (uuid_text bs)) (Some arr) = Some (IOT_ERROR_NONE, Some bs)"
  using assms validate_uuid_text [of bs] parse_uuid_text [of bs arr]
  by (simp add: iot_util_convert_str_uuid_def length_uuid_text)

lemma parse_mac_text:
  assumes "length bs = 6" and "length arr = 6"
  shows "str_mac_loop (mac_text bs) 0 arr 0 1 0 = Some (IOT_ERROR_NONE, bs)"
proof -
  have colon: "i mod 3 = 2 \<Longrightarrow> str_mac_loop (colon # xs) i a j k c = str_mac_loop xs (Suc i) a j k c" for xs i a j k c
    by simp
  note step = str_mac_loop_hex02 [where i = 0] str_mac_loop_hex02 [where i = 3] str_mac_loop_hex02 [where i = 6]
    str_mac_loop_hex02 [where i = 9] str_mac_loop_hex02 [where i = 12] str_mac_loop_hex02 [where i = 15 and xs = "[]"]
  from assms(1) show ?thesis
  proof (elim length_6E)
    fix a b c d e f assume bs: "bs = [a, b, c, d, e, f]"
    from assms(2) obtain u v w x y z where arr: "arr = [u, v, w, x, y, z]" by (elim length_6E)
    show ?thesis
      using step(1) [of 0 arr a] step(2) [of 1 _ b] step(3) [of 2 _ c] step(4) [of 3 _ d] step(5) [of 4 _ e]
        step(6) [of 5 _ f]
      by (simp add: bs arr mac_text_def colon numeral_2_eq_2 [symmetric] numeral_3_eq_3 [symmetric] del: str_mac_loop.simps(2))
  qed
qed

lemma convert_str_mac_text:
  assumes "length bs = 6" and "length arr = 6"
  shows "iot_util_convert_str_mac (Some (mac_text bs)) (Some arr) = Some (IOT_ERROR_NONE, Some bs)"
  using assms parse_mac_text [of bs arr] by (simp add: iot_util_convert_str_mac_def length_mac_text)

section \<open>Arbitrary text never writes outside the array\<close>

lemma foldr_andalso: "foldr andalso xs (Some True) = Some True \<longleftrightarrow> list_all (\<lambda>x. x = Some True) xs"
  by (induction xs) (auto simp: andalso_def split: option.splits bool.splits)

lemma foldr_andalso_defined: "list_all (\<lambda>x. x \<noteq> None) xs \<Longrightarrow> foldr andalso xs (Some True) \<noteq> None"
  by (induction xs) (auto simp: andalso_def split: option.splits bool.splits)

lemma ishex_len_defined: "p + n \<le> length s \<Longrightarrow> ishex_len s p n \<noteq> None"
  by (induction n arbitrary: p) (auto simp: read_byte_lt)

lemma validate_defined: "length s = 36 \<Longrightarrow> validate_uuid_format (Some s) 36 \<noteq> None"
proof -
  assume "length s = 36"
  then have "list_all (\<lambda>x. x \<noteq> None) (uuid_checks (s @ [0]))"
    unfolding uuid_checks_def byte_test_def list.pred_inject
    by (intro conjI ishex_len_defined) (simp_all add: read_byte_lt)
  from foldr_andalso_defined [OF this] show ?thesis by (auto simp: validate_uuid_format_def)
qed

lemma validate_dashes:
  assumes "length s = 36" and "validate_uuid_format (Some s) 36 = Some IOT_ERROR_NONE"
  shows "s ! 8 = dash \<and> s ! 13 = dash \<and> s ! 18 = dash \<and> s ! 23 = dash"
proof -
  obtain ok where "foldr andalso (uuid_checks (s @ [0])) (Some True) = Some ok" "ok"
    using assms(2) by (auto simp: validate_uuid_format_def bind_eq_Some_conv split: if_splits)
  then have "list_all (\<lambda>x. x = Some True) (uuid_checks (s @ [0]))"
    by (simp add: foldr_andalso)
  then have "byte_test (\<lambda>c. c = dash) (s @ [0]) 8 = Some True" "byte_test (\<lambda>c. c = dash) (s @ [0]) 13 = Some True"
    "byte_test (\<lambda>c. c = dash) (s @ [0]) 18 = Some True" "byte_test (\<lambda>c. c = dash) (s @ [0]) 23 = Some True"
    by (simp_all only: uuid_checks_def list.pred_inject)
  then show ?thesis using assms(1) by (simp add: byte_test_def read_byte_lt nth_append)
qed

lemma dash_count:
  assumes "length s = 36" and "s ! 8 = dash \<and> s ! 13 = dash \<and> s ! 18 = dash \<and> s ! 23 = dash"
  shows "length (filter (\<lambda>x. x \<noteq> dash) s) \<le> 32"
proof -
  have "{i. i < length s \<and> s ! i \<noteq> dash} \<subseteq> {..<36} - {8, 13, 18, 23}" using assms by auto
  then have "card {i. i < length s \<and> s ! i \<noteq> dash} \<le> card ({..<36::nat} - {8, 13, 18, 23})"
    by (intro card_mono) auto
  also have "\<dots> = 32" by (subst card_Diff_subset) auto
  finally show ?thesis by (simp add: length_filter_conv_card)
qed

lemma str_uuid_loop_defined:
  "k = 2 * j + 1 \<or> k = 2 * j + 2 \<Longrightarrow> k + length (filter (\<lambda>x. x \<noteq> dash) xs) \<le> 2 * length arr + 1 \<Longrightarrow>
     \<exists>arr'. str_uuid_loop xs arr j k c = Some arr' \<and> length arr' = length arr"
proof (induction xs arr j k c rule: str_uuid_loop.induct)
  case (2 x xs arr j k c)
  show ?case
  proof (cases "x = dash")
    case False
    let ?c = "c OR digit_value x"
    obtain arr' j' c' where st: "store_digit arr j k ?c = Some (arr', j', c')" and
      "length arr' = length arr" "Suc k = 2 * j' + 1 \<or> Suc k = 2 * j' + 2"
      using "2.prems" False by (auto simp: store_digit_def)
    with "2.IH"(2) [OF False refl, unfolded or_digit, OF st refl refl] "2.prems" False
    show ?thesis by (simp add: or_digit)
  qed (use "2.IH"(1) "2.prems" in auto)
qed simp

lemma convert_str_uuid_defined:
  assumes "length arr = 16"
  shows "\<exists>e arr'. iot_util_convert_str_uuid str (Some arr) = Some (e, Some arr') \<and> length arr' = 16"
proof (cases str)
  case None
  with assms show ?thesis by (simp add: iot_util_convert_str_uuid_def)
next
  case (Some s)
  show ?thesis
  proof (cases "length s = 36")
    case True
    obtain e where e: "validate_uuid_format (Some s) 36 = Some e" using validate_defined [OF True] by auto
    show ?thesis
    proof (cases "e = IOT_ERROR_NONE")
      case ok: True
      with e True have "length (filter (\<lambda>x. x \<noteq> dash) s) \<le> 32" by (intro dash_count validate_dashes) simp_all
      then obtain arr' where "str_uuid_loop s arr 0 1 0 = Some arr'" "length arr' = 16"
        using str_uuid_loop_defined [of 1 0 s arr 0] assms by auto
      with Some True e ok show ?thesis by (simp add: iot_util_convert_str_uuid_def)
    qed (use Some True e assms in \<open>simp add: iot_util_convert_str_uuid_def\<close>)
  qed (use Some assms in \<open>simp add: iot_util_convert_str_uuid_def validate_uuid_format_def\<close>)
qed

lemma store_digit_defined:
  "d div 2 < length arr \<Longrightarrow>
     \<exists>arr' c'. store_digit arr (d div 2) (d + 1) c = Some (arr', Suc d div 2, c') \<and> length arr' = length arr"
  by (cases "even d") (auto simp: store_digit_def elim!: evenE oddE)

lemma str_mac_loop_defined:
  "k = i - i div 3 + 1 \<Longrightarrow> j = (i - i div 3) div 2 \<Longrightarrow> i + length xs \<le> 17 \<Longrightarrow> length arr = 6 \<Longrightarrow>
     \<exists>e arr'. str_mac_loop xs i arr j k c = Some (e, arr') \<and> length arr' = 6"
proof (induction xs i arr j k c rule: str_mac_loop.induct)
  case (2 x xs i arr j k c)
  show ?case
  proof (cases "i mod 3 = 2")
    case True
    then have "Suc i - Suc i div 3 = i - i div 3" by (simp add: div_Suc mod_Suc)
    with True "2.IH"(1) "2.prems" show ?thesis by simp
  next
    case False
    then have nxt: "Suc i - Suc i div 3 = Suc (i - i div 3)" by (simp add: div_Suc mod_Suc Suc_diff_le)
    show ?thesis
    proof (cases "if isalpha x then hex_letter x else Some (x - 48)")
      case None
      with False "2.prems" show ?thesis by simp
    next
      case (Some h)
      have "i \<le> 16" using "2.prems"(3) by simp
      with False have "i - i div 3 \<le> 11" by presburger
      then have "(i - i div 3) div 2 < 6" by simp
      with "2.prems" obtain arr' j' c' where st: "store_digit arr j k (c OR h) = Some (arr', j', c')" and
        "length arr' = 6" "j' = Suc (i - i div 3) div 2"
        using store_digit_defined [of "i - i div 3" arr "c OR h"] by auto
      with "2.IH"(2) [OF False Some st refl refl] "2.prems" nxt False Some show ?thesis by simp
    qed
  qed
qed simp

lemma convert_str_mac_defined:
  "length arr = 6 \<Longrightarrow>
     \<exists>e arr'. iot_util_convert_str_mac str (Some arr) = Some (e, Some arr') \<and> length arr' = 6"
  using str_mac_loop_defined [of 1 0 0 "the str" arr 0]
  by (cases str) (auto simp: iot_util_convert_str_mac_def)

section \<open>Channels and frequencies\<close>

lemma uint_u16_small: "0 \<le> x \<Longrightarrow> x < 65536 \<Longrightarrow> uint (word_of_int x :: u16) = x"
  by (simp add: uint_word_of_int)

lemma channel_freq_value:
  "1 \<le> uint ch \<Longrightarrow> uint ch \<le> 13 \<Longrightarrow> uint (iot_util_convert_channel_freq ch) = 2407 + 5 * uint ch"
  "ch = 14 \<Longrightarrow> uint (iot_util_convert_channel_freq ch) = 2484"
  "32 \<le> uint ch \<Longrightarrow> uint ch \<le> 173 \<Longrightarrow> uint (iot_util_convert_channel_freq ch) = 5000 + 5 * uint ch"
  by (simp_all add: iot_util_convert_channel_freq_def uint_u16_small
      del: of_int_add of_int_diff of_int_mult of_int_numeral)

lemma channel_freq_channel:
  assumes "1 \<le> uint ch \<and> uint ch \<le> 14 \<or> 32 \<le> uint ch \<and> uint ch \<le> 173"
  shows "iot_util_convert_freq_channel (iot_util_convert_channel_freq ch) = ch"
proof -
  have "uint ch = 14 \<longleftrightarrow> ch = 14" using word_uint_eq_iff [of ch 14] by simp
  with assms consider "1 \<le> uint ch" "uint ch \<le> 13" | "ch = 14" | "32 \<le> uint ch" "uint ch \<le> 173" by fastforce
  then show ?thesis
  proof cases
    case 1
    moreover have "uint ch * 5 - 5 = (uint ch - 1) * 5" by simp
    ultimately show ?thesis by (simp add: iot_util_convert_freq_channel_def channel_freq_value)
  next
    case 3
    moreover have "uint ch * 5 - 160 = (uint ch - 32) * 5" by simp
    ultimately show ?thesis by (simp add: iot_util_convert_freq_channel_def channel_freq_value)
  qed (simp add: iot_util_convert_freq_channel_def channel_freq_value)
qed

section \<open>URLs\<close>

lemma strstr_first:
  assumes "strstr_c s pat = Some n"
  shows "take (length pat) (drop n s) = pat \<and> (\<forall>i < n. take (length pat) (drop i s) \<noteq> pat) \<and> n \<le> length s"
  using assms
proof (induction s arbitrary: n)
  case (Cons x s)
  then show ?case
    by (auto split: if_splits simp: less_Suc_eq_0_disj)
qed (auto split: if_splits)

lemma strstr_skip:
  assumes "hd pat \<notin> set xs" and "pat \<noteq> []"
  shows "strstr_c (xs @ pat @ ys) pat = Some (length xs)"
  using assms(1)
proof (induction xs)
  case Nil
  obtain p ps where "pat = p # ps" using assms(2) by (cases pat) auto
  then show ?case by simp
next
  case (Cons x xs)
  then have "take (length pat) (x # xs @ pat @ ys) \<noteq> pat"
    using assms(2) by (cases pat) auto
  with Cons show ?case by simp
qed

definition digit_byte :: "nat \<Rightarrow> u8" where
  "digit_byte n = of_nat (of_char (char_of (n + 48)))"

lemma unat_digit_byte: "n < 10 \<Longrightarrow> unat (digit_byte n) = n + 48"
  unfolding digit_byte_def unat_of_nat_u8 of_char_of by simp

lemma uint_digit_byte: "n < 10 \<Longrightarrow> uint (digit_byte n) = int n + 48"
  unfolding uint_nat by (simp add: unat_digit_byte)

lemma cstr_decimal:
  "cstr (decimal n) = (if n < 10 then [digit_byte n] else cstr (decimal (n div 10)) @ [digit_byte (n mod 10)])"
  unfolding digit_byte_def by (subst decimal.simps) (simp add: cstr_def del: of_char_of)

lemma decimal_digits: "list_all isdigit_c (cstr (decimal n)) \<and> cstr (decimal n) \<noteq> []"
proof (induction n rule: decimal.induct)
  case (1 n)
  then show ?case by (simp add: cstr_decimal [of n] isdigit_c_def unat_digit_byte less_Suc_eq_le [symmetric])
qed

lemma decimal_value: "foldl (\<lambda>v x. v * 10 + (uint x - 48)) 0 (cstr (decimal n)) = int n"
proof (induction n rule: decimal.induct)
  case (1 n)
  then show ?case
    by (simp add: cstr_decimal [of n] uint_digit_byte zdiv_int zmod_int)
qed

lemma takeWhile_all: "list_all P xs \<Longrightarrow> takeWhile P xs = xs"
  by (induction xs) auto

lemma atoi_decimal: "atoi_c (cstr (decimal n)) = int n"
proof -
  obtain x xs where s: "cstr (decimal n) = x # xs"
    using decimal_digits [of n] by (cases "cstr (decimal n)") simp_all
  then have d: "isdigit_c x" using decimal_digits [of n] by simp
  then have "\<not> isspace_c x" "x \<noteq> 45" "x \<noteq> 43" by (auto simp: isdigit_c_def isspace_c_def)
  with s decimal_value [of n] decimal_digits [of n] show ?thesis by (simp add: atoi_c_def takeWhile_all)
qed

lemma url_parse_ok:
  assumes "colon \<notin> set protocol" and "colon \<notin> set domain"
  shows "iot_util_url_parse True True (Some (protocol @ cstr ''://'' @ domain @ cstr '':'' @ cstr (decimal port))) (Some out)
    = (IOT_ERROR_NONE, Some \<lparr>url_protocol = Some protocol, url_domain = Some domain, url_port = int port\<rparr>)"
proof -
  have [simp]: "hd (cstr ''://'') = colon" "cstr ''://'' \<noteq> []" "length (cstr ''://'') = 3" "length (cstr '':'') = 1"
    "hd (cstr '':'') = colon" "cstr '':'' \<noteq> []"
    by (simp_all add: cstr_def)
  show ?thesis
    using assms by (simp add: iot_util_url_parse_def strstr_skip atoi_decimal)
qed

section \<open>Back-off\<close>

text \<open>
  The ideal back-off: doubling per attempt, cut off at the maximum. The doubling is compared only after
  an attempt, so the very first value may pass a maximum of one second.
\<close>

definition ideal_backoff :: "nat \<Rightarrow> nat \<Rightarrow> nat \<Rightarrow> nat" where
  "ideal_backoff rnd t m = (if 0 < t \<and> m \<le> 2 ^ t then m * 1000 else 2 ^ t * 1000 + rnd mod 1000)"

lemma unat_small_mult: "unat (x :: u32) * k < 2 ^ 32 \<Longrightarrow> k < 2 ^ 32 \<Longrightarrow> unat (x * of_nat k) = unat x * k"
  by (simp add: unat_mult_lem [THEN iffD1] unat_of_nat)

lemma backoff_step:
  assumes "unat b < m" and "m \<le> 2147483"
  shows "unat (b * 2 :: u32) = 2 * unat b" and "unat (b * 2 * 1000 :: u32) = 2 * unat b * 1000"
proof -
  show *: "unat (b * 2 :: u32) = 2 * unat b"
    using assms unat_small_mult [of b 2] by simp
  show "unat (b * 2 * 1000 :: u32) = 2 * unat b * 1000"
    using assms unat_small_mult [of "b * 2" 1000] * by simp
qed

lemma backoff_loop_value:
  assumes "unat m \<le> 2147483" and "unat b < unat m"
  shows "backoff_loop n m b = (if 0 < n \<and> unat m \<le> unat b * 2 ^ n then Inl (m * 1000) else Inr (b * 2 ^ n))
    \<and> (unat b * 2 ^ n < unat m \<longrightarrow> unat (b * 2 ^ n) = unat b * 2 ^ n)"
  using assms(2)
proof (induction n arbitrary: b)
  case (Suc n)
  have m1000: "unat (m * 1000) = unat m * 1000" using assms(1) unat_small_mult [of m 1000] by simp
  note st = backoff_step [OF Suc.prems assms(1)]
  have stop: "m * 1000 \<le> b * 2 * 1000 \<longleftrightarrow> unat m \<le> 2 * unat b"
    unfolding word_le_nat_alt m1000 st(2) by simp
  show ?case
  proof (cases "unat m \<le> 2 * unat b")
    case True
    moreover have "2 * unat b \<le> unat b * 2 ^ Suc n" by simp
    ultimately have "unat m \<le> unat b * 2 ^ Suc n" by linarith
    with True show ?thesis using stop by (simp add: Let_def)
  next
    case False
    with Suc.IH [of "b * 2"] st stop show ?thesis
      by (cases n) (auto simp: Let_def mult.assoc mult.left_commute)
  qed
qed simp

lemma generator_backoff_ideal:
  assumes "2 \<le> unat m" and "unat m \<le> 2147483"
  shows "unat (iot_util_generator_backoff rnd t m) = ideal_backoff (unat rnd) (unat t) (unat m)"
proof -
  have m1000: "unat (m * 1000) = unat m * 1000" using assms(2) unat_small_mult [of m 1000] by simp
  have loop: "backoff_loop (unat t) m 1 = (if 0 < unat t \<and> unat m \<le> 2 ^ unat t then Inl (m * 1000) else Inr (2 ^ unat t))
    \<and> (2 ^ unat t < unat m \<longrightarrow> unat (2 ^ unat t :: u32) = 2 ^ unat t)"
    using backoff_loop_value [OF assms(2), of 1 "unat t"] assms(1) by simp
  show ?thesis
  proof (cases "0 < unat t \<and> unat m \<le> 2 ^ unat t")
    case True
    then show ?thesis using loop m1000 by (simp add: iot_util_generator_backoff_def ideal_backoff_def)
  next
    case False
    then have lt: "2 ^ unat t < unat m" using assms(1) by (cases "unat t = 0") auto
    then have b: "unat (2 ^ unat t :: u32) = 2 ^ unat t" using loop by simp
    have "unat (2 ^ unat t * 1000 :: u32) = 2 ^ unat t * 1000"
      using unat_small_mult [of "2 ^ unat t" 1000] b lt assms(2) by simp
    moreover have "unat (rnd mod 1000) = unat rnd mod 1000" by (simp add: unat_mod)
    moreover have "unat rnd mod 1000 < 1000" by simp
    ultimately have "unat (2 ^ unat t * 1000 + rnd mod 1000 :: u32) = 2 ^ unat t * 1000 + unat rnd mod 1000"
      using lt assms(2) by (subst unat_add_lem [THEN iffD1]) simp_all
    then show ?thesis
      using loop False by (auto simp: iot_util_generator_backoff_def ideal_backoff_def)
  qed
qed

section \<open>The dump\<close>

lemma dump_hex_defined: "len \<le> length buf \<Longrightarrow> dump_hex sp buf len j n \<noteq> None"
  by (induction n arbitrary: j) (auto simp: read_byte_lt Option.bind_eq_None_conv simp del: not_None_eq)

lemma dump_chars_None: "j \<le> length buf \<Longrightarrow> dump_chars buf (length buf) j n = None \<longleftrightarrow> length buf < j + n"
proof (induction n arbitrary: j)
  case (Suc n)
  show ?case
  proof (cases "j = length buf")
    case False
    with Suc.prems have "j < length buf" by simp
    with Suc.IH [of "Suc j"] show ?thesis by (auto simp: read_byte_lt Option.bind_eq_None_conv)
  qed simp
qed simp

lemma dump_rows_None:
  "dump_rows addr tag buf (length buf) i = None
     \<longleftrightarrow> tag = ''dump'' \<and> i < length buf \<and> (length buf - i) mod 16 \<noteq> 0"
proof (induction addr tag buf "length buf" i rule: dump_rows.induct)
  case (1 addr tag buf i)
  show ?case
  proof (cases "i < length buf")
    case True
    obtain hex where hex: "dump_hex (if tag = ''raw'' then [] else [32]) buf (length buf) i 16 = Some hex"
      using dump_hex_defined by fastforce
    show ?thesis
    proof (cases "length buf < i + 16")
      case short: True
      then have "(length buf - i) mod 16 \<noteq> 0" using True by simp
      moreover have "dump_rows addr tag buf (length buf) (i + 16) = Some []" using short by (simp add: dump_rows.simps)
      ultimately show ?thesis
        using True hex dump_chars_None [of i buf 16] short
        by (cases "tag = ''dump''") (simp_all add: dump_rows.simps [of _ _ _ _ i])
    next
      case False
      then have "(length buf - i) mod 16 = (length buf - (i + 16)) mod 16"
        by (simp add: le_mod_geq)
      moreover obtain chars where "(if tag = ''dump'' then dump_chars buf (length buf) i 16 else Some []) = Some chars"
        using dump_chars_None [of i buf 16] True False by (cases "tag = ''dump''") auto
      moreover have "dump_rows addr tag buf (length buf) (i + 16) = None
          \<longleftrightarrow> tag = ''dump'' \<and> i + 16 < length buf \<and> (length buf - (i + 16)) mod 16 \<noteq> 0"
        by (rule 1 [OF True refl refl hex calculation(2)])
      ultimately have "dump_rows addr tag buf (length buf) i = None
          \<longleftrightarrow> tag = ''dump'' \<and> i + 16 < length buf \<and> (length buf - i) mod 16 \<noteq> 0"
        using True hex by (auto simp: dump_rows.simps [of _ _ _ _ i] Option.bind_eq_None_conv simp del: not_None_eq)
      moreover have "(length buf - i) mod 16 = 0" if "i + 16 = length buf" using that [symmetric] by simp
      ultimately show ?thesis using True False by (cases "i + 16 = length buf") auto
    qed
  qed (simp add: dump_rows.simps [of _ _ _ _ i])
qed

end
