(* ===== verification/Http_Request.thy ===== *)
theory Http_Request
  imports Mqtt_State Util
begin

text \<open>
  The requests of the onboarding over HTTP: the parser of \<^verbatim>\<open>src/easysetup/http/iot_easysetup_http_parser.c\<close> and the
  two functions of \<^verbatim>\<open>src/easysetup/http/tcp/iot_easysetup_httpd.c\<close> that read a request from the network. The
  parser cuts the receive buffer with \<open>strtok\<close>, so the model keeps the buffer with its terminators and the
  offset \<open>strtok\<close> goes on from; a read outside the buffer gives \<^const>\<open>None\<close>.
\<close>

section \<open>Steps and message types\<close>

datatype iot_easysetup_step =
  IOT_EASYSETUP_STEP_DEVICEINFO | IOT_EASYSETUP_STEP_KEYINFO | IOT_EASYSETUP_STEP_CONFIRMINFO
| IOT_EASYSETUP_STEP_CONFIRM | IOT_EASYSETUP_STEP_WIFISCANINFO | IOT_EASYSETUP_STEP_WIFIPROVIONINGINFO
| IOT_EASYSETUP_STEP_SETUPCOMPLETE | IOT_EASYSETUP_STEP_LOG_SYSTEMINFO | IOT_EASYSETUP_STEP_LOG_CREATE_DUMP
| IOT_EASYSETUP_STEP_LOG_GET_DUMP | IOT_EASYSETUP_INVALID_STEP

primrec step_code :: "iot_easysetup_step \<Rightarrow> nat" where
  "step_code IOT_EASYSETUP_STEP_DEVICEINFO = 0"
| "step_code IOT_EASYSETUP_STEP_KEYINFO = 1"
| "step_code IOT_EASYSETUP_STEP_CONFIRMINFO = 2"
| "step_code IOT_EASYSETUP_STEP_CONFIRM = 3"
| "step_code IOT_EASYSETUP_STEP_WIFISCANINFO = 4"
| "step_code IOT_EASYSETUP_STEP_WIFIPROVIONINGINFO = 5"
| "step_code IOT_EASYSETUP_STEP_SETUPCOMPLETE = 6"
| "step_code IOT_EASYSETUP_STEP_LOG_SYSTEMINFO = 7"
| "step_code IOT_EASYSETUP_STEP_LOG_CREATE_DUMP = 8"
| "step_code IOT_EASYSETUP_STEP_LOG_GET_DUMP = 9"
| "step_code IOT_EASYSETUP_INVALID_STEP = 10"

datatype cgi_type = D2D_GET | D2D_POST | D2D_ERROR

abbreviation (input) IOT_ERROR_EASYSETUP_HTTP_PARSE_FAIL :: iot_error where
  "IOT_ERROR_EASYSETUP_HTTP_PARSE_FAIL \<equiv> IOT_ERROR_OTHER (- 563)"
abbreviation (input) IOT_ERROR_EASYSETUP_HTTP_RECV_FAIL :: iot_error where
  "IOT_ERROR_EASYSETUP_HTTP_RECV_FAIL \<equiv> IOT_ERROR_OTHER (- 561)"
abbreviation (input) IOT_ERROR_EASYSETUP_HTTP_PEER_CONN_CLOSED :: iot_error where
  "IOT_ERROR_EASYSETUP_HTTP_PEER_CONN_CLOSED \<equiv> IOT_ERROR_OTHER (- 564)"

text \<open>What the parser hands back through its pointer arguments; the payload is null or an offset into the buffer.\<close>

record http_msg =
  m_payload :: "nat option"
  m_cmd :: iot_easysetup_step
  m_type :: cgi_type
  m_content_len :: nat

section \<open>Strings in the receive buffer\<close>

text \<open>The first offset at or behind \<open>i\<close> whose byte does not satisfy \<open>p\<close>.\<close>

definition scan :: "(u8 \<Rightarrow> bool) \<Rightarrow> u8 list \<Rightarrow> nat \<Rightarrow> nat option" where
  "scan p b i = (let j = i + length (takeWhile p (drop i b)) in if j < length b then Some j else None)"

definition str_at :: "u8 list \<Rightarrow> nat \<Rightarrow> u8 list option" where
  "str_at b i = map_option (\<lambda>j. take (j - i) (drop i b)) (scan (\<lambda>c. c \<noteq> 0) b i)"

text \<open>
  \<open>strtok\<close> from offset \<open>p\<close>: the token it finds, the buffer with the terminator it wrote, and where it goes on.
  Without a token it stays at the end of the string.
\<close>

definition strtok :: "u8 list \<Rightarrow> u8 list \<Rightarrow> nat \<Rightarrow> (nat option \<times> u8 list \<times> nat) option" where
  "strtok delims b p = do {
     i \<leftarrow> scan (\<lambda>c. c \<in> set delims) b p;
     c \<leftarrow> read_byte b i;
     if c = 0 then Some (None, b, i)
     else do {
       j \<leftarrow> scan (\<lambda>c. c \<noteq> 0 \<and> c \<notin> set delims) b i;
       d \<leftarrow> read_byte b j;
       Some (if d = 0 then (Some i, b, j) else (Some i, b[j := 0], Suc j)) } }"

definition tolower_c :: "u8 \<Rightarrow> u8" where
  "tolower_c c = (if 65 \<le> unat c \<and> unat c \<le> 90 then c + 32 else c)"

text \<open>
  \<open>strtol\<close> in base 10 as its caller uses it: no number when there are no digits, or when the value is \<open>LONG_MAX\<close> or
  \<open>LONG_MIN\<close>, which is also what it gives when the digits exceed a \<open>long\<close>.
\<close>

definition strtol_c :: "int \<Rightarrow> u8 list \<Rightarrow> int option" where
  "strtol_c LONG_MAX s = (let s' = dropWhile isspace_c s;
      ds = takeWhile isdigit_c (case s' of x # xs \<Rightarrow> if x = 45 \<or> x = 43 then xs else s' | [] \<Rightarrow> s');
      v = atoi_c s
    in if ds = [] \<or> LONG_MAX \<le> v \<or> v \<le> - LONG_MAX - 1 then None else Some v)"

text \<open>The conversion of a \<open>long\<close> to an \<open>int\<close> of 32 bits.\<close>

definition int_of_long :: "int \<Rightarrow> int" where
  "int_of_long v = signed_take_bit 31 v"

section \<open>The parser\<close>

abbreviation (input) blanks :: "u8 list" where "blanks \<equiv> [32, 9]"
abbreviation (input) eol :: "u8 list" where "eol \<equiv> [13, 10]"
abbreviation (input) MAX_HEADER_SUPPORT :: nat where "MAX_HEADER_SUPPORT \<equiv> 16"

definition is_header_content_length :: "u8 list \<Rightarrow> nat \<Rightarrow> bool option" where
  "is_header_content_length b k = map_option (\<lambda>s. length s = 14 \<and> map tolower_c s = cstr ''content-length'') (str_at b k)"

text \<open>Whether the bytes behind the end of a value finish the header; the test stops at the first byte that differs.\<close>

definition ends_header :: "u8 list \<Rightarrow> nat \<Rightarrow> bool option" where
  "ends_header b e = andalso (byte_test (\<lambda>c. c = 10) b (e + 1))
     (andalso (byte_test (\<lambda>c. c = 13) b (e + 2)) (byte_test (\<lambda>c. c = 10) b (e + 3)))"

text \<open>One round for each header: the end of the headers so far and the content length so far.\<close>

fun header_loop :: "int \<Rightarrow> nat \<Rightarrow> u8 list \<Rightarrow> nat \<Rightarrow> nat option \<Rightarrow> int \<Rightarrow> (u8 list \<times> nat option \<times> int) option" where
  "header_loop L 0 b p body len = Some (b, body, len)"
| "header_loop L (Suc n) b p body len = do {
     (key, b, p) \<leftarrow> strtok (eol @ [58] @ blanks) b p;
     case key of None \<Rightarrow> Some (b, body, len)
     | Some k \<Rightarrow> do {
         (val, b, p) \<leftarrow> strtok eol b p;
         case val of None \<Rightarrow> Some (b, body, len)
         | Some v \<Rightarrow> do {
             v \<leftarrow> scan (\<lambda>c. c = 32) b v;
             is_len \<leftarrow> is_header_content_length b k;
             s \<leftarrow> str_at b v;
             case (if is_len then strtol_c L s else Some len) of
               None \<Rightarrow> Some (b, body, len)
             | Some l \<Rightarrow> do {
                 let len = (if is_len then int_of_long l else len);
                 let e = v + length s;
                 ended \<leftarrow> ends_header b e;
                 if ended then Some (b, Some (e + 3), len) else header_loop L n b p (Some e) len } } } }"

definition get_step :: "u8 list \<Rightarrow> iot_easysetup_step" where
  "get_step uri =
     (if uri = cstr ''/deviceinfo'' then IOT_EASYSETUP_STEP_DEVICEINFO
      else if uri = cstr ''/wifiscaninfo'' then IOT_EASYSETUP_STEP_WIFISCANINFO
      else if uri = cstr ''/logs/systeminfo'' then IOT_EASYSETUP_STEP_LOG_SYSTEMINFO
      else if uri = cstr ''/logs/dump'' then IOT_EASYSETUP_STEP_LOG_GET_DUMP
      else IOT_EASYSETUP_INVALID_STEP)"

definition post_step :: "u8 list \<Rightarrow> iot_easysetup_step" where
  "post_step uri =
     (if uri = cstr ''/keyinfo'' then IOT_EASYSETUP_STEP_KEYINFO
      else if uri = cstr ''/confirminfo'' then IOT_EASYSETUP_STEP_CONFIRMINFO
      else if uri = cstr ''/confirm'' then IOT_EASYSETUP_STEP_CONFIRM
      else if uri = cstr ''/wifiprovisioninginfo'' then IOT_EASYSETUP_STEP_WIFIPROVIONINGINFO
      else if uri = cstr ''/setupcomplete'' then IOT_EASYSETUP_STEP_SETUPCOMPLETE
      else if uri = cstr ''/logs/dump'' then IOT_EASYSETUP_STEP_LOG_CREATE_DUMP
      else IOT_EASYSETUP_INVALID_STEP)"

definition parse_post ::
  "int \<Rightarrow> u8 list \<Rightarrow> nat \<Rightarrow> nat \<Rightarrow> nat \<Rightarrow> http_msg \<Rightarrow> (iot_error \<times> http_msg \<times> u8 list) option" where
  "parse_post L b p rx_buffer_len u m = do {
     (b, body, len) \<leftarrow> header_loop L MAX_HEADER_SUPPORT b p None (- 1);
     case body of None \<Rightarrow> Some (IOT_ERROR_EASYSETUP_HTTP_PARSE_FAIL, m, b)
     | Some e \<Rightarrow>
         if len < 0 \<or> len \<noteq> 0 \<and> \<not> Suc e < rx_buffer_len then Some (IOT_ERROR_EASYSETUP_HTTP_PARSE_FAIL, m, b)
         else do {
           uri \<leftarrow> str_at b u;
           let m = m\<lparr>m_type := D2D_POST, m_cmd := post_step uri\<rparr>;
           Some (IOT_ERROR_NONE,
             if len = 0 then m\<lparr>m_payload := None\<rparr> else m\<lparr>m_payload := Some (Suc e), m_content_len := nat len\<rparr>, b) } }"

definition es_msg_parser :: "int \<Rightarrow> u8 list \<Rightarrow> nat \<Rightarrow> http_msg \<Rightarrow> (iot_error \<times> http_msg \<times> u8 list) option" where
  "es_msg_parser L b rx_buffer_len m = do {
     (meth, b, p) \<leftarrow> strtok (blanks @ eol) b 0;
     (uri, b, p) \<leftarrow> strtok blanks b p;
     (prot, b, p) \<leftarrow> strtok (blanks @ eol) b p;
     case (meth, uri, prot) of
       (Some i, Some u, Some _) \<Rightarrow> do {
         meth \<leftarrow> str_at b i;
         uri \<leftarrow> str_at b u;
         if meth = cstr ''GET'' then Some (IOT_ERROR_NONE, m\<lparr>m_type := D2D_GET, m_cmd := get_step uri\<rparr>, b)
         else if meth = cstr ''POST'' then parse_post L b p rx_buffer_len u m
         else Some (IOT_ERROR_NONE, m\<lparr>m_type := D2D_ERROR\<rparr>, b) }
     | _ \<Rightarrow> Some (IOT_ERROR_EASYSETUP_HTTP_PARSE_FAIL, m, b) }"

section \<open>Reading a request\<close>

abbreviation (input) RX_BUFFER_MAX :: nat where "RX_BUFFER_MAX \<equiv> 1024"

text \<open>
  The position behind the first empty line in the \<open>e\<close> bytes received. The bound \<open>existing_len - 3\<close> is unsigned: it
  is no bound at all while fewer than three bytes are there.
\<close>

definition header_end :: "u8 list \<Rightarrow> nat \<Rightarrow> nat option" where
  "header_end b e = map_option (\<lambda>i. i + 4)
     (find (\<lambda>i. (e < 3 \<or> i < e - 3) \<and> take 4 (drop i b) = [13, 10, 13, 10]) [0..<e])"

text \<open>What was read is stored at an offset; the platform must not give more than it was asked for.\<close>

definition store_at :: "nat \<Rightarrow> u8 list \<Rightarrow> u8 list \<Rightarrow> u8 list" where
  "store_at off bs b = take off b @ bs @ drop (off + length bs) b"

function http_packet_read ::
  "'n port \<Rightarrow> u8 list \<Rightarrow> nat \<Rightarrow> 'n \<Rightarrow> (iot_error \<times> u8 list \<times> nat \<times> nat \<times> 'n) option" where
  "http_packet_read P b existing n = (case port_net_read P n (length b - existing - 1) of (len, bs, n) \<Rightarrow>
     if len < 0 then Some (IOT_ERROR_EASYSETUP_HTTP_RECV_FAIL, b, existing, 0, n)
     else if len = 0 then Some (IOT_ERROR_EASYSETUP_HTTP_PEER_CONN_CLOSED, b, existing, 0, n)
     else if length b - existing - 1 < nat len \<or> length bs \<noteq> nat len then None
     else let b = store_at existing bs b; existing = existing + nat len in
       case header_end b existing of
         Some h \<Rightarrow> Some (IOT_ERROR_NONE, b, existing, h, n)
       | None \<Rightarrow> http_packet_read P b existing n)"
  by pat_completeness auto

termination
  by (relation "measure (\<lambda>(P, b, existing, n). length b - existing)") (auto simp: store_at_def)

declare http_packet_read.simps [simp del]

function http_packet_read_remaining ::
  "'n port \<Rightarrow> u8 list \<Rightarrow> nat \<Rightarrow> nat \<Rightarrow> nat \<Rightarrow> 'n \<Rightarrow> (iot_error \<times> u8 list \<times> 'n) option" where
  "http_packet_read_remaining P b offset total_len expected n = (case port_net_read P n (length b - offset - 1) of (len, bs, n) \<Rightarrow>
     if len < 0 then Some (IOT_ERROR_EASYSETUP_HTTP_RECV_FAIL, b, n)
     else if len = 0 then Some (IOT_ERROR_EASYSETUP_HTTP_PEER_CONN_CLOSED, b, n)
     else if length b - offset - 1 < nat len \<or> length bs \<noteq> nat len then None
     else let b = store_at offset bs b; total_len = total_len + nat len in
       if total_len < expected then http_packet_read_remaining P b offset total_len expected n
       else Some (IOT_ERROR_NONE, b, n))"
  by pat_completeness auto

termination
  by (relation "measure (\<lambda>(P, b, offset, total_len, expected, n). expected - total_len)") auto

declare http_packet_read_remaining.simps [simp del]

text \<open>
  The reading half of a round of \<open>process_accepted_connection\<close>: the request is read up to the end of its header,
  parsed, and read on when its body is not there yet.
\<close>

definition wants_more :: "u8 list \<Rightarrow> iot_error \<Rightarrow> http_msg \<Rightarrow> bool option" where
  "wants_more b e m = (if e = IOT_ERROR_NONE \<and> m_type m = D2D_POST
     then case m_payload m of None \<Rightarrow> Some False | Some p \<Rightarrow> map_option (\<lambda>s. length s < m_content_len m) (str_at b p)
     else Some False)"

definition receive_request ::
  "'n port \<Rightarrow> int \<Rightarrow> http_msg \<Rightarrow> 'n \<Rightarrow> ((iot_error + (iot_error \<times> http_msg \<times> u8 list)) \<times> 'n) option" where
  "receive_request P L m n = do {
     (e, b, received, h, n) \<leftarrow> http_packet_read P (replicate RX_BUFFER_MAX 0) 0 n;
     if e \<noteq> IOT_ERROR_NONE then Some (Inl e, n)
     else do {
       (e, m, b) \<leftarrow> es_msg_parser L b (length b) (m\<lparr>m_content_len := 0\<rparr>);
       more \<leftarrow> wants_more b e m;
       if \<not> more then Some (Inr (e, m, b), n)
       else do {
         (r, b, n) \<leftarrow> http_packet_read_remaining P b received received (h + m_content_len m) n;
         Some (if r \<noteq> IOT_ERROR_NONE then Inl (IOT_ERROR_OTHER (- 501)) else Inr (e, m\<lparr>m_payload := Some h\<rparr>, b), n) } } }"

end
