(* ===== verification/Http_Parse.thy ===== *)
theory Http_Parse
  imports Http_Request
begin

text \<open>
  A well-formed POST request is parsed to its step, its body and its content length, wherever its header ends in
  the buffer.
\<close>

section \<open>Tokens\<close>

lemma scan_at:
  assumes "i = length pre" and "\<forall>c\<in>set xs. p c" and "\<not> p d"
  shows "scan p (pre @ xs @ d # rest) i = Some (length pre + length xs)"
proof -
  have "takeWhile p (xs @ d # rest) = xs" using assms(2,3) by (simp add: takeWhile_append2)
  then show ?thesis using assms(1) by (simp add: scan_def Let_def)
qed

lemma str_at_token:
  assumes "i = length pre" and "0 \<notin> set xs"
  shows "str_at (pre @ xs @ 0 # rest) i = Some xs"
proof -
  have "\<forall>c\<in>set xs. c \<noteq> 0" using assms(2) by auto
  from scan_at [OF assms(1) this, of 0 rest] assms(1) show ?thesis by (simp add: str_at_def)
qed

lemma strtok_token:
  assumes "p = length pre" and "set junk \<subseteq> set ds" and "tok \<noteq> []" and "set tok \<inter> set (0 # ds) = {}"
    and "d \<in> set ds" and "0 \<notin> set ds"
  shows "strtok ds (pre @ junk @ tok @ d # rest) p
    = Some (Some (length pre + length junk), pre @ junk @ tok @ 0 # rest, length pre + length junk + length tok + 1)"
proof -
  obtain c cs where tok: "tok = c # cs" using assms(3) by (cases tok) auto
  have 1: "scan (\<lambda>c. c \<in> set ds) (pre @ junk @ tok @ d # rest) p = Some (length pre + length junk)"
    using scan_at [of p pre junk "\<lambda>c. c \<in> set ds" c "cs @ d # rest"] assms(1,2,4) tok by auto
  have 2: "scan (\<lambda>c. c \<noteq> 0 \<and> c \<notin> set ds) (pre @ junk @ tok @ d # rest) (length pre + length junk)
      = Some (length pre + length junk + length tok)"
    using scan_at [of "length pre + length junk" "pre @ junk" tok "\<lambda>c. c \<noteq> 0 \<and> c \<notin> set ds" d rest] assms(4,5)
    by auto
  have 3: "read_byte (pre @ junk @ tok @ d # rest) (length pre + length junk) = Some c"
    using read_byte_append [of "length pre + length junk" "pre @ junk" c "cs @ d # rest"] tok by simp
  have 4: "read_byte (pre @ junk @ tok @ d # rest) (length pre + length junk + length tok) = Some d"
    using read_byte_append [of "length pre + length junk + length tok" "pre @ junk @ tok" d rest] by simp
  have 5: "(pre @ junk @ tok @ d # rest)[length pre + length junk + length tok := 0] = pre @ junk @ tok @ 0 # rest"
    using list_update_length [of "pre @ junk @ tok" d rest 0] by (simp add: add.assoc)
  have "c \<noteq> 0" "d \<noteq> 0" using assms(4-6) tok by auto
  then show ?thesis by (simp add: strtok_def 1 2 3 4 5)
qed

section \<open>Requests\<close>

definition names_length :: "u8 list \<Rightarrow> bool" where
  "names_length k \<longleftrightarrow> length k = 14 \<and> map tolower_c k = cstr ''content-length''"

definition header_line :: "u8 list \<times> u8 list \<Rightarrow> u8 list" where
  "header_line h = (case h of (k, v) \<Rightarrow> k @ [58, 32] @ v @ [13, 10])"

definition header_ok :: "int \<Rightarrow> u8 list \<times> u8 list \<Rightarrow> bool" where
  "header_ok L h \<longleftrightarrow> (case h of (k, v) \<Rightarrow> k \<noteq> [] \<and> set k \<inter> {0, 9, 10, 13, 32, 58} = {} \<and> set v \<inter> {0, 10, 13} = {} \<and>
     (names_length k \<longrightarrow> (\<exists>m. v = cstr (decimal m) \<and> int m < L \<and> m < 2147483648)))"

text \<open>The content length the headers declare; the last one counts.\<close>

fun declared :: "(u8 list \<times> u8 list) list \<Rightarrow> int \<Rightarrow> int" where
  "declared [] l = l"
| "declared ((k, v) # hs) l = declared hs (if names_length k then atoi_c v else l)"

definition request_head :: "string \<Rightarrow> u8 list \<Rightarrow> u8 list \<Rightarrow> (u8 list \<times> u8 list) list \<Rightarrow> u8 list" where
  "request_head meth uri prot hs = cstr meth @ [32] @ uri @ [32] @ prot @ [13, 10] @ concat (map header_line hs) @ [13, 10]"

lemma digits_kept: "isdigit_c c \<Longrightarrow> c \<noteq> 32 \<and> c \<noteq> 45 \<and> c \<noteq> 43 \<and> \<not> isspace_c c"
  by (auto simp: isdigit_c_def isspace_c_def)

lemma strtol_decimal:
  assumes "int m < L" shows "strtol_c L (cstr (decimal m)) = Some (int m)"
proof -
  obtain x xs where s: "cstr (decimal m) = x # xs"
    using decimal_digits [of m] by (cases "cstr (decimal m)") simp_all
  then have "isdigit_c x" using decimal_digits [of m] by simp
  with s assms atoi_decimal [of m] digits_kept [of x] show ?thesis by (simp add: strtol_c_def)
qed

lemma dropWhile_decimal: "dropWhile (\<lambda>c. c = 32) (cstr (decimal m)) = cstr (decimal m)"
  using decimal_digits [of m] digits_kept by (cases "cstr (decimal m)") auto

lemma int_of_long_small: "0 \<le> v \<Longrightarrow> v < 2147483648 \<Longrightarrow> int_of_long v = v"
  by (simp add: int_of_long_def signed_take_bit_int_eq_self)

text \<open>The value a header gives to the content length.\<close>

lemma header_length:
  assumes "header_ok L (k, v)"
  shows "map_option (\<lambda>l. if names_length k then int_of_long l else len)
      (if names_length k then strtol_c L (dropWhile (\<lambda>c. c = 32) v) else Some len)
    = Some (if names_length k then atoi_c v else len)"
  using assms by (auto simp: header_ok_def dropWhile_decimal strtol_decimal atoi_decimal int_of_long_small)

section \<open>The loop over the headers\<close>

text \<open>What a header leaves in the buffer: its key and its value are strings of their own.\<close>

definition cut_header :: "u8 list \<times> u8 list \<Rightarrow> u8 list" where
  "cut_header h = (case h of (k, v) \<Rightarrow> 10 # k @ [0, 32] @ v @ [0])"

declare header_loop.simps(2) [simp del]

lemma length_cut_header: "length (10 # header_line h) = Suc (length (cut_header h))"
  by (cases h) (simp add: header_line_def cut_header_def)

lemma header_round:
  fixes pre :: "u8 list"
  assumes "header_ok L (k, v)"
  defines "pre' \<equiv> pre @ cut_header (k, v)"
  shows "header_loop L (Suc n) (pre @ 10 # header_line (k, v) @ tail) (length pre) body len =
    do { let e = length pre' - 1;
         let l = (if names_length k then atoi_c v else len);
         ended \<leftarrow> ends_header (pre' @ 10 # tail) e;
         if ended then Some (pre' @ 10 # tail, Some (e + 3), l)
         else header_loop L n (pre' @ 10 # tail) (length pre') (Some e) l }"
proof -
  let ?ks = "eol @ [58] @ blanks"
  have k: "k \<noteq> []" "set k \<inter> {0, 9, 10, 13, 32, 58} = {}" "set v \<inter> {0, 10, 13} = {}"
    using assms(1) by (simp_all add: header_ok_def)
  define pre1 where "pre1 = pre @ 10 # k @ [0]"
  have t1: "strtok ?ks (pre @ 10 # header_line (k, v) @ tail) (length pre)
      = Some (Some (length pre + 1), pre1 @ 32 # v @ 13 # 10 # tail, length pre1)"
    using strtok_token [of "length pre" pre "[10]" ?ks k 58 "32 # v @ 13 # 10 # tail"] k(1,2)
    by (auto simp: header_line_def pre1_def)
  have t2: "strtok eol (pre1 @ 32 # v @ 13 # 10 # tail) (length pre1)
      = Some (Some (length pre1), pre' @ 10 # tail, length pre')"
    using strtok_token [of "length pre1" pre1 "[]" eol "32 # v" 13 "10 # tail"] k(3)
    by (auto simp: pre1_def pre'_def cut_header_def)
  define sp where "sp = takeWhile (\<lambda>c. c = 32) v"
  define v' where "v' = dropWhile (\<lambda>c. c = 32) v"
  have v: "v = sp @ v'" by (simp add: sp_def v'_def)
  obtain d r where d: "v' @ 0 # 10 # tail = d # r" "d \<noteq> 32"
  proof (cases v')
    case (Cons x xs)
    then have "dropWhile (\<lambda>c. c = 32) v = x # xs" by (simp add: v'_def)
    then have "x \<noteq> 32" by (simp add: dropWhile_eq_Cons_conv)
    with that Cons show thesis by simp
  qed (use that in simp)
  have b: "pre' @ 10 # tail = pre1 @ (32 # sp) @ d # r"
    using d(1) v by (simp add: pre'_def pre1_def cut_header_def)
  define i where "i = length pre1 + Suc (length sp)"
  have "\<forall>c\<in>set sp. c = 32" by (auto simp: sp_def dest: set_takeWhileD)
  then have s: "scan (\<lambda>c. c = 32) (pre' @ 10 # tail) (length pre1) = Some i"
    using scan_at [of "length pre1" pre1 "32 # sp" "\<lambda>c. c = 32" d r] d(2) unfolding b by (simp add: i_def)
  have "0 \<notin> set k" "0 \<notin> set v'" using k(2,3) by (auto simp: v'_def dest: set_dropWhileD)
  then have key: "str_at (pre' @ 10 # tail) (length pre + 1) = Some k"
    and val: "str_at (pre' @ 10 # tail) i = Some v'"
    using str_at_token [of "length pre + 1" "pre @ [10]" k "32 # v @ 0 # 10 # tail"]
      str_at_token [of i "pre1 @ 32 # sp" v' "10 # tail"] v
    by (simp_all add: i_def pre'_def pre1_def cut_header_def)
  have e: "i + length v' = length pre' - 1"
    using v by (simp add: i_def pre'_def pre1_def cut_header_def)
  obtain l where l: "(if names_length k then strtol_c L v' else Some len) = Some l"
    "(if names_length k then int_of_long l else len) = (if names_length k then atoi_c v else len)"
    using header_length [OF assms(1), of len] unfolding v'_def by fastforce
  show ?thesis
    using l unfolding header_loop.simps(2) t1
    by (cases "names_length k") (simp_all add: t2 s key [simplified] val e [simplified] Let_def is_header_content_length_def cong: if_cong flip: names_length_def)
qed

lemma header_loop_reads:
  assumes "hs \<noteq> []" and "length hs \<le> n" and "list_all (header_ok L) hs"
  shows "\<exists>cut. header_loop L n (pre @ 10 # concat (map header_line hs) @ 13 # 10 # rest) (length pre) body len
      = Some (pre @ cut @ rest, Some (length (pre @ cut) - 1), declared hs len)
    \<and> length cut = length (concat (map header_line hs)) + 3"
  using assms
proof (induction hs arbitrary: n pre body len)
  case (Cons h hs)
  obtain k v where h: "h = (k, v)" by (cases h)
  obtain m where n: "n = Suc m" using Cons.prems(2) by (cases n) auto
  have ok: "header_ok L (k, v)" using Cons.prems(3) h by simp
  define pre' where "pre' = pre @ cut_header (k, v)"
  have pre': "length pre' = length pre + length (header_line h)"
    using length_cut_header [of h] by (simp add: pre'_def h)
  obtain q where q: "pre' = q @ [0]" by (simp add: pre'_def cut_header_def)
  then have e: "length pre' - 1 = length q" by simp
  note round = header_round [OF ok, of m pre _ body len, folded pre'_def]
  show ?case
  proof (cases "hs = []")
    case True
    have "ends_header (pre' @ 10 # 13 # 10 # rest) (length pre' - 1) = Some True"
      by (simp add: q ends_header_def andalso_def byte_test_def read_byte_def nth_append)
    then have "header_loop L n (pre @ 10 # concat (map header_line (h # hs)) @ 13 # 10 # rest) (length pre) body len
        = Some (pre' @ 10 # 13 # 10 # rest, Some (length q + 3), declared (h # hs) len)"
      using round [of "13 # 10 # rest"] True by (simp add: n h e [simplified])
    moreover have "length q + 3 = length (pre @ cut_header h @ [10, 13, 10]) - 1" using arg_cong [OF q, of length] by (simp add: pre'_def h)
    ultimately show ?thesis using pre' True by (intro exI [of _ "cut_header h @ [10, 13, 10]"]) (simp add: pre'_def h)
  next
    case False
    then obtain k2 v2 hs2 where hs: "hs = (k2, v2) # hs2" by (cases hs) auto
    have "k2 \<noteq> []" "13 \<notin> set k2" using Cons.prems(3) hs by (auto simp: header_ok_def)
    then obtain c ks where c: "k2 = c # ks" "c \<noteq> 13" by (cases k2) auto
    let ?tail = "concat (map header_line hs) @ 13 # 10 # rest"
    have "ends_header (pre' @ 10 # ?tail) (length pre' - 1) = Some False"
      using c by (simp add: q ends_header_def andalso_def byte_test_def read_byte_def nth_append hs header_line_def)
    then have loop: "header_loop L n (pre @ 10 # concat (map header_line (h # hs)) @ 13 # 10 # rest) (length pre) body len
        = header_loop L m (pre' @ 10 # ?tail) (length pre') (Some (length pre' - 1)) (if names_length k then atoi_c v else len)"
      using round [of ?tail] by (simp add: n h)
    obtain cut where cut: "header_loop L m (pre' @ 10 # ?tail) (length pre') (Some (length pre' - 1)) (if names_length k then atoi_c v else len)
        = Some (pre' @ cut @ rest, Some (length (pre' @ cut) - 1), declared hs (if names_length k then atoi_c v else len))"
      "length cut = length (concat (map header_line hs)) + 3"
      using Cons.IH [OF False, of m pre'] Cons.prems(2,3) n by fastforce
    then show ?thesis using loop pre' by (intro exI [of _ "cut_header h @ cut"]) (simp add: pre'_def h)
  qed
qed simp

section \<open>The request line\<close>

definition line_ok :: "u8 list \<Rightarrow> u8 list \<Rightarrow> bool" where
  "line_ok uri prot \<longleftrightarrow> uri \<noteq> [] \<and> set uri \<inter> {0, 9, 10, 13, 32} = {} \<and> prot \<noteq> [] \<and> set prot \<inter> {0, 9, 10, 13, 32} = {}"

text \<open>The three tokens of the request line, and the strings they are afterwards.\<close>

lemma request_line:
  assumes "line_ok uri prot" and "meth \<noteq> []" and "set meth \<inter> {0, 9, 10, 13, 32} = {}"
  defines "pre \<equiv> meth @ 0 # uri @ 0 # prot @ [0]"
  shows "es_msg_parser L (meth @ 32 # uri @ 32 # prot @ 13 # rest) len m =
    (if meth = cstr ''GET'' then Some (IOT_ERROR_NONE, m\<lparr>m_type := D2D_GET, m_cmd := get_step uri\<rparr>, pre @ rest)
     else if meth = cstr ''POST'' then parse_post L (pre @ rest) (length pre) len (Suc (length meth)) m
     else Some (IOT_ERROR_NONE, m\<lparr>m_type := D2D_ERROR\<rparr>, pre @ rest))"
proof -
  let ?p1 = "meth @ [0]" and ?p2 = "meth @ 0 # uri @ [0]"
  have u: "uri \<noteq> []" "set uri \<inter> {0, 9, 10, 13, 32} = {}" "prot \<noteq> []" "set prot \<inter> {0, 9, 10, 13, 32} = {}"
    using assms(1) by (simp_all add: line_ok_def)
  have t1: "strtok (blanks @ eol) (meth @ 32 # uri @ 32 # prot @ 13 # rest) 0
      = Some (Some 0, ?p1 @ uri @ 32 # prot @ 13 # rest, length ?p1)"
    using strtok_token [of 0 "[]" "[]" "blanks @ eol" meth 32 "uri @ 32 # prot @ 13 # rest"] assms(2,3) by auto
  have t2: "strtok blanks (?p1 @ uri @ 32 # prot @ 13 # rest) (length ?p1)
      = Some (Some (length ?p1), ?p2 @ prot @ 13 # rest, length ?p2)"
    using strtok_token [of "length ?p1" ?p1 "[]" blanks uri 32 "prot @ 13 # rest"] u(1,2) by auto
  have t3: "strtok (blanks @ eol) (?p2 @ prot @ 13 # rest) (length ?p2) = Some (Some (length ?p2), pre @ rest, length pre)"
    using strtok_token [of "length ?p2" ?p2 "[]" "blanks @ eol" prot 13 rest] u(3,4) by (auto simp: pre_def)
  have "0 \<notin> set meth" "0 \<notin> set uri" using assms(3) u(2) by auto
  then have "str_at (pre @ rest) 0 = Some meth" "str_at (pre @ rest) (length ?p1) = Some uri"
    using str_at_token [of 0 "[]" meth "uri @ 0 # prot @ 0 # rest"] str_at_token [of "length ?p1" ?p1 uri "prot @ 0 # rest"]
    by (simp_all add: pre_def)
  then show ?thesis unfolding es_msg_parser_def t1 by (simp add: t2 [simplified] t3 [simplified])
qed

lemma post_parsed:
  assumes "line_ok uri prot" and "hs \<noteq> []" and "length hs \<le> MAX_HEADER_SUPPORT" and "list_all (header_ok L) hs"
    and "0 < declared hs (- 1)" and "length (request_head ''POST'' uri prot hs) < len"
  shows "\<exists>cut. es_msg_parser L (request_head ''POST'' uri prot hs @ rest) len m
      = Some (IOT_ERROR_NONE, m\<lparr>m_payload := Some (length (request_head ''POST'' uri prot hs)), m_cmd := post_step uri,
          m_type := D2D_POST, m_content_len := nat (declared hs (- 1))\<rparr>, cut @ rest)
    \<and> length cut = length (request_head ''POST'' uri prot hs)"
proof -
  define pre where "pre = cstr ''POST'' @ 0 # uri @ 0 # prot @ [0]"
  let ?hs = "concat (map header_line hs)"
  obtain cut where cut: "header_loop L MAX_HEADER_SUPPORT (pre @ 10 # ?hs @ 13 # 10 # rest) (length pre) None (- 1)
      = Some (pre @ cut @ rest, Some (length (pre @ cut) - 1), declared hs (- 1))" "length cut = length ?hs + 3"
    using header_loop_reads [OF assms(2-4), of pre rest None "- 1"] by blast
  have len: "length (pre @ cut) = length (request_head ''POST'' uri prot hs)"
    using cut(2) by (simp add: pre_def request_head_def)
  have "0 \<notin> set uri" using assms(1) by (auto simp: line_ok_def)
  then have uri: "str_at (pre @ cut @ rest) (Suc (length (cstr ''POST''))) = Some uri"
    using str_at_token [of "Suc (length (cstr ''POST''))" "cstr ''POST'' @ [0]" uri "prot @ 0 # cut @ rest"] by (simp add: pre_def)
  have line: "es_msg_parser L (request_head ''POST'' uri prot hs @ rest) len m
      = parse_post L (pre @ 10 # ?hs @ 13 # 10 # rest) (length pre) len (Suc (length (cstr ''POST''))) m"
    using request_line [OF assms(1), of "cstr ''POST''" L "10 # ?hs @ 13 # 10 # rest" len m]
    by (simp add: request_head_def pre_def cstr_def)
  have "cut \<noteq> []" using cut(2) by auto
  then have "Suc (length (pre @ cut) - 1) = length (pre @ cut)" by (cases cut) auto
  then show ?thesis
    using cut(1) assms(5,6) uri len unfolding line
    by (intro exI [of _ "pre @ cut"]) (simp add: parse_post_def)
qed

end
