(* ===== verification/Http_Read.thy ===== *)
theory Http_Read
  imports Http_Parse
begin

text \<open>
  Reading a request from the network. The header may come in pieces of any size and the body, or its beginning,
  with the last of them; the rest of the body is put in the right place when it comes in one piece, and
  overwrites itself when it comes in two.
\<close>

section \<open>The end of the header\<close>

text \<open>The empty line at the end of \<open>h\<close> is the first one in it.\<close>

definition one_blank :: "u8 list \<Rightarrow> bool" where
  "one_blank h \<longleftrightarrow> (\<forall>i. take 4 (drop i h) = [13, 10, 13, 10] \<longleftrightarrow> i + 4 = length h)"

lemma one_blank_end: "one_blank h \<Longrightarrow> 4 \<le> length h \<Longrightarrow> take 4 (drop (length h - 4) h) = [13, 10, 13, 10]"
  unfolding one_blank_def by (metis le_add_diff_inverse2)

lemma four_nth: "take 4 (drop i b) = [13, 10, 13, 10 :: u8] \<Longrightarrow> i + 3 < length b \<and> b ! i = 13 \<and> b ! (i + 1) = 10 \<and> b ! (i + 2) = 13"
proof -
  assume *: "take 4 (drop i b) = [13, 10, 13, 10 :: u8]"
  then have "length (take 4 (drop i b)) = 4" by simp
  then have l: "i + 3 < length b" unfolding length_take length_drop by linarith
  have "b ! (i + j) = take 4 (drop i b) ! j" if "j < 4" for j using that l by simp
  then have "b ! (i + j) = [13, 10, 13, 10] ! j" if "j < 4" for j using that * by simp
  from this [of 0] this [of 1] this [of 2] l show ?thesis by simp
qed

lemma lines_blank:
  assumes "ls \<noteq> []" and "\<forall>l\<in>set ls. l \<noteq> [] \<and> 13 \<notin> set l"
  shows "one_blank (concat (map (\<lambda>l. l @ [13, 10]) ls) @ [13, 10])"
  using assms
proof (induction ls)
  case (Cons l ls)
  let ?rest = "concat (map (\<lambda>l. l @ [13, 10]) ls) @ [13, 10 :: u8]"
  let ?h = "l @ 13 # 10 # ?rest"
  have l: "l \<noteq> []" "13 \<notin> set l" using Cons.prems(2) by simp_all
  have start: "?rest ! 0 = 13 \<Longrightarrow> ls = []"
  proof (cases ls)
    case (Cons a as)
    assume "?rest ! 0 = 13"
    moreover have "a \<noteq> []" "13 \<notin> set a" using Cons.prems(2) Cons by simp_all
    ultimately show ?thesis using Cons nth_mem [of 0 a] by (simp add: nth_append)
  qed simp
  have "take 4 (drop i ?h) = [13, 10, 13, 10] \<longleftrightarrow> i + 4 = length ?h" for i
  proof (cases "i < length l + 2")
    case True
    show ?thesis
    proof
      assume *: "take 4 (drop i ?h) = [13, 10, 13, 10]"
      note n = four_nth [OF *]
      have "?h ! i = l ! i" if "i < length l" using that by (simp add: nth_append)
      then have "\<not> i < length l" using n l(2) by (metis nth_mem)
      moreover have "i \<noteq> length l + 1" using n by (auto simp: nth_append)
      ultimately have i: "i = length l" using True by simp
      have "?h ! (length l + 2) = ?rest ! 0" using nth_append_length_plus [of l "13 # 10 # ?rest" 2] by simp
      then have "ls = []" using n start unfolding i by metis
      with i show "i + 4 = length ?h" by simp
    next
      assume *: "i + 4 = length ?h"
      then have "ls = []" using True by (cases ls) auto
      with * show "take 4 (drop i ?h) = [13, 10, 13, 10]" by simp
    qed
  next
    case False
    then obtain j where i: "i = length l + 2 + j" by (metis le_Suc_ex linorder_not_less)
    show ?thesis
    proof (cases "ls = []")
      case True
      then show ?thesis using i by (auto dest: arg_cong [of _ _ length])
    next
      case F: False
      have "one_blank ?rest" using Cons.IH [OF F] Cons.prems(2) by simp
      then show ?thesis using i by (simp add: one_blank_def)
    qed
  qed
  then show ?case by (simp add: one_blank_def)
qed simp

lemma request_blank:
  assumes "line_ok uri prot" and "list_all (header_ok L) hs" and "hs \<noteq> []"
  shows "one_blank (request_head ''POST'' uri prot hs)"
proof -
  let ?ls = "(cstr ''POST'' @ [32] @ uri @ [32] @ prot) # map (\<lambda>(k, v). k @ [58, 32] @ v) hs"
  have "request_head ''POST'' uri prot hs = concat (map (\<lambda>l. l @ [13, 10]) ?ls) @ [13, 10]"
    by (simp add: request_head_def header_line_def [abs_def] comp_def case_prod_beta)
  moreover have "\<forall>l\<in>set ?ls. l \<noteq> [] \<and> 13 \<notin> set l"
    using assms(1,2) by (auto simp: line_ok_def header_ok_def list_all_iff cstr_def)
  ultimately show ?thesis using lines_blank [of ?ls] by simp
qed

lemma header_end_early:
  assumes "one_blank h" and "e < length h" and "data = take e h"
  shows "header_end (data @ replicate k 0) e = None"
proof -
  have "take 4 (drop i (data @ replicate k 0)) \<noteq> [13, 10, 13, 10]" if i: "i < e" "e < 3 \<or> i < e - 3" for i
  proof
    assume *: "take 4 (drop i (data @ replicate k 0)) = [13, 10, 13, 10]"
    have d: "length data = e" using assms(2,3) by simp
    show False
    proof (cases "i < e - 3")
      case True
      then have "take 4 (drop i (data @ replicate k 0)) = take 4 (drop i data)" using d by simp
      also have "\<dots> = take 4 (drop i h)" using True assms(3) by (simp add: drop_take min_def)
      finally show False using * assms(1,2) True by (simp add: one_blank_def)
    next
      case False
      then have "e \<le> i + 2" using i by auto
      then have "(data @ replicate k 0) ! (i + 2) = 0" using four_nth [OF *, THEN conjunct1] d by (simp add: nth_append)
      with four_nth [OF *] show False by simp
    qed
  qed
  then show ?thesis by (auto simp: header_end_def find_None_iff)
qed

lemma header_end_found:
  assumes "one_blank h" and "4 \<le> length h"
  shows "header_end (h @ part @ zs) (length h + length part) = Some (length h)"
proof -
  let ?b = "h @ part @ zs" and ?e = "length h + length part"
  let ?q = "\<lambda>i. (?e < 3 \<or> i < ?e - 3) \<and> take 4 (drop i ?b) = [13, 10, 13, 10]"
  have hit: "?q (length h - 4)" using one_blank_end [OF assms] assms(2) by simp
  have miss: "\<not> ?q i" if "i < length h - 4" for i
  proof -
    have "take 4 (drop i ?b) = take 4 (drop i h)" using that by simp
    with that assms(1) show ?thesis by (auto simp: one_blank_def)
  qed
  have "find ?q [0..<?e] = Some (length h - 4)"
    unfolding find_Some_iff using hit miss assms(2)
    by (intro exI [of _ "length h - 4"]) auto
  then show ?thesis using assms(2) by (simp add: header_end_def)
qed

section \<open>Pieces\<close>

text \<open>The platform has these pieces to hand over, one for each read that has room for it.\<close>

fun hands :: "'n port \<Rightarrow> 'n \<Rightarrow> u8 list list \<Rightarrow> 'n \<Rightarrow> bool" where
  "hands P n [] n' \<longleftrightarrow> n' = n"
| "hands P n (bs # pieces) n' \<longleftrightarrow> bs \<noteq> [] \<and>
     (\<exists>n1. (\<forall>len. length bs \<le> len \<longrightarrow> port_net_read P n len = (int (length bs), bs, n1)) \<and> hands P n1 pieces n')"

lemma hands_append: "hands P n (ps @ qs) n' \<longleftrightarrow> (\<exists>n1. hands P n ps n1 \<and> hands P n1 qs n')"
  by (induction ps arbitrary: n) auto

lemma store_next:
  "length bs \<le> k \<Longrightarrow> store_at (length pre) bs (pre @ replicate k x) = pre @ bs @ replicate (k - length bs) x"
  by (simp add: store_at_def)

lemma head_read:
  assumes "hands P n (ps @ [q]) n'" and "got @ concat ps @ q = h @ part" and "length (got @ concat ps) < length h"
    and "one_blank h" and "4 \<le> length h" and "length (h @ part) < length got + k"
  shows "http_packet_read P (got @ replicate k 0) (length got) n
    = Some (IOT_ERROR_NONE, h @ part @ replicate (length got + k - length (h @ part)) 0, length (h @ part), length h, n')"
  using assms
proof (induction ps arbitrary: got n k)
  case Nil
  then obtain n1 where q: "q \<noteq> []" "port_net_read P n (k - 1) = (int (length q), q, n')"
    by (auto simp: dest: arg_cong [of _ _ length])
  have k: "length q < k" using Nil.prems(2,6) by (metis append_Nil concat.simps(1) length_append nat_add_left_cancel_less)
  have d: "got @ q = h @ part" using Nil.prems(2) by simp
  then have len: "length got + length q = length h + length part" by (metis length_append)
  then have r: "length got + k - length (h @ part) = k - length q" using k by simp
  have b: "got @ q @ replicate (k - length q) 0 = h @ part @ replicate (k - length q) 0"
    using d by (metis append_assoc)
  show ?case
    unfolding r
    using q k len store_next [of q k got 0, unfolded b] header_end_found [OF Nil.prems(4,5), of part]
    by (subst http_packet_read.simps) (simp add: Let_def)
next
  case (Cons p ps)
  obtain n1 where p: "p \<noteq> []" "port_net_read P n (k - 1) = (int (length p), p, n1)" "hands P n1 (ps @ [q]) n'"
    using Cons.prems(1,2,6) by (auto dest: arg_cong [of _ _ length])
  have d: "(got @ p) @ concat ps @ q = h @ part" using Cons.prems(2) by simp
  then have k: "length p < k" using Cons.prems(6) by (metis add_less_cancel_left le_add1 length_append order.strict_trans1 add.assoc)
  have e: "length (got @ p) < length h" using Cons.prems(3) by simp
  have "take (length (got @ p)) h = got @ p" using d e by (metis append_eq_append_conv_if order_less_imp_le)
  then have "header_end ((got @ p) @ replicate (k - length p) 0) (length (got @ p)) = None"
    using header_end_early [OF Cons.prems(4) e] by simp
  moreover have "http_packet_read P ((got @ p) @ replicate (k - length p) 0) (length (got @ p)) n1
      = Some (IOT_ERROR_NONE, h @ part @ replicate (length (got @ p) + (k - length p) - length (h @ part)) 0, length (h @ part), length h, n')"
    using Cons.IH [OF p(3) d _ Cons.prems(4,5)] Cons.prems(3,6) k by simp
  ultimately show ?case using p k store_next [of p k got 0] by (subst http_packet_read.simps) (simp add: Let_def)
qed

section \<open>A request with its body\<close>

definition post_ok :: "int \<Rightarrow> u8 list \<Rightarrow> u8 list \<Rightarrow> (u8 list \<times> u8 list) list \<Rightarrow> u8 list \<Rightarrow> bool" where
  "post_ok L uri prot hs body \<longleftrightarrow> line_ok uri prot \<and> hs \<noteq> [] \<and> length hs \<le> MAX_HEADER_SUPPORT \<and> list_all (header_ok L) hs \<and>
     declared hs (- 1) = int (length body) \<and> body \<noteq> [] \<and> 0 \<notin> set body \<and>
     length (request_head ''POST'' uri prot hs @ body) < RX_BUFFER_MAX"

definition post_msg :: "u8 list \<Rightarrow> u8 list \<Rightarrow> (u8 list \<times> u8 list) list \<Rightarrow> u8 list \<Rightarrow> http_msg \<Rightarrow> http_msg" where
  "post_msg uri prot hs body m = m\<lparr>m_payload := Some (length (request_head ''POST'' uri prot hs)), m_cmd := post_step uri,
     m_type := D2D_POST, m_content_len := length body\<rparr>"

lemma str_at_zeros: "i = length pre \<Longrightarrow> 0 \<notin> set xs \<Longrightarrow> 0 < k \<Longrightarrow> str_at (pre @ xs @ replicate k 0) i = Some xs"
  using str_at_token [of i pre xs "replicate (k - 1) 0"] by (cases k) simp_all

lemma receive_head:
  assumes "post_ok L uri prot hs body" and "hands P n (ps @ [q]) n1" and "concat ps @ q = request_head ''POST'' uri prot hs @ part"
    and "length (concat ps) < length (request_head ''POST'' uri prot hs)" and "body = part @ rest"
  defines "k \<equiv> length (request_head ''POST'' uri prot hs)"
  shows "\<exists>cut. length cut = k \<and> receive_request P L m n =
    (if rest = [] then Some (Inr (IOT_ERROR_NONE, post_msg uri prot hs body m, cut @ body @ replicate (RX_BUFFER_MAX - k - length body) 0), n1)
     else do {
       (r, b, n) \<leftarrow> http_packet_read_remaining P (cut @ part @ replicate (RX_BUFFER_MAX - k - length part) 0)
         (k + length part) (k + length part) (k + length body) n1;
       Some (if r \<noteq> IOT_ERROR_NONE then Inl (IOT_ERROR_OTHER (- 501)) else Inr (IOT_ERROR_NONE, post_msg uri prot hs body m, b), n) })"
proof -
  let ?h = "request_head ''POST'' uri prot hs"
  let ?zs = "replicate (RX_BUFFER_MAX - k - length part) (0 :: u8)"
  have ok: "line_ok uri prot" "hs \<noteq> []" "length hs \<le> MAX_HEADER_SUPPORT" "list_all (header_ok L) hs" "0 < declared hs (- 1)"
    "nat (declared hs (- 1)) = length body" "0 \<notin> set body" "k + length body < RX_BUFFER_MAX"
    using assms(1) by (auto simp: post_ok_def k_def)
  then have part: "0 \<notin> set part" "k + length part < RX_BUFFER_MAX" using assms(5) by auto
  have "http_packet_read P (replicate RX_BUFFER_MAX 0) 0 n = Some (IOT_ERROR_NONE, ?h @ part @ ?zs, k + length part, k, n1)"
    using head_read [OF assms(2), of "[]" ?h part RX_BUFFER_MAX] assms(3,4) request_blank [OF ok(1,4,2)] part(2)
    by (simp add: k_def request_head_def)
  moreover obtain cut where cut: "length cut = k"
    "es_msg_parser L (?h @ part @ ?zs) RX_BUFFER_MAX (m\<lparr>m_content_len := 0\<rparr>) = Some (IOT_ERROR_NONE, post_msg uri prot hs body m, cut @ part @ ?zs)"
    using post_parsed [OF ok(1-5), of RX_BUFFER_MAX "part @ ?zs" "m\<lparr>m_content_len := 0\<rparr>"] ok(6,8)
    by (auto simp: k_def post_msg_def)
  moreover have "length (?h @ part @ ?zs) = RX_BUFFER_MAX" using part(2) by (simp add: k_def)
  moreover have "str_at (cut @ part @ ?zs) k = Some part"
    using str_at_zeros [of k cut part] cut(1) part by simp
  then have "wants_more (cut @ part @ ?zs) IOT_ERROR_NONE (post_msg uri prot hs body m) = Some (rest \<noteq> [])"
    using assms(5) by (simp add: wants_more_def post_msg_def k_def)
  moreover have "post_msg uri prot hs body m\<lparr>m_payload := Some k\<rparr> = post_msg uri prot hs body m"
    "m_content_len (post_msg uri prot hs body m) = length body" by (simp_all add: post_msg_def k_def)
  moreover have "rest = [] \<Longrightarrow> part = body" using assms(5) by simp
  ultimately show ?thesis by (intro exI [of _ cut]) (simp add: receive_request_def cong: if_cong)
qed

text \<open>The rest of a body, in one piece and in two.\<close>

lemma remaining_one:
  assumes "hands P n [r] n'" and "length r < k" and "expected \<le> total_len + length r"
  shows "http_packet_read_remaining P (pre @ replicate k 0) (length pre) total_len expected n
    = Some (IOT_ERROR_NONE, pre @ r @ replicate (k - length r) 0, n')"
  using assms store_next [of r k pre 0]
  by (subst http_packet_read_remaining.simps) (auto simp: Let_def)

lemma remaining_two:
  assumes "hands P n [r1, r2] n'" and "length r1 + length r2 < k" and "expected = total_len + length r1 + length r2"
  shows "http_packet_read_remaining P (pre @ replicate k 0) (length pre) total_len expected n
    = Some (IOT_ERROR_NONE, pre @ r2 @ drop (length r2) r1 @ replicate (k - max (length r1) (length r2)) 0, n')"
proof -
  obtain n1 where r: "r1 \<noteq> []" "\<And>len. length r1 \<le> len \<Longrightarrow> port_net_read P n len = (int (length r1), r1, n1)" "hands P n1 [r2] n'"
    using assms(1) by auto
  then have r2: "r2 \<noteq> []" "\<And>len. length r2 \<le> len \<Longrightarrow> port_net_read P n1 len = (int (length r2), r2, n')" by auto
  have s: "store_at (length pre) r2 (pre @ r1 @ replicate (k - length r1) 0)
      = pre @ r2 @ drop (length r2) r1 @ replicate (k - max (length r1) (length r2)) 0"
    using assms(2) by (simp add: store_at_def max_def)
  have "http_packet_read_remaining P (pre @ r1 @ replicate (k - length r1) 0) (length pre) (total_len + length r1) expected n1
      = Some (IOT_ERROR_NONE, pre @ r2 @ drop (length r2) r1 @ replicate (k - max (length r1) (length r2)) 0, n')"
    using r2 assms(2,3) by (subst http_packet_read_remaining.simps) (simp add: Let_def s)
  then show ?thesis
    using r(1,2) r2(1) assms(2,3) store_next [of r1 k pre 0] by (subst http_packet_read_remaining.simps) (simp add: Let_def)
qed

lemma receive_post:
  assumes "post_ok L uri prot hs body" and "hands P n (ps @ [q] @ rs) n'" and "length rs \<le> 1"
    and "concat ps @ q @ concat rs = request_head ''POST'' uri prot hs @ body"
    and "length (concat ps) < length (request_head ''POST'' uri prot hs)"
    and "length (request_head ''POST'' uri prot hs) \<le> length (concat ps @ q)"
  shows "\<exists>b. receive_request P L m n = Some (Inr (IOT_ERROR_NONE, post_msg uri prot hs body m, b), n')
    \<and> str_at b (length (request_head ''POST'' uri prot hs)) = Some body"
proof -
  define k where "k = length (request_head ''POST'' uri prot hs)"
  define part where "part = drop k (concat ps @ q)"
  let ?x = "concat ps @ q"
  have eq: "?x @ concat rs = request_head ''POST'' uri prot hs @ body" using assms(4) by simp
  have "take k (?x @ concat rs) = request_head ''POST'' uri prot hs" "drop k (?x @ concat rs) = body"
    unfolding eq by (simp_all add: k_def)
  then have rest: "body = part @ concat rs" and "take k ?x = request_head ''POST'' uri prot hs"
    using assms(6) by (simp_all add: part_def k_def)
  then have head: "?x = request_head ''POST'' uri prot hs @ part" unfolding part_def by (metis append_take_drop_id)
  obtain n1 where n1: "hands P n (ps @ [q]) n1" "hands P n1 rs n'"
    using assms(2) hands_append [of P n "ps @ [q]" rs n'] by auto
  have ok: "0 \<notin> set body" "k + length body < RX_BUFFER_MAX" using assms(1) by (auto simp: post_ok_def k_def)
  from receive_head [OF assms(1) n1(1) head assms(5) rest, of m, folded k_def] obtain cut where cut: "length cut = k"
    and run: "receive_request P L m n =
      (if concat rs = [] then Some (Inr (IOT_ERROR_NONE, post_msg uri prot hs body m, cut @ body @ replicate (RX_BUFFER_MAX - k - length body) 0), n1)
       else do {
         (r, b, n) \<leftarrow> http_packet_read_remaining P (cut @ part @ replicate (RX_BUFFER_MAX - k - length part) 0)
           (k + length part) (k + length part) (k + length body) n1;
         Some (if r \<noteq> IOT_ERROR_NONE then Inl (IOT_ERROR_OTHER (- 501)) else Inr (IOT_ERROR_NONE, post_msg uri prot hs body m, b), n) })"
    by blast
  have "receive_request P L m n
      = Some (Inr (IOT_ERROR_NONE, post_msg uri prot hs body m, cut @ body @ replicate (RX_BUFFER_MAX - k - length body) 0), n')"
  proof (cases rs)
    case Nil
    with run n1(2) show ?thesis by simp
  next
    case (Cons r rs')
    then have "rs = [r]" using assms(3) by simp
    with run n1(2) remaining_one [of P n1 r n' "RX_BUFFER_MAX - k - length part" "k + length body" "k + length part" "cut @ part"] rest ok(2) cut
    show ?thesis by (auto simp: diff_diff_add ac_simps)
  qed
  then show ?thesis using str_at_zeros [of k cut body] cut ok by (auto simp: k_def)
qed

lemma receive_split:
  assumes "post_ok L uri prot hs (part @ r1 @ r2)" and "hands P n (ps @ [q, r1, r2]) n'"
    and "concat ps @ q = request_head ''POST'' uri prot hs @ part" and "length (concat ps) < length (request_head ''POST'' uri prot hs)"
  shows "\<exists>b. receive_request P L m n = Some (Inr (IOT_ERROR_NONE, post_msg uri prot hs (part @ r1 @ r2) m, b), n')
    \<and> str_at b (length (request_head ''POST'' uri prot hs)) = Some (part @ r2 @ drop (length r2) r1)"
proof -
  define k where "k = length (request_head ''POST'' uri prot hs)"
  obtain n1 where n1: "hands P n (ps @ [q]) n1" "hands P n1 [r1, r2] n'"
    using assms(2) hands_append [of P n "ps @ [q]" "[r1, r2]" n'] by auto
  then have "r1 @ r2 \<noteq> []" by simp
  have ok: "0 \<notin> set (part @ r1 @ r2)" "k + length (part @ r1 @ r2) < RX_BUFFER_MAX" using assms(1) by (auto simp: post_ok_def k_def)
  from receive_head [OF assms(1) n1(1) assms(3,4), of "r1 @ r2" m, folded k_def] obtain cut where cut: "length cut = k"
    and run: "receive_request P L m n = do {
         (r, b, n) \<leftarrow> http_packet_read_remaining P (cut @ part @ replicate (RX_BUFFER_MAX - k - length part) 0)
           (k + length part) (k + length part) (k + length (part @ r1 @ r2)) n1;
         Some (if r \<noteq> IOT_ERROR_NONE then Inl (IOT_ERROR_OTHER (- 501)) else Inr (IOT_ERROR_NONE, post_msg uri prot hs (part @ r1 @ r2) m, b), n) }"
    using \<open>r1 @ r2 \<noteq> []\<close> by auto
  let ?z = "RX_BUFFER_MAX - k - length part - max (length r1) (length r2)"
  have "receive_request P L m n = Some (Inr (IOT_ERROR_NONE, post_msg uri prot hs (part @ r1 @ r2) m,
      cut @ part @ r2 @ drop (length r2) r1 @ replicate ?z 0), n')"
    using run remaining_two [OF n1(2), of "RX_BUFFER_MAX - k - length part" "k + length (part @ r1 @ r2)" "k + length part" "cut @ part"] ok(2) cut
    by simp
  moreover have "0 \<notin> set (part @ r2 @ drop (length r2) r1)" using ok(1) by (auto dest: in_set_dropD)
  ultimately show ?thesis using str_at_zeros [of k cut "part @ r2 @ drop (length r2) r1" ?z] cut ok(2) by (auto simp: k_def)
qed

end
