(* ===== verification/Http_Safe.thy ===== *)
theory Http_Safe
  imports Http_Read
begin

text \<open>
  Whatever bytes arrive, the parser stays inside the buffer as long as the four bytes behind them are zero; with
  fewer than three free bytes a header without a value leads it behind the buffer.
\<close>

section \<open>Inside the buffer\<close>

text \<open>The string in the buffer ends at offset \<open>z\<close> at the latest, and three more bytes are there.\<close>

definition padded :: "nat \<Rightarrow> u8 list \<Rightarrow> bool" where
  "padded z b \<longleftrightarrow> z + 3 < length b \<and> b ! z = 0"

lemma scan_stops:
  assumes "z < length b" and "i \<le> z" and "\<not> p (b ! z)"
  obtains j where "scan p b i = Some j" "i \<le> j" "j \<le> z" "\<not> p (b ! j)"
proof -
  define t where "t = takeWhile p (drop i b)"
  have z: "\<not> p (drop i b ! (z - i))" using assms by simp
  have "length t \<le> z - i"
  proof (rule ccontr)
    assume "\<not> length t \<le> z - i"
    then have "t ! (z - i) \<in> set t" by simp
    moreover have "t ! (z - i) = drop i b ! (z - i)" using \<open>\<not> length t \<le> z - i\<close> by (simp add: t_def takeWhile_nth)
    ultimately show False using z by (auto simp: t_def dest: set_takeWhileD)
  qed
  then have j: "i + length t \<le> z" using assms(2) by simp
  then have "length t < length (drop i b)" using assms(1) by simp
  then have "\<not> p (drop i b ! length t)" unfolding t_def by (rule nth_length_takeWhile)
  then have "\<not> p (b ! (i + length t))" using j assms(1) by simp
  with that [of "i + length t"] j assms(1) show thesis by (simp add: scan_def t_def Let_def)
qed

lemma str_at_padded:
  assumes "padded z b" and "i \<le> z"
  obtains s where "str_at b i = Some s" "i + length s \<le> z"
proof -
  obtain j where "scan (\<lambda>c. c \<noteq> 0) b i = Some j" "i \<le> j" "j \<le> z"
    using scan_stops [of z b i "\<lambda>c. c \<noteq> 0"] assms by (auto simp: padded_def)
  with that [of "take (j - i) (drop i b)"] assms(1) show thesis by (simp add: str_at_def padded_def)
qed

lemma strtok_padded:
  assumes "padded z b" and "p \<le> z" and "0 \<notin> set ds"
  obtains r b' p' where "strtok ds b p = Some (r, b', p')" "padded z b'" "p' \<le> z" "\<And>i. r = Some i \<Longrightarrow> i < z"
proof -
  have z: "z < length b" "b ! z = 0" using assms(1) by (simp_all add: padded_def)
  obtain i where i: "scan (\<lambda>c. c \<in> set ds) b p = Some i" "i \<le> z" "b ! i \<notin> set ds"
    using scan_stops [of z b p "\<lambda>c. c \<in> set ds"] z assms(2,3) by auto
  show thesis
  proof (cases "b ! i = 0")
    case True
    with that [of None b i] i z assms(1) show thesis by (simp add: strtok_def read_byte_lt)
  next
    case False
    then have "i < z" using i(2) z(2) by (cases "i = z") auto
    obtain j where j: "scan (\<lambda>c. c \<noteq> 0 \<and> c \<notin> set ds) b i = Some j" "j \<le> z"
      using scan_stops [of z b i "\<lambda>c. c \<noteq> 0 \<and> c \<notin> set ds"] z i(2) by auto
    have r: "strtok ds b p = Some (if b ! j = 0 then (Some i, b, j) else (Some i, b[j := 0], Suc j))"
      using False i j z by (simp add: strtok_def read_byte_lt)
    show thesis
    proof (cases "b ! j = 0")
      case True
      with that [of "Some i" b j] r assms(1) j \<open>i < z\<close> show thesis by simp
    next
      case F: False
      then have "j < z" using j(2) z(2) by (cases "j = z") auto
      with that [of "Some i" "b[j := 0]" "Suc j"] r F assms(1) \<open>i < z\<close> show thesis by (simp add: padded_def)
    qed
  qed
qed

lemma ends_header_padded:
  assumes "padded z b" and "e \<le> z" shows "ends_header b e \<noteq> None"
  using assms by (auto simp: ends_header_def andalso_def byte_test_def read_byte_def padded_def split: option.splits bool.splits)

lemma header_loop_safe:
  assumes "padded z b" and "p \<le> z"
  shows "\<exists>b' body' len'. header_loop L n b p body len = Some (b', body', len') \<and> padded z b'"
  using assms
proof (induction n arbitrary: b p body len)
  case (Suc n)
  obtain key b1 p1 where 1: "strtok (eol @ [58] @ blanks) b p = Some (key, b1, p1)" "padded z b1" "p1 \<le> z" "\<And>i. key = Some i \<Longrightarrow> i < z"
    by (rule strtok_padded [OF Suc.prems, of "eol @ [58] @ blanks"]) auto
  obtain val b2 p2 where 2: "strtok eol b1 p1 = Some (val, b2, p2)" "padded z b2" "p2 \<le> z" "\<And>i. val = Some i \<Longrightarrow> i < z"
    by (rule strtok_padded [OF 1(2,3), of eol]) auto
  show ?case
  proof (cases key; cases val)
    fix k v assume kv: "key = Some k" "val = Some v"
    obtain i where i: "scan (\<lambda>c. c = 32) b2 v = Some i" "i \<le> z"
      using scan_stops [of z b2 v "\<lambda>c. c = 32"] 2(2) 2(4) [OF kv(2)] by (auto simp: padded_def)
    obtain s where s: "str_at b2 i = Some s" "i + length s \<le> z" using str_at_padded [OF 2(2) i(2)] by auto
    obtain t where t: "str_at b2 k = Some t" using str_at_padded [OF 2(2), of k] 1(4) [OF kv(1)] by auto
    obtain ended where e: "ends_header b2 (i + length s) = Some ended" using ends_header_padded [OF 2(2) s(2)] by auto
    show ?thesis
      using Suc.IH [OF 2(2,3)] 1(1) 2(1,2) kv i s t e
      by (auto simp: header_loop.simps(2) is_header_content_length_def Let_def split: option.splits)
  qed (use 1 2 in \<open>auto simp: header_loop.simps(2)\<close>)
qed simp

lemma parser_padded:
  assumes "padded z b" shows "es_msg_parser L b len m \<noteq> None"
proof -
  obtain t1 b1 p1 where 1: "strtok (blanks @ eol) b 0 = Some (t1, b1, p1)" "padded z b1" "p1 \<le> z" "\<And>i. t1 = Some i \<Longrightarrow> i < z"
    by (rule strtok_padded [OF assms, of 0 "blanks @ eol"]) auto
  obtain t2 b2 p2 where 2: "strtok blanks b1 p1 = Some (t2, b2, p2)" "padded z b2" "p2 \<le> z" "\<And>i. t2 = Some i \<Longrightarrow> i < z"
    by (rule strtok_padded [OF 1(2,3), of blanks]) auto
  obtain t3 b3 p3 where 3: "strtok (blanks @ eol) b2 p2 = Some (t3, b3, p3)" "padded z b3" "p3 \<le> z"
    by (rule strtok_padded [OF 2(2,3), of "blanks @ eol"]) auto
  have s: "str_at b3 i \<noteq> None" if "t1 = Some i \<or> t2 = Some i" for i
    using that 1(4) 2(4) str_at_padded [OF 3(2), of i] by (metis less_imp_le option.distinct(1))
  obtain b4 body l where 4: "header_loop L MAX_HEADER_SUPPORT b3 p3 None (- 1) = Some (b4, body, l)" "padded z b4"
    using header_loop_safe [OF 3(2,3)] by blast
  have u: "str_at b4 i \<noteq> None" if "t2 = Some i" for i
    using 2(4) [OF that] str_at_padded [OF 4(2), of i] by (metis less_imp_le option.distinct(1))
  then have post: "parse_post L b3 p3 len i m \<noteq> None" if "t2 = Some i" for i
    using that 4(1) by (auto simp: parse_post_def Let_def split: option.splits)
  show ?thesis
  proof (cases t1; cases t2; cases t3)
    fix i u j assume t: "t1 = Some i" "t2 = Some u" "t3 = Some j"
    obtain x y where "str_at b3 i = Some x" "str_at b3 u = Some y" using s [of i] s [of u] t by auto
    with 1(1) 2(1) 3(1) t post [OF t(2)] show ?thesis by (simp add: es_msg_parser_def)
  qed (use 1(1) 2(1) 3(1) in \<open>simp_all add: es_msg_parser_def\<close>)
qed

section \<open>Behind the buffer\<close>

text \<open>The last token of a string: nothing is written, and the scan goes on from its end.\<close>

lemma strtok_last:
  assumes "p = length pre" and "set junk \<subseteq> set ds" and "tok \<noteq> []" and "set tok \<inter> set (0 # ds) = {}" and "0 \<notin> set ds"
  shows "strtok ds (pre @ junk @ tok @ 0 # rest) p
    = Some (Some (length pre + length junk), pre @ junk @ tok @ 0 # rest, length pre + length junk + length tok)"
proof -
  obtain c cs where tok: "tok = c # cs" using assms(3) by (cases tok) auto
  have 1: "scan (\<lambda>c. c \<in> set ds) (pre @ junk @ tok @ 0 # rest) p = Some (length pre + length junk)"
    using scan_at [of p pre junk "\<lambda>c. c \<in> set ds" c "cs @ 0 # rest"] assms(1,2,4) tok by auto
  have 2: "scan (\<lambda>c. c \<noteq> 0 \<and> c \<notin> set ds) (pre @ junk @ tok @ 0 # rest) (length pre + length junk)
      = Some (length pre + length junk + length tok)"
    using scan_at [of "length pre + length junk" "pre @ junk" tok "\<lambda>c. c \<noteq> 0 \<and> c \<notin> set ds" 0 rest] assms(4) by auto
  have 3: "read_byte (pre @ junk @ tok @ 0 # rest) (length pre + length junk) = Some c"
    using read_byte_append [of "length pre + length junk" "pre @ junk" c "cs @ 0 # rest"] tok by simp
  have 4: "read_byte (pre @ junk @ tok @ 0 # rest) (length pre + length junk + length tok) = Some 0"
    using read_byte_append [of "length pre + length junk + length tok" "pre @ junk @ tok" 0 rest] by simp
  have "c \<noteq> 0" using assms(4) tok by auto
  then show ?thesis by (simp add: strtok_def 1 2 3 4)
qed

text \<open>A header without a value takes the body for its value.\<close>

lemma valueless_header:
  assumes "line_ok uri prot" and "k \<noteq> []" and "set k \<inter> {0, 9, 10, 13, 32, 58} = {}" and "\<not> names_length k"
    and "body \<noteq> []" and "hd body \<noteq> 32" and "set body \<inter> {0, 10, 13} = {}"
  shows "es_msg_parser L (cstr ''POST'' @ 32 # uri @ 32 # prot @ 13 # 10 # k @ [58, 13, 10, 13, 10] @ body @ [0]) len m = None"
proof -
  let ?ks = "eol @ [58] @ blanks"
  define pre where "pre = cstr ''POST'' @ 0 # uri @ 0 # prot @ [0]"
  define pre1 where "pre1 = pre @ 10 # k @ [0]"
  let ?b = "pre1 @ [13, 10, 13, 10] @ body @ [0]"
  have t1: "strtok ?ks (pre @ 10 # k @ [58, 13, 10, 13, 10] @ body @ [0]) (length pre) = Some (Some (length pre + 1), ?b, length pre1)"
    using strtok_token [of "length pre" pre "[10]" ?ks k 58 "[13, 10, 13, 10] @ body @ [0]"] assms(2,3) by (auto simp: pre1_def)
  have t2: "strtok eol ?b (length pre1) = Some (Some (length pre1 + 4), ?b, length pre1 + 4 + length body)"
    using strtok_last [of "length pre1" pre1 "[13, 10, 13, 10]" eol body "[]"] assms(5,7) by auto
  obtain c cs where c: "body = c # cs" "c \<noteq> 32" using assms(5,6) by (cases body) auto
  have s: "scan (\<lambda>c. c = 32) ?b (length pre1 + 4) = Some (length pre1 + 4)"
    using scan_at [of "length pre1 + 4" "pre1 @ [13, 10, 13, 10]" "[]" "\<lambda>c. c = 32" c "cs @ [0]"] c by simp
  have "0 \<notin> set k" "0 \<notin> set body" using assms(3,7) by auto
  then have str: "str_at ?b (length pre + 1) = Some k" "str_at ?b (length pre1 + 4) = Some body"
    using str_at_token [of "length pre + 1" "pre @ [10]" k "[13, 10, 13, 10] @ body @ [0]"]
      str_at_token [of "length pre1 + 4" "pre1 @ [13, 10, 13, 10]" body "[]"] by (simp_all add: pre1_def)
  have e: "ends_header ?b (length pre1 + 4 + length body) = None"
    by (simp add: ends_header_def andalso_def byte_test_def)
  have "header_loop L MAX_HEADER_SUPPORT (pre @ 10 # k @ [58, 13, 10, 13, 10] @ body @ [0]) (length pre) None (- 1) = None"
    unfolding numeral_eq_Suc header_loop.simps(2) t1
    using assms(4) by (simp add: t2 [simplified] s [simplified] str [simplified] e [simplified] is_header_content_length_def flip: names_length_def)
  then show ?thesis
    using request_line [OF assms(1), of "cstr ''POST''" L "10 # k @ [58, 13, 10, 13, 10] @ body @ [0]" len m]
    by (simp add: pre_def cstr_def parse_post_def)
qed

end
