(* ===== verification/Storage.thy ===== *)
theory Storage
  imports Util
begin

text \<open>
  The non-volatile storage below \<^verbatim>\<open>src/iot_nv_data.c\<close>, on the POSIX port: the file functions of
  \<^verbatim>\<open>src/port/bsp/posix/iot_bsp_fs_posix.c\<close>, the software backend of
  \<^verbatim>\<open>src/security/backend/software\<close> that maps the identifiers to files, and
  \<^verbatim>\<open>src/security/iot_security_storage.c\<close> above it.

  \<^item> The file system is a map from names to contents; \<open>open\<close>, \<open>read\<close>, \<open>write\<close>, \<open>close\<close> and \<open>remove\<close> may
    fail, and \<open>write\<close> may transfer fewer bytes than asked for. What they do in a run is what
    the record \<open>posix\<close> says, which reads and changes an environment of any type.
  \<^item> The locale \<open>nv_storage\<close> is the contract of the three storage functions on which
    \<^verbatim>\<open>src/iot_nv_data.c\<close> relies, and its interpretation shows that this stack keeps it.
\<close>

section \<open>Identifiers\<close>

datatype iot_nvd =
  IOT_NVD_UNKNOWN
| IOT_NVD_WIFI_PROV_STATUS | IOT_NVD_AP_SSID | IOT_NVD_AP_PASS | IOT_NVD_AP_BSSID | IOT_NVD_AP_AUTH_TYPE
| IOT_NVD_CLOUD_PROV_STATUS | IOT_NVD_SERVER_URL | IOT_NVD_SERVER_PORT | IOT_NVD_LABEL
| IOT_NVD_DEVICE_ID | IOT_NVD_MISC_INFO
| IOT_NVD_PRIVATE_KEY | IOT_NVD_PUBLIC_KEY | IOT_NVD_ROOT_CA_CERT | IOT_NVD_SUB_CA_CERT
| IOT_NVD_DEVICE_CERT | IOT_NVD_SERIAL_NUM
| IOT_NVD_MAX

text \<open>The identifiers from \<open>IOT_NVD_FACTORY\<close> on, the data of the manufacturer.\<close>

definition factory_id :: "iot_nvd \<Rightarrow> bool" where
  "factory_id i \<longleftrightarrow> i \<in> {IOT_NVD_PRIVATE_KEY, IOT_NVD_PUBLIC_KEY, IOT_NVD_ROOT_CA_CERT,
     IOT_NVD_SUB_CA_CERT, IOT_NVD_DEVICE_CERT, IOT_NVD_SERIAL_NUM}"

definition iot_bsp_nv_get_data_path :: "iot_nvd \<Rightarrow> string option" where
  "iot_bsp_nv_get_data_path i = (case i of
     IOT_NVD_WIFI_PROV_STATUS \<Rightarrow> Some ''WifiProvStatus''
   | IOT_NVD_AP_SSID \<Rightarrow> Some ''IotAPSSID''
   | IOT_NVD_AP_PASS \<Rightarrow> Some ''IotAPPASS''
   | IOT_NVD_AP_BSSID \<Rightarrow> Some ''IotAPBSSID''
   | IOT_NVD_AP_AUTH_TYPE \<Rightarrow> Some ''IotAPAuthType''
   | IOT_NVD_CLOUD_PROV_STATUS \<Rightarrow> Some ''CloudProvStatus''
   | IOT_NVD_SERVER_URL \<Rightarrow> Some ''ServerURL''
   | IOT_NVD_SERVER_PORT \<Rightarrow> Some ''ServerPort''
   | IOT_NVD_LABEL \<Rightarrow> Some ''Label''
   | IOT_NVD_DEVICE_ID \<Rightarrow> Some ''DeviceID''
   | IOT_NVD_MISC_INFO \<Rightarrow> Some ''MiscInfo''
   | IOT_NVD_PRIVATE_KEY \<Rightarrow> Some ''PrivateKey''
   | IOT_NVD_PUBLIC_KEY \<Rightarrow> Some ''PublicKey''
   | IOT_NVD_ROOT_CA_CERT \<Rightarrow> Some ''RootCert''
   | IOT_NVD_SUB_CA_CERT \<Rightarrow> Some ''SubCert''
   | IOT_NVD_DEVICE_CERT \<Rightarrow> Some ''DeviceCert''
   | IOT_NVD_SERIAL_NUM \<Rightarrow> Some ''SerialNum''
   | _ \<Rightarrow> None)"

section \<open>Files\<close>

text \<open>
  The calls of the C library, and whether they succeed. A successful \<open>read\<close> of a regular file transfers
  all bytes up to the limit or the end of the file; \<open>p_write\<close> gives the number of bytes written, at most the
  number asked for, or nothing for an error. \<open>p_uninit\<close> is what fresh memory holds, \<open>p_stnv\<close> the build
  option of a factory partition, and \<open>p_device_info\<close> the callback that reads the device information
  when there is none.
\<close>

record 'n posix =
  p_malloc :: "'n \<Rightarrow> bool \<times> 'n"
  p_open :: "string \<Rightarrow> 'n \<Rightarrow> bool \<times> 'n"
  p_read :: "'n \<Rightarrow> bool \<times> 'n"
  p_write :: "nat \<Rightarrow> 'n \<Rightarrow> nat option \<times> 'n"
  p_close :: "'n \<Rightarrow> bool \<times> 'n"
  p_remove :: "string \<Rightarrow> 'n \<Rightarrow> bool \<times> 'n"
  p_uninit :: "nat \<Rightarrow> u8"
  p_stnv :: bool
  p_device_info :: "iot_nvd \<Rightarrow> iot_error + u8 list"

record 'n store =
  files :: "string \<Rightarrow> u8 list option"
  env :: 'n

datatype iot_bsp_fs_open_mode = FS_READONLY | FS_READWRITE

definition malloc_c :: "'n posix \<Rightarrow> 'n store \<Rightarrow> bool \<times> 'n store" where
  "malloc_c P s = (let (ok, e) = p_malloc P (env s) in (ok, s\<lparr>env := e\<rparr>))"

text \<open>
  A handle is the name of the open file: each handle is used for one transfer, at offset 0. Opening for
  writing creates a missing file; it does not cut the contents of an existing one, as the flags
  \<open>O_RDWR | O_CREAT\<close> of the source do not.
\<close>

definition iot_bsp_fs_open :: "'n posix \<Rightarrow> string \<Rightarrow> iot_bsp_fs_open_mode \<Rightarrow> 'n store \<Rightarrow> iot_error \<times> 'n store" where
  "iot_bsp_fs_open P f mode s =
     (if mode = FS_READONLY \<and> files s f = None then (IOT_ERROR_FS_NO_FILE, s)
      else let (ok, e) = p_open P f (env s); s = s\<lparr>env := e\<rparr>
           in if \<not> ok then (IOT_ERROR_FS_OPEN_FAIL, s)
              else if mode = FS_READWRITE \<and> files s f = None
              then (IOT_ERROR_NONE, s\<lparr>files := (files s)(f \<mapsto> [])\<rparr>)
              else (IOT_ERROR_NONE, s))"

definition iot_bsp_fs_open_from_stnv :: "'n posix \<Rightarrow> string \<Rightarrow> 'n store \<Rightarrow> iot_error \<times> 'n store" where
  "iot_bsp_fs_open_from_stnv P f s =
     (if files s f = None then (IOT_ERROR_FS_NO_FILE, s)
      else let (ok, e) = p_open P f (env s); s = s\<lparr>env := e\<rparr>
           in if \<not> ok then (IOT_ERROR_FS_OPEN_FAIL, s) else (IOT_ERROR_NONE, s))"

text \<open>Reading at most \<open>len\<close> bytes into a buffer; the bytes read and their number.\<close>

definition iot_bsp_fs_read :: "'n posix \<Rightarrow> string \<Rightarrow> nat \<Rightarrow> 'n store \<Rightarrow> (iot_error + u8 list) \<times> 'n store" where
  "iot_bsp_fs_read P f len s = (case files s f of
     None \<Rightarrow> (Inl IOT_ERROR_FS_NO_FILE, s)
   | Some d \<Rightarrow>
       (case malloc_c P s of
          (False, s) \<Rightarrow> (Inl IOT_ERROR_FS_OPEN_FAIL, s)
        | (True, s) \<Rightarrow>
            let (ok, e) = p_read P (env s); s = s\<lparr>env := e\<rparr>
            in if ok then (Inr (take len d), s) else (Inl IOT_ERROR_FS_READ_FAIL, s)))"

definition iot_bsp_fs_write :: "'n posix \<Rightarrow> string \<Rightarrow> u8 list \<Rightarrow> 'n store \<Rightarrow> iot_error \<times> 'n store" where
  "iot_bsp_fs_write P f d s =
     (let (r, e) = p_write P (length d) (env s); s = s\<lparr>env := e\<rparr>
      in case r of
           None \<Rightarrow> (IOT_ERROR_FS_WRITE_FAIL, s)
         | Some k \<Rightarrow>
             let k = min k (length d); old = (case files s f of None \<Rightarrow> [] | Some old \<Rightarrow> old);
                 s = s\<lparr>files := (files s)(f \<mapsto> take k d @ drop k old)\<rparr>
             in if k \<noteq> length d then (IOT_ERROR_FS_WRITE_FAIL, s) else (IOT_ERROR_NONE, s))"

definition iot_bsp_fs_close :: "'n posix \<Rightarrow> 'n store \<Rightarrow> iot_error \<times> 'n store" where
  "iot_bsp_fs_close P s =
     (let (ok, e) = p_close P (env s)
      in (if ok then IOT_ERROR_NONE else IOT_ERROR_FS_CLOSE_FAIL, s\<lparr>env := e\<rparr>))"

definition iot_bsp_fs_remove :: "'n posix \<Rightarrow> string \<Rightarrow> 'n store \<Rightarrow> iot_error \<times> 'n store" where
  "iot_bsp_fs_remove P f s =
     (if files s f = None then (IOT_ERROR_FS_NO_FILE, s)
      else let (ok, e) = p_remove P f (env s); s = s\<lparr>env := e\<rparr>
           in if ok then (IOT_ERROR_NONE, s\<lparr>files := (files s)(f := None)\<rparr>)
              else (IOT_ERROR_FS_REMOVE_FAIL, s))"

section \<open>The software backend\<close>

datatype iot_security_storage_target =
  IOT_SECURITY_STORAGE_TARGET_UNKNOWN | IOT_SECURITY_STORAGE_TARGET_NV
| IOT_SECURITY_STORAGE_TARGET_FACTORY | IOT_SECURITY_STORAGE_TARGET_DI

abbreviation (input) IOT_SECURITY_STORAGE_BUF_MAX_LEN :: nat where "IOT_SECURITY_STORAGE_BUF_MAX_LEN \<equiv> 2048"
abbreviation (input) IOT_SECURITY_STORAGE_FILENAME_MAX_LEN :: nat where
  "IOT_SECURITY_STORAGE_FILENAME_MAX_LEN \<equiv> 64"

definition storage_id2target :: "bool \<Rightarrow> iot_nvd \<Rightarrow> iot_security_storage_target" where
  "storage_id2target stnv i =
     (if i = IOT_NVD_UNKNOWN \<or> i = IOT_NVD_MAX then IOT_SECURITY_STORAGE_TARGET_UNKNOWN
      else if \<not> factory_id i then IOT_SECURITY_STORAGE_TARGET_NV
      else if stnv then IOT_SECURITY_STORAGE_TARGET_FACTORY
      else IOT_SECURITY_STORAGE_TARGET_DI)"

text \<open>The extra path is \<open>"."\<close> on POSIX, so two characters stand before the name.\<close>

definition storage_id2filename :: "iot_nvd \<Rightarrow> nat \<Rightarrow> iot_error + string" where
  "storage_id2filename i filename_len =
     (if filename_len = 0 then Inl IOT_ERROR_SECURITY_FS_INVALID_ARGS
      else case iot_bsp_nv_get_data_path i of
             None \<Rightarrow> Inl IOT_ERROR_SECURITY_STORAGE_INVALID_ID
           | Some f \<Rightarrow>
               if filename_len < length f + 2 then Inl IOT_ERROR_SECURITY_FS_BUFFER
               else Inr (take (filename_len - 1) (''./'' @ f)))"

definition fs_open_error :: "iot_error \<Rightarrow> iot_error" where
  "fs_open_error e = (if e = IOT_ERROR_FS_NO_FILE then IOT_ERROR_SECURITY_FS_NOT_FOUND
                      else IOT_ERROR_SECURITY_FS_OPEN)"

text \<open>
  \<open>_iot_security_be_bsp_fs_load_from_nv\<close>. When the buffer cannot be allocated the function returns
  without closing the file.
\<close>

definition be_bsp_fs_load_from_nv ::
  "'n posix \<Rightarrow> iot_nvd \<Rightarrow> 'n store \<Rightarrow> (iot_error + u8 list) \<times> 'n store" where
  "be_bsp_fs_load_from_nv P i s = (case storage_id2filename i IOT_SECURITY_STORAGE_FILENAME_MAX_LEN of
     Inl e \<Rightarrow> (Inl e, s)
   | Inr f \<Rightarrow>
       if factory_id i \<and> \<not> p_stnv P then (Inl IOT_ERROR_SECURITY_FS_OPEN, s)
       else (case (if factory_id i then iot_bsp_fs_open_from_stnv P f s
                   else iot_bsp_fs_open P f FS_READONLY s) of
         (e, s) \<Rightarrow>
           if e \<noteq> IOT_ERROR_NONE then (Inl (fs_open_error e), s)
           else (case malloc_c P s of
             (False, s) \<Rightarrow> (Inl IOT_ERROR_MEM_ALLOC, s)
           | (True, s) \<Rightarrow>
               (case iot_bsp_fs_read P f IOT_SECURITY_STORAGE_BUF_MAX_LEN s of
                  (Inl e, s) \<Rightarrow>
                    (Inl (if e = IOT_ERROR_FS_NO_FILE then IOT_ERROR_SECURITY_FS_NOT_FOUND
                          else IOT_ERROR_SECURITY_FS_READ), snd (iot_bsp_fs_close P s))
                | (Inr d, s) \<Rightarrow>
                    (case malloc_c P s of
                       (False, s) \<Rightarrow> (Inl IOT_ERROR_MEM_ALLOC, snd (iot_bsp_fs_close P s))
                     | (True, s) \<Rightarrow>
                         (case iot_bsp_fs_close P s of
                            (e, s) \<Rightarrow> if e \<noteq> IOT_ERROR_NONE then (Inl IOT_ERROR_SECURITY_FS_CLOSE, s)
                                      else (Inr d, s)))))))"

definition be_bsp_fs_load ::
  "'n posix \<Rightarrow> iot_nvd \<Rightarrow> 'n store \<Rightarrow> (iot_error + u8 list) \<times> 'n store" where
  "be_bsp_fs_load P i s = (case storage_id2target (p_stnv P) i of
     IOT_SECURITY_STORAGE_TARGET_NV \<Rightarrow> be_bsp_fs_load_from_nv P i s
   | IOT_SECURITY_STORAGE_TARGET_FACTORY \<Rightarrow> be_bsp_fs_load_from_nv P i s
   | IOT_SECURITY_STORAGE_TARGET_DI \<Rightarrow> (p_device_info P i, s)
   | IOT_SECURITY_STORAGE_TARGET_UNKNOWN \<Rightarrow> (Inl IOT_ERROR_SECURITY_FS_UNKNOWN_TARGET, s))"

definition be_bsp_fs_store_to_nv ::
  "'n posix \<Rightarrow> iot_nvd \<Rightarrow> u8 list \<Rightarrow> 'n store \<Rightarrow> iot_error \<times> 'n store" where
  "be_bsp_fs_store_to_nv P i d s = (case storage_id2filename i IOT_SECURITY_STORAGE_FILENAME_MAX_LEN of
     Inl e \<Rightarrow> (e, s)
   | Inr f \<Rightarrow>
       (case iot_bsp_fs_open P f FS_READWRITE s of
          (e, s) \<Rightarrow>
            if e \<noteq> IOT_ERROR_NONE then (IOT_ERROR_SECURITY_FS_OPEN, s)
            else (case iot_bsp_fs_write P f d s of
              (e, s) \<Rightarrow>
                if e \<noteq> IOT_ERROR_NONE then (IOT_ERROR_SECURITY_FS_WRITE, snd (iot_bsp_fs_close P s))
                else (case iot_bsp_fs_close P s of
                  (e, s) \<Rightarrow> (if e \<noteq> IOT_ERROR_NONE then IOT_ERROR_SECURITY_FS_CLOSE else IOT_ERROR_NONE, s)))))"

definition be_bsp_fs_store ::
  "'n posix \<Rightarrow> iot_nvd \<Rightarrow> u8 list \<Rightarrow> 'n store \<Rightarrow> iot_error \<times> 'n store" where
  "be_bsp_fs_store P i d s =
     (if d = [] then (IOT_ERROR_SECURITY_FS_INVALID_ARGS, s)
      else case storage_id2target (p_stnv P) i of
             IOT_SECURITY_STORAGE_TARGET_NV \<Rightarrow> be_bsp_fs_store_to_nv P i d s
           | IOT_SECURITY_STORAGE_TARGET_UNKNOWN \<Rightarrow> (IOT_ERROR_SECURITY_FS_UNKNOWN_TARGET, s)
           | _ \<Rightarrow> (IOT_ERROR_SECURITY_FS_INVALID_TARGET, s))"

definition be_bsp_fs_remove_from_nv :: "'n posix \<Rightarrow> iot_nvd \<Rightarrow> 'n store \<Rightarrow> iot_error \<times> 'n store" where
  "be_bsp_fs_remove_from_nv P i s = (case storage_id2filename i IOT_SECURITY_STORAGE_FILENAME_MAX_LEN of
     Inl e \<Rightarrow> (e, s)
   | Inr f \<Rightarrow>
       (case iot_bsp_fs_remove P f s of
          (e, s) \<Rightarrow> (if e = IOT_ERROR_NONE then IOT_ERROR_NONE
                     else if e = IOT_ERROR_FS_NO_FILE then IOT_ERROR_SECURITY_FS_NOT_FOUND
                     else IOT_ERROR_SECURITY_FS_REMOVE, s)))"

definition be_bsp_fs_remove :: "'n posix \<Rightarrow> iot_nvd \<Rightarrow> 'n store \<Rightarrow> iot_error \<times> 'n store" where
  "be_bsp_fs_remove P i s = (case storage_id2target (p_stnv P) i of
     IOT_SECURITY_STORAGE_TARGET_NV \<Rightarrow> be_bsp_fs_remove_from_nv P i s
   | IOT_SECURITY_STORAGE_TARGET_UNKNOWN \<Rightarrow> (IOT_ERROR_SECURITY_FS_UNKNOWN_TARGET, s)
   | _ \<Rightarrow> (IOT_ERROR_SECURITY_FS_INVALID_TARGET, s))"

section \<open>The storage interface\<close>

text \<open>
  A security context lives from \<open>iot_security_init\<close> to \<open>iot_security_deinit\<close> inside one operation on the
  data; what the operations read from it is only the identifier set a moment before, so a context is
  just whether its three allocations succeeded. The function table and the parameters of the software
  backend are then in place, and the tests for missing ones do not fire.
\<close>

definition iot_security_init :: "'n posix \<Rightarrow> 'n store \<Rightarrow> bool \<times> 'n store" where
  "iot_security_init P s = (case malloc_c P s of
     (False, s) \<Rightarrow> (False, s)
   | (True, s) \<Rightarrow> malloc_c P s)"

definition iot_security_storage_init :: "'n posix \<Rightarrow> 'n store \<Rightarrow> iot_error \<times> 'n store" where
  "iot_security_storage_init P s =
     (case malloc_c P s of (ok, s) \<Rightarrow> (if ok then IOT_ERROR_NONE else IOT_ERROR_MEM_ALLOC, s))"

definition set_storage_id :: "iot_nvd \<Rightarrow> iot_error" where
  "set_storage_id i =
     (if i = IOT_NVD_UNKNOWN \<or> i = IOT_NVD_MAX then IOT_ERROR_SECURITY_STORAGE_INVALID_ID else IOT_ERROR_NONE)"

definition iot_security_storage_read ::
  "'n posix \<Rightarrow> iot_nvd \<Rightarrow> 'n store \<Rightarrow> (iot_error + u8 list) \<times> 'n store" where
  "iot_security_storage_read P i s =
     (if set_storage_id i \<noteq> IOT_ERROR_NONE then (Inl (set_storage_id i), s) else be_bsp_fs_load P i s)"

definition iot_security_storage_write ::
  "'n posix \<Rightarrow> iot_nvd \<Rightarrow> u8 list \<Rightarrow> 'n store \<Rightarrow> iot_error \<times> 'n store" where
  "iot_security_storage_write P i d s =
     (if set_storage_id i \<noteq> IOT_ERROR_NONE then (set_storage_id i, s)
      else if d = [] then (IOT_ERROR_INVALID_ARGS, s)
      else be_bsp_fs_store P i d s)"

definition iot_security_storage_remove :: "'n posix \<Rightarrow> iot_nvd \<Rightarrow> 'n store \<Rightarrow> iot_error \<times> 'n store" where
  "iot_security_storage_remove P i s =
     (if set_storage_id i \<noteq> IOT_ERROR_NONE then (set_storage_id i, s) else be_bsp_fs_remove P i s)"

end
