(* ===== verification/Nv_Data.thy ===== *)
theory Nv_Data
  imports Storage
begin

text \<open>
  The provisioning data of \<^verbatim>\<open>src/iot_nv_data.c\<close>: reading and writing the Wi-Fi and cloud settings, the
  device identifier, the serial number and the miscellaneous information, over the storage functions of
  the theory \<^verbatim>\<open>Storage\<close>.

  The structures passed to these functions are fields of the context and never \<open>NULL\<close>, so the tests for
  it are not branches. A string field of fixed size is the list of its bytes; a pointer field is a
  \<open>cell\<close>, which remembers that its target was freed.
\<close>

section \<open>Data\<close>

text \<open>A pointer that owns what it points to.\<close>

datatype 'a cell = Null | Live 'a | Dangling

text \<open>Reading through a pointer and freeing it: undefined for a pointer whose target is gone.\<close>

definition deref :: "'a cell \<Rightarrow> 'a option" where
  "deref c = (case c of Live x \<Rightarrow> Some x | _ \<Rightarrow> None)"

record iot_wifi_prov_data =
  wp_ssid :: "u8 list"
  wp_password :: "u8 list"
  wp_mac_str :: "u8 list"
  wp_bssid :: "u8 list"
  wp_security_type :: int

record iot_cloud_prov_data =
  cp_broker_url :: "u8 list cell"
  cp_broker_port :: int
  cp_location :: "u8 list cell"
  cp_room :: "u8 list cell"
  cp_label :: "u8 list cell"

record iot_device_prov_data =
  pd_wifi :: iot_wifi_prov_data
  pd_cloud :: iot_cloud_prov_data

abbreviation (input) IOT_WIFI_PROV_SSID_STR_LEN :: nat where "IOT_WIFI_PROV_SSID_STR_LEN \<equiv> 32"
abbreviation (input) IOT_WIFI_PROV_PASSWORD_STR_LEN :: nat where "IOT_WIFI_PROV_PASSWORD_STR_LEN \<equiv> 64"
abbreviation (input) IOT_WIFI_PROV_MAC_STR_LEN :: nat where "IOT_WIFI_PROV_MAC_STR_LEN \<equiv> 17"
abbreviation (input) IOT_NVD_MAX_DATA_LEN :: nat where "IOT_NVD_MAX_DATA_LEN \<equiv> 2048"
abbreviation (input) IOT_NVD_MAX_BSSID_LEN :: nat where "IOT_NVD_MAX_BSSID_LEN \<equiv> 6"
abbreviation (input) IOT_NVD_MAX_UID_LEN :: nat where "IOT_NVD_MAX_UID_LEN \<equiv> 128"
abbreviation (input) IOT_NVD_MAX_SN_LEN :: nat where "IOT_NVD_MAX_SN_LEN \<equiv> 30"
abbreviation (input) IOT_WIFI_AUTH_OPEN :: int where "IOT_WIFI_AUTH_OPEN \<equiv> 0"
abbreviation (input) IOT_WIFI_AUTH_MAX :: int where "IOT_WIFI_AUTH_MAX \<equiv> 8"

definition zero_wifi :: iot_wifi_prov_data where
  "zero_wifi = \<lparr>wp_ssid = replicate 33 0, wp_password = replicate 65 0, wp_mac_str = replicate 18 0,
     wp_bssid = replicate 6 0, wp_security_type = 0\<rparr>"

section \<open>Strings in buffers\<close>

text \<open>The string in a buffer, undefined when no terminator stops \<open>strlen\<close> inside it.\<close>

definition c_string :: "u8 list \<Rightarrow> u8 list option" where
  "c_string b = (if 0 \<in> set b then Some (takeWhile (\<lambda>c. c \<noteq> 0) b) else None)"

text \<open>Storing bytes at the start of a buffer.\<close>

definition poke :: "u8 list \<Rightarrow> u8 list \<Rightarrow> u8 list option" where
  "poke d b = (if length d \<le> length b then Some (d @ drop (length d) b) else None)"

text \<open>Whether \<open>strncmp(data, "DONE", 4)\<close> is 0.\<close>

definition is_done :: "u8 list \<Rightarrow> bool" where
  "is_done data \<longleftrightarrow> take 4 data = cstr ''DONE''"

definition decimal_int :: "int \<Rightarrow> u8 list" where
  "decimal_int i = (if i < 0 then 45 # cstr (decimal (nat (- i))) else cstr (decimal (nat i)))"

definition fresh_buffer :: "'n posix \<Rightarrow> nat \<Rightarrow> u8 list" where
  "fresh_buffer P n = map (p_uninit P) [0..<n]"

section \<open>One item\<close>

datatype iot_nv_io_mode = IOT_NV_MODE_READ | IOT_NV_MODE_WRITE | IOT_NV_MODE_REMOVE

definition iot_nv_io_storage_init :: "'n posix \<Rightarrow> 'n store \<Rightarrow> bool \<times> 'n store" where
  "iot_nv_io_storage_init P s = (case iot_security_init P s of
     (False, s) \<Rightarrow> (False, s)
   | (True, s) \<Rightarrow> (case iot_security_storage_init P s of (e, s) \<Rightarrow> (e = IOT_ERROR_NONE, s)))"

definition storage_error :: "iot_error \<Rightarrow> iot_error" where
  "storage_error e = (if e = IOT_ERROR_SECURITY_FS_NOT_FOUND then IOT_ERROR_NV_DATA_NOT_EXIST
                      else IOT_ERROR_NV_DATA_ERROR)"

text \<open>
  \<open>_iot_nv_io_storage\<close>: the error, the buffer afterwards and the length read. \<open>data_len\<close> is the size the
  caller states, which may be less than the buffer has.
\<close>

definition iot_nv_io_storage ::
  "'n posix \<Rightarrow> iot_nvd \<Rightarrow> iot_nv_io_mode \<Rightarrow> u8 list \<Rightarrow> nat \<Rightarrow> 'n store
     \<Rightarrow> (iot_error \<times> u8 list \<times> nat \<times> 'n store) option" where
  "iot_nv_io_storage P i mode data data_len s =
     (if i = IOT_NVD_MAX then Some (IOT_ERROR_INVALID_ARGS, data, 0, s)
      else if mode \<noteq> IOT_NV_MODE_REMOVE \<and> data_len = 0 then Some (IOT_ERROR_INVALID_ARGS, data, 0, s)
      else (case iot_nv_io_storage_init P s of
        (False, s) \<Rightarrow> Some (IOT_ERROR_NV_DATA_ERROR, data, 0, s)
      | (True, s) \<Rightarrow>
          (case mode of
             IOT_NV_MODE_READ \<Rightarrow>
               (case iot_security_storage_read P i s of
                  (Inl e, s) \<Rightarrow> Some (storage_error e, data, 0, s)
                | (Inr d, s) \<Rightarrow>
                    if data_len < length d then Some (IOT_ERROR_SECURITY_FS_BUFFER, data, 0, s)
                    else do {
                      data \<leftarrow> poke (if length d < data_len then d @ [0] else d) data;
                      Some (IOT_ERROR_NONE, data, length d, s) })
           | IOT_NV_MODE_WRITE \<Rightarrow>
               if data_len > length data then None
               else (case iot_security_storage_write P i (take data_len data) s of
                 (e, s) \<Rightarrow> Some (if e = IOT_ERROR_NONE then IOT_ERROR_NONE else IOT_ERROR_NV_DATA_ERROR, data, 0, s))
           | IOT_NV_MODE_REMOVE \<Rightarrow>
               (case iot_security_storage_remove P i s of
                  (e, s) \<Rightarrow> Some (if e = IOT_ERROR_NONE then IOT_ERROR_NONE else storage_error e, data, 0, s)))))"

definition iot_nv_read_data ::
  "'n posix \<Rightarrow> iot_nvd \<Rightarrow> u8 list \<Rightarrow> nat \<Rightarrow> 'n store \<Rightarrow> (iot_error \<times> u8 list \<times> nat \<times> 'n store) option" where
  "iot_nv_read_data P i data data_len s = iot_nv_io_storage P i IOT_NV_MODE_READ data data_len s"

definition iot_nv_write_data ::
  "'n posix \<Rightarrow> iot_nvd \<Rightarrow> u8 list \<Rightarrow> nat \<Rightarrow> 'n store \<Rightarrow> (iot_error \<times> 'n store) option" where
  "iot_nv_write_data P i data data_len s = do {
     (e, _, _, s) \<leftarrow> iot_nv_io_storage P i IOT_NV_MODE_WRITE data data_len s;
     Some (e, s) }"

definition iot_nv_remove_data :: "'n posix \<Rightarrow> iot_nvd \<Rightarrow> 'n store \<Rightarrow> (iot_error \<times> 'n store) option" where
  "iot_nv_remove_data P i s = do {
     (e, _, _, s) \<leftarrow> iot_nv_io_storage P i IOT_NV_MODE_REMOVE [] 0 s;
     Some (e, s) }"

definition iot_nv_erase :: "'n posix \<Rightarrow> iot_nvd \<Rightarrow> 'n store \<Rightarrow> (iot_error \<times> 'n store) option" where
  "iot_nv_erase P i s =
     (if i = IOT_NVD_MAX then Some (IOT_ERROR_INVALID_ARGS, s)
      else do {
        (e, s) \<leftarrow> iot_nv_remove_data P i s;
        Some (if e = IOT_ERROR_NONE then IOT_ERROR_NONE
              else if e = IOT_ERROR_NV_DATA_NOT_EXIST then IOT_ERROR_NV_DATA_NOT_EXIST
              else IOT_ERROR_NV_DATA_ERROR, s) })"

section \<open>Items of a structure\<close>

text \<open>
  The functions that load a structure read one item after the other through one buffer and leave at the
  first error. A step works on the buffer and the structure; \<open>nv_then\<close> is the \<open>goto exit\<close> between two
  of them.
\<close>

type_synonym ('n, 'p) nv_result = "(iot_error \<times> u8 list \<times> 'p \<times> 'n store) option"

definition nv_then ::
  "('n, 'p) nv_result \<Rightarrow> (u8 list \<Rightarrow> 'p \<Rightarrow> 'n store \<Rightarrow> ('n, 'p) nv_result) \<Rightarrow> ('n, 'p) nv_result" where
  "nv_then r f = do {
     (e, data, w, s) \<leftarrow> r;
     if e \<noteq> IOT_ERROR_NONE then Some (e, data, w, s) else f data w s }"

text \<open>One item: what to do with its bytes, and what to do when it does not exist.\<close>

definition nv_item ::
  "'n posix \<Rightarrow> iot_nvd \<Rightarrow> (u8 list \<Rightarrow> nat \<Rightarrow> 'p \<Rightarrow> 'n store \<Rightarrow> (iot_error \<times> 'p \<times> 'n store) option)
     \<Rightarrow> ('p \<Rightarrow> 'p) \<Rightarrow> u8 list \<Rightarrow> 'p \<Rightarrow> 'n store \<Rightarrow> ('n, 'p) nv_result" where
  "nv_item P i found missing data w s = do {
     (e, data, len, s) \<leftarrow> iot_nv_read_data P i data (length data) s;
     if e = IOT_ERROR_NONE then do { (e, w, s) \<leftarrow> found data len w s; Some (e, data, w, s) }
     else if e = IOT_ERROR_NV_DATA_NOT_EXIST then Some (IOT_ERROR_NONE, data, missing w, s)
     else Some (IOT_ERROR_NV_DATA_ERROR, data, w, s) }"

definition nv_status ::
  "'n posix \<Rightarrow> iot_nvd \<Rightarrow> u8 list \<Rightarrow> 'p \<Rightarrow> 'n store \<Rightarrow> ('n, 'p) nv_result" where
  "nv_status P i data w s = do {
     (e, data, _, s) \<leftarrow> iot_nv_read_data P i data (length data) s;
     Some (if e = IOT_ERROR_NONE \<and> is_done data then IOT_ERROR_NONE else IOT_ERROR_NV_DATA_ERROR, data, w, s) }"

section \<open>Wi-Fi settings\<close>

text \<open>The string of an item, cut to the size of its field.\<close>

definition load_field :: "nat \<Rightarrow> u8 list \<Rightarrow> u8 list \<Rightarrow> u8 list option" where
  "load_field n data field = do {
     t \<leftarrow> c_string data;
     if length t < n then poke (t @ [0]) field
     else poke (take n data @ [0]) field }"

definition load_ssid ::
  "u8 list \<Rightarrow> nat \<Rightarrow> iot_wifi_prov_data \<Rightarrow> 'n store \<Rightarrow> (iot_error \<times> iot_wifi_prov_data \<times> 'n store) option" where
  "load_ssid data len w s = do {
     f \<leftarrow> load_field IOT_WIFI_PROV_SSID_STR_LEN data (wp_ssid w);
     Some (IOT_ERROR_NONE, w\<lparr>wp_ssid := f\<rparr>, s) }"

definition load_password ::
  "u8 list \<Rightarrow> nat \<Rightarrow> iot_wifi_prov_data \<Rightarrow> 'n store \<Rightarrow> (iot_error \<times> iot_wifi_prov_data \<times> 'n store) option" where
  "load_password data len w s = do {
     f \<leftarrow> load_field IOT_WIFI_PROV_PASSWORD_STR_LEN data (wp_password w);
     Some (IOT_ERROR_NONE, w\<lparr>wp_password := f\<rparr>, s) }"

definition clear_bssid :: "iot_wifi_prov_data \<Rightarrow> iot_wifi_prov_data" where
  "clear_bssid w = w\<lparr>wp_mac_str := replicate (length (wp_mac_str w)) 0, wp_bssid := replicate (length (wp_bssid w)) 0\<rparr>"

definition load_bssid ::
  "u8 list \<Rightarrow> nat \<Rightarrow> iot_wifi_prov_data \<Rightarrow> 'n store \<Rightarrow> (iot_error \<times> iot_wifi_prov_data \<times> 'n store) option" where
  "load_bssid data len w s =
     (if len \<ge> IOT_WIFI_PROV_MAC_STR_LEN
      then do {
        m \<leftarrow> poke (take IOT_WIFI_PROV_MAC_STR_LEN data @ [0]) (wp_mac_str w);
        t \<leftarrow> c_string m;
        (e, b) \<leftarrow> iot_util_convert_str_mac (Some t) (Some (wp_bssid w));
        b \<leftarrow> b;
        let w = w\<lparr>wp_mac_str := m, wp_bssid := b\<rparr>;
        Some (IOT_ERROR_NONE, if e \<noteq> IOT_ERROR_NONE then clear_bssid w else w, s) }
      else if len \<ge> IOT_NVD_MAX_BSSID_LEN
      then do {
        b \<leftarrow> poke (take IOT_NVD_MAX_BSSID_LEN data) (wp_bssid w);
        (e, m) \<leftarrow> iot_util_convert_mac_str (Some b) (Some (wp_mac_str w)) (int (length (wp_mac_str w)));
        m \<leftarrow> m;
        let w = w\<lparr>wp_mac_str := m, wp_bssid := b\<rparr>;
        Some (IOT_ERROR_NONE, if e \<noteq> IOT_ERROR_NONE then clear_bssid w else w, s) }
      else Some (IOT_ERROR_NONE, clear_bssid w, s))"

definition load_auth_type ::
  "u8 list \<Rightarrow> nat \<Rightarrow> iot_wifi_prov_data \<Rightarrow> 'n store \<Rightarrow> (iot_error \<times> iot_wifi_prov_data \<times> 'n store) option" where
  "load_auth_type data len w s = do {
     t \<leftarrow> c_string data;
     Some (IOT_ERROR_NONE, w\<lparr>wp_security_type := atoi_c t\<rparr>, s) }"

text \<open>Emptying a string field: its first byte.\<close>

definition truncate_field :: "u8 list \<Rightarrow> u8 list" where
  "truncate_field f = f[0 := 0]"

definition iot_nv_get_wifi_prov_data ::
  "'n posix \<Rightarrow> iot_wifi_prov_data \<Rightarrow> 'n store \<Rightarrow> (iot_error \<times> iot_wifi_prov_data \<times> 'n store) option" where
  "iot_nv_get_wifi_prov_data P w s = (case malloc_c P s of
     (False, s) \<Rightarrow> Some (IOT_ERROR_NV_DATA_ERROR, w, s)
   | (True, s) \<Rightarrow> do {
       (e, _, w, s) \<leftarrow>
         nv_then (nv_then (nv_then (nv_then
           (nv_status P IOT_NVD_WIFI_PROV_STATUS (fresh_buffer P (IOT_WIFI_PROV_PASSWORD_STR_LEN + 1)) w s)
           (nv_item P IOT_NVD_AP_SSID load_ssid (\<lambda>w. w\<lparr>wp_ssid := truncate_field (wp_ssid w)\<rparr>)))
           (nv_item P IOT_NVD_AP_PASS load_password (\<lambda>w. w\<lparr>wp_password := truncate_field (wp_password w)\<rparr>)))
           (nv_item P IOT_NVD_AP_BSSID load_bssid clear_bssid))
           (nv_item P IOT_NVD_AP_AUTH_TYPE load_auth_type (\<lambda>w. w\<lparr>wp_security_type := - 1\<rparr>));
       Some (e, if e \<noteq> IOT_ERROR_NONE then zero_wifi else w, s) })"

text \<open>
  Storing. Each item is copied into the local buffer and written from there; \<open>nv_put\<close> is such a write, with
  the code every failure of it returns.
\<close>

definition nv_put :: "'n posix \<Rightarrow> iot_nvd \<Rightarrow> u8 list \<Rightarrow> nat \<Rightarrow> 'n store \<Rightarrow> (iot_error \<times> 'n store) option" where
  "nv_put P i data n s = do {
     (e, s) \<leftarrow> iot_nv_write_data P i data n s;
     Some (if e \<noteq> IOT_ERROR_NONE then IOT_ERROR_NV_DATA_ERROR else IOT_ERROR_NONE, s) }"

text \<open>Erasing an item whose field is empty; the result is ignored.\<close>

definition nv_drop :: "'n posix \<Rightarrow> iot_nvd \<Rightarrow> 'n store \<Rightarrow> (iot_error \<times> 'n store) option" where
  "nv_drop P i s = do { (_, s) \<leftarrow> iot_nv_erase P i s; Some (IOT_ERROR_NONE, s) }"

definition nv_next ::
  "(iot_error \<times> 'n store) option \<Rightarrow> ('n store \<Rightarrow> (iot_error \<times> 'n store) option) \<Rightarrow> (iot_error \<times> 'n store) option" where
  "nv_next r f = do { (e, s) \<leftarrow> r; if e \<noteq> IOT_ERROR_NONE then Some (e, s) else f s }"

text \<open>A field of fixed size: erased when its first byte is 0, else written in full.\<close>

definition store_field :: "'n posix \<Rightarrow> iot_nvd \<Rightarrow> nat \<Rightarrow> u8 list \<Rightarrow> 'n store \<Rightarrow> (iot_error \<times> 'n store) option" where
  "store_field P i n field s = do {
     c \<leftarrow> read_byte field 0;
     if c = 0 then nv_drop P i s
     else if length field < n then None
     else nv_put P i (take n field) n s }"

definition store_auth_type :: "'n posix \<Rightarrow> int \<Rightarrow> 'n store \<Rightarrow> (iot_error \<times> 'n store) option" where
  "store_auth_type P t s =
     (if t < IOT_WIFI_AUTH_OPEN \<or> t > IOT_WIFI_AUTH_MAX then nv_drop P IOT_NVD_AP_AUTH_TYPE s
      else nv_put P IOT_NVD_AP_AUTH_TYPE (decimal_int t) (length (decimal_int t)) s)"

definition iot_nv_set_wifi_prov_data ::
  "'n posix \<Rightarrow> iot_wifi_prov_data \<Rightarrow> 'n store \<Rightarrow> (iot_error \<times> 'n store) option" where
  "iot_nv_set_wifi_prov_data P w s = (case malloc_c P s of
     (False, s) \<Rightarrow> Some (IOT_ERROR_NV_DATA_ERROR, s)
   | (True, s) \<Rightarrow>
       nv_next (nv_next (nv_next (nv_next (nv_next
         (nv_put P IOT_NVD_WIFI_PROV_STATUS (cstr ''NONE'') 4 s)
         (store_field P IOT_NVD_AP_SSID IOT_WIFI_PROV_SSID_STR_LEN (wp_ssid w)))
         (store_field P IOT_NVD_AP_PASS IOT_WIFI_PROV_PASSWORD_STR_LEN (wp_password w)))
         (store_field P IOT_NVD_AP_BSSID IOT_WIFI_PROV_MAC_STR_LEN (wp_mac_str w)))
         (store_auth_type P (wp_security_type w)))
         (nv_put P IOT_NVD_WIFI_PROV_STATUS (cstr ''DONE'') 4))"

section \<open>Cloud settings\<close>

text \<open>Copying the string of the buffer into fresh memory, for a pointer field.\<close>

definition load_pointer ::
  "'n posix \<Rightarrow> (u8 list \<Rightarrow> 'p \<Rightarrow> 'p) \<Rightarrow> u8 list \<Rightarrow> nat \<Rightarrow> 'p \<Rightarrow> 'n store \<Rightarrow> (iot_error \<times> 'p \<times> 'n store) option" where
  "load_pointer P upd data len c s = do {
     t \<leftarrow> c_string data;
     Some (case malloc_c P s of
             (False, s) \<Rightarrow> (IOT_ERROR_NV_DATA_ERROR, c, s)
           | (True, s) \<Rightarrow> (IOT_ERROR_NONE, upd t c, s)) }"

definition load_port ::
  "u8 list \<Rightarrow> nat \<Rightarrow> iot_cloud_prov_data \<Rightarrow> 'n store \<Rightarrow> (iot_error \<times> iot_cloud_prov_data \<times> 'n store) option" where
  "load_port data len c s = do {
     t \<leftarrow> c_string data;
     Some (IOT_ERROR_NONE, c\<lparr>cp_broker_port := atoi_c t\<rparr>, s) }"

definition load_url ::
  "'n posix \<Rightarrow> u8 list \<Rightarrow> nat \<Rightarrow> iot_cloud_prov_data \<Rightarrow> 'n store \<Rightarrow> (iot_error \<times> iot_cloud_prov_data \<times> 'n store) option" where
  "load_url P = load_pointer P (\<lambda>t c. c\<lparr>cp_broker_url := Live t\<rparr>)"

definition load_label ::
  "'n posix \<Rightarrow> u8 list \<Rightarrow> nat \<Rightarrow> iot_cloud_prov_data \<Rightarrow> 'n store \<Rightarrow> (iot_error \<times> iot_cloud_prov_data \<times> 'n store) option" where
  "load_label P = load_pointer P (\<lambda>t c. c\<lparr>cp_label := Live t\<rparr>)"

text \<open>The buffer is cleared before the label is read into it.\<close>

definition iot_nv_get_cloud_prov_data ::
  "'n posix \<Rightarrow> iot_cloud_prov_data \<Rightarrow> 'n store \<Rightarrow> (iot_error \<times> iot_cloud_prov_data \<times> 'n store) option" where
  "iot_nv_get_cloud_prov_data P c s = (case malloc_c P s of
     (False, s) \<Rightarrow> Some (IOT_ERROR_NV_DATA_ERROR, c, s)
   | (True, s) \<Rightarrow> do {
       (e, _, c, s) \<leftarrow>
         nv_then (nv_then (nv_then
           (nv_status P IOT_NVD_CLOUD_PROV_STATUS (fresh_buffer P (IOT_NVD_MAX_DATA_LEN div 2 + 1)) c s)
           (nv_item P IOT_NVD_SERVER_URL (load_url P) (\<lambda>c. c\<lparr>cp_broker_url := Null\<rparr>)))
           (nv_item P IOT_NVD_SERVER_PORT load_port (\<lambda>c. c\<lparr>cp_broker_port := - 1\<rparr>)))
           (\<lambda>data. nv_item P IOT_NVD_LABEL (load_label P) (\<lambda>c. c\<lparr>cp_label := Null\<rparr>) (replicate (length data) 0));
       Some (e, c, s) })"

text \<open>A pointer field: erased when it is \<open>NULL\<close>, else its string is written.\<close>

definition store_pointer :: "'n posix \<Rightarrow> iot_nvd \<Rightarrow> u8 list cell \<Rightarrow> 'n store \<Rightarrow> (iot_error \<times> 'n store) option" where
  "store_pointer P i p s = (case p of
     Null \<Rightarrow> nv_drop P i s
   | _ \<Rightarrow> do { t \<leftarrow> deref p; nv_put P i t (length t) s })"

definition store_port :: "'n posix \<Rightarrow> int \<Rightarrow> 'n store \<Rightarrow> (iot_error \<times> 'n store) option" where
  "store_port P port s = nv_put P IOT_NVD_SERVER_PORT (decimal_int port) (length (decimal_int port)) s"

definition iot_nv_set_cloud_prov_data ::
  "'n posix \<Rightarrow> iot_cloud_prov_data \<Rightarrow> 'n store \<Rightarrow> (iot_error \<times> 'n store) option" where
  "iot_nv_set_cloud_prov_data P c s = (case malloc_c P s of
     (False, s) \<Rightarrow> Some (IOT_ERROR_NV_DATA_ERROR, s)
   | (True, s) \<Rightarrow>
       nv_next (nv_next (nv_next (nv_next
         (nv_put P IOT_NVD_CLOUD_PROV_STATUS (cstr ''NONE'') 4 s)
         (store_pointer P IOT_NVD_SERVER_URL (cp_broker_url c)))
         (store_port P (cp_broker_port c)))
         (store_pointer P IOT_NVD_LABEL (cp_label c)))
         (nv_put P IOT_NVD_CLOUD_PROV_STATUS (cstr ''DONE'') 4))"

section \<open>All settings\<close>

definition iot_nv_get_prov_data ::
  "'n posix \<Rightarrow> iot_device_prov_data \<Rightarrow> 'n store \<Rightarrow> (iot_error \<times> iot_device_prov_data \<times> 'n store) option" where
  "iot_nv_get_prov_data P p s = do {
     (e, w, s) \<leftarrow> iot_nv_get_wifi_prov_data P (pd_wifi p) s;
     let p = p\<lparr>pd_wifi := w\<rparr>;
     if e \<noteq> IOT_ERROR_NONE then Some (IOT_ERROR_NV_DATA_ERROR, p, s)
     else do {
       (e, c, s) \<leftarrow> iot_nv_get_cloud_prov_data P (pd_cloud p) s;
       Some (if e \<noteq> IOT_ERROR_NONE then IOT_ERROR_NV_DATA_ERROR else IOT_ERROR_NONE, p\<lparr>pd_cloud := c\<rparr>, s) } }"

definition iot_nv_set_prov_data ::
  "'n posix \<Rightarrow> iot_device_prov_data \<Rightarrow> 'n store \<Rightarrow> (iot_error \<times> 'n store) option" where
  "iot_nv_set_prov_data P p s = do {
     (e, s) \<leftarrow> iot_nv_set_wifi_prov_data P (pd_wifi p) s;
     if e \<noteq> IOT_ERROR_NONE then Some (IOT_ERROR_NV_DATA_ERROR, s)
     else do {
       (e, s) \<leftarrow> iot_nv_set_cloud_prov_data P (pd_cloud p) s;
       Some (if e \<noteq> IOT_ERROR_NONE then IOT_ERROR_NV_DATA_ERROR else IOT_ERROR_NONE, s) } }"

definition iot_nv_erase_prov_data :: "'n posix \<Rightarrow> 'n store \<Rightarrow> (iot_error \<times> 'n store) option" where
  "iot_nv_erase_prov_data P s =
     nv_next (nv_put P IOT_NVD_WIFI_PROV_STATUS (cstr ''NONE'') 4 s)
             (nv_put P IOT_NVD_CLOUD_PROV_STATUS (cstr ''NONE'') 4)"

definition prov_status_done :: "'n posix \<Rightarrow> iot_nvd \<Rightarrow> 'n store \<Rightarrow> (bool \<times> 'n store) option" where
  "prov_status_done P i s = do {
     (e, data, _, s) \<leftarrow> iot_nv_read_data P i (replicate 5 0) 4 s;
     Some (e = IOT_ERROR_NONE \<and> is_done data, s) }"

definition iot_nv_prov_data_exist :: "'n posix \<Rightarrow> 'n store \<Rightarrow> (bool \<times> 'n store) option" where
  "iot_nv_prov_data_exist P s = do {
     (b, s) \<leftarrow> prov_status_done P IOT_NVD_WIFI_PROV_STATUS s;
     if \<not> b then Some (False, s) else prov_status_done P IOT_NVD_CLOUD_PROV_STATUS s }"

section \<open>Single strings\<close>

text \<open>Reading an item of at most \<open>n\<close> bytes into fresh memory.\<close>

definition nv_get_string :: "'n posix \<Rightarrow> iot_nvd \<Rightarrow> nat \<Rightarrow> 'n store \<Rightarrow> ((iot_error + u8 list) \<times> 'n store) option" where
  "nv_get_string P i n s = (case malloc_c P s of
     (False, s) \<Rightarrow> Some (Inl IOT_ERROR_NV_DATA_ERROR, s)
   | (True, s) \<Rightarrow> do {
       (e, data, _, s) \<leftarrow> iot_nv_read_data P i (fresh_buffer P (n + 1)) (n + 1) s;
       if e \<noteq> IOT_ERROR_NONE then Some (Inl IOT_ERROR_NV_DATA_ERROR, s)
       else do {
         t \<leftarrow> c_string data;
         Some (case malloc_c P s of
                 (False, s) \<Rightarrow> (Inl IOT_ERROR_NV_DATA_ERROR, s)
               | (True, s) \<Rightarrow> (Inr t, s)) } })"

definition iot_nv_get_device_id :: "'n posix \<Rightarrow> 'n store \<Rightarrow> ((iot_error + u8 list) \<times> 'n store) option" where
  "iot_nv_get_device_id P s = nv_get_string P IOT_NVD_DEVICE_ID IOT_NVD_MAX_UID_LEN s"

definition iot_nv_get_serial_number :: "'n posix \<Rightarrow> 'n store \<Rightarrow> ((iot_error + u8 list) \<times> 'n store) option" where
  "iot_nv_get_serial_number P s = nv_get_string P IOT_NVD_SERIAL_NUM IOT_NVD_MAX_SN_LEN s"

definition iot_nv_get_misc_info :: "'n posix \<Rightarrow> 'n store \<Rightarrow> ((iot_error + u8 list) \<times> 'n store) option" where
  "iot_nv_get_misc_info P s = nv_get_string P IOT_NVD_MISC_INFO IOT_NVD_MAX_DATA_LEN s"

definition iot_nv_set_device_id :: "'n posix \<Rightarrow> u8 list \<Rightarrow> 'n store \<Rightarrow> (iot_error \<times> 'n store) option" where
  "iot_nv_set_device_id P t s = nv_put P IOT_NVD_DEVICE_ID t (length t) s"

definition iot_nv_set_misc_info :: "'n posix \<Rightarrow> u8 list \<Rightarrow> 'n store \<Rightarrow> (iot_error \<times> 'n store) option" where
  "iot_nv_set_misc_info P t s = nv_put P IOT_NVD_MISC_INFO t (length t) s"

end
