(* ===== verification/Program.thy ===== *)
theory Program
  imports Main
begin

text \<open>
  Programs over a world: a call returns with a value, or reboots the machine and does not return, or does
  something the C language leaves undefined (a null or freed pointer, memory that was never set). The device
  core is written in these programs, and its invariants are proved with the weakest preconditions below: that
  a program meets any postcondition at all says that it is defined.
\<close>

datatype ('w, 'a) run = Returns 'a 'w | Reboots 'w | Undefined

type_synonym ('w, 'a) prog = "'w \<Rightarrow> ('w, 'a) run"

definition ret :: "'a \<Rightarrow> ('w, 'a) prog" where "ret a w = Returns a w"

definition undef :: "('w, 'a) prog" where "undef w = Undefined"

definition seq :: "('w, 'a) prog \<Rightarrow> ('a \<Rightarrow> ('w, 'b) prog) \<Rightarrow> ('w, 'b) prog" where
  "seq m f w = (case m w of Returns a w \<Rightarrow> f a w | Reboots w \<Rightarrow> Reboots w | Undefined \<Rightarrow> Undefined)"

definition and_then :: "('w, 'a) prog \<Rightarrow> ('w, 'b) prog \<Rightarrow> ('w, 'b) prog" where
  "and_then m k = seq m (\<lambda>_. k)"

definition gets :: "('w \<Rightarrow> 'a) \<Rightarrow> ('w, 'a) prog" where "gets f w = Returns (f w) w"

definition modify :: "('w \<Rightarrow> 'w) \<Rightarrow> ('w, unit) prog" where "modify g w = Returns () (g w)"

definition skip :: "('w, unit) prog" where "skip = ret ()"

definition on :: "bool \<Rightarrow> ('w, unit) prog \<Rightarrow> ('w, unit) prog" where
  "on b m = (if b then m else skip)"

text \<open>A chain of statements.\<close>

fun block :: "('w, unit) prog list \<Rightarrow> ('w, unit) prog" where
  "block [] = skip"
| "block (m # ms) = and_then m (block ms)"

section \<open>Weakest preconditions\<close>

definition wp :: "('w, 'a) prog \<Rightarrow> ('a \<Rightarrow> 'w \<Rightarrow> bool) \<Rightarrow> 'w \<Rightarrow> bool" where
  "wp m Q w = (case m w of Returns a w' \<Rightarrow> Q a w' | Reboots w' \<Rightarrow> True | Undefined \<Rightarrow> False)"

named_theorems wp_rules \<open>weakest preconditions of the statements\<close>

lemma wp_ret [wp_rules, simp]: "wp (ret a) Q w = Q a w"
  by (simp add: wp_def ret_def)

lemma wp_undef [wp_rules, simp]: "wp undef Q w = False"
  by (simp add: wp_def undef_def)

lemma wp_seq [wp_rules, simp]: "wp (seq m f) Q w = wp m (\<lambda>a. wp (f a) Q) w"
  by (simp add: wp_def seq_def split: run.splits)

lemma wp_and_then [wp_rules, simp]: "wp (and_then m k) Q w = wp m (\<lambda>_. wp k Q) w"
  by (simp add: and_then_def)

lemma wp_gets [wp_rules, simp]: "wp (gets f) Q w = Q (f w) w"
  by (simp add: wp_def gets_def)

lemma wp_modify [wp_rules, simp]: "wp (modify g) Q w = Q () (g w)"
  by (simp add: wp_def modify_def)

lemma wp_skip [wp_rules, simp]: "wp skip Q w = Q () w"
  by (simp add: skip_def)

lemma wp_on [wp_rules]: "wp (on b m) Q w = (if b then wp m Q w else Q () w)"
  by (simp add: on_def)

lemma wp_mono: "wp m Q w \<Longrightarrow> (\<And>a w'. Q a w' \<Longrightarrow> R a w') \<Longrightarrow> wp m R w"
  by (auto simp: wp_def split: run.splits)

lemma wp_defined: "wp m Q w \<Longrightarrow> m w \<noteq> Undefined"
  by (auto simp: wp_def)

lemma wp_Returns: "m w = Returns a w' \<Longrightarrow> wp m Q w \<Longrightarrow> Q a w'"
  by (simp add: wp_def)

section \<open>Invariants\<close>

text \<open>A program that is defined wherever \<open>I\<close> holds and keeps it.\<close>

definition keeps :: "('w \<Rightarrow> bool) \<Rightarrow> ('w, 'a) prog \<Rightarrow> bool" where
  "keeps I m \<longleftrightarrow> (\<forall>w. I w \<longrightarrow> wp m (\<lambda>_. I) w)"

named_theorems keeps_rules \<open>programs that keep the invariant\<close>

lemma keepsI: "(\<And>w. I w \<Longrightarrow> wp m (\<lambda>_. I) w) \<Longrightarrow> keeps I m"
  by (simp add: keeps_def)

lemma keepsD: "keeps I m \<Longrightarrow> I w \<Longrightarrow> wp m (\<lambda>_. I) w"
  by (simp add: keeps_def)

lemma keeps_ret [keeps_rules]: "keeps I (ret a)"
  by (simp add: keeps_def)

lemma keeps_skip [keeps_rules]: "keeps I skip"
  by (simp add: keeps_def)

lemma keeps_gets [keeps_rules]: "keeps I (gets f)"
  by (simp add: keeps_def)

lemma keeps_seq [keeps_rules]: "keeps I m \<Longrightarrow> (\<And>a. keeps I (f a)) \<Longrightarrow> keeps I (seq m f)"
  unfolding keeps_def wp_seq by (blast intro: wp_mono)

lemma keeps_and_then [keeps_rules]: "keeps I m \<Longrightarrow> keeps I k \<Longrightarrow> keeps I (and_then m k)"
  by (simp add: and_then_def keeps_seq)

lemma keeps_if [keeps_rules]: "(b \<Longrightarrow> keeps I m) \<Longrightarrow> (\<not> b \<Longrightarrow> keeps I k) \<Longrightarrow> keeps I (if b then m else k)"
  by simp

lemma keeps_on [keeps_rules]: "(b \<Longrightarrow> keeps I m) \<Longrightarrow> keeps I (on b m)"
  by (simp add: on_def keeps_skip)

lemma keeps_modify: "(\<And>w. I w \<Longrightarrow> I (g w)) \<Longrightarrow> keeps I (modify g)"
  by (simp add: keeps_def)

lemma keeps_block [keeps_rules]:
  "keeps I (block [])" "keeps I m \<Longrightarrow> keeps I (block ms) \<Longrightarrow> keeps I (block (m # ms))"
  by (simp_all add: keeps_skip keeps_and_then)

lemma keeps_Let [keeps_rules]: "(\<And>x. x = a \<Longrightarrow> keeps I (f x)) \<Longrightarrow> keeps I (Let a f)"
  by (simp add: Let_def)

lemma keeps_option [keeps_rules]:
  "(x = None \<Longrightarrow> keeps I m) \<Longrightarrow> (\<And>y. x = Some y \<Longrightarrow> keeps I (f y)) \<Longrightarrow> keeps I (case x of None \<Rightarrow> m | Some y \<Rightarrow> f y)"
  by (cases x) simp_all

lemma keeps_prod [keeps_rules]: "(\<And>a b. x = (a, b) \<Longrightarrow> keeps I (f a b)) \<Longrightarrow> keeps I (case x of (a, b) \<Rightarrow> f a b)"
  by (cases x) simp

lemma keeps_sum [keeps_rules]:
  "(\<And>a. x = Inl a \<Longrightarrow> keeps I (f a)) \<Longrightarrow> (\<And>b. x = Inr b \<Longrightarrow> keeps I (g b))
     \<Longrightarrow> keeps I (case x of Inl a \<Rightarrow> f a | Inr b \<Rightarrow> g b)"
  by (cases x) simp_all

text \<open>Reading a value of which the invariant says something.\<close>

lemma keeps_gets_seq: "(\<And>w. I w \<Longrightarrow> wp (f (g w)) (\<lambda>_. I) w) \<Longrightarrow> keeps I (seq (gets g) f)"
  by (simp add: keeps_def)

section \<open>Frames\<close>

text \<open>A program that leaves a part \<open>f\<close> of the world as it is when it returns.\<close>

definition still :: "('w \<Rightarrow> 'x) \<Rightarrow> ('w, 'a) prog \<Rightarrow> bool" where
  "still f m \<longleftrightarrow> (\<forall>w a w'. m w = Returns a w' \<longrightarrow> f w' = f w)"

named_theorems still_rules \<open>programs that leave a part of the world\<close>

lemma stillD: "still f m \<Longrightarrow> m w = Returns a w' \<Longrightarrow> f w' = f w"
  by (simp add: still_def)

lemma still_basic [still_rules]: "still f (ret a)" "still f undef" "still f (gets g)" "still f skip"
  by (simp_all add: still_def ret_def undef_def gets_def skip_def)

lemma still_seq [still_rules]: "still f m \<Longrightarrow> (\<And>a. still f (k a)) \<Longrightarrow> still f (seq m k)"
  unfolding still_def seq_def by (fastforce split: run.splits)

lemma still_and_then [still_rules]: "still f m \<Longrightarrow> still f k \<Longrightarrow> still f (and_then m k)"
  by (simp add: and_then_def still_seq)

lemma still_if [still_rules]: "(b \<Longrightarrow> still f m) \<Longrightarrow> (\<not> b \<Longrightarrow> still f k) \<Longrightarrow> still f (if b then m else k)"
  by simp

lemma still_on [still_rules]: "still f m \<Longrightarrow> still f (on b m)"
  by (simp add: on_def still_basic)

lemma still_block [still_rules]: "still f (block [])" "still f m \<Longrightarrow> still f (block ms) \<Longrightarrow> still f (block (m # ms))"
  by (simp_all add: still_basic still_and_then)

lemma still_option [still_rules]: "still f m \<Longrightarrow> (\<And>y. still f (k y)) \<Longrightarrow> still f (case x of None \<Rightarrow> m | Some y \<Rightarrow> k y)"
  by (cases x) simp_all

lemma still_prod [still_rules]: "(\<And>a b. still f (k a b)) \<Longrightarrow> still f (case x of (a, b) \<Rightarrow> k a b)"
  by (cases x) simp

lemma still_sum [still_rules]:
  "(\<And>a. still f (k a)) \<Longrightarrow> (\<And>b. still f (l b)) \<Longrightarrow> still f (case x of Inl a \<Rightarrow> k a | Inr b \<Rightarrow> l b)"
  by (cases x) simp_all

lemma still_modify: "(\<And>w. f (g w) = f w) \<Longrightarrow> still f (modify g)"
  by (simp add: still_def modify_def)

text \<open>A run of a sequence that returns passes through a return of its first part.\<close>

lemma seq_Returns: "seq m f w = Returns b w'' \<longleftrightarrow> (\<exists>a w'. m w = Returns a w' \<and> f a w' = Returns b w'')"
  by (auto simp: seq_def split: run.splits)

lemma and_then_Returns: "and_then m k w = Returns b w'' \<longleftrightarrow> (\<exists>a w'. m w = Returns a w' \<and> k w' = Returns b w'')"
  by (simp add: and_then_def seq_Returns)

end
