(* ===== verification/Device_State.thy ===== *)
theory Device_State
  imports Nv_Data Mqtt_State Program
begin

text \<open>
  The state of the device core: \<open>struct iot_context\<close> of \<^verbatim>\<open>src/include/iot_main.h\<close> with the data it refers
  to, the commands of the work queue, and the platform.

  The world of the core is its context, the non-volatile storage (which carries the state of the platform),
  the work items in the order they were queued (the contract of the work queue, \<^verbatim>\<open>Util_Queue\<close>), and the calls
  of the application's callbacks. Pointers the core only tests and frees are booleans; strings it frees are
  cells, so that a string freed twice shows. The build is the one with onboarding over SoftAP and HTTP, without
  BLE and without CBOR.
\<close>

section \<open>Data\<close>

datatype iot_state =
  IOT_STATE_INITIALIZED | IOT_STATE_PROV_SLEEP | IOT_STATE_PROV_ENTER | IOT_STATE_PROV_CONFIRM | IOT_STATE_PROV_DONE
| IOT_STATE_CLOUD_DISCONNECTED | IOT_STATE_CLOUD_CONNECTED

datatype iot_state_opt = IOT_STATE_OPT_NONE | IOT_STATE_OPT_NEED_INTERACT | IOT_STATE_OPT_CLEANUP

datatype iot_command_type =
  IOT_COMMAND_STATE_UPDATE | IOT_COMMAND_CLOUD_REGISTERING | IOT_COMMAND_CLOUD_REGISTERED
| IOT_COMMAND_CLOUD_CONNECTING | IOT_COMMAND_NOTIFICATION_RECEIVED

datatype iot_connect_type = IOT_CONNECT_TYPE_REGISTRATION | IOT_CONNECT_TYPE_COMMUNICATION

datatype gg_connection_request_status =
  GG_CONNECTION_REQUEST_STATUS_NOT_INITIALIZED | GG_CONNECTION_REQUEST_STATUS_WAITING
| GG_CONNECTION_REQUEST_STATUS_SUCCESS | GG_CONNECTION_REQUEST_STATUS_FAIL

datatype iot_wifi_mode = IOT_WIFI_MODE_OFF | IOT_WIFI_MODE_SCAN | IOT_WIFI_MODE_STATION | IOT_WIFI_MODE_SOFTAP

datatype iot_st_ecode_type =
  IOT_ST_ECODE_NONE | IOT_ST_ECODE_EE01 | IOT_ST_ECODE_NE01 | IOT_ST_ECODE_NE02 | IOT_ST_ECODE_NE03 | IOT_ST_ECODE_NE04
| IOT_ST_ECODE_NE11 | IOT_ST_ECODE_NE11_1 | IOT_ST_ECODE_NE11_3 | IOT_ST_ECODE_NE11_4 | IOT_ST_ECODE_NE12 | IOT_ST_ECODE_NE13
| IOT_ST_ECODE_NE14 | IOT_ST_ECODE_NE15 | IOT_ST_ECODE_NE16 | IOT_ST_ECODE_NE17 | IOT_ST_ECODE_CE01 | IOT_ST_ECODE_CE11
| IOT_ST_ECODE_CE12 | IOT_ST_ECODE_CE20 | IOT_ST_ECODE_CE20_1 | IOT_ST_ECODE_CE20_2 | IOT_ST_ECODE_CE20_3 | IOT_ST_ECODE_CE21
| IOT_ST_ECODE_CE30 | IOT_ST_ECODE_CE31 | IOT_ST_ECODE_CE32 | IOT_ST_ECODE_CE33 | IOT_ST_ECODE_CE40 | IOT_ST_ECODE_CE41
| IOT_ST_ECODE_CE50 | IOT_ST_ECODE_CE51 | IOT_ST_ECODE_CE60 | IOT_ST_ECODE_CE70 | IOT_ST_ECODE_CE84_4 | IOT_ST_ECODE_DS13_1

abbreviation (input) MQTT_DISCONNECTED_PING_FAIL :: int where "MQTT_DISCONNECTED_PING_FAIL \<equiv> 1"
abbreviation (input) IOT_STATUS_IDLE :: u32 where "IOT_STATUS_IDLE \<equiv> 1"
abbreviation (input) IOT_STATUS_PROVISIONING :: u32 where "IOT_STATUS_PROVISIONING \<equiv> 2"
abbreviation (input) IOT_STATUS_NEED_INTERACT :: u32 where "IOT_STATUS_NEED_INTERACT \<equiv> 4"
abbreviation (input) IOT_STATUS_CONNECTING :: u32 where "IOT_STATUS_CONNECTING \<equiv> 8"
abbreviation (input) IOT_STAT_LV_STAY :: u32 where "IOT_STAT_LV_STAY \<equiv> 0"
abbreviation (input) IOT_STAT_LV_START :: u32 where "IOT_STAT_LV_START \<equiv> 1"
abbreviation (input) IOT_STAT_LV_DONE :: u32 where "IOT_STAT_LV_DONE \<equiv> 2"
abbreviation (input) IOT_OVF_TYPE_BUTTON :: u32 where "IOT_OVF_TYPE_BUTTON \<equiv> 4"
abbreviation (input) IOT_OVF_TYPE_PIN :: u32 where "IOT_OVF_TYPE_PIN \<equiv> 8"
abbreviation (input) OVF_BIT_BUTTON :: int where "OVF_BIT_BUTTON \<equiv> 2"
abbreviation (input) EASYSETUP_TIMEOUT_MS :: nat where "EASYSETUP_TIMEOUT_MS \<equiv> 300000"
abbreviation (input) REGISTRATION_TIMEOUT_MS :: nat where "REGISTRATION_TIMEOUT_MS \<equiv> 900000"
abbreviation (input) IOT_STATE_TIMEOUT_MAX_MS :: nat where "IOT_STATE_TIMEOUT_MAX_MS \<equiv> 900000"
abbreviation (input) IOT_MQTT_CONNECT_CRITICAL_REJECT_MAX :: u32 where "IOT_MQTT_CONNECT_CRITICAL_REJECT_MAX \<equiv> 3"
abbreviation (input) IOT_REG_UUID_STR_LEN :: nat where "IOT_REG_UUID_STR_LEN \<equiv> 36"

record iot_dip_data =
  dip_id :: "u8 list"
  dip_major_version :: int
  dip_minor_version :: int

record iot_registered_data =
  rd_dip :: "iot_dip_data option"
  rd_locationId :: "u8 list option"
  rd_deviceId :: "u8 list"
  rd_updated :: bool
  rd_new_reged :: bool
  rd_self_reged :: bool

text \<open>A value of a preference.\<close>

datatype iot_cap_val = Val_null | Val_string "u8 list option" | Val_number int | Val_boolean bool | Val_integer int | Val_unknown

datatype iot_noti_data =
  Noti_dev_deleted | Noti_rate_limit int int int int | Noti_quota_reached int int | Noti_send_failed int
| Noti_preference_updated "(u8 list option \<times> iot_cap_val) list" | Noti_jwt_expired

text \<open>The parameter of a command: a copy of a state, or of a notification.\<close>

datatype command_param = State_data iot_state iot_state_opt | Noti_data iot_noti_data

record iot_command =
  cmd_type :: iot_command_type
  param :: "command_param option"

text \<open>What the application is told.\<close>

datatype app_event = Status u32 u32 | Noti iot_noti_data | Cap_init | Cap_command "u8 list"

record iot_st_ecode =
  ecode_type :: iot_st_ecode_type
  ecode :: string

record iot_context =
  es_res_created :: bool
  es_http_ready :: bool
  es_ble_ready :: bool
  curr_state :: iot_state
  state_timer :: "nat option"
  evt_mqttcli :: bool
  sign_in_status :: gg_connection_request_status
  reg_mqttcli :: bool
  registered_msg_requested :: bool
  mqtt_connect_critical_reject_count :: u32
  sign_up_status :: gg_connection_request_status
  mqtt_event_topic :: bool
  mqtt_health_topic :: bool
  prov_data :: iot_device_prov_data
  ownership_validation_type :: u32
  mnid :: "u8 list option"
  devconf_dip :: "iot_dip_data option"
  easysetup_security_context :: bool
  iot_reg_data :: iot_registered_data
  scan_num :: u16
  scan_result :: bool
  lookup_id :: "u8 list cell"
  noti_cb :: bool
  status_cb :: bool
  status_maps :: u32
  reported_stat :: u32
  curr_otm_feature :: int
  pin :: bool
  easysetup_resp_queue :: bool
  add_justworks :: bool
  rate_limit :: bool
  rate_limit_timeout :: bool
  mqtt_connection_success_count :: u32
  mqtt_connection_try_count :: u32
  usr_delete_req :: bool
  last_st_ecode :: iot_st_ecode
  is_wifi_station :: bool
  es_network_status :: iot_error
  request_disconnect :: bool
  cloud_connection_pause :: bool
  wifi_candidate_frequency :: int
  d2d_event_request :: bool
  onboarding_complete :: bool
  connection_retry_count :: u32
  next_connection_retry_timer :: bool
  cloud_con_timer :: bool

section \<open>The platform\<close>

text \<open>
  Allocations of the core, by what is allocated; operations on an MQTT client; and what such an operation
  gives: its return code and the events the client's callback is called with while it runs.
\<close>

datatype alloc = Mem_command | Mem_param | Mem_lookup | Mem_location | Mem_pin | Mem_scan | Mem_resp_queue
| Mem_mnid | Mem_topic nat | Mem_reg_topic | Mem_event_topic | Mem_health_topic | Mem_dip | Mem_reg_location
| Mem_preferences | Mem_request | Mem_response

datatype mqtt_op = Op_create | Op_connect | Op_subscribe | Op_yield | Op_publish | Op_disconnect | Op_ping_period

datatype mqtt_event =
  Msg_delivered "u8 list" "u8 list"
| Publish_failed "u8 list" | Publish_timeout "u8 list"
| Disconnected int
| Other_event

text \<open>
  The JSON library. \<open>'j\<close> is an item and \<open>'j option\<close> a pointer to one: parsing, the member of an object with a
  name, the string and the number of an item, the items of an array with their names, printing, and making
  and changing objects. Whatever makes something may fail.
\<close>

record ('n, 'j) json =
  JSON_PARSE :: "u8 list \<Rightarrow> 'n \<Rightarrow> 'j option \<times> 'n"
  JSON_GET_OBJECT_ITEM :: "'j option \<Rightarrow> string \<Rightarrow> 'j option"
  JSON_GET_STRING_VALUE :: "'j option \<Rightarrow> u8 list option"
  json_valueint :: "'j \<Rightarrow> int"
  JSON_IS_TRUE :: "'j \<Rightarrow> bool"
  json_items :: "'j \<Rightarrow> (u8 list option \<times> 'j) list"
  JSON_PRINT :: "'j option \<Rightarrow> 'n \<Rightarrow> u8 list option \<times> 'n"
  JSON_CREATE_OBJECT :: "'n \<Rightarrow> 'j option \<times> 'n"
  JSON_CREATE_STRING :: "u8 list \<Rightarrow> 'n \<Rightarrow> 'j option \<times> 'n"
  JSON_CREATE_NUMBER :: "int \<Rightarrow> 'n \<Rightarrow> 'j option \<times> 'n"
  JSON_ADD_ITEM_TO_OBJECT :: "'j option \<Rightarrow> string \<Rightarrow> 'j \<Rightarrow> 'j option"
  JSON_REPLACE_ITEM :: "'j option \<Rightarrow> string \<Rightarrow> 'j \<Rightarrow> 'j option"

text \<open>
  The platform: the build option of discovery over the SSID, memory, the work
  queue (a send fails with an error or appends), Wi-Fi, timers, the
  security layer (tokens, certificates, ciphers, hashes) and the MQTT client as the core sees it. Each call may fail at any time. \<open>d_polls\<close> is how often the loop that waits
  for the server's answer comes round before its timer expires.
\<close>

record ('n, 'j) device =
  d_posix :: "'n posix"
  d_json :: "('n, 'j) json"
  d_discovery_ssid :: bool
  d_malloc :: "alloc \<Rightarrow> 'n \<Rightarrow> bool \<times> 'n"
  d_queue_send :: "'n \<Rightarrow> iot_error \<times> 'n"
  d_wifi_set_mode :: "iot_wifi_mode \<Rightarrow> 'n \<Rightarrow> iot_error \<times> 'n"
  d_wifi_scan :: "'n \<Rightarrow> u16 \<times> 'n"
  d_create_ssid :: "'n \<Rightarrow> iot_error \<times> 'n"
  d_timer_create :: "'n \<Rightarrow> bool \<times> 'n"
  d_timer_start :: "'n \<Rightarrow> bool \<times> 'n"
  d_timer_expired :: "'n \<Rightarrow> bool \<times> 'n"
  d_polls :: "'n \<Rightarrow> nat \<times> 'n"
  d_security_init :: "'n \<Rightarrow> bool \<times> 'n"
  d_cipher_init :: "'n \<Rightarrow> iot_error \<times> 'n"
  d_random_id :: "'n \<Rightarrow> (iot_error + u8 list) \<times> 'n"
  d_certificate :: "'n \<Rightarrow> iot_error \<times> 'n"
  d_token :: "'n \<Rightarrow> iot_error \<times> 'n"
  d_sha256 :: "u8 list \<Rightarrow> 'n \<Rightarrow> (iot_error + u8 list) \<times> 'n"
  d_registration_payload :: "'n \<Rightarrow> bool \<times> 'n"
  d_mqtt :: "mqtt_op \<Rightarrow> 'n \<Rightarrow> (int \<times> mqtt_event list) \<times> 'n"
  d_card_deleted :: "'n \<Rightarrow> bool \<times> 'n"
  d_thread_lock :: "'n \<Rightarrow> (bool \<times> bool) \<times> 'n"
  d_confirmed :: "'n \<Rightarrow> bool \<times> 'n"

section \<open>The world\<close>

record 'n dev =
  ctx :: iot_context
  nv :: "'n store"
  work :: "iot_command list"
  told :: "app_event list"

definition upd_ctx :: "(iot_context \<Rightarrow> iot_context) \<Rightarrow> ('n dev, unit) prog" where
  "upd_ctx f = modify (\<lambda>w. w\<lparr>ctx := f (ctx w)\<rparr>)"

definition the_ctx :: "(iot_context \<Rightarrow> 'a) \<Rightarrow> ('n dev, 'a) prog" where
  "the_ctx f = gets (\<lambda>w. f (ctx w))"

definition ask :: "('n \<Rightarrow> 'a \<times> 'n) \<Rightarrow> ('n dev, 'a) prog" where
  "ask f w = (case f (env (nv w)) of (a, n) \<Rightarrow> Returns a (w\<lparr>nv := (nv w)\<lparr>env := n\<rparr>\<rparr>))"

definition nv_run :: "('n store \<Rightarrow> ('a \<times> 'n store) option) \<Rightarrow> ('n dev, 'a) prog" where
  "nv_run f w = (case f (nv w) of None \<Rightarrow> Undefined | Some (a, s) \<Rightarrow> Returns a (w\<lparr>nv := s\<rparr>))"

definition tell :: "app_event \<Rightarrow> ('n dev, unit) prog" where
  "tell e = modify (\<lambda>w. w\<lparr>told := told w @ [e]\<rparr>)"

definition reboot :: "('n dev, 'a) prog" where
  "reboot w = Reboots w"

text \<open>\<open>free\<close> of a string that the code tests first; \<open>Dangling\<close> is a second \<open>free\<close>.\<close>

definition free_cell :: "'a cell \<Rightarrow> ('w, unit) prog" where
  "free_cell c = (if c = Dangling then undef else skip)"

definition upd_reg :: "(iot_registered_data \<Rightarrow> iot_registered_data) \<Rightarrow> ('n dev, unit) prog" where
  "upd_reg f = upd_ctx (\<lambda>c. c\<lparr>iot_reg_data := f (iot_reg_data c)\<rparr>)"

definition upd_cloud :: "(iot_cloud_prov_data \<Rightarrow> iot_cloud_prov_data) \<Rightarrow> ('n dev, unit) prog" where
  "upd_cloud f = upd_ctx (\<lambda>c. c\<lparr>prov_data := (prov_data c)\<lparr>pd_cloud := f (pd_cloud (prov_data c))\<rparr>\<rparr>)"

end
