(* ===== verification/Device_Misc.thy ===== *)
theory Device_Misc
  imports Device_State
begin

text \<open>
  The miscellaneous information of the device, a JSON object in the item \<open>MISC_INFO\<close>, and the error codes
  for the application that are kept there (\<^verbatim>\<open>src/iot_api.c\<close>).
\<close>

section \<open>Loading\<close>

text \<open>\<open>iot_util_convert_str_uuid\<close> into a structure on the stack, whose old contents are not read.\<close>

definition str_uuid :: "('n, 'j) device \<Rightarrow> u8 list option \<Rightarrow> ('n dev, iot_error + u8 list) prog" where
  "str_uuid P t = (case iot_util_convert_str_uuid t (Some (fresh_buffer (d_posix P) 16)) of
     Some (IOT_ERROR_NONE, Some u) \<Rightarrow> ret (Inr u)
   | Some (e, _) \<Rightarrow> ret (Inl e)
   | None \<Rightarrow> undef)"

definition get_dip_from_json :: "('n, 'j) device \<Rightarrow> 'j option \<Rightarrow> ('n dev, iot_error + iot_dip_data) prog" where
  "get_dip_from_json P json = (let J = d_json P; sub = JSON_GET_OBJECT_ITEM J json ''dip'' in
     if sub = None then ret (Inl IOT_ERROR_BAD_REQ)
     else let item = JSON_GET_OBJECT_ITEM J sub ''id'' in
     if item = None then ret (Inl IOT_ERROR_BAD_REQ)
     else seq (str_uuid P (JSON_GET_STRING_VALUE J item)) (\<lambda>u. case u of
       Inl e \<Rightarrow> ret (Inl e)
     | Inr u \<Rightarrow> (case JSON_GET_OBJECT_ITEM J sub ''maj'' of
         None \<Rightarrow> ret (Inl IOT_ERROR_BAD_REQ)
       | Some maj \<Rightarrow> ret (Inr \<lparr>dip_id = u, dip_major_version = json_valueint J maj,
           dip_minor_version = (case JSON_GET_OBJECT_ITEM J sub ''min'' of None \<Rightarrow> 0 | Some m \<Rightarrow> json_valueint J m)\<rparr>))))"

definition get_location_from_json :: "('n, 'j) device \<Rightarrow> 'j option \<Rightarrow> ('n dev, iot_error + u8 list) prog" where
  "get_location_from_json P json = (let item = JSON_GET_OBJECT_ITEM (d_json P) json ''loId'' in
     if item = None then ret (Inl IOT_ERROR_BAD_REQ)
     else str_uuid P (JSON_GET_STRING_VALUE (d_json P) item))"

text \<open>\<open>iot_misc_info_load\<close>, with the part that reads the kind of information asked for as an argument.\<close>

definition iot_misc_info_load ::
  "('n, 'j) device \<Rightarrow> ('j option \<Rightarrow> ('n dev, iot_error + 'a) prog) \<Rightarrow> ('n dev, iot_error + 'a) prog" where
  "iot_misc_info_load P get =
     seq (nv_run (iot_nv_get_misc_info (d_posix P))) (\<lambda>r. case r of
       Inl e \<Rightarrow> ret (Inl e)
     | Inr misc \<Rightarrow> seq (ask (JSON_PARSE (d_json P) misc)) (\<lambda>json.
         if json = None then ret (Inl IOT_ERROR_BAD_REQ) else get json))"

section \<open>Storing\<close>

text \<open>An item put into an object: replaced when there is one of that name.\<close>

definition put_item :: "('n, 'j) device \<Rightarrow> 'j option \<Rightarrow> string \<Rightarrow> 'j \<Rightarrow> 'j option" where
  "put_item P json name item = (if JSON_GET_OBJECT_ITEM (d_json P) json name = None
     then JSON_ADD_ITEM_TO_OBJECT (d_json P) json name item
     else JSON_REPLACE_ITEM (d_json P) json name item)"

text \<open>The text of an identifier, through a buffer of \<open>n\<close> bytes.\<close>

definition uuid_str :: "('n, 'j) device \<Rightarrow> u8 list \<Rightarrow> nat \<Rightarrow> ('n dev, iot_error + u8 list) prog" where
  "uuid_str P u n = (case iot_util_convert_uuid_str (Some u) (Some (fresh_buffer (d_posix P) n)) n of
     Some (IOT_ERROR_NONE, Some s) \<Rightarrow> (case c_string s of None \<Rightarrow> undef | Some t \<Rightarrow> ret (Inr t))
   | Some (e, _) \<Rightarrow> ret (Inl e)
   | None \<Rightarrow> undef)"

definition set_dip_to_json ::
  "('n, 'j) device \<Rightarrow> iot_dip_data \<Rightarrow> 'j option \<Rightarrow> ('n dev, iot_error + 'j option) prog" where
  "set_dip_to_json P dip json = (let J = d_json P in
     seq (ask (JSON_CREATE_OBJECT J)) (\<lambda>sub.
     if sub = None then ret (Inl IOT_ERROR_MEM_ALLOC)
     else seq (uuid_str P (dip_id dip) 40) (\<lambda>r. case r of
       Inl e \<Rightarrow> ret (Inl e)
     | Inr t \<Rightarrow> seq (ask (JSON_CREATE_STRING J t)) (\<lambda>item. case item of
         None \<Rightarrow> ret (Inl IOT_ERROR_MEM_ALLOC)
       | Some item \<Rightarrow> let sub = JSON_ADD_ITEM_TO_OBJECT J sub ''id'' item in
           seq (ask (JSON_CREATE_NUMBER J (dip_major_version dip))) (\<lambda>item. case item of
             None \<Rightarrow> ret (Inl IOT_ERROR_MEM_ALLOC)
           | Some item \<Rightarrow> let sub = JSON_ADD_ITEM_TO_OBJECT J sub ''maj'' item in
               seq (if dip_minor_version dip \<noteq> 0
                    then seq (ask (JSON_CREATE_NUMBER J (dip_minor_version dip))) (\<lambda>item. case item of
                           None \<Rightarrow> ret (Inl IOT_ERROR_MEM_ALLOC)
                         | Some item \<Rightarrow> ret (Inr (JSON_ADD_ITEM_TO_OBJECT J sub ''min'' item)))
                    else ret (Inr sub)) (\<lambda>r. case r of
                 Inl e \<Rightarrow> ret (Inl e)
               | Inr sub \<Rightarrow> (case sub of
                   None \<Rightarrow> ret (Inr json)
                 | Some sub \<Rightarrow> ret (Inr (put_item P json ''dip'' sub)))))))))"

definition set_location_to_json ::
  "('n, 'j) device \<Rightarrow> u8 list \<Rightarrow> 'j option \<Rightarrow> ('n dev, iot_error + 'j option) prog" where
  "set_location_to_json P u json =
     seq (uuid_str P u (IOT_REG_UUID_STR_LEN + 1)) (\<lambda>r. case r of
       Inl e \<Rightarrow> ret (Inl e)
     | Inr t \<Rightarrow> seq (ask (JSON_CREATE_STRING (d_json P) t)) (\<lambda>item. case item of
         None \<Rightarrow> ret (Inl IOT_ERROR_MEM_ALLOC)
       | Some item \<Rightarrow> ret (Inr (put_item P json ''loId'' item))))"

definition set_preverr_to_json ::
  "('n, 'j) device \<Rightarrow> u8 list \<Rightarrow> 'j option \<Rightarrow> ('n dev, iot_error + 'j option) prog" where
  "set_preverr_to_json P t json =
     seq (ask (JSON_CREATE_STRING (d_json P) t)) (\<lambda>item. case item of
       None \<Rightarrow> ret (Inl IOT_ERROR_MEM_ALLOC)
     | Some item \<Rightarrow> ret (Inr (put_item P json ''prevErr'' item)))"

definition iot_misc_info_store ::
  "('n, 'j) device \<Rightarrow> ('j option \<Rightarrow> ('n dev, iot_error + 'j option) prog) \<Rightarrow> ('n dev, iot_error) prog" where
  "iot_misc_info_store P put = (let J = d_json P in
     seq (nv_run (iot_nv_get_misc_info (d_posix P))) (\<lambda>old.
     seq (case old of
            Inl e \<Rightarrow> seq (ask (JSON_CREATE_OBJECT J)) (\<lambda>j. ret (j, None))
          | Inr t \<Rightarrow> seq (ask (JSON_PARSE J t)) (\<lambda>j. if j = None
              then seq (ask (JSON_CREATE_OBJECT J)) (\<lambda>j. ret (j, None))
              else ret (j, Some t))) (\<lambda>(json, old_text).
     seq (case old_text of
            None \<Rightarrow> ret None
          | Some t \<Rightarrow> seq (ask (d_sha256 P t)) (\<lambda>h. ret (case h of Inl e \<Rightarrow> None | Inr h \<Rightarrow> Some h))) (\<lambda>old_hash.
     seq (put json) (\<lambda>r. case r of
       Inl e \<Rightarrow> ret e
     | Inr json \<Rightarrow> seq (ask (JSON_PRINT J json)) (\<lambda>text. case text of
         None \<Rightarrow> ret IOT_ERROR_BAD_REQ
       | Some text \<Rightarrow> seq (case old_hash of
             None \<Rightarrow> ret False
           | Some h \<Rightarrow> seq (ask (d_sha256 P text)) (\<lambda>h'. ret (h' = Inr h))) (\<lambda>same.
           if same then ret IOT_ERROR_NONE
           else nv_run (iot_nv_set_misc_info (d_posix P) text))))))))"

section \<open>Error codes\<close>

definition ecode_number :: "iot_st_ecode_type \<Rightarrow> nat" where
  "ecode_number t = (case t of
     IOT_ST_ECODE_NONE \<Rightarrow> 0 | IOT_ST_ECODE_EE01 \<Rightarrow> 1 | IOT_ST_ECODE_NE01 \<Rightarrow> 2 | IOT_ST_ECODE_NE02 \<Rightarrow> 3
   | IOT_ST_ECODE_NE03 \<Rightarrow> 4 | IOT_ST_ECODE_NE04 \<Rightarrow> 5 | IOT_ST_ECODE_NE11 \<Rightarrow> 6 | IOT_ST_ECODE_NE11_1 \<Rightarrow> 7
   | IOT_ST_ECODE_NE11_3 \<Rightarrow> 8 | IOT_ST_ECODE_NE11_4 \<Rightarrow> 9 | IOT_ST_ECODE_NE12 \<Rightarrow> 10 | IOT_ST_ECODE_NE13 \<Rightarrow> 11
   | IOT_ST_ECODE_NE14 \<Rightarrow> 12 | IOT_ST_ECODE_NE15 \<Rightarrow> 13 | IOT_ST_ECODE_NE16 \<Rightarrow> 14 | IOT_ST_ECODE_NE17 \<Rightarrow> 15
   | IOT_ST_ECODE_CE01 \<Rightarrow> 16 | IOT_ST_ECODE_CE11 \<Rightarrow> 17 | IOT_ST_ECODE_CE12 \<Rightarrow> 18 | IOT_ST_ECODE_CE20 \<Rightarrow> 19
   | IOT_ST_ECODE_CE20_1 \<Rightarrow> 20 | IOT_ST_ECODE_CE20_2 \<Rightarrow> 21 | IOT_ST_ECODE_CE20_3 \<Rightarrow> 22 | IOT_ST_ECODE_CE21 \<Rightarrow> 23
   | IOT_ST_ECODE_CE30 \<Rightarrow> 24 | IOT_ST_ECODE_CE31 \<Rightarrow> 25 | IOT_ST_ECODE_CE32 \<Rightarrow> 26 | IOT_ST_ECODE_CE33 \<Rightarrow> 27
   | IOT_ST_ECODE_CE40 \<Rightarrow> 28 | IOT_ST_ECODE_CE41 \<Rightarrow> 29 | IOT_ST_ECODE_CE50 \<Rightarrow> 30 | IOT_ST_ECODE_CE51 \<Rightarrow> 31
   | IOT_ST_ECODE_CE60 \<Rightarrow> 32 | IOT_ST_ECODE_CE70 \<Rightarrow> 33 | IOT_ST_ECODE_CE84_4 \<Rightarrow> 34 | IOT_ST_ECODE_DS13_1 \<Rightarrow> 35)"

text \<open>A code without a text of its own leaves the cleared buffer.\<close>

definition iot_ecodeType_to_string :: "iot_st_ecode_type \<Rightarrow> string" where
  "iot_ecodeType_to_string t = (case t of
     IOT_ST_ECODE_NONE \<Rightarrow> ''UE01''
   | IOT_ST_ECODE_EE01 \<Rightarrow> ''EE01''
   | IOT_ST_ECODE_NE01 \<Rightarrow> ''NE01''
   | IOT_ST_ECODE_NE02 \<Rightarrow> ''NE02''
   | IOT_ST_ECODE_NE03 \<Rightarrow> ''NE03''
   | IOT_ST_ECODE_NE04 \<Rightarrow> ''NE04''
   | IOT_ST_ECODE_NE11 \<Rightarrow> ''NE11''
   | IOT_ST_ECODE_NE11_1 \<Rightarrow> ''NE11-1''
   | IOT_ST_ECODE_NE11_3 \<Rightarrow> ''NE11-3''
   | IOT_ST_ECODE_NE11_4 \<Rightarrow> ''NE11-4''
   | IOT_ST_ECODE_NE12 \<Rightarrow> ''NE12''
   | IOT_ST_ECODE_NE13 \<Rightarrow> ''NE13''
   | IOT_ST_ECODE_NE14 \<Rightarrow> ''NE14''
   | IOT_ST_ECODE_NE15 \<Rightarrow> ''NE15''
   | IOT_ST_ECODE_NE16 \<Rightarrow> ''NE16''
   | IOT_ST_ECODE_NE17 \<Rightarrow> ''NE17''
   | IOT_ST_ECODE_CE01 \<Rightarrow> ''CE01''
   | IOT_ST_ECODE_CE11 \<Rightarrow> ''CE11''
   | IOT_ST_ECODE_CE12 \<Rightarrow> ''CE12''
   | IOT_ST_ECODE_CE20 \<Rightarrow> ''CE20''
   | IOT_ST_ECODE_CE20_1 \<Rightarrow> ''CE20-1''
   | IOT_ST_ECODE_CE20_2 \<Rightarrow> ''CE20-2''
   | IOT_ST_ECODE_CE20_3 \<Rightarrow> ''CE20-3''
   | IOT_ST_ECODE_CE21 \<Rightarrow> ''CE21''
   | IOT_ST_ECODE_CE30 \<Rightarrow> ''CE30''
   | IOT_ST_ECODE_CE31 \<Rightarrow> ''CE31''
   | IOT_ST_ECODE_CE32 \<Rightarrow> ''CE32''
   | IOT_ST_ECODE_CE33 \<Rightarrow> ''CE33''
   | IOT_ST_ECODE_CE40 \<Rightarrow> ''CE40''
   | IOT_ST_ECODE_CE41 \<Rightarrow> ''CE41''
   | IOT_ST_ECODE_CE50 \<Rightarrow> ''CE50''
   | IOT_ST_ECODE_CE51 \<Rightarrow> ''CE51''
   | IOT_ST_ECODE_CE60 \<Rightarrow> ''CE60''
   | IOT_ST_ECODE_CE70 \<Rightarrow> ''CE70''
   | IOT_ST_ECODE_CE84_4 \<Rightarrow> ''CE84-4''
   | IOT_ST_ECODE_DS13_1 \<Rightarrow> ''DS13-1'')"

definition iot_set_st_ecode :: "('n, 'j) device \<Rightarrow> iot_st_ecode_type \<Rightarrow> ('n dev, iot_error) prog" where
  "iot_set_st_ecode P t = seq (the_ctx last_st_ecode) (\<lambda>last.
     if t \<noteq> ecode_type last \<or> t = IOT_ST_ECODE_NONE
     then and_then (upd_ctx (\<lambda>c. c\<lparr>last_st_ecode := \<lparr>ecode_type = t, ecode = iot_ecodeType_to_string t\<rparr>\<rparr>))
            (iot_misc_info_store P (set_preverr_to_json P (cstr (decimal (ecode_number t)))))
     else ret IOT_ERROR_NONE)"

definition iot_get_st_ecode :: "('n dev, iot_st_ecode) prog" where
  "iot_get_st_ecode = the_ctx last_st_ecode"

definition ecode_of_conn_error :: "iot_error \<Rightarrow> iot_st_ecode_type option" where
  "ecode_of_conn_error e = (case e of
     IOT_ERROR_CONN_SOFTAP_CONF_FAIL \<Rightarrow> Some IOT_ST_ECODE_NE01
   | IOT_ERROR_CONN_SOFTAP_CONN_FAIL \<Rightarrow> Some IOT_ST_ECODE_NE02
   | IOT_ERROR_CONN_SOFTAP_DHCP_FAIL \<Rightarrow> Some IOT_ST_ECODE_NE03
   | IOT_ERROR_CONN_SOFTAP_AUTH_FAIL \<Rightarrow> Some IOT_ST_ECODE_NE04
   | IOT_ERROR_CONN_STA_CONF_FAIL \<Rightarrow> Some IOT_ST_ECODE_NE11_1
   | IOT_ERROR_CONN_STA_CONN_FAIL \<Rightarrow> Some IOT_ST_ECODE_NE11_1
   | IOT_ERROR_CONN_STA_AP_NOT_FOUND \<Rightarrow> Some IOT_ST_ECODE_NE11_1
   | IOT_ERROR_CONN_STA_ASSOC_FAIL \<Rightarrow> Some IOT_ST_ECODE_NE11_3
   | IOT_ERROR_CONN_STA_AUTH_FAIL \<Rightarrow> Some IOT_ST_ECODE_NE11_4
   | IOT_ERROR_CONN_STA_DHCP_FAIL \<Rightarrow> Some IOT_ST_ECODE_NE12
   | IOT_ERROR_CONN_STA_NO_INTERNET \<Rightarrow> Some IOT_ST_ECODE_NE16
   | IOT_ERROR_CONN_DNS_QUERY_FAIL \<Rightarrow> Some IOT_ST_ECODE_NE17
   | IOT_ERROR_CONN_OPERATE_FAIL \<Rightarrow> Some IOT_ST_ECODE_DS13_1
   | _ \<Rightarrow> None)"

definition iot_set_st_ecode_from_conn_error :: "('n, 'j) device \<Rightarrow> iot_error \<Rightarrow> ('n dev, iot_error) prog" where
  "iot_set_st_ecode_from_conn_error P e = (case ecode_of_conn_error e of
     None \<Rightarrow> ret IOT_ERROR_INVALID_ARGS
   | Some t \<Rightarrow> iot_set_st_ecode P t)"

end
