(* ===== verification/Device_Work.thy ===== *)
theory Device_Work
  imports Device_Misc
begin

text \<open>
  Commands: the work queue of the core (\<open>iot_put_device_work\<close>, \<open>iot_command_send\<close> in \<^verbatim>\<open>src/iot_main.c\<close>) and the
  requests for a new state (\<open>iot_state_update\<close>, \<open>iot_state_timeout_change\<close> in \<^verbatim>\<open>src/iot_api.c\<close>).
\<close>

definition iot_put_device_work :: "('n, 'j) device \<Rightarrow> iot_command \<Rightarrow> ('n dev, iot_error) prog" where
  "iot_put_device_work P cmd = seq (ask (d_queue_send P)) (\<lambda>e.
     if e \<noteq> IOT_ERROR_NONE then ret e
     else and_then (modify (\<lambda>w. w\<lparr>work := work w @ [cmd]\<rparr>)) (ret IOT_ERROR_NONE))"

definition iot_command_send ::
  "('n, 'j) device \<Rightarrow> iot_command_type \<Rightarrow> command_param option \<Rightarrow> ('n dev, iot_error) prog" where
  "iot_command_send P new_cmd p = seq (ask (d_malloc P Mem_command)) (\<lambda>ok.
     if \<not> ok then ret IOT_ERROR_MEM_ALLOC
     else case p of
       None \<Rightarrow> iot_put_device_work P \<lparr>cmd_type = new_cmd, param = None\<rparr>
     | Some p \<Rightarrow> seq (ask (d_malloc P Mem_param)) (\<lambda>ok.
         if \<not> ok then ret IOT_ERROR_MEM_ALLOC
         else iot_put_device_work P \<lparr>cmd_type = new_cmd, param = Some p\<rparr>))"

text \<open>A command sent without looking at the result.\<close>

definition post :: "('n, 'j) device \<Rightarrow> iot_command_type \<Rightarrow> command_param option \<Rightarrow> ('n dev, unit) prog" where
  "post P t p = and_then (iot_command_send P t p) skip"

text \<open>A call of the application's status callback, which must be there.\<close>

definition call_status_cb :: "u32 \<Rightarrow> u32 \<Rightarrow> ('n dev, unit) prog" where
  "call_status_cb st lv = seq (the_ctx status_cb) (\<lambda>cb.
     if \<not> cb then undef
     else and_then (tell (Status st lv)) (upd_ctx (\<lambda>c. c\<lparr>reported_stat := st OR push_bit 8 lv\<rparr>)))"

definition iot_state_update ::
  "('n, 'j) device \<Rightarrow> iot_state \<Rightarrow> iot_state_opt \<Rightarrow> ('n dev, iot_error) prog" where
  "iot_state_update P new_state opt = seq (the_ctx (\<lambda>c. c)) (\<lambda>c.
     and_then
       (on (new_state = IOT_STATE_PROV_CONFIRM \<and> opt = IOT_STATE_OPT_NEED_INTERACT
            \<and> status_maps c AND IOT_STATUS_NEED_INTERACT \<noteq> 0 \<and> curr_otm_feature c = OVF_BIT_BUTTON)
         (call_status_cb IOT_STATUS_NEED_INTERACT IOT_STAT_LV_STAY))
       (iot_command_send P IOT_COMMAND_STATE_UPDATE (Some (State_data new_state opt))))"

text \<open>Setting the timer of a state goes through its handle.\<close>

definition iot_state_timeout_change ::
  "iot_state \<Rightarrow> nat \<Rightarrow> ('n dev, iot_error) prog" where
  "iot_state_timeout_change target ms = seq (the_ctx (\<lambda>c. c)) (\<lambda>c.
     if target = IOT_STATE_INITIALIZED then ret IOT_ERROR_INVALID_ARGS
     else if ms > IOT_STATE_TIMEOUT_MAX_MS then ret IOT_ERROR_INVALID_ARGS
     else if curr_state c \<noteq> target then ret IOT_ERROR_INVALID_ARGS
     else if state_timer c = None then undef
     else and_then (upd_ctx (\<lambda>c. c\<lparr>state_timer := Some ms\<rparr>)) (ret IOT_ERROR_NONE))"

text \<open>What the timer of a state does when it expires.\<close>

definition iot_state_timeout_cb :: "('n, 'j) device \<Rightarrow> ('n dev, unit) prog" where
  "iot_state_timeout_cb P = seq (the_ctx curr_state) (\<lambda>s. case s of
     IOT_STATE_PROV_ENTER \<Rightarrow> and_then (iot_state_update P IOT_STATE_PROV_SLEEP IOT_STATE_OPT_NONE) skip
   | IOT_STATE_PROV_DONE \<Rightarrow> and_then (iot_state_update P IOT_STATE_PROV_ENTER IOT_STATE_OPT_NONE) skip
   | _ \<Rightarrow> skip)"

definition next_connection_retry_timeout :: "('n, 'j) device \<Rightarrow> ('n dev, unit) prog" where
  "next_connection_retry_timeout P = post P IOT_COMMAND_CLOUD_CONNECTING None"

definition iot_noti_rate_limit_cb :: "('n dev, unit) prog" where
  "iot_noti_rate_limit_cb = upd_ctx (\<lambda>c. c\<lparr>rate_limit := False\<rparr>)"

definition con_timeout_check :: "('n, 'j) device \<Rightarrow> ('n dev, bool) prog" where
  "con_timeout_check P = seq (the_ctx cloud_con_timer) (\<lambda>t. if t then ask (d_timer_expired P) else ret False)"

end
