(* ===== verification/Device_Link.thy ===== *)
theory Device_Link
  imports Device_Work
begin

text \<open>
  The connection to the cloud: what arrives over MQTT (\<open>_check_connection_response\<close>, \<open>mqtt_reg_sub_cb\<close> and the
  callbacks of the two clients in \<^verbatim>\<open>src/easysetup/iot_easysetup_st_mqtt.c\<close>, \<open>iot_noti_sub_cb\<close> in
  \<^verbatim>\<open>src/iot_capability.c\<close>), connecting and disconnecting, and the clean-up of the device (\<^verbatim>\<open>src/iot_api.c\<close>).
\<close>

section \<open>Messages\<close>

text \<open>\<open>strncmp(s, prefix, strlen(prefix)) == 0\<close>; a null pointer for \<open>s\<close> is undefined.\<close>

definition has_prefix :: "u8 list \<Rightarrow> string \<Rightarrow> bool" where
  "has_prefix s p \<longleftrightarrow> take (length p) s = cstr p"

definition check_connection_response ::
  "('n, 'j) device \<Rightarrow> u8 list \<Rightarrow> ('n dev, gg_connection_request_status) prog" where
  "check_connection_response P payload = (let J = d_json P in
     seq (ask (JSON_PARSE J payload)) (\<lambda>json.
     if json = None then ret GG_CONNECTION_REQUEST_STATUS_FAIL
     else seq (ask (JSON_PRINT J json)) (\<lambda>_. (let event = JSON_GET_OBJECT_ITEM J json ''event'' in
     if event = None then ret GG_CONNECTION_REQUEST_STATUS_WAITING
     else case JSON_GET_STRING_VALUE J event of
       None \<Rightarrow> undef
     | Some e \<Rightarrow> if has_prefix e ''expired.jwt'' then ret GG_CONNECTION_REQUEST_STATUS_FAIL
         else if has_prefix e ''connect.success'' then ret GG_CONNECTION_REQUEST_STATUS_SUCCESS
         else ret GG_CONNECTION_REQUEST_STATUS_WAITING))))"

text \<open>
  The answer to the registration. The profile and the location are optional; \<open>Inl\<close> is the jump to the end of
  the function.
\<close>

definition reg_dip :: "('n, 'j) device \<Rightarrow> 'j option \<Rightarrow> ('n dev, bool) prog" where
  "reg_dip P json = (let J = d_json P; key = JSON_GET_OBJECT_ITEM J json ''deviceIntegrationProfileKey'' in
     if key = None then ret True
     else seq (ask (d_malloc P Mem_dip)) (\<lambda>ok.
       if \<not> ok then ret False
       else let item = JSON_GET_OBJECT_ITEM J key ''id'' in
       if item = None then ret False
       else seq (str_uuid P (JSON_GET_STRING_VALUE J item)) (\<lambda>u. case u of
         Inl e \<Rightarrow> ret False
       | Inr u \<Rightarrow> (case JSON_GET_OBJECT_ITEM J key ''majorVersion'' of
           None \<Rightarrow> ret False
         | Some maj \<Rightarrow> and_then (upd_reg (\<lambda>r. r\<lparr>rd_dip := Some \<lparr>dip_id = u, dip_major_version = json_valueint J maj,
             dip_minor_version = (case JSON_GET_OBJECT_ITEM J key ''minorVersion'' of
                None \<Rightarrow> 0 | Some m \<Rightarrow> json_valueint J m)\<rparr>\<rparr>)) (ret True)))))"

definition reg_location :: "('n, 'j) device \<Rightarrow> 'j option \<Rightarrow> ('n dev, bool) prog" where
  "reg_location P json = (let J = d_json P; item = JSON_GET_OBJECT_ITEM J json ''locationId'' in
     if item = None then ret True
     else seq (ask (d_malloc P Mem_reg_location)) (\<lambda>ok.
       if \<not> ok then ret False
       else seq (str_uuid P (JSON_GET_STRING_VALUE J item)) (\<lambda>u. case u of
         Inl e \<Rightarrow> ret False
       | Inr u \<Rightarrow> and_then (upd_reg (\<lambda>r. r\<lparr>rd_locationId := Some u\<rparr>)) (ret True))))"

text \<open>
  The identifier comes as printed JSON, in quotes; 36 bytes behind the first quote are copied whatever the
  length of the text.
\<close>

definition reg_device_id :: "('n, 'j) device \<Rightarrow> 'j option \<Rightarrow> ('n dev, unit) prog" where
  "reg_device_id P json = (let J = d_json P; item = JSON_GET_OBJECT_ITEM J json ''deviceId'' in
     seq (the_ctx (\<lambda>c. rd_updated (iot_reg_data c))) (\<lambda>updated.
     if item = None \<or> updated then skip
     else seq (ask (JSON_PRINT J item)) (\<lambda>t. case t of
       None \<Rightarrow> skip
     | Some t \<Rightarrow> if length (t @ [0]) < Suc IOT_REG_UUID_STR_LEN then undef
         else block [
           upd_reg (\<lambda>r. r\<lparr>rd_deviceId := take IOT_REG_UUID_STR_LEN (tl (t @ [0])) @ [0]\<rparr>),
           upd_reg (\<lambda>r. r\<lparr>rd_updated := True, rd_new_reged := False\<rparr>),
           post P IOT_COMMAND_CLOUD_REGISTERED None])))"

definition mqtt_reg_sub_cb :: "('n, 'j) device \<Rightarrow> u8 list \<Rightarrow> ('n dev, unit) prog" where
  "mqtt_reg_sub_cb P payload = (let J = d_json P in
     seq (ask (JSON_PARSE J payload)) (\<lambda>json.
     if json = None then skip
     else seq (ask (JSON_PRINT J json)) (\<lambda>msg.
     if msg = None then skip
     else let event = JSON_GET_OBJECT_ITEM J json ''event'' in
     seq (if event = None then ret True
          else case JSON_GET_STRING_VALUE J event of
            None \<Rightarrow> undef
          | Some e \<Rightarrow> if has_prefix e ''expired.jwt''
              then if JSON_GET_OBJECT_ITEM J json ''currentTime'' = None then ret False
                   else and_then (post P IOT_COMMAND_CLOUD_REGISTERING None) (ret True)
              else ret False) (\<lambda>go.
     if \<not> go then skip
     else seq (reg_dip P json) (\<lambda>go.
     if \<not> go then skip
     else seq (reg_location P json) (\<lambda>go.
     if \<not> go then skip
     else reg_device_id P json))))))"

definition registration_client_callback :: "('n, 'j) device \<Rightarrow> mqtt_event \<Rightarrow> ('n dev, unit) prog" where
  "registration_client_callback P ev = seq (the_ctx (\<lambda>c. c)) (\<lambda>c. case ev of
     Msg_delivered topic payload \<Rightarrow>
       if sign_up_status c \<noteq> GG_CONNECTION_REQUEST_STATUS_SUCCESS
       then seq (check_connection_response P payload) (\<lambda>s. upd_ctx (\<lambda>c. c\<lparr>sign_up_status := s\<rparr>))
       else if has_prefix topic ''/v1/registrations/notification'' then mqtt_reg_sub_cb P payload
       else skip
   | Disconnected reason \<Rightarrow>
       on (curr_state c = IOT_STATE_PROV_DONE \<and> \<not> rd_updated (iot_reg_data c) \<and> registered_msg_requested c)
         (post P IOT_COMMAND_CLOUD_REGISTERING None)
   | _ \<Rightarrow> skip)"

text \<open>One preference. The type is compared without a test that there is one.\<close>

definition parse_preference ::
  "('n, 'j) json \<Rightarrow> u8 list option \<times> 'j \<Rightarrow> ('n dev, u8 list option \<times> iot_cap_val) prog" where
  "parse_preference J ni = (let (name, sub) = ni;
      ty = JSON_GET_STRING_VALUE J (JSON_GET_OBJECT_ITEM J (Some sub) ''preferenceType'') in
     case JSON_GET_OBJECT_ITEM J (Some sub) ''value'' of
       None \<Rightarrow> ret (name, Val_null)
     | Some v \<Rightarrow> (case ty of
         None \<Rightarrow> undef
       | Some ty \<Rightarrow> ret (name,
           if has_prefix ty ''string'' then Val_string (JSON_GET_STRING_VALUE J (Some v))
           else if has_prefix ty ''number'' then Val_number (json_valueint J v)
           else if has_prefix ty ''boolean'' then Val_boolean (JSON_IS_TRUE J v)
           else if has_prefix ty ''integer'' then Val_integer (json_valueint J v)
           else Val_unknown)))"

fun parse_preferences ::
  "('n, 'j) json \<Rightarrow> (u8 list option \<times> 'j) list \<Rightarrow> ('n dev, (u8 list option \<times> iot_cap_val) list) prog" where
  "parse_preferences J [] = ret []"
| "parse_preferences J (x # xs) = seq (parse_preference J x) (\<lambda>p. seq (parse_preferences J xs) (\<lambda>ps. ret (p # ps)))"

text \<open>The numbers of the named members, all of which must be there.\<close>

fun json_ints :: "('n, 'j) json \<Rightarrow> 'j option \<Rightarrow> string list \<Rightarrow> int list option" where
  "json_ints J json [] = Some []"
| "json_ints J json (n # ns) = do {
     item \<leftarrow> JSON_GET_OBJECT_ITEM J json n;
     xs \<leftarrow> json_ints J json ns;
     Some (json_valueint J item # xs) }"

definition iot_parse_noti_data :: "('n, 'j) device \<Rightarrow> u8 list \<Rightarrow> ('n dev, iot_noti_data option) prog" where
  "iot_parse_noti_data P payload = (let J = d_json P in
     seq (ask (JSON_PARSE J payload)) (\<lambda>json.
     if json = None then ret None
     else seq (ask (JSON_PRINT J json)) (\<lambda>_.
     case JSON_GET_STRING_VALUE J (JSON_GET_OBJECT_ITEM J json ''event'') of
       None \<Rightarrow> ret None
     | Some e \<Rightarrow>
         if JSON_GET_OBJECT_ITEM J json ''event'' = None then ret None
         else if has_prefix e ''device.deleted'' then ret (Some Noti_dev_deleted)
         else if has_prefix e ''expired.jwt''
         then ret (if JSON_GET_OBJECT_ITEM J json ''currentTime'' = None then None else Some Noti_jwt_expired)
         else if has_prefix e ''rate.limit.reached''
         then ret (case json_ints J json [''count'', ''threshold'', ''remainingTime'', ''sequenceNumber''] of
                     Some [a, b, c, d] \<Rightarrow> Some (Noti_rate_limit a b c d) | _ \<Rightarrow> None)
         else if has_prefix e ''quota.reached''
         then ret (case json_ints J json [''used'', ''limit''] of Some [a, b] \<Rightarrow> Some (Noti_quota_reached a b) | _ \<Rightarrow> None)
         else if has_prefix e ''device.preferences''
         then case JSON_GET_OBJECT_ITEM J json ''values'' of
                None \<Rightarrow> ret None
              | Some vs \<Rightarrow> if json_items J vs = [] then ret None
                  else seq (ask (d_malloc P Mem_preferences)) (\<lambda>ok.
                    if \<not> ok then ret None
                    else seq (parse_preferences J (json_items J vs)) (\<lambda>ps. ret (Some (Noti_preference_updated ps))))
         else ret None)))"

definition iot_noti_sub_cb :: "('n, 'j) device \<Rightarrow> u8 list \<Rightarrow> ('n dev, unit) prog" where
  "iot_noti_sub_cb P payload = seq (iot_parse_noti_data P payload) (\<lambda>d. case d of
     None \<Rightarrow> skip
   | Some d \<Rightarrow> block [
       (case d of Noti_rate_limit _ _ _ _ \<Rightarrow>
          seq (ask (d_timer_create P)) (\<lambda>ok. and_then (upd_ctx (\<lambda>c. c\<lparr>rate_limit_timeout := ok\<rparr>))
            (if \<not> ok then skip
             else seq (ask (d_timer_start P)) (\<lambda>started. on started (upd_ctx (\<lambda>c. c\<lparr>rate_limit := True\<rparr>)))))
        | _ \<Rightarrow> skip),
       post P IOT_COMMAND_NOTIFICATION_RECEIVED (Some (Noti_data d))])"

definition iot_parse_sequence_num :: "('n, 'j) device \<Rightarrow> u8 list \<Rightarrow> ('n dev, int) prog" where
  "iot_parse_sequence_num P payload = (let J = d_json P in
     seq (ask (JSON_PARSE J payload)) (\<lambda>json.
     if json = None then ret 0
     else ret (case JSON_GET_OBJECT_ITEM J json ''deviceEvents'' of
       None \<Rightarrow> 0
     | Some evs \<Rightarrow> (case json_items J evs of
         [] \<Rightarrow> 0
       | (_, first) # _ \<Rightarrow> (case JSON_GET_OBJECT_ITEM J (JSON_GET_OBJECT_ITEM J (Some first) ''providerData'') ''sequenceNumber'' of
           None \<Rightarrow> 0
         | Some n \<Rightarrow> if JSON_GET_OBJECT_ITEM J (Some first) ''providerData'' = None then 0 else json_valueint J n)))))"

text \<open>The events of the client for commands and notifications; commands go to the capability callbacks.\<close>

definition signin_client_callback :: "('n, 'j) device \<Rightarrow> mqtt_event \<Rightarrow> ('n dev, unit) prog" where
  "signin_client_callback P ev = seq (the_ctx sign_in_status) (\<lambda>s. case ev of
     Msg_delivered topic payload \<Rightarrow>
       if s \<noteq> GG_CONNECTION_REQUEST_STATUS_SUCCESS
       then seq (check_connection_response P payload) (\<lambda>s. upd_ctx (\<lambda>c. c\<lparr>sign_in_status := s\<rparr>))
       else if has_prefix topic ''/v1/commands'' then tell (Cap_command payload)
       else if has_prefix topic ''/v1/notifications'' then iot_noti_sub_cb P payload
       else skip
   | Publish_failed payload \<Rightarrow> seq (iot_parse_sequence_num P payload) (\<lambda>n.
       on (n \<ge> 0) (post P IOT_COMMAND_NOTIFICATION_RECEIVED (Some (Noti_data (Noti_send_failed n)))))
   | Publish_timeout payload \<Rightarrow> seq (iot_parse_sequence_num P payload) (\<lambda>n.
       on (n \<ge> 0) (post P IOT_COMMAND_NOTIFICATION_RECEIVED (Some (Noti_data (Noti_send_failed n)))))
   | Disconnected reason \<Rightarrow> block [
       (if reason = MQTT_DISCONNECTED_PING_FAIL then and_then (iot_set_st_ecode P IOT_ST_ECODE_CE32) skip
        else if reason = MQTT_DISCONNECTED_PING_TIMEOUT then and_then (iot_set_st_ecode P IOT_ST_ECODE_CE33) skip
        else skip),
       and_then (iot_state_update P IOT_STATE_CLOUD_DISCONNECTED IOT_STATE_OPT_NONE) skip]
   | Other_event \<Rightarrow> skip)"

section \<open>MQTT calls\<close>

fun deliver :: "('n, 'j) device \<Rightarrow> iot_connect_type \<Rightarrow> mqtt_event list \<Rightarrow> ('n dev, unit) prog" where
  "deliver P t [] = skip"
| "deliver P t (e # es) = and_then
     (case t of IOT_CONNECT_TYPE_REGISTRATION \<Rightarrow> registration_client_callback P e
      | IOT_CONNECT_TYPE_COMMUNICATION \<Rightarrow> signin_client_callback P e)
     (deliver P t es)"

text \<open>An operation of a client; the client's callback runs on the events that come in meanwhile.\<close>

definition mqtt_call :: "('n, 'j) device \<Rightarrow> iot_connect_type \<Rightarrow> mqtt_op \<Rightarrow> ('n dev, int) prog" where
  "mqtt_call P t op = seq (ask (d_mqtt P op)) (\<lambda>(rc, evs). and_then (deliver P t evs) (ret rc))"

definition iot_es_mqtt_disconnect :: "('n, 'j) device \<Rightarrow> iot_connect_type \<Rightarrow> ('n dev, unit) prog" where
  "iot_es_mqtt_disconnect P t = and_then (mqtt_call P t Op_disconnect) skip"

definition iot_es_disconnect :: "('n, 'j) device \<Rightarrow> iot_connect_type \<Rightarrow> ('n dev, iot_error) prog" where
  "iot_es_disconnect P t = seq (the_ctx (\<lambda>c. c)) (\<lambda>c. case t of
     IOT_CONNECT_TYPE_COMMUNICATION \<Rightarrow>
       and_then (upd_ctx (\<lambda>c. c\<lparr>mqtt_event_topic := False, mqtt_health_topic := False, evt_mqttcli := False\<rparr>))
         (if \<not> evt_mqttcli c then ret IOT_ERROR_INVALID_ARGS
          else and_then (iot_es_mqtt_disconnect P t) (ret IOT_ERROR_NONE))
   | IOT_CONNECT_TYPE_REGISTRATION \<Rightarrow>
       and_then (upd_ctx (\<lambda>c. c\<lparr>reg_mqttcli := False\<rparr>))
         (if \<not> reg_mqttcli c then ret IOT_ERROR_INVALID_ARGS
          else and_then (iot_es_mqtt_disconnect P t) (ret IOT_ERROR_NONE)))"

section \<open>Clean-up\<close>

text \<open>The strings are freed; the pointers to them stay.\<close>

definition freed :: "'a cell \<Rightarrow> 'a cell" where
  "freed c = (case c of Null \<Rightarrow> Null | _ \<Rightarrow> Dangling)"

definition iot_api_prov_data_mem_free :: "('n dev, unit) prog" where
  "iot_api_prov_data_mem_free = seq (the_ctx (\<lambda>c. pd_cloud (prov_data c))) (\<lambda>p. block [
     free_cell (cp_broker_url p), free_cell (cp_label p),
     upd_cloud (\<lambda>p. p\<lparr>cp_broker_url := freed (cp_broker_url p), cp_label := freed (cp_label p)\<rparr>)])"

definition zero_prov :: iot_device_prov_data where
  "zero_prov = \<lparr>pd_wifi = zero_wifi, pd_cloud = \<lparr>cp_broker_url = Null, cp_broker_port = 0, cp_location = Null,
     cp_room = Null, cp_label = Null\<rparr>\<rparr>"

definition iot_device_cleanup :: "('n, 'j) device \<Rightarrow> ('n dev, iot_error) prog" where
  "iot_device_cleanup P =
     and_then (block [
       iot_api_prov_data_mem_free,
       upd_ctx (\<lambda>c. c\<lparr>prov_data := zero_prov\<rparr>),
       and_then (nv_run (iot_nv_erase_prov_data (d_posix P))) skip])
     (seq (nv_run (iot_nv_erase (d_posix P) IOT_NVD_DEVICE_ID)) (\<lambda>e.
      seq (the_ctx evt_mqttcli) (\<lambda>b.
      seq (if b then iot_es_disconnect P IOT_CONNECT_TYPE_COMMUNICATION else ret e) (\<lambda>e.
      seq (the_ctx reg_mqttcli) (\<lambda>b.
      seq (if b then iot_es_disconnect P IOT_CONNECT_TYPE_REGISTRATION else ret e) (\<lambda>e.
      seq (the_ctx lookup_id) (\<lambda>l.
      and_then (block [free_cell l, upd_ctx (\<lambda>c. c\<lparr>lookup_id := Null\<rparr>)]) (ret e))))))))"

text \<open>
  Starting and stopping the onboarding server. The cipher needs the security context, and fails cleanly
  without it; the threads of the HTTP server do not touch the context here.
\<close>

definition iot_easysetup_init :: "('n, 'j) device \<Rightarrow> ('n dev, iot_error) prog" where
  "iot_easysetup_init P = seq (the_ctx easysetup_security_context) (\<lambda>sec.
     seq (ask (d_cipher_init P)) (\<lambda>e.
     if \<not> sec \<or> e \<noteq> IOT_ERROR_NONE then ret (IOT_ERROR_OTHER (-407)) else ret IOT_ERROR_NONE))"

definition iot_easysetup_deinit :: "('n dev, unit) prog" where
  "iot_easysetup_deinit = skip"

definition iot_cleanup :: "('n, 'j) device \<Rightarrow> bool \<Rightarrow> ('n dev, unit) prog" where
  "iot_cleanup P boot = seq (the_ctx (\<lambda>c. c)) (\<lambda>c. block [
     on (es_http_ready c) (and_then (upd_ctx (\<lambda>c. c\<lparr>es_http_ready := False\<rparr>)) iot_easysetup_deinit),
     on (es_ble_ready c) (and_then (upd_ctx (\<lambda>c. c\<lparr>es_ble_ready := False\<rparr>)) iot_easysetup_deinit),
     and_then (iot_device_cleanup P) skip,
     upd_ctx (\<lambda>c. c\<lparr>curr_state := IOT_STATE_INITIALIZED\<rparr>),
     on boot reboot])"

section \<open>Connecting\<close>

definition iot_es_mqtt_connect :: "('n, 'j) device \<Rightarrow> iot_connect_type \<Rightarrow> ('n dev, iot_error) prog" where
  "iot_es_mqtt_connect P t = seq (ask (d_random_id P)) (\<lambda>id. case id of
     Inl e \<Rightarrow> ret e
   | Inr _ \<Rightarrow> seq (the_ctx (\<lambda>c. cp_broker_url (pd_cloud (prov_data c)))) (\<lambda>url.
       if url = Null then ret IOT_ERROR_INVALID_ARGS
       else if url = Dangling then undef
       else seq (ask (d_certificate P)) (\<lambda>e.
       if e \<noteq> IOT_ERROR_NONE then ret e
       else seq (mqtt_call P t Op_connect) (\<lambda>rc.
         let clear = upd_ctx (\<lambda>c. c\<lparr>mqtt_connect_critical_reject_count := 0\<rparr>) in
         if rc = 0 then and_then clear (ret IOT_ERROR_NONE)
         else if rc = E_ST_MQTT_UNNACCEPTABLE_PROTOCOL \<or> rc = E_ST_MQTT_SERVER_UNAVAILABLE
         then and_then clear (ret IOT_ERROR_MQTT_SERVER_UNAVAIL)
         else if rc = E_ST_MQTT_CLIENTID_REJECTED \<or> rc = E_ST_MQTT_BAD_USERNAME_OR_PASSWORD
                 \<or> rc = E_ST_MQTT_NOT_AUTHORIZED
         then seq (the_ctx mqtt_connect_critical_reject_count) (\<lambda>n.
              and_then (upd_ctx (\<lambda>c. c\<lparr>mqtt_connect_critical_reject_count := n + 1\<rparr>))
                (if n < IOT_MQTT_CONNECT_CRITICAL_REJECT_MAX then ret IOT_ERROR_MQTT_CONNECT_FAIL
                 else and_then (iot_cleanup P True) (ret IOT_ERROR_MQTT_REJECT_CONNECT)))
         else if rc = E_ST_MQTT_PACKET_TIMEOUT then and_then clear (ret IOT_ERROR_MQTT_CONNECT_TIMEOUT)
         else and_then clear (ret IOT_ERROR_MQTT_CONNECT_FAIL)))))"

text \<open>
  Waiting for the answer of the server: each round yields to the client, until the answer is in or the timer
  has expired, after \<open>n\<close> rounds.
\<close>

definition sign_status :: "iot_connect_type \<Rightarrow> iot_context \<Rightarrow> gg_connection_request_status" where
  "sign_status t c = (case t of IOT_CONNECT_TYPE_REGISTRATION \<Rightarrow> sign_up_status c
     | IOT_CONNECT_TYPE_COMMUNICATION \<Rightarrow> sign_in_status c)"

fun wait_response :: "('n, 'j) device \<Rightarrow> iot_connect_type \<Rightarrow> nat \<Rightarrow> ('n dev, unit) prog" where
  "wait_response P t 0 = skip"
| "wait_response P t (Suc n) = seq (mqtt_call P t Op_yield) (\<lambda>_. seq (the_ctx (sign_status t)) (\<lambda>s.
     if s \<noteq> GG_CONNECTION_REQUEST_STATUS_WAITING then skip else wait_response P t n))"

definition iot_es_mqtt_registration :: "('n, 'j) device \<Rightarrow> ('n dev, iot_error) prog" where
  "iot_es_mqtt_registration P = and_then (upd_reg (\<lambda>r. r\<lparr>rd_updated := False\<rparr>))
     (seq (the_ctx devconf_dip) (\<lambda>dip.
      seq (case dip of
             None \<Rightarrow> ret IOT_ERROR_NONE
           | Some d \<Rightarrow> seq (ask (d_malloc P Mem_dip)) (\<lambda>ok.
               if \<not> ok then ret IOT_ERROR_MEM_ALLOC
               else seq (uuid_str P (dip_id d) 40) (\<lambda>r. ret (case r of Inl e \<Rightarrow> IOT_ERROR_BAD_REQ | Inr _ \<Rightarrow> IOT_ERROR_NONE)))) (\<lambda>e.
      if e \<noteq> IOT_ERROR_NONE then ret e
      else seq (ask (d_registration_payload P)) (\<lambda>ok.
        if \<not> ok then ret IOT_ERROR_MEM_ALLOC
        else seq (mqtt_call P IOT_CONNECT_TYPE_REGISTRATION Op_publish) (\<lambda>rc.
          ret (if rc \<noteq> 0 then IOT_ERROR_BAD_REQ else IOT_ERROR_NONE))))))"

text \<open>
  From a client that was created to one that is signed in, in the two branches of the function. The topic
  filters are allocated first. When the one for registrations cannot be, the code jumps into the other
  branch, past the initialisation of the pointers it frees there.
\<close>

definition disconnect_with :: "('n, 'j) device \<Rightarrow> iot_connect_type \<Rightarrow> iot_error \<Rightarrow> ('n dev, iot_error) prog" where
  "disconnect_with P t e = and_then (iot_es_mqtt_disconnect P t) (ret e)"

definition alloc_or ::
  "('n, 'j) device \<Rightarrow> alloc \<Rightarrow> iot_error \<Rightarrow> ('n dev, iot_error) prog \<Rightarrow> ('n dev, iot_error) prog" where
  "alloc_or P a e k = seq (ask (d_malloc P a)) (\<lambda>ok. if ok then k else ret e)"

definition event_topics :: "('n, 'j) device \<Rightarrow> ('n dev, iot_error) prog" where
  "event_topics P = (let t = IOT_CONNECT_TYPE_COMMUNICATION in
     seq (ask (d_malloc P Mem_event_topic)) (\<lambda>ok. and_then (upd_ctx (\<lambda>c. c\<lparr>mqtt_event_topic := ok\<rparr>)) (
     if \<not> ok then disconnect_with P t IOT_ERROR_MEM_ALLOC
     else seq (ask (d_malloc P Mem_health_topic)) (\<lambda>ok. and_then (upd_ctx (\<lambda>c. c\<lparr>mqtt_health_topic := ok\<rparr>)) (
     if \<not> ok then disconnect_with P t IOT_ERROR_MEM_ALLOC
     else and_then (upd_ctx (\<lambda>c. c\<lparr>evt_mqttcli := True\<rparr>)) (ret IOT_ERROR_NONE))))))"

definition sign_in :: "('n, 'j) device \<Rightarrow> ('n dev, iot_error) prog" where
  "sign_in P = (let t = IOT_CONNECT_TYPE_COMMUNICATION in
     seq (ask (d_timer_create P)) (\<lambda>ok.
     if \<not> ok then ret IOT_ERROR_MQTT_CONNECT_FAIL
     else alloc_or P (Mem_topic 0) IOT_ERROR_MEM_ALLOC (alloc_or P (Mem_topic 1) IOT_ERROR_MEM_ALLOC (
     seq (mqtt_call P t Op_subscribe) (\<lambda>rc.
     if rc \<noteq> 0 then disconnect_with P t IOT_ERROR_BAD_REQ
     else seq (ask (d_polls P)) (\<lambda>n. and_then (wait_response P t n) (
     seq (the_ctx sign_in_status) (\<lambda>s.
     if s \<noteq> GG_CONNECTION_REQUEST_STATUS_SUCCESS then disconnect_with P t IOT_ERROR_MQTT_CONNECT_FAIL
     else event_topics P))))))))"

definition connect_communication :: "('n, 'j) device \<Rightarrow> ('n dev, iot_error) prog" where
  "connect_communication P =
     and_then (upd_ctx (\<lambda>c. c\<lparr>mqtt_connection_try_count := mqtt_connection_try_count c + 1,
                 sign_in_status := GG_CONNECTION_REQUEST_STATUS_WAITING\<rparr>))
     (seq (iot_es_mqtt_connect P IOT_CONNECT_TYPE_COMMUNICATION) (\<lambda>e.
      if e \<noteq> IOT_ERROR_NONE then ret e
      else and_then (upd_ctx (\<lambda>c. c\<lparr>mqtt_connection_success_count := mqtt_connection_success_count c + 1\<rparr>))
        (sign_in P)))"

definition sign_up :: "('n, 'j) device \<Rightarrow> ('n dev, iot_error) prog" where
  "sign_up P = (let t = IOT_CONNECT_TYPE_REGISTRATION in
     seq (ask (d_timer_create P)) (\<lambda>ok.
     if \<not> ok then ret IOT_ERROR_MQTT_CONNECT_FAIL
     else seq (ask (d_malloc P Mem_reg_topic)) (\<lambda>ok.
     if \<not> ok then undef
     else seq (mqtt_call P t Op_subscribe) (\<lambda>rc.
     if rc \<noteq> 0 then disconnect_with P t IOT_ERROR_BAD_REQ
     else seq (ask (d_polls P)) (\<lambda>n. and_then (wait_response P t n) (
     seq (the_ctx sign_up_status) (\<lambda>s.
     if s \<noteq> GG_CONNECTION_REQUEST_STATUS_SUCCESS then disconnect_with P t IOT_ERROR_MQTT_CONNECT_FAIL
     else seq (iot_es_mqtt_registration P) (\<lambda>e.
     if e \<noteq> IOT_ERROR_NONE then disconnect_with P t e
     else and_then (upd_ctx (\<lambda>c. c\<lparr>reg_mqttcli := True\<rparr>)) (ret IOT_ERROR_NONE)))))))))"

definition connect_registration :: "('n, 'j) device \<Rightarrow> ('n dev, iot_error) prog" where
  "connect_registration P =
     and_then (upd_ctx (\<lambda>c. c\<lparr>sign_up_status := GG_CONNECTION_REQUEST_STATUS_WAITING\<rparr>))
     (seq (iot_es_mqtt_connect P IOT_CONNECT_TYPE_REGISTRATION) (\<lambda>e.
      if e \<noteq> IOT_ERROR_NONE then ret e else sign_up P))"

text \<open>
  \<open>iot_ret\<close> is still \<open>IOT_ERROR_NONE\<close> at the three exits before the branches where nothing sets it. A client is
  destroyed when the result is an error.
\<close>

definition iot_es_connect :: "('n, 'j) device \<Rightarrow> iot_connect_type \<Rightarrow> ('n dev, iot_error) prog" where
  "iot_es_connect P t = seq (the_ctx (\<lambda>c. c)) (\<lambda>c.
     if rate_limit c then ret IOT_ERROR_MQTT_CONNECT_FAIL
     else seq (nv_run (iot_nv_get_serial_number (d_posix P))) (\<lambda>sn. case sn of
       Inl e \<Rightarrow> ret e
     | Inr _ \<Rightarrow> if mnid c = None then undef
         else seq (ask (d_malloc P Mem_mnid)) (\<lambda>ok.
         if \<not> ok then ret IOT_ERROR_NONE
         else seq (ask (d_token P)) (\<lambda>e.
         if e \<noteq> IOT_ERROR_NONE then ret e
         else if t = IOT_CONNECT_TYPE_COMMUNICATION \<and> \<not> rd_updated (iot_reg_data c) then ret IOT_ERROR_NONE
         else seq (mqtt_call P t Op_create) (\<lambda>rc.
         if rc \<noteq> 0 then ret IOT_ERROR_NONE
         else case t of
           IOT_CONNECT_TYPE_COMMUNICATION \<Rightarrow> connect_communication P
         | IOT_CONNECT_TYPE_REGISTRATION \<Rightarrow> connect_registration P)))))"

end
