(* ===== verification/Device_Main.thy ===== *)
theory Device_Main
  imports Device_Link
begin

text \<open>
  The core of the device (\<^verbatim>\<open>src/iot_main.c\<close>): provisioning status, the state machine and the handler of
  commands, the work task, and the calls of the application. Wi-Fi control (\<open>iot_wifi_ctrl_request\<close>) is from
  \<^verbatim>\<open>src/iot_api.c\<close>.
\<close>

section \<open>Wi-Fi\<close>

text \<open>The SSID and the password are copied with \<open>strlen\<close>, so they must end inside their fields.\<close>

definition wifi_conf_station :: "iot_wifi_prov_data \<Rightarrow> ('n dev, unit) prog" where
  "wifi_conf_station wi = (if c_string (wp_ssid wi) = None \<or> c_string (wp_password wi) = None then undef else skip)"

definition wifi_result :: "iot_wifi_mode \<Rightarrow> iot_error \<Rightarrow> ('n dev, iot_error) prog" where
  "wifi_result mode e = and_then
     (on (e = IOT_ERROR_NONE) (upd_ctx (\<lambda>c. c\<lparr>is_wifi_station := (mode = IOT_WIFI_MODE_STATION)\<rparr>))) (ret e)"

definition leave_easysetup :: "('n dev, unit) prog" where
  "leave_easysetup = seq (the_ctx es_http_ready) (\<lambda>b. block [
     on b (and_then (upd_ctx (\<lambda>c. c\<lparr>es_http_ready := False\<rparr>)) iot_easysetup_deinit),
     upd_ctx (\<lambda>c. c\<lparr>scan_result := False, scan_num := 0\<rparr>)])"

text \<open>A mode that is set at the end: station and access point.\<close>

definition wifi_send :: "('n, 'j) device \<Rightarrow> iot_wifi_mode \<Rightarrow> ('n dev, iot_error) prog" where
  "wifi_send P mode = seq (ask (d_wifi_set_mode P mode)) (\<lambda>e.
     if e \<noteq> IOT_ERROR_NONE then and_then (iot_set_st_ecode_from_conn_error P e) (ret e)
     else if mode = IOT_WIFI_MODE_SOFTAP
     then seq (iot_easysetup_init P) (\<lambda>e.
       if e \<noteq> IOT_ERROR_NONE then ret e
       else and_then (upd_ctx (\<lambda>c. c\<lparr>es_http_ready := True\<rparr>)) (wifi_result mode e))
     else wifi_result mode e)"

definition iot_wifi_ctrl_request :: "('n, 'j) device \<Rightarrow> iot_wifi_mode \<Rightarrow> ('n dev, iot_error) prog" where
  "iot_wifi_ctrl_request P mode = (case mode of
     IOT_WIFI_MODE_OFF \<Rightarrow> and_then leave_easysetup (seq (ask (d_wifi_set_mode P mode)) (\<lambda>e.
       if e \<noteq> IOT_ERROR_NONE then ret e else wifi_result mode e))
   | IOT_WIFI_MODE_STATION \<Rightarrow> and_then leave_easysetup (seq (the_ctx (\<lambda>c. pd_wifi (prov_data c))) (\<lambda>wi.
       and_then (wifi_conf_station wi) (wifi_send P mode)))
   | IOT_WIFI_MODE_SOFTAP \<Rightarrow>
       if \<not> d_discovery_ssid P then ret IOT_ERROR_BAD_REQ
       else seq (ask (d_create_ssid P)) (\<lambda>e. if e \<noteq> IOT_ERROR_NONE then ret e else wifi_send P mode)
   | IOT_WIFI_MODE_SCAN \<Rightarrow> seq (ask (d_wifi_set_mode P mode)) (\<lambda>e.
       if e \<noteq> IOT_ERROR_NONE then ret e
       else seq (the_ctx scan_result) (\<lambda>b. seq (if b then ret True else ask (d_malloc P Mem_scan)) (\<lambda>ok.
         if \<not> ok then wifi_result mode e
         else seq (ask (d_wifi_scan P)) (\<lambda>n.
           and_then (upd_ctx (\<lambda>c. c\<lparr>scan_result := True, scan_num := n\<rparr>)) (wifi_result mode e))))))"

section \<open>Provisioning status\<close>

definition check_prov_data_validation :: "iot_device_prov_data \<Rightarrow> iot_error option" where
  "check_prov_data_validation p = do {
     c \<leftarrow> read_byte (wp_ssid (pd_wifi p)) 0;
     Some (if c = 0 then IOT_ERROR_INVALID_ARGS
           else if cp_broker_url (pd_cloud p) = Null then IOT_ERROR_INVALID_ARGS
           else if cp_broker_port (pd_cloud p) < 0 then IOT_ERROR_INVALID_ARGS
           else IOT_ERROR_NONE) }"

definition unlikely_with_stored_dip :: "('n, 'j) device \<Rightarrow> iot_dip_data \<Rightarrow> ('n dev, bool) prog" where
  "unlikely_with_stored_dip P chk = seq (iot_misc_info_load P (get_dip_from_json P)) (\<lambda>old. case old of
     Inl e \<Rightarrow> ret True
   | Inr d \<Rightarrow> ret (take 16 (dip_id chk) \<noteq> take 16 (dip_id d) \<or> dip_major_version chk \<noteq> dip_major_version d
       \<or> dip_minor_version chk \<noteq> dip_minor_version d))"

definition prepare_self_reged :: "('n, 'j) device \<Rightarrow> ('n dev, iot_error) prog" where
  "prepare_self_reged P = alloc_or P Mem_lookup IOT_ERROR_MEM_ALLOC (
     seq (ask (d_random_id P)) (\<lambda>id. case id of
       Inl e \<Rightarrow> ret e
     | Inr lookup \<Rightarrow> seq (iot_misc_info_load P (get_location_from_json P)) (\<lambda>loc. case loc of
         Inl e \<Rightarrow> ret e
       | Inr loc \<Rightarrow> alloc_or P Mem_location IOT_ERROR_MEM_ALLOC (
           seq (uuid_str P loc (IOT_REG_UUID_STR_LEN + 1)) (\<lambda>t. case t of
             Inl e \<Rightarrow> ret e
           | Inr t \<Rightarrow> seq (the_ctx (\<lambda>c. c)) (\<lambda>c. and_then (block [
               free_cell (lookup_id c),
               upd_ctx (\<lambda>c. c\<lparr>lookup_id := Live lookup\<rparr>),
               free_cell (cp_location (pd_cloud (prov_data c))),
               upd_cloud (\<lambda>p. p\<lparr>cp_location := Live t\<rparr>)]) (ret IOT_ERROR_NONE)))))))"

text \<open>\<open>deviceId\<close> from the string that was stored, cut to its length.\<close>

definition store_device_id :: "u8 list \<Rightarrow> ('n dev, unit) prog" where
  "store_device_id t = upd_reg (\<lambda>r. r\<lparr>rd_deviceId :=
     take IOT_REG_UUID_STR_LEN t @ [0] @ drop (Suc (min IOT_REG_UUID_STR_LEN (length t))) (rd_deviceId r)\<rparr>)"

definition start_new :: "('n dev, iot_state) prog" where
  "start_new = and_then (block [upd_reg (\<lambda>r. r\<lparr>rd_new_reged := True\<rparr>), upd_ctx (\<lambda>c. c\<lparr>onboarding_complete := False\<rparr>)])
     (ret IOT_STATE_PROV_ENTER)"

definition erase_device_id :: "('n, 'j) device \<Rightarrow> ('n dev, unit) prog" where
  "erase_device_id P = and_then (nv_run (iot_nv_erase (d_posix P) IOT_NVD_DEVICE_ID)) skip"

text \<open>The state to go to for a device that has settings and an identifier.\<close>

definition known_device :: "('n, 'j) device \<Rightarrow> u8 list \<Rightarrow> ('n dev, iot_state) prog" where
  "known_device P did = and_then (store_device_id did) (
     seq (the_ctx devconf_dip) (\<lambda>dip.
     seq (case dip of None \<Rightarrow> ret False | Some d \<Rightarrow> unlikely_with_stored_dip P d) (\<lambda>diff.
     seq (if diff then seq (prepare_self_reged P) (\<lambda>e. ret (e = IOT_ERROR_NONE)) else ret False) (\<lambda>diff.
     and_then (block [
       (if diff then upd_reg (\<lambda>r. r\<lparr>rd_self_reged := True\<rparr>) else upd_reg (\<lambda>r. r\<lparr>rd_updated := True\<rparr>)),
       upd_ctx (\<lambda>c. c\<lparr>onboarding_complete := True\<rparr>)])
     (ret (if diff then IOT_STATE_PROV_DONE else IOT_STATE_CLOUD_DISCONNECTED))))))"

definition nv_get_prov :: "('n, 'j) device \<Rightarrow> ('n dev, iot_error) prog" where
  "nv_get_prov P = seq (the_ctx prov_data) (\<lambda>p.
     seq (nv_run (\<lambda>s. map_option (\<lambda>(e, p, s). ((e, p), s)) (iot_nv_get_prov_data (d_posix P) p s))) (\<lambda>(e, p).
     and_then (upd_ctx (\<lambda>c. c\<lparr>prov_data := p\<rparr>)) (ret e)))"

definition prov_next_state :: "('n, 'j) device \<Rightarrow> ('n dev, iot_state) prog" where
  "prov_next_state P = seq (nv_get_prov P) (\<lambda>e.
     if e \<noteq> IOT_ERROR_NONE then and_then (erase_device_id P) start_new
     else seq (the_ctx prov_data) (\<lambda>p. case check_prov_data_validation p of
       None \<Rightarrow> undef
     | Some e \<Rightarrow> if e \<noteq> IOT_ERROR_NONE then and_then (erase_device_id P) start_new
         else seq (nv_run (iot_nv_get_device_id (d_posix P))) (\<lambda>id. case id of
           Inl e \<Rightarrow> start_new
         | Inr did \<Rightarrow> known_device P did)))"

definition check_prov_status :: "('n, 'j) device \<Rightarrow> bool \<Rightarrow> ('n dev, iot_error) prog" where
  "check_prov_status P cmd_only = and_then (block [
       upd_reg (\<lambda>r. r\<lparr>rd_new_reged := False\<rparr>), iot_api_prov_data_mem_free])
     (seq (prov_next_state P) (\<lambda>next.
      if cmd_only then ret IOT_ERROR_NONE else iot_state_update P next IOT_STATE_OPT_NONE))"

section \<open>The state machine\<close>

definition delete_easysetup_resources_all :: "('n dev, unit) prog" where
  "delete_easysetup_resources_all = upd_ctx (\<lambda>c. c\<lparr>es_res_created := False, pin := False,
     easysetup_security_context := False, easysetup_resp_queue := False\<rparr>)"

definition create_easysetup_resources :: "('n, 'j) device \<Rightarrow> bool \<Rightarrow> ('n dev, iot_error) prog" where
  "create_easysetup_resources P pin_num = (let fail = (\<lambda>e. and_then delete_easysetup_resources_all (ret e)) in
     seq (the_ctx (\<lambda>c. c)) (\<lambda>c.
     seq (if ownership_validation_type c AND IOT_OVF_TYPE_PIN = 0 then ret None
          else seq (if pin c then ret True else ask (d_malloc P Mem_pin)) (\<lambda>ok.
            if \<not> ok then ret (Some IOT_ERROR_MEM_ALLOC)
            else and_then (upd_ctx (\<lambda>c. c\<lparr>pin := True\<rparr>))
              (if pin_num then ret None else fail (Some IOT_ERROR_INVALID_ARGS)))) (\<lambda>stop.
     case stop of Some e \<Rightarrow> ret e
     | None \<Rightarrow> seq (ask (d_security_init P)) (\<lambda>ok. and_then (upd_ctx (\<lambda>c. c\<lparr>easysetup_security_context := ok\<rparr>)) (
         if \<not> ok then and_then delete_easysetup_resources_all (ret IOT_ERROR_SECURITY_INIT)
         else seq (if easysetup_resp_queue c then ret True else ask (d_malloc P Mem_resp_queue)) (\<lambda>ok.
           and_then (upd_ctx (\<lambda>c. c\<lparr>easysetup_resp_queue := ok\<rparr>)) (
           if \<not> ok then and_then delete_easysetup_resources_all (ret IOT_ERROR_BAD_REQ)
           else and_then (upd_ctx (\<lambda>c. c\<lparr>es_res_created := True\<rparr>)) (ret IOT_ERROR_NONE))))))))"

text \<open>\<open>_get_device_preference\<close>: an asynchronous publication, whose result is not looked at.\<close>

definition get_device_preference :: "('n, 'j) device \<Rightarrow> ('n dev, unit) prog" where
  "get_device_preference P = seq (the_ctx evt_mqttcli) (\<lambda>b.
     on b (and_then (mqtt_call P IOT_CONNECT_TYPE_COMMUNICATION Op_publish) skip))"

text \<open>Entering the onboarding: scan, and open the access point where discovery goes by its name.\<close>

definition enter_prov :: "('n, 'j) device \<Rightarrow> ('n dev, iot_error) prog" where
  "enter_prov P = seq (iot_wifi_ctrl_request P IOT_WIFI_MODE_SCAN) (\<lambda>e.
     if e \<noteq> IOT_ERROR_NONE \<or> \<not> d_discovery_ssid P then ret e
     else iot_wifi_ctrl_request P IOT_WIFI_MODE_SOFTAP)"

text \<open>
  What leaving a state does: \<open>Inl\<close> returns at once with that code; \<open>Inr (e, ms)\<close> goes on with the code \<open>e\<close> and the
  timeout of the new state.
\<close>

definition leave_state ::
  "('n, 'j) device \<Rightarrow> iot_state \<Rightarrow> iot_state \<Rightarrow> ('n dev, iot_error + (iot_error \<times> nat)) prog" where
  "leave_state P old new = (let
     no = ret (Inl IOT_ERROR_INVALID_ARGS);
     stay = ret (Inr (IOT_ERROR_NONE, 0));
     enter = seq (enter_prov P) (\<lambda>e. ret (if e \<noteq> IOT_ERROR_NONE then Inl e else Inr (e, EASYSETUP_TIMEOUT_MS)));
     register = seq (iot_command_send P IOT_COMMAND_CLOUD_REGISTERING None) (\<lambda>e. ret (Inr (e, REGISTRATION_TIMEOUT_MS)));
     connect = seq (iot_command_send P IOT_COMMAND_CLOUD_CONNECTING None) (\<lambda>e. ret (Inr (e, 0)))
   in case old of
     IOT_STATE_INITIALIZED \<Rightarrow>
       if new = IOT_STATE_PROV_ENTER then enter
       else if new = IOT_STATE_PROV_DONE then register
       else if new = IOT_STATE_CLOUD_DISCONNECTED then connect else no
   | IOT_STATE_PROV_ENTER \<Rightarrow>
       if new = IOT_STATE_PROV_CONFIRM then stay
       else if new = IOT_STATE_PROV_SLEEP
       then seq (iot_wifi_ctrl_request P IOT_WIFI_MODE_OFF) (\<lambda>e. ret (Inr (e, 0))) else no
   | IOT_STATE_PROV_CONFIRM \<Rightarrow> if new = IOT_STATE_PROV_DONE then register else no
   | IOT_STATE_PROV_DONE \<Rightarrow>
       if new = IOT_STATE_CLOUD_DISCONNECTED then connect
       else if new = IOT_STATE_PROV_ENTER then enter
       else if new = IOT_STATE_PROV_CONFIRM then stay else no
   | IOT_STATE_CLOUD_DISCONNECTED \<Rightarrow>
       if new = IOT_STATE_CLOUD_CONNECTED then and_then (get_device_preference P) stay
       else if new = IOT_STATE_PROV_CONFIRM then stay else no
   | IOT_STATE_CLOUD_CONNECTED \<Rightarrow> if new = IOT_STATE_CLOUD_DISCONNECTED then connect else no
   | IOT_STATE_PROV_SLEEP \<Rightarrow> no)"

definition set_state_timer :: "('n, 'j) device \<Rightarrow> nat \<Rightarrow> ('n dev, unit) prog" where
  "set_state_timer P ms = (if ms = 0 then upd_ctx (\<lambda>c. c\<lparr>state_timer := None\<rparr>)
     else seq (ask (d_timer_create P)) (\<lambda>ok. upd_ctx (\<lambda>c. c\<lparr>state_timer := if ok then Some ms else None\<rparr>)))"

text \<open>The application hears of a new state when it has a callback and asked for that kind of status.\<close>

definition report_state :: "iot_state \<Rightarrow> ('n dev, iot_error option) prog" where
  "report_state new = seq (the_ctx (\<lambda>c. c)) (\<lambda>c.
     let say = (\<lambda>st lv. and_then (on (status_maps c AND st \<noteq> 0) (call_status_cb st lv)) (ret None)) in
     if \<not> status_cb c then ret None
     else case new of
       IOT_STATE_PROV_SLEEP \<Rightarrow> ret None
     | IOT_STATE_PROV_ENTER \<Rightarrow> say IOT_STATUS_PROVISIONING IOT_STAT_LV_START
     | IOT_STATE_PROV_CONFIRM \<Rightarrow> ret None
     | IOT_STATE_PROV_DONE \<Rightarrow> say IOT_STATUS_PROVISIONING IOT_STAT_LV_DONE
     | IOT_STATE_CLOUD_DISCONNECTED \<Rightarrow> say IOT_STATUS_IDLE IOT_STAT_LV_STAY
     | IOT_STATE_CLOUD_CONNECTED \<Rightarrow> and_then (tell Cap_init) (say IOT_STATUS_CONNECTING IOT_STAT_LV_DONE)
     | IOT_STATE_INITIALIZED \<Rightarrow> ret (Some IOT_ERROR_INVALID_ARGS))"

definition do_state_updating :: "('n, 'j) device \<Rightarrow> iot_state \<Rightarrow> ('n dev, iot_error) prog" where
  "do_state_updating P new = seq (the_ctx curr_state) (\<lambda>old. seq (leave_state P old new) (\<lambda>r. case r of
     Inl e \<Rightarrow> ret e
   | Inr (e, ms) \<Rightarrow> and_then (set_state_timer P ms) (and_then (upd_ctx (\<lambda>c. c\<lparr>curr_state := new\<rparr>))
       (seq (report_state new) (\<lambda>r. ret (case r of None \<Rightarrow> e | Some e' \<Rightarrow> e'))))))"

section \<open>Commands\<close>

definition state_update_later :: "('n, 'j) device \<Rightarrow> iot_state \<Rightarrow> ('n dev, unit) prog" where
  "state_update_later P s = and_then (iot_state_update P s IOT_STATE_OPT_NONE) skip"

definition set_network_status :: "iot_error \<Rightarrow> ('n dev, unit) prog" where
  "set_network_status e = upd_ctx (\<lambda>c. c\<lparr>es_network_status := e\<rparr>)"

text \<open>Wi-Fi as a station, when it is not one yet.\<close>

definition need_station :: "('n, 'j) device \<Rightarrow> ('n dev, iot_error) prog" where
  "need_station P = seq (the_ctx is_wifi_station) (\<lambda>b.
     if b then ret IOT_ERROR_NONE else iot_wifi_ctrl_request P IOT_WIFI_MODE_STATION)"

definition drop_client :: "('n, 'j) device \<Rightarrow> iot_connect_type \<Rightarrow> ('n dev, unit) prog" where
  "drop_client P t = seq (the_ctx (\<lambda>c. case t of IOT_CONNECT_TYPE_REGISTRATION \<Rightarrow> reg_mqttcli c
       | IOT_CONNECT_TYPE_COMMUNICATION \<Rightarrow> evt_mqttcli c)) (\<lambda>b.
     on b (and_then (iot_es_disconnect P t) skip))"

definition command_registering :: "('n, 'j) device \<Rightarrow> ('n dev, unit) prog" where
  "command_registering P = seq (con_timeout_check P) (\<lambda>expired.
     if expired then iot_easysetup_deinit
     else seq (need_station P) (\<lambda>e.
     if e \<noteq> IOT_ERROR_NONE
     then and_then (set_network_status e) (seq (the_ctx (\<lambda>c. rd_self_reged (iot_reg_data c))) (\<lambda>self.
       if self then post P IOT_COMMAND_CLOUD_REGISTERING None else iot_easysetup_deinit))
     else and_then (block [
         upd_ctx (\<lambda>c. c\<lparr>d2d_event_request := True\<rparr>),
         drop_client P IOT_CONNECT_TYPE_REGISTRATION,
         upd_ctx (\<lambda>c. c\<lparr>registered_msg_requested := False\<rparr>)])
       (seq (iot_es_connect P IOT_CONNECT_TYPE_REGISTRATION) (\<lambda>e.
         if e = IOT_ERROR_MQTT_REJECT_CONNECT
         then block [set_network_status e, iot_easysetup_deinit, state_update_later P IOT_STATE_PROV_ENTER]
         else if e \<noteq> IOT_ERROR_NONE
         then and_then (set_network_status (if e = IOT_ERROR_NET_DNS_FAIL then IOT_ERROR_CONN_DNS_QUERY_FAIL
                                            else IOT_ERROR_CONN_STA_NO_INTERNET))
           (seq (the_ctx request_disconnect) (\<lambda>b. block [
             on (\<not> b) (post P IOT_COMMAND_CLOUD_REGISTERING None),
             post P IOT_COMMAND_CLOUD_REGISTERING None]))
         else and_then (set_network_status e) (upd_ctx (\<lambda>c. c\<lparr>registered_msg_requested := True\<rparr>))))))"

definition command_registered :: "('n, 'j) device \<Rightarrow> ('n dev, unit) prog" where
  "command_registered P = and_then (iot_es_disconnect P IOT_CONNECT_TYPE_REGISTRATION)
     (seq (the_ctx (\<lambda>c. c)) (\<lambda>c. and_then (block [
         free_cell (cp_location (pd_cloud (prov_data c))), upd_cloud (\<lambda>p. p\<lparr>cp_location := Null\<rparr>),
         free_cell (cp_room (pd_cloud (prov_data c))), upd_cloud (\<lambda>p. p\<lparr>cp_room := Null\<rparr>),
         (case rd_dip (iot_reg_data c) of None \<Rightarrow> skip
          | Some d \<Rightarrow> and_then (iot_misc_info_store P (set_dip_to_json P d)) (upd_reg (\<lambda>r. r\<lparr>rd_dip := None\<rparr>))),
         (case rd_locationId (iot_reg_data c) of None \<Rightarrow> skip
          | Some u \<Rightarrow> and_then (iot_misc_info_store P (set_location_to_json P u)) (upd_reg (\<lambda>r. r\<lparr>rd_locationId := None\<rparr>)))])
       (seq (the_ctx (\<lambda>c. c_string (rd_deviceId (iot_reg_data c)))) (\<lambda>id. case id of
          None \<Rightarrow> undef
        | Some did \<Rightarrow> seq (nv_run (iot_nv_set_device_id (d_posix P) did)) (\<lambda>e. block [
            drop_client P IOT_CONNECT_TYPE_REGISTRATION,
            set_network_status e,
            state_update_later P IOT_STATE_CLOUD_DISCONNECTED,
            upd_reg (\<lambda>r. r\<lparr>rd_self_reged := False\<rparr>)])))))"

text \<open>
  A failed connection: try again later. The delay comes from \<open>iot_util_generator_backoff\<close> with a random part; the
  timer keeps only that it runs.
\<close>

definition retry_connection :: "('n, 'j) device \<Rightarrow> iot_error \<Rightarrow> ('n dev, unit) prog" where
  "retry_connection P e = and_then (upd_ctx (\<lambda>c. c\<lparr>connection_retry_count := connection_retry_count c + 1\<rparr>))
     (seq (ask (d_timer_create P)) (\<lambda>ok. and_then (upd_ctx (\<lambda>c. c\<lparr>next_connection_retry_timer := ok\<rparr>)) (
      if \<not> ok then skip
      else and_then (set_network_status e) (
        if e = IOT_ERROR_MQTT_CONNECT_FAIL then and_then (iot_set_st_ecode P IOT_ST_ECODE_CE20_1) skip
        else if e = IOT_ERROR_MQTT_CONNECT_TIMEOUT then and_then (iot_set_st_ecode P IOT_ST_ECODE_CE20_3) skip
        else if e = IOT_ERROR_NET_DNS_FAIL
        then and_then (set_network_status IOT_ERROR_CONN_DNS_QUERY_FAIL) (and_then (iot_set_st_ecode P IOT_ST_ECODE_CE01) skip)
        else and_then (iot_set_st_ecode P IOT_ST_ECODE_CE20_2) skip))))"

definition connected :: "('n, 'j) device \<Rightarrow> ('n dev, unit) prog" where
  "connected P = block [
     upd_ctx (\<lambda>c. c\<lparr>connection_retry_count := 0, next_connection_retry_timer := False\<rparr>),
     set_network_status IOT_ERROR_NONE,
     and_then (iot_set_st_ecode P IOT_ST_ECODE_NONE) skip,
     state_update_later P IOT_STATE_CLOUD_CONNECTED]"

definition command_connecting :: "('n, 'j) device \<Rightarrow> ('n dev, unit) prog" where
  "command_connecting P = seq (con_timeout_check P) (\<lambda>expired. seq (the_ctx (\<lambda>c. c)) (\<lambda>c.
     if expired \<and> d2d_event_request c
     then and_then iot_easysetup_deinit (post P IOT_COMMAND_CLOUD_CONNECTING None)
     else if curr_state c \<noteq> IOT_STATE_CLOUD_DISCONNECTED then skip
     else if cloud_connection_pause c then post P IOT_COMMAND_CLOUD_CONNECTING None
     else seq (need_station P) (\<lambda>e.
     if e \<noteq> IOT_ERROR_NONE then post P IOT_COMMAND_CLOUD_CONNECTING None
     else and_then (drop_client P IOT_CONNECT_TYPE_COMMUNICATION)
       (seq (iot_es_connect P IOT_CONNECT_TYPE_COMMUNICATION) (\<lambda>e.
         if e = IOT_ERROR_MQTT_REJECT_CONNECT \<or> e = IOT_ERROR_INVALID_ARGS
         then post P IOT_COMMAND_NOTIFICATION_RECEIVED (Some (Noti_data Noti_dev_deleted))
         else if e \<noteq> IOT_ERROR_NONE then retry_connection P e
         else connected P)))))"

definition call_noti_cb :: "iot_noti_data \<Rightarrow> ('n dev, unit) prog" where
  "call_noti_cb d = seq (the_ctx noti_cb) (\<lambda>b. on b (tell (Noti d)))"

definition command_notification :: "('n, 'j) device \<Rightarrow> iot_noti_data \<Rightarrow> ('n dev, unit) prog" where
  "command_notification P d = (case d of
     Noti_dev_deleted \<Rightarrow> seq (the_ctx usr_delete_req) (\<lambda>b.
       if b then upd_ctx (\<lambda>c. c\<lparr>usr_delete_req := False\<rparr>)
       else and_then (call_noti_cb d) (iot_cleanup P True))
   | Noti_jwt_expired \<Rightarrow> block [
       and_then (iot_es_disconnect P IOT_CONNECT_TYPE_COMMUNICATION) skip,
       and_then (iot_es_connect P IOT_CONNECT_TYPE_COMMUNICATION) skip]
   | _ \<Rightarrow> call_noti_cb d)"

text \<open>The parameter of a state update is read without a test; a notification without one is ignored.\<close>

definition do_iot_main_command :: "('n, 'j) device \<Rightarrow> iot_command \<Rightarrow> ('n dev, unit) prog" where
  "do_iot_main_command P cmd = (case cmd_type cmd of
     IOT_COMMAND_STATE_UPDATE \<Rightarrow> (case param cmd of
       Some (State_data s opt) \<Rightarrow> and_then (do_state_updating P s) skip
     | _ \<Rightarrow> undef)
   | IOT_COMMAND_CLOUD_REGISTERING \<Rightarrow> command_registering P
   | IOT_COMMAND_CLOUD_REGISTERED \<Rightarrow> command_registered P
   | IOT_COMMAND_CLOUD_CONNECTING \<Rightarrow> command_connecting P
   | IOT_COMMAND_NOTIFICATION_RECEIVED \<Rightarrow> (case param cmd of
       None \<Rightarrow> skip
     | Some (Noti_data d) \<Rightarrow> command_notification P d
     | Some (State_data _ _) \<Rightarrow> undef))"

text \<open>One round of the work task: the oldest command, if there is one.\<close>

definition work_queue_task :: "('n, 'j) device \<Rightarrow> ('n dev, unit) prog" where
  "work_queue_task P = seq (gets work) (\<lambda>q. case q of
     [] \<Rightarrow> skip
   | cmd # rest \<Rightarrow> and_then (modify (\<lambda>w. w\<lparr>work := rest\<rparr>)) (do_iot_main_command P cmd))"

end
