(* ===== verification/Device_Api.thy ===== *)
theory Device_Api
  imports Device_Main
begin

text \<open>
  The calls of the application: starting the connection (\<open>st_conn_start\<close>, \<open>st_conn_start_ex\<close>), cleaning up
  (\<open>st_conn_cleanup\<close>), and the calls on a connected device (\<^verbatim>\<open>src/iot_main.c\<close>). The context is valid; whether a
  call comes from the work task itself and whether the lock of the interface could be taken is up to the
  platform.
\<close>

definition locked :: "('n, 'j) device \<Rightarrow> ('n dev, iot_error) prog \<Rightarrow> ('n dev, iot_error) prog" where
  "locked P m = seq (ask (d_thread_lock P)) (\<lambda>(same, lock).
     if same then ret IOT_ERROR_BAD_REQ else if \<not> lock then ret IOT_ERROR_BAD_REQ else m)"

definition set_status_cb :: "u32 \<Rightarrow> ('n dev, unit) prog" where
  "set_status_cb maps = upd_ctx (\<lambda>c. c\<lparr>status_cb := True, status_maps := maps\<rparr>)"

definition unset_status_cb :: "('n dev, unit) prog" where
  "unset_status_cb = upd_ctx (\<lambda>c. c\<lparr>status_cb := False, status_maps := 0\<rparr>)"

definition need_easysetup :: "('n, 'j) device \<Rightarrow> bool \<Rightarrow> ('n dev, iot_error) prog" where
  "need_easysetup P pin_num = seq (the_ctx es_res_created) (\<lambda>b.
     if b then ret IOT_ERROR_NONE else create_easysetup_resources P pin_num)"

text \<open>\<open>cb\<close>: whether a status callback is given; \<open>pin_num\<close>: whether a PIN is.\<close>

definition st_conn_start :: "('n, 'j) device \<Rightarrow> bool \<Rightarrow> u32 \<Rightarrow> bool \<Rightarrow> ('n dev, iot_error) prog" where
  "st_conn_start P cb maps pin_num = locked P (seq (the_ctx (\<lambda>c. c)) (\<lambda>c.
     if curr_state c \<noteq> IOT_STATE_INITIALIZED then ret IOT_ERROR_BAD_REQ
     else if ownership_validation_type c AND IOT_OVF_TYPE_BUTTON \<noteq> 0 \<and> \<not> cb then ret IOT_ERROR_BAD_REQ
     else seq (need_easysetup P pin_num) (\<lambda>e.
     if e \<noteq> IOT_ERROR_NONE then ret e
     else and_then (block [upd_ctx (\<lambda>c. c\<lparr>add_justworks := False\<rparr>), on cb (set_status_cb maps)])
       (seq (check_prov_status P False) (\<lambda>e.
         if e \<noteq> IOT_ERROR_NONE
         then seq (the_ctx (\<lambda>c. c)) (\<lambda>c. and_then (block [
           on (status_cb c) unset_status_cb, on (es_res_created c) delete_easysetup_resources_all]) (ret e))
         else ret e)))))"

definition delete_dev_card_by_usr :: "('n, 'j) device \<Rightarrow> ('n dev, iot_error) prog" where
  "delete_dev_card_by_usr P = seq (the_ctx (\<lambda>c. c)) (\<lambda>c.
     if \<not> evt_mqttcli c \<or> curr_state c \<noteq> IOT_STATE_CLOUD_CONNECTED then ret IOT_ERROR_NONE
     else and_then (upd_ctx (\<lambda>c. c\<lparr>usr_delete_req := True\<rparr>))
       (seq (mqtt_call P IOT_CONNECT_TYPE_COMMUNICATION Op_publish) (\<lambda>rc.
        if rc \<noteq> 0 then and_then (upd_ctx (\<lambda>c. c\<lparr>usr_delete_req := False\<rparr>)) (ret IOT_ERROR_BAD_REQ)
        else seq (ask (d_card_deleted P)) (\<lambda>done_in_time.
          if done_in_time then ret IOT_ERROR_NONE
          else and_then (upd_ctx (\<lambda>c. c\<lparr>usr_delete_req := False\<rparr>)) (ret IOT_ERROR_TIMEOUT)))))"

definition st_conn_cleanup :: "('n, 'j) device \<Rightarrow> bool \<Rightarrow> ('n dev, iot_error) prog" where
  "st_conn_cleanup P boot = locked P (seq (delete_dev_card_by_usr P) (\<lambda>e. and_then (iot_cleanup P boot) (ret e)))"

text \<open>\<open>start_pt\<close> is \<open>IOT_STATUS_CONNECTING\<close> or \<open>IOT_STATUS_PROVISIONING\<close>; anything else is refused.\<close>

definition st_conn_start_ex ::
  "('n, 'j) device \<Rightarrow> u32 \<Rightarrow> bool \<Rightarrow> bool \<Rightarrow> u32 \<Rightarrow> bool \<Rightarrow> ('n dev, iot_error) prog" where
  "st_conn_start_ex P start_pt skip_usr_confirm cb maps pin_num = seq (ask (d_thread_lock P)) (\<lambda>(same, lock).
     seq (the_ctx (\<lambda>c. c)) (\<lambda>c.
     if same then ret IOT_ERROR_BAD_REQ
     else if start_pt \<noteq> IOT_STATUS_CONNECTING \<and> start_pt \<noteq> IOT_STATUS_PROVISIONING then ret IOT_ERROR_BAD_REQ
     else if \<not> skip_usr_confirm \<and> ownership_validation_type c AND IOT_OVF_TYPE_BUTTON \<noteq> 0
             \<and> \<not> cb \<and> start_pt = IOT_STATUS_PROVISIONING then ret IOT_ERROR_BAD_REQ
     else if \<not> lock then ret IOT_ERROR_BAD_REQ
     else and_then (block [
         on (curr_state c \<noteq> IOT_STATE_INITIALIZED) (iot_cleanup P False),
         upd_ctx (\<lambda>c. c\<lparr>curr_state := IOT_STATE_INITIALIZED\<rparr>)])
       (seq (if start_pt = IOT_STATUS_CONNECTING
             then seq (check_prov_status P True) (\<lambda>e.
               if e \<noteq> IOT_ERROR_NONE then ret e
               else seq (the_ctx (\<lambda>c. rd_new_reged (iot_reg_data c))) (\<lambda>b.
                 if b then ret IOT_ERROR_BAD_REQ
                 else and_then (iot_state_update P IOT_STATE_CLOUD_DISCONNECTED IOT_STATE_OPT_NONE) (ret IOT_ERROR_NONE)))
             else seq (need_easysetup P pin_num) (\<lambda>e.
               if e \<noteq> IOT_ERROR_NONE then ret e
               else and_then (upd_reg (\<lambda>r. r\<lparr>rd_new_reged := True\<rparr>))
                 (and_then (iot_state_update P IOT_STATE_PROV_ENTER IOT_STATE_OPT_NONE)
                 (and_then (upd_ctx (\<lambda>c. c\<lparr>add_justworks := skip_usr_confirm\<rparr>)) (ret IOT_ERROR_NONE))))) (\<lambda>e.
        if e \<noteq> IOT_ERROR_NONE then ret e else and_then (on cb (set_status_cb maps)) (ret IOT_ERROR_NONE)))))"

section \<open>Calls on a running device\<close>

datatype info = Info_status u32 u32 | Info_provisioned bool

definition st_info_status :: "('n, 'j) device \<Rightarrow> ('n dev, iot_error + info) prog" where
  "st_info_status P = seq (ask (d_thread_lock P)) (\<lambda>(_, lock). seq (the_ctx reported_stat) (\<lambda>r.
     if \<not> lock then ret (Inl IOT_ERROR_BAD_REQ)
     else if r = 0 then ret (Inl IOT_ERROR_BAD_REQ)
     else ret (Inr (Info_status (r AND 15) (drop_bit 8 r)))))"

definition st_info_provisioned :: "('n, 'j) device \<Rightarrow> ('n dev, iot_error + info) prog" where
  "st_info_provisioned P = seq (ask (d_thread_lock P)) (\<lambda>(_, lock).
     if \<not> lock then ret (Inl IOT_ERROR_BAD_REQ)
     else seq (nv_run (iot_nv_prov_data_exist (d_posix P))) (\<lambda>b. ret (Inr (Info_provisioned b))))"

definition st_change_device_name :: "('n, 'j) device \<Rightarrow> u8 list \<Rightarrow> ('n dev, iot_error) prog" where
  "st_change_device_name P new_name = seq (the_ctx (\<lambda>c. c)) (\<lambda>c.
     if curr_state c \<noteq> IOT_STATE_CLOUD_CONNECTED \<or> \<not> evt_mqttcli c then ret IOT_ERROR_BAD_REQ
     else if length new_name > 20 then ret IOT_ERROR_INVALID_ARGS
     else seq (ask (JSON_CREATE_OBJECT (d_json P))) (\<lambda>root.
     seq (ask (JSON_CREATE_STRING (d_json P) new_name)) (\<lambda>item.
     seq (ask (JSON_PRINT (d_json P) (case item of None \<Rightarrow> root | Some i \<Rightarrow> JSON_ADD_ITEM_TO_OBJECT (d_json P) root ''label'' i))) (\<lambda>t.
     if t = None then ret IOT_ERROR_BAD_REQ
     else seq (mqtt_call P IOT_CONNECT_TYPE_COMMUNICATION Op_publish) (\<lambda>rc.
       ret (if rc \<noteq> 0 then IOT_ERROR_MQTT_PUBLISH_FAIL else IOT_ERROR_NONE))))))"

definition st_change_health_period :: "('n, 'j) device \<Rightarrow> int \<Rightarrow> ('n dev, iot_error) prog" where
  "st_change_health_period P new_period = (let J = d_json P in seq (the_ctx (\<lambda>c. c)) (\<lambda>c.
     if curr_state c \<noteq> IOT_STATE_CLOUD_CONNECTED \<or> \<not> evt_mqttcli c then ret IOT_ERROR_BAD_REQ
     else seq (ask (JSON_CREATE_OBJECT J)) (\<lambda>root.
     seq (ask (JSON_CREATE_STRING J (cstr ''changePeriod''))) (\<lambda>item.
     let root = (case item of None \<Rightarrow> root | Some i \<Rightarrow> JSON_ADD_ITEM_TO_OBJECT J root ''status'' i) in
     seq (ask (JSON_CREATE_NUMBER J new_period)) (\<lambda>item.
     seq (ask (JSON_PRINT J (case item of None \<Rightarrow> root | Some i \<Rightarrow> JSON_ADD_ITEM_TO_OBJECT J root ''newPeriod'' i))) (\<lambda>t.
     if t = None then ret IOT_ERROR_BAD_REQ
     else seq (mqtt_call P IOT_CONNECT_TYPE_COMMUNICATION Op_publish) (\<lambda>rc.
       if rc \<noteq> 0 then ret IOT_ERROR_MQTT_PUBLISH_FAIL
       else and_then (mqtt_call P IOT_CONNECT_TYPE_COMMUNICATION Op_ping_period) (ret IOT_ERROR_NONE))))))))"

definition st_conn_set_noti_cb :: "('n dev, unit) prog" where
  "st_conn_set_noti_cb = upd_ctx (\<lambda>c. c\<lparr>noti_cb := True\<rparr>)"

section \<open>Confirmation by the user\<close>

abbreviation (input) OVF_BIT_JUSTWORKS :: int where "OVF_BIT_JUSTWORKS \<equiv> 0"
abbreviation (input) OVF_BIT_QR :: int where "OVF_BIT_QR \<equiv> 1"
abbreviation (input) OVF_BIT_SERIAL_NUMBER :: int where "OVF_BIT_SERIAL_NUMBER \<equiv> 4"
abbreviation (input) ES_CONFIRM_FAIL_TIMEOUT :: nat where "ES_CONFIRM_FAIL_TIMEOUT \<equiv> 10000"
abbreviation (input) IOT_ERROR_EASYSETUP_INVALID_QR :: iot_error where "IOT_ERROR_EASYSETUP_INVALID_QR \<equiv> IOT_ERROR_OTHER (- 421)"
abbreviation (input) IOT_ERROR_EASYSETUP_INVALID_SERIAL_NUMBER :: iot_error where
  "IOT_ERROR_EASYSETUP_INVALID_SERIAL_NUMBER \<equiv> IOT_ERROR_OTHER (- 422)"
abbreviation (input) IOT_ERROR_EASYSETUP_INTERNAL_SERVER_ERROR :: iot_error where
  "IOT_ERROR_EASYSETUP_INTERNAL_SERVER_ERROR \<equiv> IOT_ERROR_OTHER (- 501)"
abbreviation (input) IOT_ERROR_EASYSETUP_SERIAL_NOT_FOUND :: iot_error where
  "IOT_ERROR_EASYSETUP_SERIAL_NOT_FOUND \<equiv> IOT_ERROR_OTHER (- 523)"
abbreviation (input) IOT_ERROR_EASYSETUP_CONFIRM_DENIED :: iot_error where
  "IOT_ERROR_EASYSETUP_CONFIRM_DENIED \<equiv> IOT_ERROR_OTHER (- 524)"

text \<open>
  \<open>_es_confirm_check_manager\<close> of \<^verbatim>\<open>src/easysetup/http/tcp/iot_easysetup_d2d_tcp.c\<close>. It runs as an item of the work
  queue, so the state update it sends is handled only after it has returned; \<open>d_confirmed\<close> is whether the button
  was pressed in time.
\<close>

definition confirm_serial :: "('n, 'j) device \<Rightarrow> u8 list option \<Rightarrow> ('n dev, iot_error) prog" where
  "confirm_serial P sn = (case sn of
     None \<Rightarrow> ret IOT_ERROR_EASYSETUP_INVALID_QR
   | Some sn \<Rightarrow> seq (nv_run (iot_nv_get_serial_number (d_posix P))) (\<lambda>r. case r of
       Inl e \<Rightarrow> ret IOT_ERROR_EASYSETUP_SERIAL_NOT_FOUND
     | Inr dev_sn \<Rightarrow> ret (if sn = dev_sn then IOT_ERROR_NONE else IOT_ERROR_EASYSETUP_INVALID_SERIAL_NUMBER)))"

definition confirm_button :: "('n, 'j) device \<Rightarrow> ('n dev, iot_error) prog" where
  "confirm_button P = seq (ask (d_confirmed P)) (\<lambda>ok.
     if ok then ret IOT_ERROR_NONE
     else and_then (iot_set_st_ecode P IOT_ST_ECODE_EE01)
       (and_then (iot_state_timeout_change IOT_STATE_PROV_CONFIRM ES_CONFIRM_FAIL_TIMEOUT)
       (ret IOT_ERROR_EASYSETUP_CONFIRM_DENIED)))"

definition es_confirm_check_manager ::
  "('n, 'j) device \<Rightarrow> int \<Rightarrow> u8 list option \<Rightarrow> ('n dev, iot_error) prog" where
  "es_confirm_check_manager P confirm_feature sn =
     and_then (upd_ctx (\<lambda>c. c\<lparr>curr_otm_feature := confirm_feature\<rparr>))
     (seq (iot_state_update P IOT_STATE_PROV_CONFIRM IOT_STATE_OPT_NEED_INTERACT) (\<lambda>e.
      if e \<noteq> IOT_ERROR_NONE then ret IOT_ERROR_EASYSETUP_INTERNAL_SERVER_ERROR
      else if confirm_feature = OVF_BIT_JUSTWORKS then ret IOT_ERROR_NONE
      else if confirm_feature = OVF_BIT_QR \<or> confirm_feature = OVF_BIT_SERIAL_NUMBER then confirm_serial P sn
      else if confirm_feature = OVF_BIT_BUTTON then confirm_button P
      else ret IOT_ERROR_NONE))"

text \<open>The end of the onboarding: the state that starts the registration.\<close>

definition setup_complete :: "('n, 'j) device \<Rightarrow> ('n dev, iot_error) prog" where
  "setup_complete P = seq (iot_state_update P IOT_STATE_PROV_DONE IOT_STATE_OPT_NONE) (\<lambda>e.
     ret (if e \<noteq> IOT_ERROR_NONE then IOT_ERROR_EASYSETUP_INTERNAL_SERVER_ERROR else IOT_ERROR_NONE))"

text \<open>The context \<open>st_conn_init\<close> makes: all zero but the configuration it has read.\<close>

definition init_ctx :: "u32 \<Rightarrow> u8 list option \<Rightarrow> iot_dip_data option \<Rightarrow> iot_context" where
  "init_ctx ovt mn dip = \<lparr>es_res_created = False, es_http_ready = False, es_ble_ready = False,
     curr_state = IOT_STATE_INITIALIZED, state_timer = None, evt_mqttcli = False,
     sign_in_status = GG_CONNECTION_REQUEST_STATUS_NOT_INITIALIZED, reg_mqttcli = False,
     registered_msg_requested = False, mqtt_connect_critical_reject_count = 0,
     sign_up_status = GG_CONNECTION_REQUEST_STATUS_NOT_INITIALIZED, mqtt_event_topic = False,
     mqtt_health_topic = False, prov_data = zero_prov, ownership_validation_type = ovt, mnid = mn,
     devconf_dip = dip, easysetup_security_context = False,
     iot_reg_data = \<lparr>rd_dip = None, rd_locationId = None, rd_deviceId = replicate 37 0, rd_updated = False,
       rd_new_reged = False, rd_self_reged = False\<rparr>,
     scan_num = 0, scan_result = False, lookup_id = Null, noti_cb = False, status_cb = False, status_maps = 0,
     reported_stat = 0, curr_otm_feature = 0, pin = False, easysetup_resp_queue = False, add_justworks = False,
     rate_limit = False, rate_limit_timeout = False, mqtt_connection_success_count = 0,
     mqtt_connection_try_count = 0, usr_delete_req = False,
     last_st_ecode = \<lparr>ecode_type = IOT_ST_ECODE_NONE, ecode = ''''\<rparr>, is_wifi_station = False,
     es_network_status = IOT_ERROR_NONE, request_disconnect = False, cloud_connection_pause = False,
     wifi_candidate_frequency = 0, d2d_event_request = False, onboarding_complete = False,
     connection_retry_count = 0, next_connection_retry_timer = False, cloud_con_timer = False\<rparr>"

end
