(* ===== verification/Http_Server.thy ===== *)
theory Http_Server
  imports Http_Safe Device_Api
begin

text \<open>
  The handler of the requests of the onboarding, \<^verbatim>\<open>src/easysetup/http/iot_easysetup_http.c\<close>: the order of the
  steps, the hand-over to the work task and the text of the response. The work task answers through the queue of
  responses; its answer is an argument here. \<open>iot_easysetup_request\<close> is in \<^verbatim>\<open>src/iot_api.c\<close>.
\<close>

section \<open>State\<close>

text \<open>The device, the step the server expects next, and the requests handed to the work task so far.\<close>

record 'n srv =
  sdev :: "'n dev"
  ref_step :: nat
  requests :: "(iot_easysetup_step \<times> u8 list option) list"

text \<open>An answer: the step it is for, an error, and a payload or a null pointer.\<close>

type_synonym response = "iot_easysetup_step \<times> iot_error \<times> u8 list option"

definition in_dev :: "('n dev, 'a) prog \<Rightarrow> ('n srv, 'a) prog" where
  "in_dev m w = (case m (sdev w) of Returns a d \<Rightarrow> Returns a (w\<lparr>sdev := d\<rparr>) | Reboots d \<Rightarrow> Reboots (w\<lparr>sdev := d\<rparr>)
     | Undefined \<Rightarrow> Undefined)"

definition set_ref :: "nat \<Rightarrow> ('n srv, unit) prog" where
  "set_ref r = modify (\<lambda>w. w\<lparr>ref_step := r\<rparr>)"

abbreviation (input) IOT_STAT_LV_CONN :: u32 where "IOT_STAT_LV_CONN \<equiv> 4"
abbreviation (input) IOT_ERROR_EASYSETUP_INVALID_CMD :: iot_error where "IOT_ERROR_EASYSETUP_INVALID_CMD \<equiv> IOT_ERROR_OTHER (- 401)"
abbreviation (input) IOT_ERROR_EASYSETUP_INVALID_REQUEST :: iot_error where
  "IOT_ERROR_EASYSETUP_INVALID_REQUEST \<equiv> IOT_ERROR_OTHER (- 402)"
abbreviation (input) IOT_ERROR_EASYSETUP_INVALID_SEQUENCE :: iot_error where
  "IOT_ERROR_EASYSETUP_INVALID_SEQUENCE \<equiv> IOT_ERROR_OTHER (- 403)"
abbreviation (input) IOT_ERROR_EASYSETUP_QUEUE_SEND_ERROR :: iot_error where
  "IOT_ERROR_EASYSETUP_QUEUE_SEND_ERROR \<equiv> IOT_ERROR_OTHER (- 507)"
abbreviation (input) IOT_ERROR_EASYSETUP_QUEUE_RECV_ERROR :: iot_error where
  "IOT_ERROR_EASYSETUP_QUEUE_RECV_ERROR \<equiv> IOT_ERROR_OTHER (- 508)"

section \<open>The order of the steps\<close>

text \<open>The expected step after a request is accepted; none when it is out of order.\<close>

definition next_ref :: "iot_easysetup_step \<Rightarrow> nat \<Rightarrow> nat" where
  "next_ref s r = (if step_code s < step_code IOT_EASYSETUP_STEP_LOG_SYSTEMINFO then r + 1 else 0)"

definition get_sequence :: "iot_easysetup_step \<Rightarrow> nat \<Rightarrow> nat option" where
  "get_sequence s r =
     (if step_code s \<noteq> r \<and> step_code s < step_code IOT_EASYSETUP_STEP_LOG_SYSTEMINFO then
        if s = IOT_EASYSETUP_STEP_WIFISCANINFO
          \<and> (r = step_code IOT_EASYSETUP_STEP_CONFIRM \<or> r = step_code IOT_EASYSETUP_STEP_WIFIPROVIONINGINFO)
        then Some (next_ref s (step_code IOT_EASYSETUP_STEP_WIFISCANINFO)) else None
      else Some (next_ref s r))"

definition post_sequence :: "iot_easysetup_step \<Rightarrow> nat \<Rightarrow> nat option" where
  "post_sequence s r =
     (if step_code s \<noteq> r \<and> step_code s < step_code IOT_EASYSETUP_STEP_LOG_SYSTEMINFO then
        if s = IOT_EASYSETUP_STEP_WIFIPROVIONINGINFO
          \<and> (r = step_code IOT_EASYSETUP_STEP_CONFIRM \<or> r = step_code IOT_EASYSETUP_STEP_CONFIRMINFO)
        then Some (next_ref s (step_code IOT_EASYSETUP_STEP_WIFIPROVIONINGINFO)) else None
      else Some (next_ref s r))"

section \<open>The work task's part\<close>

definition iot_easysetup_request ::
  "('n, 'j) device \<Rightarrow> iot_easysetup_step \<Rightarrow> u8 list option \<Rightarrow> ('n srv, iot_error) prog" where
  "iot_easysetup_request P s payload = seq (in_dev (ask (d_malloc P Mem_request))) (\<lambda>ok.
     if \<not> ok then ret IOT_ERROR_MEM_ALLOC
     else seq (in_dev (ask (d_queue_send P))) (\<lambda>e.
     if e \<noteq> IOT_ERROR_NONE then ret e
     else and_then (modify (\<lambda>w. w\<lparr>requests := requests w @ [(s, payload)]\<rparr>)) (ret IOT_ERROR_NONE)))"

text \<open>The error of a response and its payload.\<close>

definition take_response :: "iot_easysetup_step \<Rightarrow> response option \<Rightarrow> iot_error \<times> u8 list option" where
  "take_response s r = (case r of
     None \<Rightarrow> (IOT_ERROR_EASYSETUP_QUEUE_RECV_ERROR, None)
   | Some (s', e, p) \<Rightarrow> if s' \<noteq> s then (IOT_ERROR_EASYSETUP_INTERNAL_SERVER_ERROR, None)
       else (e, if e = IOT_ERROR_NONE then p else None))"

text \<open>A request that cannot be handed over leaves the function at once (\<^const>\<open>Inl\<close>), without a reset of the order.\<close>

definition exchange :: "('n, 'j) device \<Rightarrow> iot_easysetup_step \<Rightarrow> u8 list option \<Rightarrow> response option
    \<Rightarrow> ('n srv, iot_error + (iot_error \<times> u8 list option)) prog" where
  "exchange P s payload answer = seq (iot_easysetup_request P s payload) (\<lambda>e.
     if e \<noteq> IOT_ERROR_NONE
     then ret (Inl (if e = IOT_ERROR_EASYSETUP_QUEUE_SEND_ERROR then e else IOT_ERROR_EASYSETUP_INTERNAL_SERVER_ERROR))
     else ret (Inr (take_response s answer)))"

section \<open>Requests\<close>

definition report_contact :: "('n dev, unit) prog" where
  "report_contact = seq (the_ctx (\<lambda>c. c)) (\<lambda>c.
     on (status_maps c AND IOT_STATUS_PROVISIONING \<noteq> 0 \<and> status_cb c) (call_status_cb IOT_STATUS_PROVISIONING IOT_STAT_LV_CONN))"

definition gen_get_payload :: "('n, 'j) device \<Rightarrow> iot_easysetup_step \<Rightarrow> response option
    \<Rightarrow> ('n srv, iot_error \<times> u8 list option) prog" where
  "gen_get_payload P cmd answer = (
     if cmd = IOT_EASYSETUP_INVALID_STEP then ret (IOT_ERROR_EASYSETUP_INVALID_CMD, None)
     else and_then (on (cmd = IOT_EASYSETUP_STEP_DEVICEINFO) (in_dev report_contact))
       (seq (gets ref_step) (\<lambda>r. case get_sequence cmd r of
          None \<Rightarrow> and_then (set_ref 0) (ret (IOT_ERROR_EASYSETUP_INVALID_SEQUENCE, None))
        | Some r \<Rightarrow> and_then (set_ref r) (seq (exchange P cmd None answer) (\<lambda>x. case x of
            Inl e \<Rightarrow> ret (e, None)
          | Inr (e, p) \<Rightarrow> and_then (on (e \<noteq> IOT_ERROR_NONE) (set_ref 0)) (ret (e, p)))))))"

definition gen_post_payload :: "('n, 'j) device \<Rightarrow> iot_easysetup_step \<Rightarrow> u8 list option \<Rightarrow> response option
    \<Rightarrow> ('n srv, iot_error \<times> u8 list option) prog" where
  "gen_post_payload P cmd in_payload answer = (
     if in_payload = None \<and> cmd \<noteq> IOT_EASYSETUP_STEP_SETUPCOMPLETE \<and> cmd \<noteq> IOT_EASYSETUP_STEP_LOG_CREATE_DUMP
     then ret (IOT_ERROR_EASYSETUP_INVALID_REQUEST, None)
     else if cmd = IOT_EASYSETUP_INVALID_STEP then ret (IOT_ERROR_EASYSETUP_INVALID_CMD, None)
     else seq (gets ref_step) (\<lambda>r. case post_sequence cmd r of
       None \<Rightarrow> and_then (set_ref 0) (ret (IOT_ERROR_EASYSETUP_INVALID_SEQUENCE, None))
     | Some r \<Rightarrow> and_then (set_ref r) (seq (exchange P cmd in_payload answer) (\<lambda>x. case x of
         Inl e \<Rightarrow> ret (e, None)
       | Inr (e, p) \<Rightarrow>
           if e \<noteq> IOT_ERROR_NONE then and_then (set_ref 0) (ret (e, p))
           else if cmd = IOT_EASYSETUP_STEP_SETUPCOMPLETE
           then seq (in_dev (setup_complete P)) (\<lambda>e. ret (e, p)) else ret (e, p)))))"

section \<open>Responses\<close>

primrec error_code :: "iot_error \<Rightarrow> int" where
  "error_code IOT_ERROR_NONE = 0"
| "error_code IOT_ERROR_BAD_REQ = - 1"
| "error_code IOT_ERROR_INVALID_ARGS = - 2"
| "error_code IOT_ERROR_UNINITIALIZED = - 5"
| "error_code IOT_ERROR_MEM_ALLOC = - 6"
| "error_code IOT_ERROR_TIMEOUT = - 7"
| "error_code IOT_ERROR_NV_DATA_ERROR = - 14"
| "error_code IOT_ERROR_NV_DATA_NOT_EXIST = - 15"
| "error_code IOT_ERROR_FS_OPEN_FAIL = - 16"
| "error_code IOT_ERROR_FS_READ_FAIL = - 17"
| "error_code IOT_ERROR_FS_WRITE_FAIL = - 18"
| "error_code IOT_ERROR_FS_REMOVE_FAIL = - 19"
| "error_code IOT_ERROR_FS_CLOSE_FAIL = - 20"
| "error_code IOT_ERROR_FS_NO_FILE = - 21"
| "error_code IOT_ERROR_MQTT_CONNECT_FAIL = - 201"
| "error_code IOT_ERROR_MQTT_SERVER_UNAVAIL = - 202"
| "error_code IOT_ERROR_MQTT_PUBLISH_FAIL = - 203"
| "error_code IOT_ERROR_MQTT_REJECT_CONNECT = - 204"
| "error_code IOT_ERROR_MQTT_CONNECT_TIMEOUT = - 205"
| "error_code IOT_ERROR_NET_DNS_FAIL = - 303"
| "error_code IOT_ERROR_CONN_OPERATE_FAIL = - 601"
| "error_code IOT_ERROR_CONN_SOFTAP_CONF_FAIL = - 610"
| "error_code IOT_ERROR_CONN_SOFTAP_CONN_FAIL = - 611"
| "error_code IOT_ERROR_CONN_SOFTAP_DHCP_FAIL = - 612"
| "error_code IOT_ERROR_CONN_SOFTAP_AUTH_FAIL = - 613"
| "error_code IOT_ERROR_CONN_STA_CONF_FAIL = - 620"
| "error_code IOT_ERROR_CONN_STA_CONN_FAIL = - 621"
| "error_code IOT_ERROR_CONN_STA_DHCP_FAIL = - 622"
| "error_code IOT_ERROR_CONN_STA_AP_NOT_FOUND = - 623"
| "error_code IOT_ERROR_CONN_STA_ASSOC_FAIL = - 624"
| "error_code IOT_ERROR_CONN_STA_AUTH_FAIL = - 625"
| "error_code IOT_ERROR_CONN_STA_NO_INTERNET = - 626"
| "error_code IOT_ERROR_CONN_DNS_QUERY_FAIL = - 630"
| "error_code IOT_ERROR_SECURITY_INIT = - 1001"
| "error_code IOT_ERROR_SECURITY_STORAGE_INVALID_ID = - 1126"
| "error_code IOT_ERROR_SECURITY_FS_OPEN = - 1200"
| "error_code IOT_ERROR_SECURITY_FS_READ = - 1201"
| "error_code IOT_ERROR_SECURITY_FS_WRITE = - 1202"
| "error_code IOT_ERROR_SECURITY_FS_CLOSE = - 1203"
| "error_code IOT_ERROR_SECURITY_FS_REMOVE = - 1204"
| "error_code IOT_ERROR_SECURITY_FS_BUFFER = - 1205"
| "error_code IOT_ERROR_SECURITY_FS_NOT_FOUND = - 1208"
| "error_code IOT_ERROR_SECURITY_FS_INVALID_ARGS = - 1209"
| "error_code IOT_ERROR_SECURITY_FS_INVALID_TARGET = - 1210"
| "error_code IOT_ERROR_SECURITY_FS_UNKNOWN_TARGET = - 1211"
| "error_code (IOT_ERROR_OTHER e) = e"

definition is_400_error :: "iot_error \<Rightarrow> bool" where
  "is_400_error e \<longleftrightarrow> error_code e \<le> - 400 \<and> - 500 < error_code e"

fun digit_count_payload :: "nat \<Rightarrow> nat" where
  "digit_count_payload n = (if n div 10 = 0 then 1 else Suc (digit_count_payload (n div 10)))"

declare digit_count_payload.simps [simp del]

definition http_header :: "u8 list" where
  "http_header = [13, 10] @ cstr ''Server: SmartThings SDK Setup'' @ [13, 10] @ cstr ''Connection: keep-alive''
     @ [13, 10] @ cstr ''Content-Type: application/json'' @ [13, 10] @ cstr ''Content-Length: ''"

text \<open>What \<open>snprintf\<close> leaves in a buffer of the size that is computed for it; lengths are \<open>unsigned int\<close>.\<close>

definition response_text :: "string \<Rightarrow> u8 list \<Rightarrow> u8 list" where
  "response_text status payload = (let
     payload_len = length payload mod 2 ^ 32;
     buffer_len = (payload_len + length status + length http_header + digit_count_payload payload_len + 4 + 1) mod 2 ^ 32
   in take (buffer_len - 1) (cstr status @ http_header @ cstr (decimal payload_len) @ [13, 10, 13, 10] @ payload))"

definition send_text :: "('n, 'j) device \<Rightarrow> string \<Rightarrow> u8 list \<Rightarrow> ('n srv, u8 list option) prog" where
  "send_text P status payload = seq (in_dev (ask (d_malloc P Mem_response))) (\<lambda>ok.
     ret (if ok then Some (response_text status payload) else None))"

definition error_response :: "('n, 'j) device \<Rightarrow> iot_error \<Rightarrow> ('n srv, u8 list option) prog" where
  "error_response P e = seq (in_dev (ask (JSON_CREATE_OBJECT (d_json P)))) (\<lambda>item. case item of
     None \<Rightarrow> ret None
   | Some item \<Rightarrow> seq (in_dev (ask (JSON_CREATE_NUMBER (d_json P) (- error_code e)))) (\<lambda>code.
     let item = (case code of None \<Rightarrow> Some item | Some c \<Rightarrow> JSON_ADD_ITEM_TO_OBJECT (d_json P) (Some item) ''code'' c) in
     seq (in_dev (ask (JSON_CREATE_OBJECT (d_json P)))) (\<lambda>root. case root of
       None \<Rightarrow> ret None
     | Some root \<Rightarrow>
         let root = (case item of None \<Rightarrow> Some root | Some i \<Rightarrow> JSON_ADD_ITEM_TO_OBJECT (d_json P) (Some root) ''error'' i) in
         seq (in_dev (ask (JSON_PRINT (d_json P) root))) (\<lambda>ptr. case ptr of
           None \<Rightarrow> undef
         | Some t \<Rightarrow> send_text P (if is_400_error e then ''HTTP/1.1 400 Bad Request'' else ''HTTP/1.1 500 Internal Server Error'') t))))"

text \<open>The response to a message, or none.\<close>

definition http_msg_handler :: "('n, 'j) device \<Rightarrow> iot_easysetup_step \<Rightarrow> cgi_type \<Rightarrow> u8 list option \<Rightarrow> response option
    \<Rightarrow> ('n srv, u8 list option) prog" where
  "http_msg_handler P cmd ty data answer = (let
     reply = (\<lambda>(e, p). if e \<noteq> IOT_ERROR_NONE then error_response P e
       else case p of None \<Rightarrow> ret None | Some t \<Rightarrow> send_text P ''HTTP/1.1 200 OK'' t)
   in case ty of
     D2D_POST \<Rightarrow> seq (gen_post_payload P cmd data answer) reply
   | D2D_GET \<Rightarrow> seq (gen_get_payload P cmd answer) reply
   | D2D_ERROR \<Rightarrow> error_response P IOT_ERROR_EASYSETUP_INVALID_CMD)"

text \<open>What \<open>process_accepted_connection\<close> makes of a request it has read.\<close>

definition handle_request :: "('n, 'j) device \<Rightarrow> iot_error \<times> http_msg \<times> u8 list \<Rightarrow> response option
    \<Rightarrow> ('n srv, u8 list option) prog" where
  "handle_request P r answer = (case r of (e, m, b) \<Rightarrow>
     http_msg_handler P (m_cmd m) (if e \<noteq> IOT_ERROR_NONE then D2D_ERROR else m_type m)
       (case m_payload m of None \<Rightarrow> None | Some p \<Rightarrow> str_at b p) answer)"

section \<open>The access point and the start of the server\<close>

datatype iot_wifi_event = IOT_WIFI_EVENT_SOFTAP_STA_JOIN | IOT_WIFI_EVENT_SOFTAP_STA_LEAVE | IOT_WIFI_EVENT_SOFTAP_STA_FAIL
| IOT_WIFI_EVENT_OTHER

text \<open>A phone that leaves starts the order over; the event bit it sets is part of \<open>d_confirmed\<close>.\<close>

definition wifi_event_cb :: "('n, 'j) device \<Rightarrow> iot_wifi_event \<Rightarrow> iot_error \<Rightarrow> ('n srv, unit) prog" where
  "wifi_event_cb P ev e = (case ev of
     IOT_WIFI_EVENT_SOFTAP_STA_LEAVE \<Rightarrow> seq (gets ref_step) (\<lambda>r. on (r \<le> step_code IOT_EASYSETUP_STEP_SETUPCOMPLETE) (set_ref 0))
   | IOT_WIFI_EVENT_SOFTAP_STA_FAIL \<Rightarrow> and_then (in_dev (iot_set_st_ecode_from_conn_error P e)) skip
   | _ \<Rightarrow> skip)"

definition easysetup_start :: "('n, 'j) device \<Rightarrow> ('n srv, iot_error) prog" where
  "easysetup_start P = seq (in_dev (iot_easysetup_init P)) (\<lambda>e.
     and_then (on (e = IOT_ERROR_NONE) (set_ref 0)) (ret e))"

end
