(* ===== verification/Http_Order.thy ===== *)
theory Http_Order
  imports Http_Server "HOL-Library.Sublist"
begin

text \<open>
  What the server of the onboarding guarantees: responses are never cut, and the state that ends the onboarding is
  requested only after the steps before it. The order it enforces leaves out the confirmation.
\<close>

section \<open>Responses\<close>

lemma digit_count: "digit_count_payload n = length (decimal n)"
proof (induction n rule: digit_count_payload.induct)
  case (1 n)
  then show ?case by (subst digit_count_payload.simps) (simp add: length_decimal [of n] div_eq_0_iff)
qed

lemma response_whole:
  assumes "length payload + 500 < 2 ^ 32" and "length status \<le> 100"
  shows "response_text status payload
    = cstr status @ http_header @ cstr (decimal (length payload)) @ [13, 10, 13, 10] @ payload"
proof -
  let ?t = "cstr status @ http_header @ cstr (decimal (length payload)) @ [13, 10, 13, 10] @ payload"
  have h: "length http_header = 105" by (simp add: http_header_def cstr_def)
  have "10 ^ (length (decimal n) - 1) \<le> n" if "0 < n" for n :: nat
    using that
  proof (induction n rule: decimal.induct)
    case (1 n)
    show ?case
    proof (cases "n < 10")
      case False
      then have "10 ^ (length (decimal (n div 10)) - 1) \<le> n div 10" using 1 by simp
      then have "10 * 10 ^ (length (decimal (n div 10)) - 1) \<le> n" by (simp add: less_eq_div_iff_mult_less_eq mult.commute)
      moreover have "0 < length (decimal (n div 10))" by (simp add: length_decimal [of "n div 10"])
      ultimately show ?thesis
        using False by (simp add: length_decimal [of n] flip: power_Suc)
    qed (use 1 in \<open>simp add: length_decimal [of n]\<close>)
  qed
  then have d: "length (decimal (length payload)) \<le> 10"
  proof (cases "length payload = 0")
    case False
    show ?thesis
    proof (rule ccontr)
      assume "\<not> ?thesis"
      then have "(10 :: nat) ^ 10 \<le> 10 ^ (length (decimal (length payload)) - 1)" by (intro power_increasing) auto
      also have "\<dots> \<le> length payload" using False \<open>\<And>n. 0 < n \<Longrightarrow> 10 ^ (length (decimal n) - 1) \<le> n\<close> by simp
      finally show False using assms(1) by simp
    qed
  qed (simp add: length_decimal [of 0])
  have "length payload mod 2 ^ 32 = length payload" using assms(1) by simp
  moreover have "(length payload + length status + length http_header + length (decimal (length payload)) + 4 + 1) mod 2 ^ 32
      = length ?t + 1"
    using assms d h by (simp add: cstr_def)
  ultimately show ?thesis by (simp add: response_text_def Let_def digit_count)
qed

section \<open>The order\<close>

abbreviation (input) devinfo :: iot_easysetup_step where "devinfo \<equiv> IOT_EASYSETUP_STEP_DEVICEINFO"
abbreviation (input) keyinfo :: iot_easysetup_step where "keyinfo \<equiv> IOT_EASYSETUP_STEP_KEYINFO"
abbreviation (input) confinfo :: iot_easysetup_step where "confinfo \<equiv> IOT_EASYSETUP_STEP_CONFIRMINFO"
abbreviation (input) confpin :: iot_easysetup_step where "confpin \<equiv> IOT_EASYSETUP_STEP_CONFIRM"
abbreviation (input) scaninfo :: iot_easysetup_step where "scaninfo \<equiv> IOT_EASYSETUP_STEP_WIFISCANINFO"
abbreviation (input) provinfo :: iot_easysetup_step where "provinfo \<equiv> IOT_EASYSETUP_STEP_WIFIPROVIONINGINFO"
abbreviation (input) complete :: iot_easysetup_step where "complete \<equiv> IOT_EASYSETUP_STEP_SETUPCOMPLETE"

text \<open>The steps between the exchange of keys and the settings: nothing, or a confirmation with or without scans.\<close>

definition scans :: "iot_easysetup_step list \<Rightarrow> bool" where
  "scans c \<longleftrightarrow> c \<noteq> [] \<and> list_all (\<lambda>s. s = scaninfo) c"

definition middle :: "iot_easysetup_step list \<Rightarrow> bool" where
  "middle c \<longleftrightarrow> c = [] \<or> c = [confinfo] \<or> hd c = confinfo \<and> (scans (tl c) \<or> tl c \<noteq> [] \<and> hd (tl c) = confpin \<and> scans (tl (tl c)))"

definition complete_order :: "iot_easysetup_step list \<Rightarrow> bool" where
  "complete_order h \<longleftrightarrow> (\<exists>c. h = [devinfo, keyinfo] @ c @ [provinfo, complete] \<and> middle c)"

text \<open>The steps accepted since the order was started over, and the step expected after them.\<close>

inductive accepted :: "iot_easysetup_step list \<Rightarrow> nat \<Rightarrow> bool" where
  over: "accepted [] 0"
| more: "accepted h r \<Longrightarrow> step_code s < 7 \<Longrightarrow> get_sequence s r = Some r' \<or> post_sequence s r = Some r' \<Longrightarrow> accepted (h @ [s]) r'"

definition so_far :: "nat \<Rightarrow> iot_easysetup_step list \<Rightarrow> bool" where
  "so_far r h \<longleftrightarrow>
     (if r = 0 then h = [] else if r = 1 then h = [devinfo] else if r = 2 then h = [devinfo, keyinfo]
      else if r = 3 then h = [devinfo, keyinfo, confinfo] else if r = 4 then h = [devinfo, keyinfo, confinfo, confpin]
      else if r = 5 then \<exists>c. h = [devinfo, keyinfo, confinfo] @ c \<and> (scans c \<or> c \<noteq> [] \<and> hd c = confpin \<and> scans (tl c))
      else if r = 6 then \<exists>c. h = [devinfo, keyinfo] @ c @ [provinfo] \<and> middle c
      else r = 7 \<and> complete_order h)"

lemma scans_snoc: "scans c \<Longrightarrow> scans (c @ [scaninfo])"
  by (simp add: scans_def)

lemma next_step:
  assumes "step_code s < 7" and "get_sequence s r = Some r' \<or> post_sequence s r = Some r'"
  shows "step_code s = r \<and> r' = r + 1 \<or> s = scaninfo \<and> (r = 3 \<or> r = 5) \<and> r' = 5 \<or> s = provinfo \<and> (r = 3 \<or> r = 2) \<and> r' = 6"
  using assms by (auto simp: get_sequence_def post_sequence_def next_ref_def split: if_splits)

lemma accepted_so_far: "accepted h r \<Longrightarrow> so_far r h"
proof (induction rule: accepted.induct)
  case (more h r s r')
  from next_step [OF more(2,3)] consider
    (exact) "step_code s = r" "r' = r + 1" | (scan) "s = scaninfo" "r = 3 \<or> r = 5" "r' = 5" | (prov) "s = provinfo" "r = 3 \<or> r = 2" "r' = 6"
    by blast
  then show ?case
  proof cases
    case exact
    have "s = provinfo \<Longrightarrow> so_far 5 h \<Longrightarrow> \<exists>c. h @ [provinfo] = [devinfo, keyinfo] @ c @ [provinfo] \<and> middle c"
      by (auto simp: so_far_def middle_def)
    moreover have "s = complete \<Longrightarrow> so_far 6 h \<Longrightarrow> complete_order (h @ [complete])"
      by (auto simp: so_far_def complete_order_def)
    ultimately show ?thesis
      using exact more.IH more(2) by (cases s) (auto simp: so_far_def scans_def)
  next
    case scan
    then show ?thesis using more.IH by (auto simp: so_far_def scans_snoc) (auto simp: scans_def)
  next
    case prov
    then show ?thesis using more.IH by (auto simp: so_far_def middle_def)
  qed
qed (simp add: so_far_def)

section \<open>Runs\<close>

lemma basic_Returns:
  "ret a w = Returns b w' \<longleftrightarrow> b = a \<and> w' = w" "gets f w = Returns b w' \<longleftrightarrow> b = f w \<and> w' = w"
  "on c m w = Returns u w' \<longleftrightarrow> (if c then m w = Returns u w' else w' = w)" "\<not> undef w = Returns b w'"
  "set_ref r v = Returns u v' \<longleftrightarrow> v' = v\<lparr>ref_step := r\<rparr>"
  by (auto simp: ret_def gets_def on_def skip_def undef_def set_ref_def modify_def)

lemmas returns = seq_Returns and_then_Returns basic_Returns

text \<open>Parts of the server that leave the expected step and the commands for the work task.\<close>

definition parts :: "'n srv \<Rightarrow> nat \<times> iot_command list" where
  "parts w = (ref_step w, work (sdev w))"

lemma still_in_dev: "still work m \<Longrightarrow> still parts (in_dev m)"
  by (auto simp: still_def in_dev_def parts_def split: run.splits)

lemma still_ask_work: "still work (ask f)"
  by (auto simp: still_def ask_def split: prod.splits)

lemma still_undef: "still f undef" by (rule still_basic)

lemmas srv_still = still_in_dev [OF still_ask_work] still_rules

lemma exchange_still: "still parts (exchange P s p a)"
proof -
  have "still parts (modify (\<lambda>w. w\<lparr>requests := requests w @ [(s, p)]\<rparr>))"
    by (rule still_modify) (simp add: parts_def)
  then show ?thesis unfolding exchange_def iot_easysetup_request_def by (intro srv_still)
qed

lemma send_text_still: "still parts (send_text P st t)"
  unfolding send_text_def by (intro srv_still)

lemma error_response_still: "still parts (error_response P e)"
  unfolding error_response_def Let_def by (intro srv_still send_text_still)

lemma still_work_ctx: "still work (the_ctx f)" "still work (upd_ctx g)" "still work (tell e)"
  by (simp_all add: the_ctx_def still_basic upd_ctx_def tell_def still_modify)

lemma report_contact_still: "still work report_contact"
  unfolding report_contact_def call_status_cb_def by (intro still_rules still_work_ctx)

text \<open>What a message does to both: the step is accepted, or the order starts over, or stays.\<close>

definition expected :: "iot_easysetup_step \<Rightarrow> nat \<Rightarrow> nat \<Rightarrow> bool" where
  "expected cmd r r' \<longleftrightarrow> r' = r \<or> r' = 0 \<or> step_code cmd < 7 \<and> (get_sequence cmd r = Some r' \<or> post_sequence cmd r = Some r')"

abbreviation (input) done_command :: iot_command where
  "done_command \<equiv> \<lparr>cmd_type = IOT_COMMAND_STATE_UPDATE, param = Some (State_data IOT_STATE_PROV_DONE IOT_STATE_OPT_NONE)\<rparr>"

lemma log_step_resets:
  assumes "get_sequence cmd r = Some r' \<or> post_sequence cmd r = Some r'" and "\<not> step_code cmd < 7"
  shows "r' = 0"
  using assms by (auto simp: get_sequence_def post_sequence_def next_ref_def split: if_splits)

lemma setup_complete_work:
  assumes "setup_complete P d = Returns e d'" shows "work d' = work d \<or> work d' = work d @ [done_command]"
  using assms
  by (auto simp: setup_complete_def iot_state_update_def iot_command_send_def iot_put_device_work_def returns the_ctx_def ask_def
      modify_def split: if_splits prod.splits)

lemma gen_get_parts:
  assumes "gen_get_payload P cmd a w = Returns x w'"
  shows "expected cmd (ref_step w) (ref_step w') \<and> work (sdev w') = work (sdev w)"
proof (cases "cmd = IOT_EASYSETUP_INVALID_STEP")
  case False
  define report where "report = on (cmd = devinfo) (in_dev report_contact :: ('a srv, unit) prog)"
  have "still parts report" unfolding report_def by (intro still_on still_in_dev report_contact_still)
  from assms obtain u w1 where w1: "report w = Returns u w1" and rest: "(case get_sequence cmd (ref_step w1) of
          None \<Rightarrow> and_then (set_ref 0) (ret (IOT_ERROR_EASYSETUP_INVALID_SEQUENCE, None))
        | Some r \<Rightarrow> and_then (set_ref r) (seq (exchange P cmd None a) (\<lambda>x. case x of
            Inl e \<Rightarrow> ret (e, None)
          | Inr (e, p) \<Rightarrow> and_then (on (e \<noteq> IOT_ERROR_NONE) (set_ref 0)) (ret (e, p))))) w1 = Returns x w'"
    using False by (auto simp: gen_get_payload_def returns report_def)
  have p1: "ref_step w1 = ref_step w" "work (sdev w1) = work (sdev w)"
    using stillD [OF \<open>still parts report\<close> w1] by (simp_all add: parts_def)
  show ?thesis
  proof (cases "get_sequence cmd (ref_step w)")
    case None
    with rest p1 show ?thesis by (auto simp: returns expected_def)
  next
    case (Some r)
    with rest p1 obtain y w2 where y: "exchange P cmd None a (w1\<lparr>ref_step := r\<rparr>) = Returns y w2"
      "(case y of Inl e \<Rightarrow> ret (e, None) | Inr (e, p) \<Rightarrow> and_then (on (e \<noteq> IOT_ERROR_NONE) (set_ref 0)) (ret (e, p))) w2 = Returns x w'"
      by (auto simp: returns)
    from stillD [OF exchange_still y(1)] p1 have "ref_step w2 = r" "work (sdev w2) = work (sdev w)" by (simp_all add: parts_def)
    with y(2) Some log_step_resets [of cmd "ref_step w" r] show ?thesis
      by (cases y) (auto simp: returns expected_def split: if_splits prod.splits)
  qed
qed (use assms in \<open>simp add: gen_get_payload_def returns expected_def\<close>)

lemma gen_post_parts:
  assumes "gen_post_payload P cmd data a w = Returns x w'"
  shows "expected cmd (ref_step w) (ref_step w') \<and> (work (sdev w') = work (sdev w) \<or>
    cmd = complete \<and> ref_step w = 6 \<and> work (sdev w') = work (sdev w) @ [done_command])"
proof (cases "data = None \<and> cmd \<noteq> complete \<and> cmd \<noteq> IOT_EASYSETUP_STEP_LOG_CREATE_DUMP \<or> cmd = IOT_EASYSETUP_INVALID_STEP")
  case True
  with assms show ?thesis by (auto simp: gen_post_payload_def returns expected_def split: if_splits)
next
  case False
  show ?thesis
  proof (cases "post_sequence cmd (ref_step w)")
    case None
    with assms False show ?thesis by (auto simp: gen_post_payload_def returns expected_def split: if_splits)
  next
    case (Some r)
    have "\<not> (data = None \<and> cmd \<noteq> complete \<and> cmd \<noteq> IOT_EASYSETUP_STEP_LOG_CREATE_DUMP)" "cmd \<noteq> IOT_EASYSETUP_INVALID_STEP"
      using False by auto
    with assms Some obtain y w2 where y: "exchange P cmd data a (w\<lparr>ref_step := r\<rparr>) = Returns y w2"
      "(case y of Inl e \<Rightarrow> ret (e, None) | Inr (e, p) \<Rightarrow>
          if e \<noteq> IOT_ERROR_NONE then and_then (set_ref 0) (ret (e, p))
          else if cmd = complete then seq (in_dev (setup_complete P)) (\<lambda>e. ret (e, p)) else ret (e, p)) w2 = Returns x w'"
      unfolding gen_post_payload_def by (simp only: if_False) (auto simp: returns)
    from stillD [OF exchange_still y(1)] have p: "ref_step w2 = r" "work (sdev w2) = work (sdev w)" by (simp_all add: parts_def)
    have six: "cmd = complete \<Longrightarrow> ref_step w = 6"
      using Some by (auto simp: post_sequence_def split: if_splits)
    have "in_dev (setup_complete P) w2 = Returns e w3 \<Longrightarrow>
        ref_step w3 = r \<and> (work (sdev w3) = work (sdev w) \<or> work (sdev w3) = work (sdev w) @ [done_command])" for e w3
      using setup_complete_work [of P "sdev w2"] p by (fastforce simp: in_dev_def split: run.splits)
    with y(2) p Some six log_step_resets [of cmd "ref_step w" r] show ?thesis
      by (cases y) (auto simp: returns expected_def split: if_splits prod.splits)
  qed
qed

lemma handler_parts:
  assumes "http_msg_handler P cmd ty data a w = Returns tx w'"
  shows "expected cmd (ref_step w) (ref_step w') \<and> (work (sdev w') = work (sdev w) \<or>
    cmd = complete \<and> ref_step w = 6 \<and> work (sdev w') = work (sdev w) @ [done_command])"
proof -
  define reply where "reply = (\<lambda>(e, p). if e \<noteq> IOT_ERROR_NONE then error_response P e
       else case p of None \<Rightarrow> ret None | Some t \<Rightarrow> send_text P ''HTTP/1.1 200 OK'' t)"
  have reply: "still parts (reply x)" for x
    unfolding reply_def by (intro srv_still send_text_still error_response_still)
  have run: "http_msg_handler P cmd ty data a = (case ty of
     D2D_POST \<Rightarrow> seq (gen_post_payload P cmd data a) reply | D2D_GET \<Rightarrow> seq (gen_get_payload P cmd a) reply
   | D2D_ERROR \<Rightarrow> error_response P IOT_ERROR_EASYSETUP_INVALID_CMD)"
    unfolding http_msg_handler_def Let_def reply_def by (rule refl)
  show ?thesis
  proof (cases ty)
    case D2D_ERROR
    with assms run stillD [OF error_response_still, of P _ w tx w'] show ?thesis by (auto simp: parts_def expected_def)
  next
    case D2D_GET
    with assms run obtain x w1 where "gen_get_payload P cmd a w = Returns x w1" "reply x w1 = Returns tx w'" by (auto simp: returns)
    with gen_get_parts [of P cmd a w x w1] stillD [OF reply] show ?thesis by (fastforce simp: parts_def)
  next
    case D2D_POST
    with assms run obtain x w1 where "gen_post_payload P cmd data a w = Returns x w1" "reply x w1 = Returns tx w'" by (auto simp: returns)
    with gen_post_parts [of P cmd data a w x w1] stillD [OF reply] show ?thesis by (fastforce simp: parts_def)
  qed
qed

text \<open>
  A run of the server: messages, events of the access point, and whatever the other threads do to the device in
  between. The trace is the steps of the messages.
\<close>

inductive srv_run :: "('n, 'j) device \<Rightarrow> iot_easysetup_step list \<Rightarrow> 'n srv \<Rightarrow> bool" for P where
  started: "ref_step w = 0 \<Longrightarrow> srv_run P [] w"
| message: "srv_run P tr w \<Longrightarrow> http_msg_handler P cmd ty data a w = Returns tx w' \<Longrightarrow> srv_run P (tr @ [cmd]) w'"
| phone: "srv_run P tr w \<Longrightarrow> wifi_event_cb P ev e w = Returns u w' \<Longrightarrow> srv_run P tr w'"
| other: "srv_run P tr w \<Longrightarrow> srv_run P tr (w\<lparr>sdev := d\<rparr>)"

lemma subseq_snoc: "subseq h tr \<Longrightarrow> subseq h (tr @ xs)" "subseq h tr \<Longrightarrow> subseq (h @ [x]) (tr @ [x])"
  by (auto simp: subseq_append intro: list_emb_append2)

lemma srv_accepted: "srv_run P tr w \<Longrightarrow> \<exists>h. subseq h tr \<and> accepted h (ref_step w)"
proof (induction rule: srv_run.induct)
  case (message tr w cmd ty data a tx w')
  obtain h where h: "subseq h tr" "accepted h (ref_step w)" using message.IH by blast
  have "expected cmd (ref_step w) (ref_step w')" using handler_parts [OF message(2)] by blast
  then consider "ref_step w' = ref_step w" | "ref_step w' = 0" | "accepted (h @ [cmd]) (ref_step w')"
    unfolding expected_def using accepted.more [OF h(2), of cmd "ref_step w'"] by argo
  then show ?case
  proof cases
    case 1
    with h show ?thesis by (auto intro: subseq_snoc)
  next
    case 2
    with accepted.over show ?thesis by (auto intro: exI [of _ "[]"])
  next
    case 3
    with subseq_snoc(2) [OF h(1)] show ?thesis by blast
  qed
next
  case (phone tr w ev e u w')
  from phone(2) have "ref_step w' = ref_step w \<or> ref_step w' = 0"
    by (cases ev) (auto simp: wifi_event_cb_def returns skip_def in_dev_def split: if_splits run.splits)
  with phone.IH accepted.over show ?case by (metis list_emb_Nil)
qed (auto intro: exI [of _ "[]"] accepted.over)

lemma complete_after_steps:
  assumes "srv_run P tr w" and "http_msg_handler P cmd ty data a w = Returns tx w'" and "work (sdev w') \<noteq> work (sdev w)"
  shows "\<exists>h. subseq h (tr @ [cmd]) \<and> complete_order h \<and> work (sdev w') = work (sdev w) @ [done_command]"
proof -
  from handler_parts [OF assms(2)] assms(3) have c: "cmd = complete" "ref_step w = 6" "work (sdev w') = work (sdev w) @ [done_command]"
    by auto
  obtain h where h: "subseq h tr" "accepted h 6" using srv_accepted [OF assms(1)] c(2) by auto
  from accepted_so_far [OF h(2)] have "complete_order (h @ [complete])" by (auto simp: so_far_def complete_order_def)
  with subseq_snoc(2) [OF h(1)] c show ?thesis by blast
qed

end
