(* ===== verification/Nv_Store.thy ===== *)
theory Nv_Store
  imports Nv_Data
begin

text \<open>
  What the storage functions promise to \<^verbatim>\<open>src/iot_nv_data.c\<close>, as the locale \<open>nv_storage\<close>, and that the POSIX
  stack keeps it. An item that is written keeps the old bytes behind the new ones, so that reading it back
  gives what was written only when nothing longer was there before.
\<close>

section \<open>The contents of the items\<close>

definition nv_id :: "iot_nvd \<Rightarrow> bool" where
  "nv_id i \<longleftrightarrow> i \<noteq> IOT_NVD_UNKNOWN \<and> i \<noteq> IOT_NVD_MAX \<and> \<not> factory_id i"

definition nv_file :: "iot_nvd \<Rightarrow> string" where
  "nv_file i = ''./'' @ (case iot_bsp_nv_get_data_path i of None \<Rightarrow> [] | Some f \<Rightarrow> f)"

definition stored :: "'n store \<Rightarrow> iot_nvd \<Rightarrow> u8 list option" where
  "stored s i = (if nv_id i then files s (nv_file i) else None)"

text \<open>Bytes written over an old content.\<close>

definition overlay :: "u8 list \<Rightarrow> u8 list option \<Rightarrow> u8 list" where
  "overlay d old = d @ drop (length d) (case old of None \<Rightarrow> [] | Some c \<Rightarrow> c)"

lemma overlay_full: "length c \<le> length d \<Longrightarrow> overlay d (Some c) = d"
  by (simp add: overlay_def)

lemma overlay_None [simp]: "overlay d None = d"
  by (simp add: overlay_def)

lemma nv_filename: "nv_id i \<Longrightarrow> storage_id2filename i 64 = Inr (nv_file i)"
  by (cases i) (simp_all add: nv_id_def factory_id_def storage_id2filename_def iot_bsp_nv_get_data_path_def nv_file_def)

lemma nv_target: "nv_id i \<Longrightarrow> storage_id2target b i = IOT_SECURITY_STORAGE_TARGET_NV"
  by (simp add: nv_id_def storage_id2target_def)

lemma nv_set_id: "nv_id i \<Longrightarrow> set_storage_id i = IOT_ERROR_NONE"
  by (simp add: nv_id_def set_storage_id_def)

lemma nv_not_factory: "nv_id i \<Longrightarrow> \<not> factory_id i"
  by (simp add: nv_id_def)

lemma nv_file_eq: "nv_id i \<Longrightarrow> nv_id j \<Longrightarrow> nv_file i = nv_file j \<longleftrightarrow> i = j"
  by (cases i; cases j) (simp_all add: nv_id_def factory_id_def nv_file_def iot_bsp_nv_get_data_path_def)

lemmas nv_ids = nv_filename nv_target nv_set_id nv_not_factory

lemma stored_env [simp]: "stored (s\<lparr>env := e\<rparr>) = stored s"
  by (rule ext) (simp add: stored_def)

lemma stored_files [simp]: "stored (t\<lparr>files := files s\<rparr>) = stored s"
  by (rule ext) (simp add: stored_def)

lemma stored_write [simp]:
  "nv_id i \<Longrightarrow> stored (t\<lparr>files := g(nv_file i := v)\<rparr>) = (stored (t\<lparr>files := g\<rparr>))(i := v)"
  by (rule ext) (auto simp add: stored_def nv_file_eq)

lemma stored_cong: "files s = files t \<Longrightarrow> stored s = stored t"
  by (rule ext) (simp add: stored_def)

lemma stored_nv: "nv_id i \<Longrightarrow> files s (nv_file i) = stored s i"
  by (simp add: stored_def)

section \<open>The contract\<close>

locale nv_storage =
  fixes rd :: "iot_nvd \<Rightarrow> 's \<Rightarrow> (iot_error + u8 list) \<times> 's"
    and wr :: "iot_nvd \<Rightarrow> u8 list \<Rightarrow> 's \<Rightarrow> iot_error \<times> 's"
    and rm :: "iot_nvd \<Rightarrow> 's \<Rightarrow> iot_error \<times> 's"
    and st :: "'s \<Rightarrow> iot_nvd \<Rightarrow> u8 list option"
  assumes rd_keeps: "nv_id i \<Longrightarrow> st (snd (rd i s)) = st s"
    and rd_value: "nv_id i \<Longrightarrow> fst (rd i s) = Inr d \<Longrightarrow> \<exists>c. st s i = Some c \<and> d = take 2048 c"
    and rd_missing: "nv_id i \<Longrightarrow> fst (rd i s) = Inl IOT_ERROR_SECURITY_FS_NOT_FOUND \<longleftrightarrow> st s i = None"
    and wr_ok: "nv_id i \<Longrightarrow> fst (wr i d s) = IOT_ERROR_NONE \<Longrightarrow> st (snd (wr i d s)) = (st s)(i \<mapsto> overlay d (st s i))"
    and wr_frame: "nv_id i \<Longrightarrow> j \<noteq> i \<Longrightarrow> st (snd (wr i d s)) j = st s j"
    and wr_torn: "nv_id i \<Longrightarrow> st (snd (wr i d s)) i = st s i
      \<or> (\<exists>k. st (snd (wr i d s)) i = Some (overlay (take k d) (st s i)))"
    and rm_ok: "nv_id i \<Longrightarrow> fst (rm i s) \<in> {IOT_ERROR_NONE, IOT_ERROR_SECURITY_FS_NOT_FOUND}
      \<Longrightarrow> st (snd (rm i s)) = (st s)(i := None)"
    and rm_frame: "nv_id i \<Longrightarrow> j \<noteq> i \<Longrightarrow> st (snd (rm i s)) j = st s j"
begin

text \<open>Reading an item back after writing it: the new bytes, and the rest of a longer old content.\<close>

lemma read_back:
  assumes "nv_id i" "fst (wr i d s) = IOT_ERROR_NONE" "fst (rd i (snd (wr i d s))) = Inr d'"
  shows "d' = take 2048 (overlay d (st s i))"
  using rd_value [OF assms(1,3)] by (auto simp: wr_ok [OF assms(1,2)])

lemma read_back_exact:
  assumes "nv_id i" "fst (wr i d s) = IOT_ERROR_NONE" "fst (rd i (snd (wr i d s))) = Inr d'"
    and "length d \<le> 2048" "\<forall>c. st s i = Some c \<longrightarrow> length c \<le> length d"
  shows "d' = d"
  using read_back [OF assms(1,2,3)] assms(4,5) by (cases "st s i") (auto simp: overlay_full)

lemma read_removed:
  assumes "nv_id i" "fst (rm i s) \<in> {IOT_ERROR_NONE, IOT_ERROR_SECURITY_FS_NOT_FOUND}"
  shows "fst (rd i (snd (rm i s))) = Inl IOT_ERROR_SECURITY_FS_NOT_FOUND"
  by (simp add: rd_missing [OF assms(1)] rm_ok [OF assms])

end

section \<open>The POSIX stack keeps it\<close>

lemma open_read_cases:
  "iot_bsp_fs_open P f FS_READONLY s = (e, s') \<Longrightarrow>
   files s' = files s \<and> (e = IOT_ERROR_FS_NO_FILE \<longleftrightarrow> files s f = None)"
  by (auto simp: iot_bsp_fs_open_def Let_def split: prod.splits if_splits)

lemma malloc_cases: "malloc_c P s = (b, s') \<Longrightarrow> files s' = files s"
  by (auto simp: malloc_c_def split: prod.splits)

lemma close_cases: "iot_bsp_fs_close P s = (e, s') \<Longrightarrow> files s' = files s"
  by (auto simp: iot_bsp_fs_close_def split: prod.splits)

lemma read_cases:
  "iot_bsp_fs_read P f n s = (r, s') \<Longrightarrow>
   files s' = files s \<and> (r = Inl IOT_ERROR_FS_NO_FILE \<longleftrightarrow> files s f = None) \<and>
   (\<forall>d. r = Inr d \<longrightarrow> (\<exists>c. files s f = Some c \<and> d = take n c))"
  by (auto simp: iot_bsp_fs_read_def malloc_c_def Let_def split: option.splits prod.splits if_splits bool.splits)

lemma load_nv_cases:
  assumes "nv_id i" "be_bsp_fs_load_from_nv P i s = (r, s')"
  shows "files s' = files s \<and> (r = Inl IOT_ERROR_SECURITY_FS_NOT_FOUND \<longleftrightarrow> stored s i = None) \<and>
    (\<forall>d. r = Inr d \<longrightarrow> (\<exists>c. stored s i = Some c \<and> d = take 2048 c))"
proof -
  obtain e1 s1 where o: "iot_bsp_fs_open P (nv_file i) FS_READONLY s = (e1, s1)" by fastforce
  note O = open_read_cases [OF o]
  obtain b2 s2 where m: "malloc_c P s1 = (b2, s2)" by fastforce
  obtain r3 s3 where rd: "iot_bsp_fs_read P (nv_file i) 2048 s2 = (r3, s3)" by fastforce
  note R = read_cases [OF rd]
  obtain b4 s4 where m4: "malloc_c P s3 = (b4, s4)" by fastforce
  obtain e5 s5 where c5: "iot_bsp_fs_close P s3 = (e5, s5)" by fastforce
  obtain e6 s6 where c6: "iot_bsp_fs_close P s4 = (e6, s6)" by fastforce
  have F: "files s1 = files s" "files s2 = files s" "files s3 = files s" "files s4 = files s"
    "files s5 = files s" "files s6 = files s"
    using O malloc_cases [OF m] R malloc_cases [OF m4] close_cases [OF c5] close_cases [OF c6] by simp_all
  show ?thesis using assms O R F
    by (auto simp: be_bsp_fs_load_from_nv_def nv_ids o m rd m4 c5 c6 fs_open_error_def stored_nv
        split: if_splits bool.splits sum.splits)
qed

lemma storage_read_cases:
  "nv_id i \<Longrightarrow> iot_security_storage_read P i s = be_bsp_fs_load_from_nv P i s"
  by (simp add: iot_security_storage_read_def be_bsp_fs_load_def nv_ids)

lemma write_cases:
  assumes "nv_id i" "iot_bsp_fs_open P (nv_file i) FS_READWRITE s = (e1, s1)"
    "iot_bsp_fs_write P (nv_file i) d s1 = (e2, s2)"
  shows "(\<forall>j. j \<noteq> i \<longrightarrow> stored s1 j = stored s j \<and> stored s2 j = stored s j) \<and>
    (e1 = IOT_ERROR_NONE \<longrightarrow> e2 = IOT_ERROR_NONE \<longrightarrow> stored s2 = (stored s)(i \<mapsto> overlay d (stored s i)))"
  using assms
  by (auto simp: iot_bsp_fs_open_def iot_bsp_fs_write_def Let_def overlay_def stored_nv
      split: prod.splits if_splits option.splits)

lemma open_write_cases:
  assumes "iot_bsp_fs_open P f FS_READWRITE s = (e, s')"
  shows "if e = IOT_ERROR_NONE then files s' f = Some (overlay [] (files s f)) else files s' = files s"
  using assms by (auto simp: iot_bsp_fs_open_def Let_def overlay_def split: prod.splits if_splits option.splits)

lemma write_torn:
  assumes "iot_bsp_fs_write P f d s = (e, s')"
  shows "files s' f = files s f \<or> (\<exists>k. files s' f = Some (overlay (take k d) (files s f)))"
proof -
  obtain r x where w: "p_write P (length d) (env s) = (r, x)" by fastforce
  show ?thesis
  proof (cases r)
    case None
    with assms w show ?thesis by (auto simp: iot_bsp_fs_write_def)
  next
    case (Some k)
    with assms w have "files s' f = Some (overlay (take (min k (length d)) d) (files s f))"
      by (auto simp: iot_bsp_fs_write_def overlay_def Let_def split: if_splits option.splits)
    then show ?thesis by blast
  qed
qed

lemma overlay_overlay_Nil [simp]: "overlay d (Some (overlay [] old)) = overlay d old"
  by (simp add: overlay_def)

lemma storage_write_cases:
  assumes "nv_id i" "iot_security_storage_write P i d s = (e, s')"
  shows "(\<forall>j. j \<noteq> i \<longrightarrow> stored s' j = stored s j) \<and>
    (e = IOT_ERROR_NONE \<longrightarrow> stored s' = (stored s)(i \<mapsto> overlay d (stored s i))) \<and>
    (stored s' i = stored s i \<or> (\<exists>k. stored s' i = Some (overlay (take k d) (stored s i))))"
proof -
  obtain e1 s1 where o: "iot_bsp_fs_open P (nv_file i) FS_READWRITE s = (e1, s1)" by fastforce
  obtain e2 s2 where w: "iot_bsp_fs_write P (nv_file i) d s1 = (e2, s2)" by fastforce
  obtain e3 s3 where c: "iot_bsp_fs_close P s2 = (e3, s3)" by fastforce
  note W = write_cases [OF assms(1) o w]
  have T: "if e1 = IOT_ERROR_NONE then \<exists>k. stored s2 i = Some (overlay (take k d) (stored s i)) else stored s1 i = stored s i"
    using open_write_cases [OF o] write_torn [OF w] assms(1)
    by (auto simp: stored_nv split: if_splits intro: exI [of _ 0] dest: stored_cong)
  from stored_cong [OF close_cases [OF c]] W T show ?thesis using assms
    by (auto simp: iot_security_storage_write_def be_bsp_fs_store_def be_bsp_fs_store_to_nv_def nv_ids o w c
        split: if_splits)
qed

lemma storage_remove_cases:
  assumes "nv_id i" "iot_security_storage_remove P i s = (e, s')"
  shows "(\<forall>j. j \<noteq> i \<longrightarrow> stored s' j = stored s j) \<and>
    (e = IOT_ERROR_NONE \<or> e = IOT_ERROR_SECURITY_FS_NOT_FOUND \<longrightarrow> stored s' = (stored s)(i := None))"
  using assms
  by (auto simp: iot_security_storage_remove_def be_bsp_fs_remove_def be_bsp_fs_remove_from_nv_def
      iot_bsp_fs_remove_def nv_ids Let_def stored_nv split: if_splits prod.splits)

interpretation pfs: nv_storage "iot_security_storage_read P" "iot_security_storage_write P"
  "iot_security_storage_remove P" stored
  for P :: "'n posix"
proof unfold_locales
  fix i :: iot_nvd and s :: "'n store" and d
  assume i: "nv_id i"
  obtain r s' where r: "iot_security_storage_read P i s = (r, s')" by fastforce
  note R = load_nv_cases [OF i, of P s, folded storage_read_cases [OF i], OF r]
  show "stored (snd (iot_security_storage_read P i s)) = stored s" using R r stored_cong [of s' s] by simp
  show "fst (iot_security_storage_read P i s) = Inl IOT_ERROR_SECURITY_FS_NOT_FOUND \<longleftrightarrow> stored s i = None"
    using R r by auto
  show "\<exists>c. stored s i = Some c \<and> d = take 2048 c" if "fst (iot_security_storage_read P i s) = Inr d"
    using R r that by auto
next
  fix i :: iot_nvd and s :: "'n store" and d
  assume i: "nv_id i"
  obtain e s' where w: "iot_security_storage_write P i d s = (e, s')" by fastforce
  note W = storage_write_cases [OF i w]
  show "stored (snd (iot_security_storage_write P i d s)) = (stored s)(i \<mapsto> overlay d (stored s i))"
    if "fst (iot_security_storage_write P i d s) = IOT_ERROR_NONE" using W w that by auto
  show "stored (snd (iot_security_storage_write P i d s)) j = stored s j" if "j \<noteq> i" for j
    using W w that by auto
  show "stored (snd (iot_security_storage_write P i d s)) i = stored s i
      \<or> (\<exists>k. stored (snd (iot_security_storage_write P i d s)) i = Some (overlay (take k d) (stored s i)))"
    using W w by auto
next
  fix i :: iot_nvd and s :: "'n store"
  assume i: "nv_id i"
  obtain e s' where w: "iot_security_storage_remove P i s = (e, s')" by fastforce
  note W = storage_remove_cases [OF i w]
  show "stored (snd (iot_security_storage_remove P i s)) = (stored s)(i := None)"
    if "fst (iot_security_storage_remove P i s) \<in> {IOT_ERROR_NONE, IOT_ERROR_SECURITY_FS_NOT_FOUND}"
    using W w that by auto
  show "stored (snd (iot_security_storage_remove P i s)) j = stored s j" if "j \<noteq> i" for j
    using W w that by auto
qed

end
