(* ===== verification/Nv_Update.thy ===== *)
theory Nv_Update
  imports Nv_Store
begin

text \<open>
  Storing a structure is a sequence of updates bracketed by the status item: \<open>NONE\<close> before the first and
  \<open>DONE\<close> behind the last. This theory shows what is stored when such a sequence runs through and when it
  stops half-way, for the functions of \<^verbatim>\<open>src/iot_nv_data.c\<close>.
\<close>

section \<open>Single operations\<close>

lemma stored_init: "stored (snd (iot_nv_io_storage_init P s)) = stored s"
proof -
  have M: "malloc_c P s = (b, s') \<Longrightarrow> stored s' = stored s" for s b s'
    by (rule stored_cong [OF malloc_cases])
  show ?thesis
    by (auto simp: iot_nv_io_storage_init_def iot_security_init_def iot_security_storage_init_def
        split: prod.splits bool.splits dest!: M)
qed

lemma put_cases:
  assumes "nv_id i" "nv_put P i d (length d) s = Some (e, s')"
  shows "(\<forall>j. j \<noteq> i \<longrightarrow> stored s' j = stored s j) \<and>
    (e = IOT_ERROR_NONE \<longrightarrow> stored s' = (stored s)(i \<mapsto> overlay d (stored s i))) \<and>
    (stored s' i = stored s i \<or> (\<exists>k. stored s' i = Some (overlay (take k d) (stored s i))))"
proof -
  obtain b s1 where o: "iot_nv_io_storage_init P s = (b, s1)" by fastforce
  with stored_init [of P s] have s1: "stored s1 = stored s" by simp
  obtain e2 s2 where w: "iot_security_storage_write P i d s1 = (e2, s2)" by fastforce
  show ?thesis
    using assms pfs.wr_frame [OF assms(1), of _ P d s1] pfs.wr_ok [OF assms(1), of P d s1] s1
      pfs.wr_torn [OF assms(1), of P d s1]
    by (auto simp: nv_put_def iot_nv_write_data_def iot_nv_io_storage_def o w split: if_splits bool.splits)
qed

lemma put_defined: "\<exists>e s'. nv_put P i d (length d) s = Some (e, s')"
  by (auto simp: nv_put_def iot_nv_write_data_def iot_nv_io_storage_def split: prod.splits bool.splits)

lemma drop_cases:
  assumes "nv_id i" "nv_drop P i s = Some (e, s')"
  shows "e = IOT_ERROR_NONE \<and> (\<forall>j. j \<noteq> i \<longrightarrow> stored s' j = stored s j)"
proof -
  obtain b s1 where o: "iot_nv_io_storage_init P s = (b, s1)" by fastforce
  with stored_init [of P s] have s1: "stored s1 = stored s" by simp
  obtain e2 s2 where w: "iot_security_storage_remove P i s1 = (e2, s2)" by fastforce
  show ?thesis
    using assms pfs.rm_frame [OF assms(1), of _ P s1] s1
    by (auto simp: nv_drop_def iot_nv_erase_def iot_nv_remove_data_def iot_nv_io_storage_def o w
        split: if_splits bool.splits)
qed

lemma drop_defined: "\<exists>e s'. nv_drop P i s = Some (e, s')"
  by (auto simp: nv_drop_def iot_nv_erase_def iot_nv_remove_data_def iot_nv_io_storage_def
      split: prod.splits bool.splits)

text \<open>Whether erasing an item works whenever it is tried: memory is there, and \<open>remove\<close> succeeds.\<close>

definition erase_works :: "'n posix \<Rightarrow> bool" where
  "erase_works P \<longleftrightarrow> (\<forall>n. fst (p_malloc P n)) \<and> (\<forall>f n. fst (p_remove P f n))"

lemma erase_works_drop:
  assumes "erase_works P" "nv_id i" "nv_drop P i s = Some (e, s')"
  shows "stored s' = (stored s)(i := None)"
proof -
  obtain b s1 where o: "iot_nv_io_storage_init P s = (b, s1)" by fastforce
  with stored_init [of P s] have s1: "stored s1 = stored s" by simp
  have b: "b" using o assms(1)
    by (auto simp: iot_nv_io_storage_init_def iot_security_init_def iot_security_storage_init_def malloc_c_def
        erase_works_def split: prod.splits bool.splits) (metis fst_conv)+
  obtain e2 s2 where w: "iot_security_storage_remove P i s1 = (e2, s2)" by fastforce
  have "fst (iot_security_storage_remove P i s1) \<in> {IOT_ERROR_NONE, IOT_ERROR_SECURITY_FS_NOT_FOUND}"
    using assms(1) by (auto simp: iot_security_storage_remove_def be_bsp_fs_remove_def nv_ids assms(2)
        be_bsp_fs_remove_from_nv_def iot_bsp_fs_remove_def erase_works_def Let_def split: prod.splits)
      (metis fst_conv)+
  from pfs.rm_ok [OF assms(2) this] show ?thesis
    using assms(2,3) s1 b
    by (auto simp: nv_drop_def iot_nv_erase_def iot_nv_remove_data_def iot_nv_io_storage_def o w nv_id_def
        split: if_splits bool.splits)
qed

lemma read_data_cases:
  assumes "nv_id i" "iot_nv_read_data P i data n s = Some (e, data', len, s')"
  shows "stored s' = stored s \<and>
    (e = IOT_ERROR_NONE \<longrightarrow> (\<exists>c. stored s i = Some c \<and> len = length (take 2048 c) \<and> len \<le> n \<and>
       data' = (if len < n then take 2048 c @ [0] else take 2048 c) @ drop (if len < n then Suc len else len) data)) \<and>
    (e = IOT_ERROR_NV_DATA_NOT_EXIST \<longrightarrow> stored s i = None)"
proof -
  obtain b s1 where o: "iot_nv_io_storage_init P s = (b, s1)" by fastforce
  with stored_init [of P s] have s1: "stored s1 = stored s" by simp
  obtain r s2 where r: "iot_security_storage_read P i s1 = (r, s2)" by fastforce
  have s2: "stored s2 = stored s" using pfs.rd_keeps [OF assms(1), of P s1] r s1 by simp
  show ?thesis
    using assms pfs.rd_missing [OF assms(1), of P s1] s1 s2 r pfs.rd_value [OF assms(1), of P s1]
    by (auto simp: iot_nv_read_data_def iot_nv_io_storage_def o r storage_error_def poke_def nv_id_def
        split: if_splits bool.splits sum.splits)
qed

section \<open>Sequences of updates\<close>

datatype update = Put iot_nvd "u8 list" | Erase iot_nvd

fun target :: "update \<Rightarrow> iot_nvd" where
  "target (Put i d) = i"
| "target (Erase i) = i"

fun run_update :: "'n posix \<Rightarrow> update \<Rightarrow> 'n store \<Rightarrow> (iot_error \<times> 'n store) option" where
  "run_update P (Put i d) s = nv_put P i d (length d) s"
| "run_update P (Erase i) s = nv_drop P i s"

fun run_updates :: "'n posix \<Rightarrow> update list \<Rightarrow> 'n store \<Rightarrow> (iot_error \<times> 'n store) option" where
  "run_updates P [] s = Some (IOT_ERROR_NONE, s)"
| "run_updates P (u # us) s = nv_next (run_update P u s) (run_updates P us)"

fun apply_update :: "update \<Rightarrow> (iot_nvd \<Rightarrow> u8 list option) \<Rightarrow> iot_nvd \<Rightarrow> u8 list option" where
  "apply_update (Put i d) c = c(i \<mapsto> overlay d (c i))"
| "apply_update (Erase i) c = c(i := None)"

definition effective :: "'n posix \<Rightarrow> update \<Rightarrow> bool" where
  "effective P u \<longleftrightarrow> nv_id (target u) \<and> (case u of Put _ _ \<Rightarrow> True | Erase _ \<Rightarrow> erase_works P)"

lemma run_update_cases:
  assumes "effective P u" "run_update P u s = Some (e, s')"
  shows "(\<forall>j. j \<noteq> target u \<longrightarrow> stored s' j = stored s j) \<and>
    (e = IOT_ERROR_NONE \<longrightarrow> stored s' = apply_update u (stored s)) \<and>
    (\<forall>i d. u = Put i d \<longrightarrow> stored s' i = stored s i \<or> (\<exists>k. stored s' i = Some (overlay (take k d) (stored s i))))"
proof (cases u)
  case (Put i d)
  with assms put_cases [of i P d s e s'] show ?thesis by (simp add: effective_def)
next
  case (Erase i)
  with assms drop_cases [of i P s e s'] erase_works_drop [of P i s e s'] show ?thesis
    by (simp add: effective_def)
qed

lemma run_update_defined: "\<exists>e s'. run_update P u s = Some (e, s')"
  by (cases u) (simp_all add: put_defined drop_defined)

lemma run_updates_append: "run_updates P (us @ vs) s = nv_next (run_updates P us s) (run_updates P vs)"
  by (induction us arbitrary: s) (auto simp: nv_next_def split: bind_splits)

lemma run_updates_ok:
  "run_updates P us s = Some (IOT_ERROR_NONE, s') \<Longrightarrow> list_all (effective P) us
     \<Longrightarrow> stored s' = fold apply_update us (stored s)"
proof (induction us arbitrary: s)
  case (Cons u us)
  obtain e s1 where u: "run_update P u s = Some (e, s1)" using run_update_defined by blast
  with Cons show ?case using run_update_cases [OF _ u] by (auto simp: nv_next_def split: if_splits)
qed simp

text \<open>A sequence that stops has carried out the updates before the one that failed, and touched no other item.\<close>

lemma run_updates_fail:
  "run_updates P us s = Some (e, s') \<Longrightarrow> e \<noteq> IOT_ERROR_NONE \<Longrightarrow> list_all (effective P) us
     \<Longrightarrow> \<exists>n < length us. let c = fold apply_update (take n us) (stored s) in
           (\<forall>j. j \<noteq> target (us ! n) \<longrightarrow> stored s' j = c j) \<and>
           (\<forall>i d. us ! n = Put i d \<longrightarrow> stored s' i = c i \<or> (\<exists>k. stored s' i = Some (overlay (take k d) (c i))))"
proof (induction us arbitrary: s)
  case (Cons u us)
  obtain e1 s1 where u: "run_update P u s = Some (e1, s1)" using run_update_defined by blast
  have eff: "effective P u" using Cons.prems(3) by simp
  note U = run_update_cases [OF eff u]
  show ?case
  proof (cases "e1 = IOT_ERROR_NONE")
    case True
    with Cons.prems u have "run_updates P us s1 = Some (e, s')" by (simp add: nv_next_def)
    from Cons.IH [OF this Cons.prems(2)] Cons.prems(3) U True obtain n where "n < length us"
      "let c = fold apply_update (take n us) (apply_update u (stored s)) in
           (\<forall>j. j \<noteq> target (us ! n) \<longrightarrow> stored s' j = c j) \<and>
           (\<forall>i d. us ! n = Put i d \<longrightarrow> stored s' i = c i \<or> (\<exists>k. stored s' i = Some (overlay (take k d) (c i))))"
      by auto
    then show ?thesis by (intro exI [of _ "Suc n"]) simp
  next
    case False
    with Cons.prems u have "s' = s1" by (simp add: nv_next_def)
    with U show ?thesis by (intro exI [of _ 0]) simp
  qed
qed simp

lemma fold_apply_frame: "\<forall>u \<in> set us. target u \<noteq> j \<Longrightarrow> fold apply_update us c j = c j"
proof (induction us arbitrary: c)
  case (Cons u us) then show ?case by (cases u) auto
qed simp

lemma apply_other: "target u \<noteq> i \<Longrightarrow> apply_update u (c(i := v)) = (apply_update u c)(i := v)"
  by (cases u) (auto simp: fun_upd_twist)

lemma fold_apply_other:
  "\<forall>u \<in> set us. target u \<noteq> i \<Longrightarrow> j \<noteq> i \<Longrightarrow> fold apply_update us (c(i := v)) j = fold apply_update us c j"
  by (induction us arbitrary: c) (auto simp: apply_other simp del: fun_upd_apply, simp)

text \<open>
  The bracket. Whatever happens, the store holds the old items, or a status that is not \<open>DONE\<close>, or all
  the new items.
\<close>

lemma bracket_atomic:
  assumes "list_all (effective P) (Put S a # us @ [Put S b])" "\<forall>u \<in> set us. target u \<noteq> S"
    and "run_updates P (Put S a # us @ [Put S b]) s = Some (e, s')"
  shows "(\<forall>j. j \<noteq> S \<longrightarrow> stored s' j = stored s j) \<and>
      (stored s' S = stored s S \<or> (\<exists>k. stored s' S = Some (overlay (take k a) (stored s S)))) \<or>
    stored s' S = Some (overlay a (stored s S)) \<or>
    (\<forall>j. j \<noteq> S \<longrightarrow> stored s' j = fold apply_update us (stored s) j)"
proof (cases "e = IOT_ERROR_NONE")
  case True
  from run_updates_ok [OF assms(3) [unfolded True] assms(1)]
  have "stored s' j = fold apply_update us ((stored s)(S \<mapsto> overlay a (stored s S))) j" if "j \<noteq> S" for j
    using that by simp
  then show ?thesis using fold_apply_other [OF assms(2)] by simp
next
  case False
  from run_updates_fail [OF assms(3) False assms(1), unfolded Let_def] obtain n where n: "n < length us + 2"
    and st: "\<And>j. j \<noteq> target ((Put S a # us @ [Put S b]) ! n) \<Longrightarrow>
      stored s' j = fold apply_update (take n (Put S a # us @ [Put S b])) (stored s) j"
    and tn: "\<And>i d. (Put S a # us @ [Put S b]) ! n = Put i d \<Longrightarrow>
      stored s' i = fold apply_update (take n (Put S a # us @ [Put S b])) (stored s) i \<or>
      (\<exists>k. stored s' i = Some (overlay (take k d) (fold apply_update (take n (Put S a # us @ [Put S b])) (stored s) i)))"
    by auto
  have torn: "n = 0 \<Longrightarrow> stored s' S = stored s S \<or> (\<exists>k. stored s' S = Some (overlay (take k a) (stored s S)))"
    using tn [of S a] by simp
  consider "n = 0" | m where "n = Suc m" "m < length us" | "n = Suc (length us)"
    using n by (cases n) (auto simp: less_Suc_eq)
  then show ?thesis
  proof cases
    case 1
    with st torn show ?thesis by simp
  next
    case (2 m)
    then have "target (us ! m) \<noteq> S" "\<forall>u \<in> set (take m us). target u \<noteq> S"
      using assms(2) by (auto dest: in_set_takeD)
    with 2 st [of S] show ?thesis by (auto simp: fold_apply_frame nth_append)
  next
    case 3
    with st fold_apply_other [OF assms(2)] show ?thesis by simp
  qed
qed

section \<open>Loading through a buffer\<close>

text \<open>
  What loading an item gives, as a function of the stored bytes alone: a buffer of \<open>n\<close> bytes holds the item
  and, where it fits, a terminator; what was in the buffer behind it does not matter.
\<close>

type_synonym 'p loader = "u8 list \<Rightarrow> nat \<Rightarrow> 'p \<Rightarrow> 'p option"

definition tail_free :: "'p loader \<Rightarrow> bool" where
  "tail_free f \<longleftrightarrow> (\<forall>d rest w. f (d @ 0 # rest) (length d) w = f (d @ [0]) (length d) w)"

definition view_item ::
  "nat \<Rightarrow> (iot_nvd \<Rightarrow> u8 list option) \<Rightarrow> iot_nvd \<Rightarrow> 'p loader \<Rightarrow> ('p \<Rightarrow> 'p) \<Rightarrow> 'p \<Rightarrow> 'p option" where
  "view_item n c i f missing w = (case c i of
     None \<Rightarrow> Some (missing w)
   | Some d \<Rightarrow>
       let d = take 2048 d in
       if n < length d then None else f (if length d < n then d @ [0] else d) (length d) w)"

definition view_done :: "(iot_nvd \<Rightarrow> u8 list option) \<Rightarrow> iot_nvd \<Rightarrow> bool" where
  "view_done c i \<longleftrightarrow> (\<exists>d. c i = Some d \<and> is_done d)"

text \<open>A step that succeeds has loaded what the loader says, and stored nothing.\<close>

definition realises :: "(u8 list \<Rightarrow> nat \<Rightarrow> 'p \<Rightarrow> 'n store \<Rightarrow> (iot_error \<times> 'p \<times> 'n store) option) \<Rightarrow> 'p loader \<Rightarrow> bool" where
  "realises found f \<longleftrightarrow> (\<forall>data len w s w' s'. found data len w s = Some (IOT_ERROR_NONE, w', s') \<longrightarrow>
     f data len w = Some w' \<and> stored s' = stored s)"

lemma nv_item_view:
  assumes "nv_id i" "tail_free f" "realises found f"
    and "nv_item P i found missing data w s = Some (IOT_ERROR_NONE, data', w', s')"
  shows "view_item (length data) (stored s) i f missing w = Some w' \<and> stored s' = stored s \<and> length data' = length data"
proof -
  obtain e d1 len s1 where r: "iot_nv_read_data P i data (length data) s = Some (e, d1, len, s1)"
    using assms(4) by (cases "iot_nv_read_data P i data (length data) s") (auto simp: nv_item_def)
  note R = read_data_cases [OF assms(1) r]
  have tf: "f (d @ 0 # rest) (length d) w = f (d @ [0]) (length d) w" for d rest w
    using assms(2) unfolding tail_free_def by blast
  show ?thesis
  proof (cases "e = IOT_ERROR_NONE")
    case True
    with R obtain c where c: "stored s i = Some c" "len = length (take 2048 c)" "len \<le> length data"
      "d1 = (if len < length data then take 2048 c @ [0] else take 2048 c) @ drop (if len < length data then Suc len else len) data"
      by auto
    have ld: "length d1 = length data" unfolding c(4) using c(2,3) by auto
    from assms(4) r True have "found d1 len w s1 = Some (IOT_ERROR_NONE, w', s')" "data' = d1"
      by (auto simp: nv_item_def split: bind_splits)
    with assms(3) have f: "f d1 len w = Some w'" "stored s' = stored s1" "data' = d1"
      by (auto simp: realises_def)
    show ?thesis
    proof (cases "len < length data")
      case True
      then have "d1 = take 2048 c @ 0 # drop (Suc len) data" using c by simp
      with f(1) c(2) tf [of "take 2048 c" "drop (Suc len) data" w] True c R f(2,3) ld
      show ?thesis by (auto simp: view_item_def Let_def min_def split: if_splits)
    next
      case False
      with f c R ld show ?thesis by (simp add: view_item_def Let_def)
    qed
  next
    case False
    with assms(4) r R show ?thesis
      by (auto simp: nv_item_def view_item_def iot_nv_read_data_def iot_nv_io_storage_def
          split: if_splits prod.splits bool.splits sum.splits bind_splits)
  qed
qed

lemma nv_status_view:
  assumes "nv_id i" "nv_status P i data w s = Some (IOT_ERROR_NONE, data', w', s')" "4 < length data"
  shows "view_done (stored s) i \<and> w' = w \<and> stored s' = stored s \<and> length data' = length data"
proof -
  obtain e d1 len s1 where r: "iot_nv_read_data P i data (length data) s = Some (e, d1, len, s1)"
    using assms(2) by (cases "iot_nv_read_data P i data (length data) s") (auto simp: nv_status_def)
  note R = read_data_cases [OF assms(1) r]
  from assms(2) r have "e = IOT_ERROR_NONE" "is_done d1" "data' = d1" "s' = s1" "w' = w"
    by (auto simp: nv_status_def split: if_splits)
  with R obtain c where c: "stored s i = Some c" "len = length (take 2048 c)" "len \<le> length data"
    "d1 = (if len < length data then take 2048 c @ [0] else take 2048 c) @ drop (if len < length data then Suc len else len) data"
    by auto
  have ld: "length d1 = length data" unfolding c(4) using c(2,3) by auto
  have "is_done c"
  proof (cases "4 \<le> length c")
    case True
    with \<open>is_done d1\<close> c show ?thesis by (auto simp: is_done_def split: if_splits)
  next
    case False
    with c assms(3) have "d1 ! length c = 0" "length c < 4" by (auto simp: nth_append)
    moreover have "cstr ''DONE'' ! length c \<noteq> 0" using False
      by (cases "length c" rule: nat.exhaust; simp add: cstr_def nth_Cons' of_char_def)
    ultimately have False using \<open>is_done d1\<close> nth_take [of "length c" 4 d1]
      by (simp add: is_done_def)
    then show ?thesis ..
  qed
  with c R ld \<open>data' = d1\<close> \<open>s' = s1\<close> \<open>w' = w\<close> show ?thesis by (auto simp: view_done_def)
qed

end
