(* ===== verification/Nv_Wifi.thy ===== *)
theory Nv_Wifi
  imports Nv_Update
begin

text \<open>
  The Wi-Fi and cloud settings as the theory \<^verbatim>\<open>Nv_Update\<close> sees them: which updates storing them makes, what
  loading them gives, and from both that settings come back as they were stored and that a store that
  was interrupted never mixes old and new ones.
\<close>

section \<open>Loading the Wi-Fi settings\<close>

definition view_field :: "nat \<Rightarrow> (iot_wifi_prov_data \<Rightarrow> u8 list) \<Rightarrow> (u8 list \<Rightarrow> iot_wifi_prov_data \<Rightarrow> iot_wifi_prov_data)
    \<Rightarrow> iot_wifi_prov_data loader" where
  "view_field n get upd data len w = map_option (\<lambda>f. upd f w) (load_field n data (get w))"

definition view_bssid :: "iot_wifi_prov_data loader" where
  "view_bssid data len w = map_option (\<lambda>(e, w, s). w) (load_bssid data len w (undefined :: unit store))"

definition view_auth :: "iot_wifi_prov_data loader" where
  "view_auth data len w = map_option (\<lambda>t. w\<lparr>wp_security_type := atoi_c t\<rparr>) (c_string data)"

definition set_ssid :: "u8 list \<Rightarrow> iot_wifi_prov_data \<Rightarrow> iot_wifi_prov_data" where "set_ssid f w = w\<lparr>wp_ssid := f\<rparr>"
definition set_password :: "u8 list \<Rightarrow> iot_wifi_prov_data \<Rightarrow> iot_wifi_prov_data" where
  "set_password f w = w\<lparr>wp_password := f\<rparr>"

definition wifi_view :: "(iot_nvd \<Rightarrow> u8 list option) \<Rightarrow> iot_wifi_prov_data \<Rightarrow> iot_wifi_prov_data option" where
  "wifi_view c w = do {
        w \<leftarrow> (if view_done c IOT_NVD_WIFI_PROV_STATUS then Some w else None);
        w \<leftarrow> view_item 65 c IOT_NVD_AP_SSID (view_field 32 wp_ssid set_ssid) (\<lambda>w. w\<lparr>wp_ssid := truncate_field (wp_ssid w)\<rparr>) w;
        w \<leftarrow> view_item 65 c IOT_NVD_AP_PASS (view_field 64 wp_password set_password)
               (\<lambda>w. w\<lparr>wp_password := truncate_field (wp_password w)\<rparr>) w;
        w \<leftarrow> view_item 65 c IOT_NVD_AP_BSSID view_bssid clear_bssid w;
        view_item 65 c IOT_NVD_AP_AUTH_TYPE view_auth (\<lambda>w. w\<lparr>wp_security_type := - 1\<rparr>) w }"

lemma c_string_append [simp]: "c_string (d @ 0 # rest) = Some (takeWhile (\<lambda>c. c \<noteq> 0) d)"
  by (induction d) (auto simp: c_string_def)

lemma load_field_append:
  "load_field n (d @ 0 # rest) f = (let t = takeWhile (\<lambda>c. c \<noteq> 0) d
     in if length t < n then poke (t @ [0]) f else poke (take n d @ [0]) f)"
  using length_takeWhile_le [of "\<lambda>c. c \<noteq> 0" d] by (auto simp: load_field_def Let_def)

lemma tail_free_field [simp]: "tail_free (view_field n get upd)"
  by (simp add: tail_free_def view_field_def load_field_append)

lemma tail_free_auth [simp]: "tail_free view_auth"
  by (simp add: tail_free_def view_auth_def)

lemma tail_free_bssid [simp]: "tail_free view_bssid"
  by (simp add: tail_free_def view_bssid_def load_bssid_def)

lemma wifi_ids [simp]:
  "nv_id IOT_NVD_WIFI_PROV_STATUS" "nv_id IOT_NVD_AP_SSID" "nv_id IOT_NVD_AP_PASS" "nv_id IOT_NVD_AP_BSSID"
  "nv_id IOT_NVD_AP_AUTH_TYPE" "nv_id IOT_NVD_CLOUD_PROV_STATUS" "nv_id IOT_NVD_SERVER_URL"
  "nv_id IOT_NVD_SERVER_PORT" "nv_id IOT_NVD_LABEL" "nv_id IOT_NVD_DEVICE_ID" "nv_id IOT_NVD_MISC_INFO"
  by (simp_all add: nv_id_def factory_id_def)

lemma length_fresh [simp]: "length (fresh_buffer P n) = n"
  by (simp add: fresh_buffer_def)

lemma load_bssid_view: "realises load_bssid view_bssid"
  by (auto simp: realises_def load_bssid_def view_bssid_def Let_def split: bind_splits option.splits if_splits)

text \<open>A chain of steps that succeeds shows the view \<open>V\<close> of the contents \<open>c\<close> and leaves them alone.\<close>

definition shows_view :: "('n, 'p) nv_result \<Rightarrow> nat \<Rightarrow> 'p option \<Rightarrow> (iot_nvd \<Rightarrow> u8 list option) \<Rightarrow> bool" where
  "shows_view r n V c \<longleftrightarrow> (\<forall>data w s. r = Some (IOT_ERROR_NONE, data, w, s) \<longrightarrow>
     V = Some w \<and> length data = n \<and> stored s = c)"

lemma shows_status:
  "nv_id i \<Longrightarrow> 4 < length data \<Longrightarrow> shows_view (nv_status P i data w s) (length data)
     (if view_done (stored s) i then Some w else None) (stored s)"
  unfolding shows_view_def using nv_status_view by fastforce

lemma shows_then:
  assumes "shows_view r n V c" "\<And>d. length (g d) = length d" "nv_id i" "tail_free f" "realises found f"
  shows "shows_view (nv_then r (\<lambda>data. nv_item P i found missing (g data))) n (V \<bind> view_item n c i f missing) c"
  unfolding shows_view_def
proof (intro allI impI)
  fix data' w' s'
  assume "nv_then r (\<lambda>data. nv_item P i found missing (g data)) = Some (IOT_ERROR_NONE, data', w', s')"
  then obtain data w s where r: "r = Some (IOT_ERROR_NONE, data, w, s)"
    and i: "nv_item P i found missing (g data) w s = Some (IOT_ERROR_NONE, data', w', s')"
    by (auto simp: nv_then_def split: bind_splits if_splits)
  from assms(1) r have "V = Some w" "length data = n" "stored s = c" by (auto simp: shows_view_def)
  with nv_item_view [OF assms(3,4,5) i] assms(2)
  show "(V \<bind> view_item n c i f missing) = Some w' \<and> length data' = n \<and> stored s' = c" by simp
qed

lemma load_ssid_view: "realises load_ssid (view_field 32 wp_ssid set_ssid)"
  by (auto simp: realises_def load_ssid_def view_field_def set_ssid_def split: bind_splits)

lemma load_password_view: "realises load_password (view_field 64 wp_password set_password)"
  by (auto simp: realises_def load_password_def view_field_def set_password_def split: bind_splits)

lemma load_auth_view: "realises load_auth_type view_auth"
  by (auto simp: realises_def load_auth_type_def view_auth_def split: bind_splits)

lemma get_wifi_view:
  assumes "iot_nv_get_wifi_prov_data P w s = Some (IOT_ERROR_NONE, w', s')"
  shows "wifi_view (stored s) w = Some w' \<and> stored s' = stored s"
proof -
  obtain s0 where m: "malloc_c P s = (True, s0)"
    using assms by (cases "malloc_c P s") (auto simp: iot_nv_get_wifi_prov_data_def split: bool.splits)
  have s0: "stored s0 = stored s" by (rule stored_cong [OF malloc_cases [OF m]])
  note chain = shows_then [where g = "\<lambda>d. d", OF _ refl]
  note V = chain [OF chain [OF chain [OF chain [OF shows_status
      [of IOT_NVD_WIFI_PROV_STATUS "fresh_buffer P 65" P w s0, simplified]
      _ tail_free_field load_ssid_view] _ tail_free_field load_password_view] _ tail_free_bssid load_bssid_view]
      _ tail_free_auth load_auth_view]
  show ?thesis using assms m s0
      V [of IOT_NVD_AP_SSID IOT_NVD_AP_PASS IOT_NVD_AP_BSSID IOT_NVD_AP_AUTH_TYPE
        P "\<lambda>w. w\<lparr>wp_ssid := truncate_field (wp_ssid w)\<rparr>" P "\<lambda>w. w\<lparr>wp_password := truncate_field (wp_password w)\<rparr>"
        P clear_bssid P "\<lambda>w. w\<lparr>wp_security_type := - 1\<rparr>"]
    by (auto simp: iot_nv_get_wifi_prov_data_def wifi_view_def shows_view_def split: bind_splits if_splits)
qed

section \<open>Storing the Wi-Fi settings\<close>

text \<open>The structure as the onboarding fills it: terminated strings, and a MAC text that belongs to the address.\<close>

definition wifi_sizes :: "iot_wifi_prov_data \<Rightarrow> bool" where
  "wifi_sizes w \<longleftrightarrow> length (wp_ssid w) = 33 \<and> length (wp_password w) = 65 \<and> length (wp_mac_str w) = 18
     \<and> length (wp_bssid w) = 6"

definition wifi_ok :: "iot_wifi_prov_data \<Rightarrow> bool" where
  "wifi_ok w \<longleftrightarrow> wifi_sizes w \<and> wp_ssid w ! 32 = 0 \<and> wp_password w ! 64 = 0
     \<and> (wp_mac_str w ! 0 = 0 \<or> wp_mac_str w = mac_text (wp_bssid w) @ [0])"

definition field_update :: "iot_nvd \<Rightarrow> nat \<Rightarrow> u8 list \<Rightarrow> update" where
  "field_update i n f = (if f ! 0 = 0 then Erase i else Put i (take n f))"

definition auth_update :: "int \<Rightarrow> update" where
  "auth_update t = (if t < IOT_WIFI_AUTH_OPEN \<or> t > IOT_WIFI_AUTH_MAX then Erase IOT_NVD_AP_AUTH_TYPE
                    else Put IOT_NVD_AP_AUTH_TYPE (decimal_int t))"

definition wifi_updates :: "iot_wifi_prov_data \<Rightarrow> update list" where
  "wifi_updates w = [field_update IOT_NVD_AP_SSID 32 (wp_ssid w), field_update IOT_NVD_AP_PASS 64 (wp_password w),
     field_update IOT_NVD_AP_BSSID 17 (wp_mac_str w), auth_update (wp_security_type w)]"

definition bracket :: "iot_nvd \<Rightarrow> update list \<Rightarrow> update list" where
  "bracket S us = Put S (cstr ''NONE'') # us @ [Put S (cstr ''DONE'')]"

lemma nv_next_assoc: "nv_next (nv_next r f) g = nv_next r (\<lambda>s. nv_next (f s) g)"
  by (auto simp: nv_next_def split: bind_splits)

lemma nv_next_end [simp]: "nv_next r (\<lambda>s. Some (IOT_ERROR_NONE, s)) = r"
  by (auto simp: nv_next_def split: bind_splits)

lemma run_updates_Nil: "run_updates P [] = (\<lambda>s. Some (IOT_ERROR_NONE, s))"
  by (rule ext) simp

lemma run_updates_Cons: "run_updates P (u # us) = (\<lambda>s. nv_next (run_update P u s) (run_updates P us))"
  by (rule ext) simp

lemma store_field_update:
  "n < length f \<Longrightarrow> store_field P i n f = run_update P (field_update i n f)"
  by (rule ext) (auto simp: store_field_def field_update_def read_byte_def)

lemma length_NONE_DONE [simp]: "length (cstr ''NONE'') = 4" "length (cstr ''DONE'') = 4"
  by (simp_all add: cstr_def)

lemma store_auth_update: "store_auth_type P t = run_update P (auth_update t)"
  by (rule ext) (simp add: store_auth_type_def auth_update_def)

lemma set_wifi_updates:
  assumes "wifi_sizes w"
  shows "iot_nv_set_wifi_prov_data P w s = (case malloc_c P s of
     (False, s) \<Rightarrow> Some (IOT_ERROR_NV_DATA_ERROR, s)
   | (True, s) \<Rightarrow> run_updates P (bracket IOT_NVD_WIFI_PROV_STATUS (wifi_updates w)) s)"
proof -
  have "run_updates P (bracket IOT_NVD_WIFI_PROV_STATUS (wifi_updates w)) t =
      nv_next (nv_next (nv_next (nv_next (nv_next
         (nv_put P IOT_NVD_WIFI_PROV_STATUS (cstr ''NONE'') 4 t)
         (store_field P IOT_NVD_AP_SSID 32 (wp_ssid w)))
         (store_field P IOT_NVD_AP_PASS 64 (wp_password w)))
         (store_field P IOT_NVD_AP_BSSID 17 (wp_mac_str w)))
         (store_auth_type P (wp_security_type w)))
         (nv_put P IOT_NVD_WIFI_PROV_STATUS (cstr ''DONE'') 4)" for t
    using assms
    by (simp add: bracket_def wifi_updates_def wifi_sizes_def store_field_update store_auth_update
        nv_next_assoc run_updates_Cons run_updates_Nil del: run_updates.simps)
  then show ?thesis by (simp add: iot_nv_set_wifi_prov_data_def split: prod.split bool.split)
qed

text \<open>When the updates do what they say: those that erase need erasing to work.\<close>

definition wifi_full :: "iot_wifi_prov_data \<Rightarrow> bool" where
  "wifi_full w \<longleftrightarrow> wp_ssid w ! 0 \<noteq> 0 \<and> wp_password w ! 0 \<noteq> 0 \<and> wp_mac_str w ! 0 \<noteq> 0
     \<and> IOT_WIFI_AUTH_OPEN \<le> wp_security_type w \<and> wp_security_type w \<le> IOT_WIFI_AUTH_MAX"

lemma wifi_updates_effective:
  "erase_works P \<or> wifi_full w \<Longrightarrow> list_all (effective P) (bracket IOT_NVD_WIFI_PROV_STATUS (wifi_updates w))"
  by (auto simp: bracket_def wifi_updates_def field_update_def auth_update_def effective_def wifi_full_def)

lemma wifi_updates_targets: "u \<in> set (wifi_updates w) \<Longrightarrow> target u \<noteq> IOT_NVD_WIFI_PROV_STATUS"
  by (auto simp: wifi_updates_def field_update_def auth_update_def split: if_splits)

text \<open>The contents after storing \<open>w\<close> completely.\<close>

definition wifi_stored :: "iot_wifi_prov_data \<Rightarrow> (iot_nvd \<Rightarrow> u8 list option) \<Rightarrow> iot_nvd \<Rightarrow> u8 list option" where
  "wifi_stored w c = fold apply_update (bracket IOT_NVD_WIFI_PROV_STATUS (wifi_updates w)) c"

lemma wifi_view_cong:
  assumes "c IOT_NVD_WIFI_PROV_STATUS = d IOT_NVD_WIFI_PROV_STATUS" "\<And>i. i \<noteq> IOT_NVD_WIFI_PROV_STATUS \<Longrightarrow> c i = d i"
  shows "wifi_view c w = wifi_view d w"
proof -
  have "c = d" using assms by (metis ext)
  then show ?thesis by simp
qed

lemma view_done_overlay_NONE: "\<not> is_done (overlay (cstr ''NONE'') x)"
  by (simp add: is_done_def overlay_def cstr_def)

lemma view_done_overlay_DONE: "is_done (overlay (cstr ''DONE'') x)"
  by (simp add: is_done_def overlay_def)

lemma not_done_torn: "0 < k \<or> x = None \<Longrightarrow> \<not> is_done (overlay (take k (cstr ''NONE'')) x)"
  by (cases k) (auto simp: is_done_def overlay_def cstr_def)

lemma fold_apply_upd:
  "\<forall>u \<in> set us. target u \<noteq> i \<Longrightarrow> fold apply_update us (c(i := v)) = (fold apply_update us c)(i := v)"
  by (induction us arbitrary: c) (simp_all add: apply_other)

text \<open>
  A store that was interrupted: what a later load shows is nothing, or exactly what was stored before, or
  exactly the new settings.
\<close>

lemma wifi_view_other_status:
  assumes "\<And>i. i \<noteq> IOT_NVD_WIFI_PROV_STATUS \<Longrightarrow> c i = d i"
  shows "wifi_view c w = None \<or> (\<exists>x. wifi_view c w = wifi_view (d(IOT_NVD_WIFI_PROV_STATUS := Some x)) w \<and> is_done x)"
proof (cases "view_done c IOT_NVD_WIFI_PROV_STATUS")
  case True
  then obtain x where "c IOT_NVD_WIFI_PROV_STATUS = Some x" "is_done x" by (auto simp: view_done_def)
  with wifi_view_cong [of c "d(IOT_NVD_WIFI_PROV_STATUS := Some x)" w] assms show ?thesis by auto
qed (simp add: wifi_view_def)

lemma wifi_view_status:
  assumes "is_done x" "is_done y"
  shows "wifi_view (c(IOT_NVD_WIFI_PROV_STATUS := Some x)) w = wifi_view (c(IOT_NVD_WIFI_PROV_STATUS := Some y)) w"
  using assms by (simp add: wifi_view_def view_done_def view_item_def)

lemma set_wifi_atomic:
  assumes "wifi_sizes w" "erase_works P \<or> wifi_full w" "iot_nv_set_wifi_prov_data P w s = Some (e, s')"
  shows "wifi_view (stored s') w0 \<in> {None, wifi_view (stored s) w0, wifi_view (wifi_stored w (stored s)) w0}"
proof -
  obtain b s1 where m: "malloc_c P s = (b, s1)" by fastforce
  have s1: "stored s1 = stored s" by (rule stored_cong [OF malloc_cases [OF m]])
  show ?thesis
  proof (cases b)
    case False
    with assms m s1 show ?thesis by (simp add: set_wifi_updates)
  next
    case True
    with assms m have "run_updates P (bracket IOT_NVD_WIFI_PROV_STATUS (wifi_updates w)) s1 = Some (e, s')"
      by (simp add: set_wifi_updates)
    from bracket_atomic [OF wifi_updates_effective [OF assms(2), unfolded bracket_def] _ this [unfolded bracket_def]]
      wifi_updates_targets [of _ w] s1
    consider (old) "\<forall>j. j \<noteq> IOT_NVD_WIFI_PROV_STATUS \<longrightarrow> stored s' j = stored s j"
        "stored s' IOT_NVD_WIFI_PROV_STATUS = stored s IOT_NVD_WIFI_PROV_STATUS \<or>
         (\<exists>k. stored s' IOT_NVD_WIFI_PROV_STATUS = Some (overlay (take k (cstr ''NONE'')) (stored s IOT_NVD_WIFI_PROV_STATUS)))"
      | (half) "stored s' IOT_NVD_WIFI_PROV_STATUS = Some (overlay (cstr ''NONE'') (stored s IOT_NVD_WIFI_PROV_STATUS))"
      | (new) "\<forall>j. j \<noteq> IOT_NVD_WIFI_PROV_STATUS \<longrightarrow> stored s' j = fold apply_update (wifi_updates w) (stored s) j"
      by auto
    then show ?thesis
    proof cases
      case old
      from old(2) consider "stored s' = stored s" | "\<not> view_done (stored s') IOT_NVD_WIFI_PROV_STATUS"
      proof (elim disjE exE)
        assume "stored s' IOT_NVD_WIFI_PROV_STATUS = stored s IOT_NVD_WIFI_PROV_STATUS"
        with old(1) have "stored s' = stored s" by (metis ext)
        with that(1) show ?thesis .
      next
        fix k assume k: "stored s' IOT_NVD_WIFI_PROV_STATUS = Some (overlay (take k (cstr ''NONE'')) (stored s IOT_NVD_WIFI_PROV_STATUS))"
        show ?thesis
        proof (cases "k = 0 \<and> stored s IOT_NVD_WIFI_PROV_STATUS \<noteq> None")
          case True
          with k have "stored s' IOT_NVD_WIFI_PROV_STATUS = stored s IOT_NVD_WIFI_PROV_STATUS" by (auto simp: overlay_def)
          with old(1) have "stored s' = stored s" by (metis ext)
          with that(1) show ?thesis .
        next
          case False
          with k that(2) show ?thesis by (auto simp: view_done_def not_done_torn)
        qed
      qed
      then show ?thesis by cases (simp_all add: wifi_view_def)
    next
      case half
      then show ?thesis by (simp add: wifi_view_def view_done_def view_done_overlay_NONE)
    next
      case new
      have "wifi_stored w (stored s) = (fold apply_update (wifi_updates w) (stored s))
          (IOT_NVD_WIFI_PROV_STATUS := Some (overlay (cstr ''DONE'') (Some (overlay (cstr ''NONE'') (stored s IOT_NVD_WIFI_PROV_STATUS)))))"
        (is "_ = ?c(_ := Some ?d)")
        using wifi_updates_targets [of _ w]
        by (simp add: wifi_stored_def bracket_def fold_apply_upd fold_apply_frame)
      with wifi_view_other_status [of "stored s'" ?c w0] new show ?thesis
        using wifi_view_status [OF _ view_done_overlay_DONE, of _ ?c] by auto
    qed
  qed
qed

section \<open>Wi-Fi settings come back\<close>

text \<open>The sizes the items have when only this code wrote them.\<close>

definition items_sized :: "(iot_nvd \<Rightarrow> u8 list option) \<Rightarrow> bool" where
  "items_sized c \<longleftrightarrow> (\<forall>x. c IOT_NVD_AP_SSID = Some x \<longrightarrow> length x \<le> 32) \<and>
     (\<forall>x. c IOT_NVD_AP_PASS = Some x \<longrightarrow> length x \<le> 64) \<and>
     (\<forall>x. c IOT_NVD_AP_BSSID = Some x \<longrightarrow> length x \<le> 17) \<and>
     (\<forall>x. c IOT_NVD_AP_AUTH_TYPE = Some x \<longrightarrow> length x \<le> 1) \<and>
     (\<forall>x. c IOT_NVD_WIFI_PROV_STATUS = Some x \<longrightarrow> length x \<le> 4)"

text \<open>The same settings: the same strings, the same address, the same kind of security.\<close>

definition same_wifi :: "iot_wifi_prov_data \<Rightarrow> iot_wifi_prov_data \<Rightarrow> bool" where
  "same_wifi w w' \<longleftrightarrow> wifi_sizes w' \<and> c_string (wp_ssid w') = c_string (wp_ssid w)
     \<and> c_string (wp_password w') = c_string (wp_password w) \<and> c_string (wp_mac_str w') = c_string (wp_mac_str w)
     \<and> (wp_mac_str w ! 0 \<noteq> 0 \<longrightarrow> wp_bssid w' = wp_bssid w)
     \<and> wp_security_type w' = (if IOT_WIFI_AUTH_OPEN \<le> wp_security_type w \<and> wp_security_type w \<le> IOT_WIFI_AUTH_MAX
                             then wp_security_type w else - 1)"

lemma takeWhile_whole: "0 \<notin> set t \<Longrightarrow> takeWhile (\<lambda>c. c \<noteq> (0 :: u8)) t = t"
  by (induction t) auto

lemma takeWhile_no_zero: "0 \<notin> set (takeWhile (\<lambda>c. c \<noteq> (0 :: u8)) xs)"
  by (auto dest: set_takeWhileD)

lemma field_comes_back:
  assumes "length f = Suc n" "f ! n = 0" "length f0 = Suc n"
  shows "\<exists>f'. load_field n (take n f @ [0]) f0 = Some f' \<and> c_string f' = c_string f \<and> length f' = Suc n"
proof -
  have f: "f = take n f @ [0]" using assms(1,2) by (metis take_Suc_conv_app_nth lessI order_refl take_all)
  let ?t = "takeWhile (\<lambda>c. c \<noteq> 0) (take n f)"
  have cf: "c_string f = Some ?t" by (subst f) simp
  have lt: "length ?t \<le> n" using length_takeWhile_le [of "\<lambda>c. c \<noteq> 0" "take n f"] by simp
  show ?thesis
  proof (cases "length ?t < n")
    case True
    with assms(3) cf takeWhile_no_zero [of "take n f"] show ?thesis
      by (auto simp: load_field_append [of _ _ "[]", simplified] Let_def poke_def takeWhile_whole)
  next
    case False
    with lt have "length ?t = length (take n f)" using assms(1) by simp
    then have "?t = take n f" using takeWhile_eq_take [of "\<lambda>c. c \<noteq> 0" "take n f"] assms(1) by simp
    with assms cf False show ?thesis
      by (auto simp: load_field_append [of _ _ "[]", simplified] Let_def poke_def)
  qed
qed

lemma hexdigit_nonzero: "n < 16 \<Longrightarrow> hexdigit n \<noteq> 0"
proof
  assume "n < 16" "hexdigit n = 0"
  with hexdigit_ishex [of n] have "ishex 0" by simp
  then show False by (simp add: ishex_def)
qed

lemma mac_text_nonzero: "0 \<notin> set (mac_text bs)"
proof
  assume "0 \<in> set (mac_text bs)"
  moreover have "set (tl xs) \<subseteq> set xs" for xs :: "u8 list" by (cases xs) auto
  ultimately have "(0 :: u8) \<in> set (concat (map (\<lambda>b. colon # hex02 b) bs))" unfolding mac_text_def by blast
  then obtain b where "(0 :: u8) \<in> set (colon # hex02 b)" by (auto split: if_splits)
  then have "0 = hexdigit (unat b div 16) \<or> 0 = hexdigit (unat b mod 16)" by (simp add: hex02_def)
  moreover have "0 \<noteq> hexdigit (unat b div 16)" by (rule not_sym [OF hexdigit_nonzero [OF div16_less]])
  moreover have "0 \<noteq> hexdigit (unat b mod 16)" by (rule not_sym [OF hexdigit_nonzero]) simp
  ultimately show False by blast
qed

lemma items_overlay: "(\<forall>x. c i = Some x \<longrightarrow> length x \<le> length d) \<Longrightarrow> overlay d (c i) = d"
  by (cases "c i") (simp_all add: overlay_full)

lemma decimal_int_digit: "0 \<le> t \<Longrightarrow> t \<le> 8 \<Longrightarrow> length (decimal_int t) = 1"
  using length_decimal [of "nat t"] by (auto simp: decimal_int_def cstr_def)

lemma decimal_int_atoi: "0 \<le> t \<Longrightarrow> atoi_c (decimal_int t) = t"
  by (simp add: decimal_int_def atoi_decimal)

lemma decimal_nonzero: "0 \<notin> set (cstr (decimal n))"
  using decimal_digits [of n] by (auto simp: list_all_iff isdigit_c_def)

lemma wifi_stored_items:
  assumes "items_sized c" "wifi_sizes w"
  shows "wifi_stored w c IOT_NVD_AP_SSID = (if wp_ssid w ! 0 = 0 then None else Some (take 32 (wp_ssid w)))"
    and "wifi_stored w c IOT_NVD_AP_PASS = (if wp_password w ! 0 = 0 then None else Some (take 64 (wp_password w)))"
    and "wifi_stored w c IOT_NVD_AP_BSSID = (if wp_mac_str w ! 0 = 0 then None else Some (take 17 (wp_mac_str w)))"
    and "wifi_stored w c IOT_NVD_AP_AUTH_TYPE = (if wp_security_type w < 0 \<or> 8 < wp_security_type w then None
           else Some (decimal_int (wp_security_type w)))"
    and "view_done (wifi_stored w c) IOT_NVD_WIFI_PROV_STATUS"
proof -
  have o: "overlay (take 32 (wp_ssid w)) (c IOT_NVD_AP_SSID) = take 32 (wp_ssid w)"
    "overlay (take 64 (wp_password w)) (c IOT_NVD_AP_PASS) = take 64 (wp_password w)"
    "overlay (take 17 (wp_mac_str w)) (c IOT_NVD_AP_BSSID) = take 17 (wp_mac_str w)"
    "0 \<le> wp_security_type w \<Longrightarrow> wp_security_type w \<le> 8 \<Longrightarrow>
       overlay (decimal_int (wp_security_type w)) (c IOT_NVD_AP_AUTH_TYPE) = decimal_int (wp_security_type w)"
    using assms by (auto simp: items_sized_def wifi_sizes_def decimal_int_digit intro!: items_overlay)
  show "wifi_stored w c IOT_NVD_AP_SSID = (if wp_ssid w ! 0 = 0 then None else Some (take 32 (wp_ssid w)))"
    "wifi_stored w c IOT_NVD_AP_PASS = (if wp_password w ! 0 = 0 then None else Some (take 64 (wp_password w)))"
    "wifi_stored w c IOT_NVD_AP_BSSID = (if wp_mac_str w ! 0 = 0 then None else Some (take 17 (wp_mac_str w)))"
    "wifi_stored w c IOT_NVD_AP_AUTH_TYPE = (if wp_security_type w < 0 \<or> 8 < wp_security_type w then None
           else Some (decimal_int (wp_security_type w)))"
    using o by (simp_all add: wifi_stored_def bracket_def wifi_updates_def field_update_def auth_update_def)
  show "view_done (wifi_stored w c) IOT_NVD_WIFI_PROV_STATUS"
    by (simp add: wifi_stored_def bracket_def view_done_def view_done_overlay_DONE)
qed

lemma view_field_back:
  assumes "length (get w) = Suc n" "get w ! n = 0" "length (get w0) = Suc n" "n < 65" "0 < n"
    and "c i = (if get w ! 0 = 0 then None else Some (take n (get w)))"
  shows "\<exists>f. view_item 65 c i (view_field n get upd) (\<lambda>w. upd (truncate_field (get w)) w) w0 = Some (upd f w0)
    \<and> c_string f = c_string (get w) \<and> length f = Suc n"
proof (cases "get w ! 0 = 0")
  case True
  obtain x xs where w: "get w = x # xs" using assms(1) by (cases "get w") auto
  obtain y ys where w0: "get w0 = y # ys" using assms(3) by (cases "get w0") auto
  from True w have "c_string (get w) = Some []" by (simp add: c_string_def)
  moreover have "c_string (truncate_field (get w0)) = Some []" by (simp add: w0 truncate_field_def c_string_def)
  moreover have "length (truncate_field (get w0)) = Suc n" using assms(3) by (simp add: truncate_field_def)
  ultimately show ?thesis using assms(6) True by (intro exI [of _ "truncate_field (get w0)"]) (simp add: view_item_def)
next
  case False
  from field_comes_back [OF assms(1,2,3)] obtain f' where
    "load_field n (take n (get w) @ [0]) (get w0) = Some f'" "c_string f' = c_string (get w)" "length f' = Suc n" by blast
  with assms False show ?thesis by (auto simp: view_item_def view_field_def)
qed

lemma view_bssid_back:
  assumes "wifi_sizes w" "wifi_sizes w0" "wp_mac_str w ! 0 = 0 \<or> wp_mac_str w = mac_text (wp_bssid w) @ [0]"
    and "c i = (if wp_mac_str w ! 0 = 0 then None else Some (take 17 (wp_mac_str w)))"
  shows "\<exists>m b. view_item 65 c i view_bssid clear_bssid w0 = Some (w0\<lparr>wp_mac_str := m, wp_bssid := b\<rparr>)
    \<and> c_string m = c_string (wp_mac_str w) \<and> length m = 18 \<and> length b = 6
    \<and> (wp_mac_str w ! 0 \<noteq> 0 \<longrightarrow> b = wp_bssid w)"
proof (cases "wp_mac_str w ! 0 = 0")
  case True
  obtain x xs where w: "wp_mac_str w = x # xs" using assms(1) by (cases "wp_mac_str w") (auto simp: wifi_sizes_def)
  from True w have "c_string (wp_mac_str w) = Some []" by (simp add: c_string_def)
  moreover have "c_string (replicate 18 0) = Some []" by (simp add: c_string_def)
  ultimately show ?thesis using assms True
    by (intro exI [of _ "replicate 18 0"] exI [of _ "replicate 6 0"])
      (auto simp: view_item_def clear_bssid_def wifi_sizes_def)
next
  case False
  let ?m = "mac_text (wp_bssid w)"
  have m: "wp_mac_str w = ?m @ [0]" using assms(3) False by simp
  have l: "length ?m = 17" using assms(1) by (simp add: wifi_sizes_def length_mac_text)
  have "view_bssid (?m @ [0]) 17 w0 = Some (w0\<lparr>wp_mac_str := ?m @ [0], wp_bssid := wp_bssid w\<rparr>)"
    using assms(1,2) l
    by (simp add: view_bssid_def load_bssid_def poke_def wifi_sizes_def convert_str_mac_text
        takeWhile_whole [OF mac_text_nonzero])
  with assms(4) False m l have "view_item 65 c i view_bssid clear_bssid w0
      = Some (w0\<lparr>wp_mac_str := wp_mac_str w, wp_bssid := wp_bssid w\<rparr>)"
    by (simp add: view_item_def)
  with assms(1) show ?thesis by (intro exI [of _ "wp_mac_str w"] exI [of _ "wp_bssid w"]) (auto simp: wifi_sizes_def)
qed

lemma view_auth_back:
  assumes "c i = (if t < 0 \<or> 8 < t then None else Some (decimal_int t))"
  shows "view_item 65 c i view_auth (\<lambda>w. w\<lparr>wp_security_type := - 1\<rparr>) w0 =
    Some (w0\<lparr>wp_security_type := (if 0 \<le> t \<and> t \<le> 8 then t else - 1)\<rparr>)"
proof (cases "t < 0 \<or> 8 < t")
  case True
  with assms show ?thesis by (auto simp: view_item_def)
next
  case False
  then have l: "length (decimal_int t) = 1" and a: "atoi_c (decimal_int t) = t"
    by (simp_all add: decimal_int_digit decimal_int_atoi)
  have z: "takeWhile (\<lambda>c. c \<noteq> 0) (decimal_int t) = decimal_int t"
    using takeWhile_whole [OF decimal_nonzero, of "nat t"] False by (simp add: decimal_int_def)
  have "view_item 65 c i view_auth (\<lambda>w. w\<lparr>wp_security_type := - 1\<rparr>) w0 = Some (w0\<lparr>wp_security_type := t\<rparr>)"
    unfolding view_item_def using assms False l by (simp add: view_auth_def z a del: takeWhile_eq_all_conv)
  with False show ?thesis by simp
qed

text \<open>What was stored completely is shown, and shows the settings that were stored.\<close>

lemma wifi_comes_back:
  assumes "wifi_ok w" "items_sized c" "wifi_sizes w0"
  shows "\<exists>w'. wifi_view (wifi_stored w c) w0 = Some w' \<and> same_wifi w w'"
proof -
  have sz: "wifi_sizes w" using assms(1) by (simp add: wifi_ok_def)
  let ?c = "wifi_stored w c"
  note items = wifi_stored_items [OF assms(2) sz]
  obtain f1 where f1: "view_item 65 ?c IOT_NVD_AP_SSID (view_field 32 wp_ssid set_ssid)
      (\<lambda>w. set_ssid (truncate_field (wp_ssid w)) w) w0 = Some (set_ssid f1 w0)"
    "c_string f1 = c_string (wp_ssid w)" "length f1 = 33"
    using view_field_back [of wp_ssid w 32 w0 ?c IOT_NVD_AP_SSID set_ssid] items(1) assms(1,3) sz by (auto simp: wifi_ok_def wifi_sizes_def)
  let ?w1 = "set_ssid f1 w0"
  obtain f2 where f2: "view_item 65 ?c IOT_NVD_AP_PASS (view_field 64 wp_password set_password)
      (\<lambda>w. set_password (truncate_field (wp_password w)) w) ?w1 = Some (set_password f2 ?w1)"
    "c_string f2 = c_string (wp_password w)" "length f2 = 65"
    using view_field_back [of wp_password w 64 ?w1 ?c IOT_NVD_AP_PASS set_password] items(2) assms(1,3) sz
    by (auto simp: wifi_ok_def wifi_sizes_def set_ssid_def)
  let ?w2 = "set_password f2 ?w1"
  have sz2: "wifi_sizes ?w2" using assms(3) f1 f2 by (simp add: wifi_sizes_def set_ssid_def set_password_def)
  obtain m b where mb: "view_item 65 ?c IOT_NVD_AP_BSSID view_bssid clear_bssid ?w2
      = Some (?w2\<lparr>wp_mac_str := m, wp_bssid := b\<rparr>)"
    "c_string m = c_string (wp_mac_str w)" "length m = 18" "length b = 6" "wp_mac_str w ! 0 \<noteq> 0 \<longrightarrow> b = wp_bssid w"
    using view_bssid_back [OF sz sz2, of ?c IOT_NVD_AP_BSSID] items(3) assms(1) by (auto simp: wifi_ok_def)
  from items(5) f1(1) f2(1) mb(1) view_auth_back [of ?c IOT_NVD_AP_AUTH_TYPE, OF items(4)] f1 f2 mb sz2 show ?thesis
    by (simp add: wifi_view_def same_wifi_def wifi_sizes_def set_ssid_def set_password_def)
qed

lemma set_wifi_ok:
  assumes "wifi_sizes w" "erase_works P \<or> wifi_full w" "iot_nv_set_wifi_prov_data P w s = Some (IOT_ERROR_NONE, s')"
  shows "stored s' = wifi_stored w (stored s)"
proof -
  obtain s1 where m: "malloc_c P s = (True, s1)"
    using assms by (cases "malloc_c P s") (auto simp: set_wifi_updates split: bool.splits)
  have "stored s1 = stored s" by (rule stored_cong [OF malloc_cases [OF m]])
  with assms m run_updates_ok [OF _ wifi_updates_effective [OF assms(2)], of s1 s'] show ?thesis
    by (simp add: set_wifi_updates wifi_stored_def)
qed

lemma wifi_stored_status:
  assumes "items_sized c" shows "wifi_stored w c IOT_NVD_WIFI_PROV_STATUS = Some (cstr ''DONE'')"
proof -
  have "overlay (cstr ''NONE'') (c IOT_NVD_WIFI_PROV_STATUS) = cstr ''NONE''"
    using assms by (intro items_overlay) (simp add: items_sized_def)
  moreover have "fold apply_update (wifi_updates w) st IOT_NVD_WIFI_PROV_STATUS = st IOT_NVD_WIFI_PROV_STATUS" for st
    by (rule fold_apply_frame) (simp add: wifi_updates_targets)
  ultimately show ?thesis by (simp add: wifi_stored_def bracket_def overlay_full)
qed

lemma wifi_stored_sized:
  assumes "items_sized c" "wifi_sizes w"
  shows "items_sized (wifi_stored w c)"
  using wifi_stored_items(1-4) [OF assms] wifi_stored_status [OF assms(1)] assms(2)
  by (auto simp: items_sized_def wifi_sizes_def decimal_int_digit split: if_splits)

end
