(* ===== verification/Nv_Cloud.thy ===== *)
theory Nv_Cloud
  imports Nv_Wifi
begin

text \<open>
  The cloud settings: the broker's URL and port and the label of the device. They are written in the size
  they have, so on the POSIX port a shorter value leaves the end of a longer old one behind it: the
  settings come back when no item was longer before, and the port shows what happens otherwise.
\<close>

section \<open>Storing\<close>

definition pointer_update :: "iot_nvd \<Rightarrow> u8 list cell \<Rightarrow> update" where
  "pointer_update i p = (case p of Live t \<Rightarrow> Put i t | _ \<Rightarrow> Erase i)"

definition cloud_updates :: "iot_cloud_prov_data \<Rightarrow> update list" where
  "cloud_updates c = [pointer_update IOT_NVD_SERVER_URL (cp_broker_url c),
     Put IOT_NVD_SERVER_PORT (decimal_int (cp_broker_port c)), pointer_update IOT_NVD_LABEL (cp_label c)]"

definition cloud_live :: "iot_cloud_prov_data \<Rightarrow> bool" where
  "cloud_live c \<longleftrightarrow> cp_broker_url c \<noteq> Dangling \<and> cp_label c \<noteq> Dangling"

lemma store_pointer_update: "p \<noteq> Dangling \<Longrightarrow> store_pointer P i p = run_update P (pointer_update i p)"
  by (rule ext) (cases p; simp add: store_pointer_def pointer_update_def deref_def)

lemma set_cloud_updates:
  assumes "cloud_live c"
  shows "iot_nv_set_cloud_prov_data P c s = (case malloc_c P s of
     (False, s) \<Rightarrow> Some (IOT_ERROR_NV_DATA_ERROR, s)
   | (True, s) \<Rightarrow> run_updates P (bracket IOT_NVD_CLOUD_PROV_STATUS (cloud_updates c)) s)"
proof -
  have "run_updates P (bracket IOT_NVD_CLOUD_PROV_STATUS (cloud_updates c)) t =
       nv_next (nv_next (nv_next (nv_next
         (nv_put P IOT_NVD_CLOUD_PROV_STATUS (cstr ''NONE'') 4 t)
         (store_pointer P IOT_NVD_SERVER_URL (cp_broker_url c)))
         (store_port P (cp_broker_port c)))
         (store_pointer P IOT_NVD_LABEL (cp_label c)))
         (nv_put P IOT_NVD_CLOUD_PROV_STATUS (cstr ''DONE'') 4)" for t
    using assms
    by (simp add: bracket_def cloud_updates_def cloud_live_def store_pointer_update store_port_def
        nv_next_assoc run_updates_Cons run_updates_Nil del: run_updates.simps)
  then show ?thesis by (simp add: iot_nv_set_cloud_prov_data_def split: prod.split bool.split)
qed

definition cloud_full :: "iot_cloud_prov_data \<Rightarrow> bool" where
  "cloud_full c \<longleftrightarrow> cp_broker_url c \<noteq> Null \<and> cp_label c \<noteq> Null"

lemma cloud_updates_effective:
  "cloud_live c \<Longrightarrow> erase_works P \<or> cloud_full c
     \<Longrightarrow> list_all (effective P) (bracket IOT_NVD_CLOUD_PROV_STATUS (cloud_updates c))"
  by (cases "cp_broker_url c"; cases "cp_label c")
    (auto simp: bracket_def cloud_updates_def pointer_update_def effective_def cloud_full_def cloud_live_def)

definition cloud_stored :: "iot_cloud_prov_data \<Rightarrow> (iot_nvd \<Rightarrow> u8 list option) \<Rightarrow> iot_nvd \<Rightarrow> u8 list option" where
  "cloud_stored c st = fold apply_update (bracket IOT_NVD_CLOUD_PROV_STATUS (cloud_updates c)) st"

lemma set_cloud_ok:
  assumes "cloud_live c" "erase_works P \<or> cloud_full c" "iot_nv_set_cloud_prov_data P c s = Some (IOT_ERROR_NONE, s')"
  shows "stored s' = cloud_stored c (stored s)"
proof -
  obtain s1 where m: "malloc_c P s = (True, s1)"
    using assms by (cases "malloc_c P s") (auto simp: set_cloud_updates split: bool.splits)
  have "stored s1 = stored s" by (rule stored_cong [OF malloc_cases [OF m]])
  with assms m run_updates_ok [OF _ cloud_updates_effective [OF assms(1,2)], of s1 s'] show ?thesis
    by (simp add: set_cloud_updates cloud_stored_def)
qed

lemma cloud_stored_port [simp]:
  "cloud_stored c st IOT_NVD_SERVER_PORT = Some (overlay (decimal_int (cp_broker_port c)) (st IOT_NVD_SERVER_PORT))"
  by (cases "cp_broker_url c"; cases "cp_label c")
    (simp_all add: cloud_stored_def bracket_def cloud_updates_def pointer_update_def)

lemma cloud_stored_url:
  "cloud_stored c st IOT_NVD_SERVER_URL =
     (case cp_broker_url c of Live t \<Rightarrow> Some (overlay t (st IOT_NVD_SERVER_URL)) | _ \<Rightarrow> None)"
  by (cases "cp_broker_url c"; cases "cp_label c")
    (simp_all add: cloud_stored_def bracket_def cloud_updates_def pointer_update_def)

lemma cloud_stored_label:
  "cloud_stored c st IOT_NVD_LABEL =
     (case cp_label c of Live t \<Rightarrow> Some (overlay t (st IOT_NVD_LABEL)) | _ \<Rightarrow> None)"
  by (cases "cp_broker_url c"; cases "cp_label c")
    (simp_all add: cloud_stored_def bracket_def cloud_updates_def pointer_update_def)

section \<open>Loading\<close>

definition view_pointer :: "(u8 list \<Rightarrow> 'p \<Rightarrow> 'p) \<Rightarrow> 'p loader" where
  "view_pointer upd data len c = map_option (\<lambda>t. upd t c) (c_string data)"

definition view_port :: "iot_cloud_prov_data loader" where
  "view_port data len c = map_option (\<lambda>t. c\<lparr>cp_broker_port := atoi_c t\<rparr>) (c_string data)"

definition cloud_view :: "(iot_nvd \<Rightarrow> u8 list option) \<Rightarrow> iot_cloud_prov_data \<Rightarrow> iot_cloud_prov_data option" where
  "cloud_view st c = do {
     c \<leftarrow> (if view_done st IOT_NVD_CLOUD_PROV_STATUS then Some c else None);
     c \<leftarrow> view_item 1025 st IOT_NVD_SERVER_URL (view_pointer (\<lambda>t c. c\<lparr>cp_broker_url := Live t\<rparr>))
            (\<lambda>c. c\<lparr>cp_broker_url := Null\<rparr>) c;
     c \<leftarrow> view_item 1025 st IOT_NVD_SERVER_PORT view_port (\<lambda>c. c\<lparr>cp_broker_port := - 1\<rparr>) c;
     view_item 1025 st IOT_NVD_LABEL (view_pointer (\<lambda>t c. c\<lparr>cp_label := Live t\<rparr>)) (\<lambda>c. c\<lparr>cp_label := Null\<rparr>) c }"

lemma tail_free_pointer [simp]: "tail_free (view_pointer upd)"
  by (simp add: tail_free_def view_pointer_def)

lemma tail_free_port [simp]: "tail_free view_port"
  by (simp add: tail_free_def view_port_def)

lemma load_pointer_view: "realises (load_pointer P upd) (view_pointer upd)"
  by (auto simp: realises_def load_pointer_def view_pointer_def split: bind_splits prod.splits bool.splits
      dest!: malloc_cases intro: stored_cong)

lemma load_url_view: "realises (load_url P) (view_pointer (\<lambda>t c. c\<lparr>cp_broker_url := Live t\<rparr>))"
  unfolding load_url_def by (rule load_pointer_view)

lemma load_label_view: "realises (load_label P) (view_pointer (\<lambda>t c. c\<lparr>cp_label := Live t\<rparr>))"
  unfolding load_label_def by (rule load_pointer_view)

lemma load_port_view: "realises load_port view_port"
  by (auto simp: realises_def load_port_def view_port_def split: bind_splits)

lemma get_cloud_view:
  assumes "iot_nv_get_cloud_prov_data P c s = Some (IOT_ERROR_NONE, c', s')"
  shows "cloud_view (stored s) c = Some c' \<and> stored s' = stored s"
proof -
  obtain s0 where m: "malloc_c P s = (True, s0)"
    using assms by (cases "malloc_c P s") (auto simp: iot_nv_get_cloud_prov_data_def split: bool.splits)
  have s0: "stored s0 = stored s" by (rule stored_cong [OF malloc_cases [OF m]])
  note chain = shows_then [where g = "\<lambda>d. d", OF _ refl]
  note V = shows_then [where g = "\<lambda>d. replicate (length d) 0", OF chain [OF chain [OF shows_status
      [of IOT_NVD_CLOUD_PROV_STATUS "fresh_buffer P 1025" P c s0, simplified]
      _ tail_free_pointer load_url_view] _ tail_free_port load_port_view] _ _ tail_free_pointer load_label_view]
  show ?thesis using assms m s0
      V [of IOT_NVD_SERVER_URL IOT_NVD_SERVER_PORT IOT_NVD_LABEL
        P P "\<lambda>c. c\<lparr>cp_broker_url := Null\<rparr>" P "\<lambda>c. c\<lparr>cp_broker_port := - 1\<rparr>" P P "\<lambda>c. c\<lparr>cp_label := Null\<rparr>"]
    by (auto simp: iot_nv_get_cloud_prov_data_def cloud_view_def shows_view_def split: bind_splits if_splits)
qed

section \<open>Cloud settings come back, or do not\<close>

lemma view_string_item:
  assumes "st i = Some d" "length d < n" "n \<le> 2048"
  shows "view_item n st i (view_pointer upd) missing c = Some (upd (takeWhile (\<lambda>c. c \<noteq> 0) d) c)"
    and "view_item n st i view_port missing' c' = Some (c'\<lparr>cp_broker_port := atoi_c (takeWhile (\<lambda>c. c \<noteq> 0) d)\<rparr>)"
  using assms by (simp_all add: view_item_def view_pointer_def view_port_def)

definition text_ok :: "u8 list cell \<Rightarrow> bool" where
  "text_ok p \<longleftrightarrow> (case p of Null \<Rightarrow> True | Live t \<Rightarrow> 0 \<notin> set t \<and> length t \<le> 1024 | Dangling \<Rightarrow> False)"

text \<open>No item is longer in the store than its new text.\<close>

definition fits :: "u8 list option \<Rightarrow> u8 list cell \<Rightarrow> bool" where
  "fits old p \<longleftrightarrow> (case (old, p) of (Some x, Live t) \<Rightarrow> length x \<le> length t | _ \<Rightarrow> True)"

lemma view_pointer_back:
  assumes "text_ok p" "fits (st i) p" "st' i = (case p of Live t \<Rightarrow> Some (overlay t (st i)) | _ \<Rightarrow> None)"
  shows "view_item 1025 st' i (view_pointer (\<lambda>t c. upd (Live t) c)) (\<lambda>c. upd Null c) c = Some (upd p c)"
proof (cases p)
  case (Live t)
  with assms(2) have "overlay t (st i) = t" by (cases "st i") (auto simp: fits_def overlay_full)
  with assms Live view_string_item(1) [of st' i t 1025 "\<lambda>t c. upd (Live t) c" "\<lambda>c. upd Null c" c]
  show ?thesis by (simp add: text_ok_def takeWhile_whole)
qed (use assms in \<open>simp_all add: view_item_def text_ok_def\<close>)

lemma cloud_stored_status: "view_done (cloud_stored c st) IOT_NVD_CLOUD_PROV_STATUS"
  by (simp add: cloud_stored_def bracket_def view_done_def view_done_overlay_DONE)

text \<open>The port that loading shows: the number at the start of what the file then holds.\<close>

definition port_shown :: "int \<Rightarrow> u8 list option \<Rightarrow> int" where
  "port_shown p old = atoi_c (takeWhile (\<lambda>c. c \<noteq> 0) (overlay (decimal_int p) old))"

lemma cloud_comes_back:
  assumes "text_ok (cp_broker_url c)" "text_ok (cp_label c)"
    and "fits (st IOT_NVD_SERVER_URL) (cp_broker_url c)" "fits (st IOT_NVD_LABEL) (cp_label c)"
    and "length (overlay (decimal_int (cp_broker_port c)) (st IOT_NVD_SERVER_PORT)) \<le> 1024"
  shows "cloud_view (cloud_stored c st) c0 = Some (c0\<lparr>cp_broker_url := cp_broker_url c,
    cp_broker_port := port_shown (cp_broker_port c) (st IOT_NVD_SERVER_PORT), cp_label := cp_label c\<rparr>)"
proof -
  have url: "view_item 1025 (cloud_stored c st) IOT_NVD_SERVER_URL (view_pointer (\<lambda>t c. c\<lparr>cp_broker_url := Live t\<rparr>))
      (\<lambda>c. c\<lparr>cp_broker_url := Null\<rparr>) c1 = Some (c1\<lparr>cp_broker_url := cp_broker_url c\<rparr>)" for c1
    by (rule view_pointer_back [of "cp_broker_url c" st IOT_NVD_SERVER_URL "cloud_stored c st" "\<lambda>p c. c\<lparr>cp_broker_url := p\<rparr>",
      OF assms(1,3) cloud_stored_url])
  have label: "view_item 1025 (cloud_stored c st) IOT_NVD_LABEL (view_pointer (\<lambda>t c. c\<lparr>cp_label := Live t\<rparr>))
      (\<lambda>c. c\<lparr>cp_label := Null\<rparr>) c1 = Some (c1\<lparr>cp_label := cp_label c\<rparr>)" for c1
    by (rule view_pointer_back [of "cp_label c" st IOT_NVD_LABEL "cloud_stored c st" "\<lambda>p c. c\<lparr>cp_label := p\<rparr>",
      OF assms(2,4) cloud_stored_label])
  have port: "view_item 1025 (cloud_stored c st) IOT_NVD_SERVER_PORT view_port m c1
      = Some (c1\<lparr>cp_broker_port := port_shown (cp_broker_port c) (st IOT_NVD_SERVER_PORT)\<rparr>)" for m c1
    using view_string_item(2) [of "cloud_stored c st" IOT_NVD_SERVER_PORT
        "overlay (decimal_int (cp_broker_port c)) (st IOT_NVD_SERVER_PORT)" 1025 m c1] assms(5) by (simp add: port_shown_def)
  show ?thesis by (simp only: cloud_view_def cloud_stored_status if_True Option.bind.simps url port label)
qed

lemma port_shown_fits:
  assumes "0 \<le> p" "fits old (Live (decimal_int p))"
  shows "port_shown p old = p"
proof -
  have "overlay (decimal_int p) old = decimal_int p" using assms(2) by (cases old) (auto simp: fits_def overlay_full)
  with assms(1) show ?thesis
    by (simp add: port_shown_def decimal_int_def atoi_decimal takeWhile_whole [OF decimal_nonzero])
qed

text \<open>The port 8883 and then the port 443, over an empty store.\<close>

lemma port_443_after_8883: "port_shown 443 (Some (decimal_int 8883)) = 4433"
proof -
  have "cstr (decimal 443) = map digit_byte [4, 4, 3]"
    by (simp add: cstr_decimal [of 443] cstr_decimal [of 44] cstr_decimal [of 4] del: decimal.simps)
  moreover have "cstr (decimal 8883) = map digit_byte [8, 8, 8, 3]"
    by (simp add: cstr_decimal [of 8883] cstr_decimal [of 888] cstr_decimal [of 88] cstr_decimal [of 8] del: decimal.simps)
  moreover have "cstr (decimal 4433) = map digit_byte [4, 4, 3, 3]"
    by (simp add: cstr_decimal [of 4433] cstr_decimal [of 443] cstr_decimal [of 44] cstr_decimal [of 4] del: decimal.simps)
  ultimately have "overlay (decimal_int 443) (Some (decimal_int 8883)) = cstr (decimal 4433)"
    by (simp add: decimal_int_def overlay_def del: decimal.simps)
  then show ?thesis by (simp add: port_shown_def takeWhile_whole [OF decimal_nonzero] atoi_decimal)
qed

end
