(* ===== verification/Nv_Reliable.thy ===== *)
theory Nv_Reliable
  imports Nv_Cloud
begin

text \<open>
  When no call of the C library fails, storing and loading the settings succeed: the round trips take
  place, they do not only hold of the runs that happen to end well.
\<close>

definition reliable :: "'n posix \<Rightarrow> bool" where
  "reliable P \<longleftrightarrow> (\<forall>n. fst (p_malloc P n)) \<and> (\<forall>f n. fst (p_open P f n)) \<and> (\<forall>n. fst (p_read P n)) \<and>
     (\<forall>k n. fst (p_write P k n) = Some k) \<and> (\<forall>n. fst (p_close P n)) \<and> (\<forall>f n. fst (p_remove P f n))"

lemma reliable_erase: "reliable P \<Longrightarrow> erase_works P"
  by (simp add: reliable_def erase_works_def)

lemma reliable_malloc: "reliable P \<Longrightarrow> \<exists>s'. malloc_c P s = (True, s') \<and> files s' = files s"
  by (cases "p_malloc P (env s)") (auto simp: malloc_c_def reliable_def dest: spec [of _ "env s"])

lemma reliable_close: "reliable P \<Longrightarrow> \<exists>s'. iot_bsp_fs_close P s = (IOT_ERROR_NONE, s') \<and> files s' = files s"
  by (cases "p_close P (env s)") (auto simp: iot_bsp_fs_close_def reliable_def dest: spec [of _ "env s"])

lemma reliable_init:
  assumes "reliable P" shows "\<exists>s'. iot_nv_io_storage_init P s = (True, s') \<and> files s' = files s"
proof -
  obtain s1 where 1: "malloc_c P s = (True, s1)" "files s1 = files s" using reliable_malloc [OF assms] by blast
  obtain s2 where 2: "malloc_c P s1 = (True, s2)" "files s2 = files s1" using reliable_malloc [OF assms] by blast
  obtain s3 where 3: "malloc_c P s2 = (True, s3)" "files s3 = files s2" using reliable_malloc [OF assms] by blast
  show ?thesis by (simp add: iot_nv_io_storage_init_def iot_security_init_def iot_security_storage_init_def 1 2 3)
qed

lemma reliable_open_read:
  assumes "reliable P" "files s f = Some c"
  shows "\<exists>s'. iot_bsp_fs_open P f FS_READONLY s = (IOT_ERROR_NONE, s') \<and> files s' = files s"
proof -
  have "fst (p_open P f (env s))" using assms(1) by (simp add: reliable_def)
  then show ?thesis using assms(2) by (cases "p_open P f (env s)") (simp add: iot_bsp_fs_open_def Let_def)
qed

lemma reliable_fs_read:
  assumes "reliable P" "files s f = Some c"
  shows "\<exists>s'. iot_bsp_fs_read P f n s = (Inr (take n c), s') \<and> files s' = files s"
proof -
  obtain s1 where 1: "malloc_c P s = (True, s1)" "files s1 = files s" using reliable_malloc [OF assms(1)] by blast
  have "fst (p_read P (env s1))" using assms(1) by (simp add: reliable_def)
  then show ?thesis using assms(2) 1 by (cases "p_read P (env s1)") (simp add: iot_bsp_fs_read_def)
qed

lemma reliable_storage_read:
  assumes "reliable P" "nv_id i" "stored s i = Some c"
  shows "\<exists>s'. iot_security_storage_read P i s = (Inr (take 2048 c), s')"
proof -
  have f: "files s (nv_file i) = Some c" using assms by (simp add: stored_nv)
  obtain s1 where 1: "iot_bsp_fs_open P (nv_file i) FS_READONLY s = (IOT_ERROR_NONE, s1)" "files s1 = files s"
    using reliable_open_read [OF assms(1) f] by blast
  obtain s2 where 2: "malloc_c P s1 = (True, s2)" "files s2 = files s1" using reliable_malloc [OF assms(1)] by blast
  obtain s3 where 3: "iot_bsp_fs_read P (nv_file i) 2048 s2 = (Inr (take 2048 c), s3)"
    using reliable_fs_read [OF assms(1), of s2 "nv_file i" c 2048] f 1 2 by auto
  obtain s4 where 4: "malloc_c P s3 = (True, s4)" using reliable_malloc [OF assms(1)] by blast
  obtain s5 where 5: "iot_bsp_fs_close P s4 = (IOT_ERROR_NONE, s5)" using reliable_close [OF assms(1)] by blast
  show ?thesis using assms(2)
    by (simp add: storage_read_cases be_bsp_fs_load_from_nv_def nv_ids 1 2 3 4 5)
qed

lemma reliable_write:
  assumes "reliable P" "nv_id i" "d \<noteq> []"
  shows "\<exists>s'. iot_security_storage_write P i d s = (IOT_ERROR_NONE, s')"
proof -
  have "fst (p_open P (nv_file i) (env s))" using assms(1) by (simp add: reliable_def)
  then obtain s1 where 1: "iot_bsp_fs_open P (nv_file i) FS_READWRITE s = (IOT_ERROR_NONE, s1)"
    by (cases "p_open P (nv_file i) (env s)"; cases "files s (nv_file i)") (auto simp: iot_bsp_fs_open_def Let_def)
  have "fst (p_write P (length d) (env s1)) = Some (length d)" using assms(1) by (simp add: reliable_def)
  then obtain s2 where 2: "iot_bsp_fs_write P (nv_file i) d s1 = (IOT_ERROR_NONE, s2)"
    by (cases "p_write P (length d) (env s1)") (auto simp: iot_bsp_fs_write_def Let_def)
  obtain s3 where 3: "iot_bsp_fs_close P s2 = (IOT_ERROR_NONE, s3)" using reliable_close [OF assms(1)] by blast
  show ?thesis using assms(2,3)
    by (simp add: iot_security_storage_write_def be_bsp_fs_store_def be_bsp_fs_store_to_nv_def nv_ids 1 2 3)
qed

lemma nv_id_not_max: "nv_id i \<Longrightarrow> i \<noteq> IOT_NVD_MAX"
  by (auto simp: nv_id_def)

lemma reliable_put:
  assumes "reliable P" "nv_id i" "d \<noteq> []"
  shows "\<exists>s'. nv_put P i d (length d) s = Some (IOT_ERROR_NONE, s')"
proof -
  obtain s1 where 1: "iot_nv_io_storage_init P s = (True, s1)" using reliable_init [OF assms(1)] by blast
  obtain s2 where 2: "iot_security_storage_write P i d s1 = (IOT_ERROR_NONE, s2)" using reliable_write [OF assms] by blast
  show ?thesis using assms by (simp add: nv_put_def iot_nv_write_data_def iot_nv_io_storage_def 1 2 nv_id_not_max)
qed

lemma reliable_drop: "nv_id i \<Longrightarrow> \<exists>s'. nv_drop P i s = Some (IOT_ERROR_NONE, s')"
  using drop_defined [of P i s] drop_cases [of i P s] by blast

fun writes_something :: "update \<Rightarrow> bool" where
  "writes_something (Put i d) \<longleftrightarrow> nv_id i \<and> d \<noteq> []"
| "writes_something (Erase i) \<longleftrightarrow> nv_id i"

lemma reliable_updates:
  "reliable P \<Longrightarrow> list_all writes_something us \<Longrightarrow> \<exists>s'. run_updates P us s = Some (IOT_ERROR_NONE, s')"
proof (induction us arbitrary: s)
  case (Cons u us)
  have "\<exists>s1. run_update P u s = Some (IOT_ERROR_NONE, s1)"
    using Cons.prems reliable_put reliable_drop by (cases u) auto
  with Cons show ?case by (auto simp: nv_next_def)
qed simp

lemma cloud_stored_status_size:
  assumes "\<forall>x. st IOT_NVD_CLOUD_PROV_STATUS = Some x \<longrightarrow> length x \<le> 4"
  shows "cloud_stored c st IOT_NVD_CLOUD_PROV_STATUS = Some (cstr ''DONE'')"
proof -
  have "overlay (cstr ''NONE'') (st IOT_NVD_CLOUD_PROV_STATUS) = cstr ''NONE''"
    using assms by (intro items_overlay) simp
  moreover have "fold apply_update (cloud_updates c) st' IOT_NVD_CLOUD_PROV_STATUS = st' IOT_NVD_CLOUD_PROV_STATUS" for st'
    by (rule fold_apply_frame) (auto simp: cloud_updates_def pointer_update_def split: cell.splits)
  ultimately show ?thesis by (simp add: cloud_stored_def bracket_def overlay_full)
qed

section \<open>Loading\<close>

text \<open>A loader that gives a value is one whose step succeeds with it.\<close>

definition completes :: "(u8 list \<Rightarrow> nat \<Rightarrow> 'p \<Rightarrow> 'n store \<Rightarrow> (iot_error \<times> 'p \<times> 'n store) option) \<Rightarrow> 'p loader \<Rightarrow> bool" where
  "completes found f \<longleftrightarrow> (\<forall>data len w s w'. f data len w = Some w' \<longrightarrow>
     (\<exists>s'. found data len w s = Some (IOT_ERROR_NONE, w', s')))"

lemma reliable_read_some:
  assumes "reliable P" "nv_id i" "stored s i = Some c" "length (take 2048 c) \<le> length data" "data \<noteq> []"
  shows "\<exists>s'. iot_nv_read_data P i data (length data) s = Some (IOT_ERROR_NONE,
    (if length (take 2048 c) < length data then take 2048 c @ 0 # drop (Suc (length (take 2048 c))) data else take 2048 c),
    length (take 2048 c), s')"
proof -
  obtain s1 where 1: "iot_nv_io_storage_init P s = (True, s1)" "files s1 = files s" using reliable_init [OF assms(1)] by blast
  then have "stored s1 i = Some c" using assms(3) stored_cong [of s1 s] by simp
  with reliable_storage_read [OF assms(1,2)] obtain s2 where
    2: "iot_security_storage_read P i s1 = (Inr (take 2048 c), s2)" by blast
  show ?thesis using assms(2,4,5)
    by (auto simp: iot_nv_read_data_def iot_nv_io_storage_def 1 2 nv_id_not_max poke_def)
qed

lemma reliable_read_none:
  assumes "reliable P" "nv_id i" "stored s i = None" "data \<noteq> []"
  shows "\<exists>s'. iot_nv_read_data P i data (length data) s = Some (IOT_ERROR_NV_DATA_NOT_EXIST, data, 0, s')"
proof -
  obtain s1 where 1: "iot_nv_io_storage_init P s = (True, s1)" "files s1 = files s" using reliable_init [OF assms(1)] by blast
  then have n: "stored s1 i = None" using assms(3) stored_cong [of s1 s] by simp
  obtain r s2 where 2: "iot_security_storage_read P i s1 = (r, s2)" by fastforce
  with pfs.rd_missing [OF assms(2), of P s1] n have "r = Inl IOT_ERROR_SECURITY_FS_NOT_FOUND" by simp
  with 1 2 assms(2,4) show ?thesis
    by (auto simp: iot_nv_read_data_def iot_nv_io_storage_def nv_id_not_max storage_error_def)
qed

lemma reliable_item:
  assumes "reliable P" "nv_id i" "tail_free f" "completes found f" "data \<noteq> []"
    and "view_item (length data) (stored s) i f missing w = Some w'"
  shows "\<exists>data' s'. nv_item P i found missing data w s = Some (IOT_ERROR_NONE, data', w', s')"
proof (cases "stored s i")
  case None
  with reliable_read_none [OF assms(1,2) _ assms(5), of s] assms(6) show ?thesis
    by (auto simp: nv_item_def view_item_def)
next
  case (Some c)
  let ?d = "take 2048 c"
  from assms(6) Some have l: "length ?d \<le> length data"
    and f: "f (if length ?d < length data then ?d @ [0] else ?d) (length ?d) w = Some w'"
    by (auto simp: view_item_def Let_def not_less split: if_splits)
  define b where "b = (if length ?d < length data then ?d @ 0 # drop (Suc (length ?d)) data else ?d)"
  have "f b (length ?d) w = Some w'"
  proof (cases "length ?d < length data")
    case True
    have "f (?d @ 0 # drop (Suc (length ?d)) data) (length ?d) w = f (?d @ [0]) (length ?d) w"
      using assms(3) unfolding tail_free_def by blast
    with f True show ?thesis by (simp add: b_def del: length_take)
  qed (use f in \<open>simp add: b_def del: length_take\<close>)
  moreover obtain s1 where r: "iot_nv_read_data P i data (length data) s = Some (IOT_ERROR_NONE, b, length ?d, s1)"
    using reliable_read_some [OF assms(1,2) Some l assms(5)] unfolding b_def by blast
  ultimately obtain s2 where "found b (length ?d) w s1 = Some (IOT_ERROR_NONE, w', s2)"
    using assms(4) unfolding completes_def by blast
  with r show ?thesis by (simp add: nv_item_def del: length_take)
qed

lemma reliable_status:
  assumes "reliable P" "nv_id i" "view_done (stored s) i" "4 < length data"
    and "\<forall>c. stored s i = Some c \<longrightarrow> length c \<le> length data"
  shows "\<exists>data' s'. nv_status P i data w s = Some (IOT_ERROR_NONE, data', w, s')"
proof -
  obtain c where c: "stored s i = Some c" "is_done c" using assms(3) by (auto simp: view_done_def)
  have "data \<noteq> []" using assms(4) by auto
  moreover have "length (take 2048 c) \<le> length data" using assms(5) c by auto
  ultimately obtain s' where
    "iot_nv_read_data P i data (length data) s = Some (IOT_ERROR_NONE,
      (if length (take 2048 c) < length data then take 2048 c @ 0 # drop (Suc (length (take 2048 c))) data else take 2048 c),
      length (take 2048 c), s')" using reliable_read_some [OF assms(1,2) c(1)] by blast
  moreover have "4 \<le> length c" using c(2) by (metis is_done_def length_NONE_DONE(2) length_take min.cobounded1)
  ultimately show ?thesis using c(2) by (auto simp: nv_status_def is_done_def)
qed

definition reaches :: "('n, 'p) nv_result \<Rightarrow> 'p option \<Rightarrow> bool" where
  "reaches r V \<longleftrightarrow> (\<forall>w. V = Some w \<longrightarrow> (\<exists>data s. r = Some (IOT_ERROR_NONE, data, w, s)))"

lemma reaches_status:
  assumes "reliable P" "nv_id i" "4 < length data" "\<forall>c. stored s i = Some c \<longrightarrow> length c \<le> length data"
  shows "reaches (nv_status P i data w s) (if view_done (stored s) i then Some w else None)"
  using reliable_status [OF assms(1,2) _ assms(3,4)] by (auto simp: reaches_def)

lemma reaches_then:
  assumes "reaches r V" "reliable P" "shows_view r n V c" "\<And>d. length (g d) = length d" "nv_id i" "tail_free f"
    and "completes found f" "0 < n"
  shows "reaches (nv_then r (\<lambda>data. nv_item P i found missing (g data))) (V \<bind> view_item n c i f missing)"
  unfolding reaches_def
proof (intro allI impI)
  fix w' assume "(V \<bind> view_item n c i f missing) = Some w'"
  then obtain w where w: "V = Some w" "view_item n c i f missing w = Some w'" by (auto split: bind_splits)
  with assms(1) obtain data s where r: "r = Some (IOT_ERROR_NONE, data, w, s)" by (auto simp: reaches_def)
  with assms(3) have "length data = n" "stored s = c" by (auto simp: shows_view_def)
  moreover from this have "g data \<noteq> []" using assms(4) [of data] assms(8) by auto
  ultimately have "\<exists>data' s'. nv_item P i found missing (g data) w s = Some (IOT_ERROR_NONE, data', w', s')"
    using reliable_item [OF assms(2,5,6,7), of "g data" s missing w w'] assms(4) w(2) by simp
  then show "\<exists>data s. nv_then r (\<lambda>data. nv_item P i found missing (g data)) = Some (IOT_ERROR_NONE, data, w', s)"
    by (auto simp: r nv_then_def)
qed

lemma completes_wifi [simp]:
  "completes load_ssid (view_field 32 wp_ssid set_ssid)"
  "completes load_password (view_field 64 wp_password set_password)"
  "completes load_auth_type view_auth"
  by (auto simp: completes_def load_ssid_def load_password_def load_auth_type_def view_field_def view_auth_def
      set_ssid_def set_password_def split: bind_splits)

lemma completes_bssid [simp]: "completes load_bssid view_bssid"
  by (auto simp: completes_def load_bssid_def view_bssid_def Let_def split: bind_splits option.splits if_splits)

lemma completes_pointer:
  assumes "reliable P" shows "completes (load_pointer P upd) (view_pointer upd)"
  unfolding completes_def
proof (intro allI impI)
  fix data len w s w' assume "view_pointer upd data len w = Some w'"
  then show "\<exists>s'. load_pointer P upd data len w s = Some (IOT_ERROR_NONE, w', s')"
    using reliable_malloc [OF assms, of s] by (auto simp: load_pointer_def view_pointer_def)
qed

lemma completes_port [simp]: "completes load_port view_port"
  by (auto simp: completes_def load_port_def view_port_def split: bind_splits)

lemma get_wifi_total:
  assumes "reliable P" "items_sized (stored s)" "wifi_view (stored s) w = Some w'"
  shows "\<exists>s'. iot_nv_get_wifi_prov_data P w s = Some (IOT_ERROR_NONE, w', s')"
proof -
  obtain s0 where m: "malloc_c P s = (True, s0)" "files s0 = files s" using reliable_malloc [OF assms(1)] by blast
  have s0: "stored s0 = stored s" by (rule stored_cong [OF m(2)])
  have sz: "\<forall>c. stored s0 IOT_NVD_WIFI_PROV_STATUS = Some c \<longrightarrow> length c \<le> length (fresh_buffer P 65)"
    using assms(2) by (fastforce simp: s0 items_sized_def)
  note chain = shows_then [where g = "\<lambda>d. d", OF _ refl]
  note full = reaches_then [where g = "\<lambda>d. d", OF _ assms(1) _ refl]
  note V0 = shows_status [of IOT_NVD_WIFI_PROV_STATUS "fresh_buffer P 65" P w s0, simplified]
  note R0 = reaches_status [OF assms(1) _ _ sz, of w, simplified]
  note V1 = chain [OF V0 wifi_ids(2) tail_free_field load_ssid_view, of P "\<lambda>w. w\<lparr>wp_ssid := truncate_field (wp_ssid w)\<rparr>"]
  note R1 = full [OF R0 V0 wifi_ids(2) tail_free_field completes_wifi(1), of "\<lambda>w. w\<lparr>wp_ssid := truncate_field (wp_ssid w)\<rparr>"]
  note V2 = chain [OF V1 wifi_ids(3) tail_free_field load_password_view, of P "\<lambda>w. w\<lparr>wp_password := truncate_field (wp_password w)\<rparr>"]
  note R2 = full [OF R1 V1 wifi_ids(3) tail_free_field completes_wifi(2), of "\<lambda>w. w\<lparr>wp_password := truncate_field (wp_password w)\<rparr>"]
  note V3 = chain [OF V2 wifi_ids(4) tail_free_bssid load_bssid_view, of P clear_bssid]
  note R3 = full [OF R2 V2 wifi_ids(4) tail_free_bssid completes_bssid, of clear_bssid]
  note R4 = full [OF R3 V3 wifi_ids(5) tail_free_auth completes_wifi(3), of "\<lambda>w. w\<lparr>wp_security_type := - 1\<rparr>"]
  show ?thesis using R4 assms(3) m(1)
    by (auto simp: iot_nv_get_wifi_prov_data_def wifi_view_def reaches_def s0 split: bind_splits if_splits)
qed

text \<open>The label is loaded into the buffer after it was cleared, hence the other function on the buffer.\<close>

lemma get_cloud_total:
  assumes "reliable P" "\<forall>x. stored s IOT_NVD_CLOUD_PROV_STATUS = Some x \<longrightarrow> length x \<le> 4" "cloud_view (stored s) c = Some c'"
  shows "\<exists>s'. iot_nv_get_cloud_prov_data P c s = Some (IOT_ERROR_NONE, c', s')"
proof -
  obtain s0 where m: "malloc_c P s = (True, s0)" "files s0 = files s" using reliable_malloc [OF assms(1)] by blast
  have s0: "stored s0 = stored s" by (rule stored_cong [OF m(2)])
  have sz: "\<forall>c. stored s0 IOT_NVD_CLOUD_PROV_STATUS = Some c \<longrightarrow> length c \<le> length (fresh_buffer P 1025)"
    using assms(2) by (fastforce simp: s0)
  note chain = shows_then [where g = "\<lambda>d. d", OF _ refl]
  note full = reaches_then [where g = "\<lambda>d. d", OF _ assms(1) _ refl]
  note V0 = shows_status [of IOT_NVD_CLOUD_PROV_STATUS "fresh_buffer P 1025" P c s0, simplified]
  note R0 = reaches_status [OF assms(1) _ _ sz, of c, simplified]
  have cl: "completes (load_url P) (view_pointer (\<lambda>t c. c\<lparr>cp_broker_url := Live t\<rparr>))"
    "completes (load_label P) (view_pointer (\<lambda>t c. c\<lparr>cp_label := Live t\<rparr>))"
    unfolding load_url_def load_label_def by (rule completes_pointer [OF assms(1)])+
  note V1 = chain [OF V0 wifi_ids(7) tail_free_pointer load_url_view, of P P "\<lambda>c. c\<lparr>cp_broker_url := Null\<rparr>"]
  note R1 = full [OF R0 V0 wifi_ids(7) tail_free_pointer cl(1), of "\<lambda>c. c\<lparr>cp_broker_url := Null\<rparr>"]
  note V2 = chain [OF V1 wifi_ids(8) tail_free_port load_port_view, of P "\<lambda>c. c\<lparr>cp_broker_port := - 1\<rparr>"]
  note R2 = full [OF R1 V1 wifi_ids(8) tail_free_port completes_port, of "\<lambda>c. c\<lparr>cp_broker_port := - 1\<rparr>"]
  note R3 = reaches_then [where g = "\<lambda>d. replicate (length d) 0", OF R2 assms(1) V2 _ wifi_ids(9) tail_free_pointer cl(2),
      of "\<lambda>c. c\<lparr>cp_label := Null\<rparr>"]
  show ?thesis using R3 assms(3) m(1)
    by (auto simp: iot_nv_get_cloud_prov_data_def cloud_view_def reaches_def s0 split: bind_splits if_splits)
qed

section \<open>Storing and loading\<close>

lemma set_wifi_total:
  assumes "reliable P" "wifi_sizes w"
  shows "\<exists>s'. iot_nv_set_wifi_prov_data P w s = Some (IOT_ERROR_NONE, s')"
proof -
  obtain s0 where m: "malloc_c P s = (True, s0)" using reliable_malloc [OF assms(1)] by blast
  have d: "decimal_int t \<noteq> []" if "0 \<le> t" "t \<le> 8" for t using decimal_int_digit [OF that] by auto
  have n: "f \<noteq> []" if "length f = Suc k" for f :: "u8 list" and k using that by auto
  have "list_all writes_something (bracket IOT_NVD_WIFI_PROV_STATUS (wifi_updates w))"
    using assms(2) d n by (auto simp: bracket_def wifi_updates_def field_update_def auth_update_def wifi_sizes_def cstr_def)
  from reliable_updates [OF assms(1) this] m show ?thesis by (simp add: set_wifi_updates [OF assms(2)])
qed

lemma set_cloud_total:
  assumes "reliable P" "cloud_live c" "cp_broker_url c \<noteq> Live []" "cp_label c \<noteq> Live []" "0 \<le> cp_broker_port c"
  shows "\<exists>s'. iot_nv_set_cloud_prov_data P c s = Some (IOT_ERROR_NONE, s')"
proof -
  obtain s0 where m: "malloc_c P s = (True, s0)" using reliable_malloc [OF assms(1)] by blast
  have "decimal_int (cp_broker_port c) \<noteq> []"
    using assms(5) cstr_decimal [of "nat (cp_broker_port c)"] by (simp add: decimal_int_def split: if_splits)
  then have "list_all writes_something (bracket IOT_NVD_CLOUD_PROV_STATUS (cloud_updates c))"
    using assms(2-4) by (cases "cp_broker_url c"; cases "cp_label c")
      (auto simp: bracket_def cloud_updates_def pointer_update_def cloud_live_def cstr_def)
  from reliable_updates [OF assms(1) this] m show ?thesis by (simp add: set_cloud_updates [OF assms(2)])
qed

lemma wifi_store_load:
  assumes "reliable P" "wifi_ok w" "items_sized (stored s)" "wifi_sizes w0"
  shows "\<exists>s' w' s''. iot_nv_set_wifi_prov_data P w s = Some (IOT_ERROR_NONE, s')
    \<and> iot_nv_get_wifi_prov_data P w0 s' = Some (IOT_ERROR_NONE, w', s'') \<and> same_wifi w w'"
proof -
  have sz: "wifi_sizes w" using assms(2) by (simp add: wifi_ok_def)
  obtain s' where s': "iot_nv_set_wifi_prov_data P w s = Some (IOT_ERROR_NONE, s')" using set_wifi_total [OF assms(1) sz] by blast
  then have st: "stored s' = wifi_stored w (stored s)" using set_wifi_ok [OF sz _ s'] reliable_erase [OF assms(1)] by blast
  obtain w' where w': "wifi_view (stored s') w0 = Some w'" "same_wifi w w'"
    using wifi_comes_back [OF assms(2,3,4)] unfolding st by blast
  moreover have "items_sized (stored s')" unfolding st by (rule wifi_stored_sized [OF assms(3) sz])
  ultimately show ?thesis using get_wifi_total [OF assms(1)] s' by blast
qed

lemma cloud_store_load:
  assumes "reliable P" "text_ok (cp_broker_url c)" "text_ok (cp_label c)" "cp_broker_url c \<noteq> Live []" "cp_label c \<noteq> Live []"
    and "0 \<le> cp_broker_port c"
    and "length (overlay (decimal_int (cp_broker_port c)) (stored s IOT_NVD_SERVER_PORT)) \<le> 1024"
    and "fits (stored s IOT_NVD_SERVER_URL) (cp_broker_url c)" "fits (stored s IOT_NVD_LABEL) (cp_label c)"
    and "\<forall>x. stored s IOT_NVD_CLOUD_PROV_STATUS = Some x \<longrightarrow> length x \<le> 4"
  shows "\<exists>s' s''. iot_nv_set_cloud_prov_data P c s = Some (IOT_ERROR_NONE, s')
    \<and> iot_nv_get_cloud_prov_data P c0 s' = Some (IOT_ERROR_NONE, c0\<lparr>cp_broker_url := cp_broker_url c,
        cp_broker_port := port_shown (cp_broker_port c) (stored s IOT_NVD_SERVER_PORT), cp_label := cp_label c\<rparr>, s'')"
proof -
  have live: "cloud_live c" using assms(2,3) by (auto simp: cloud_live_def text_ok_def)
  obtain s' where s': "iot_nv_set_cloud_prov_data P c s = Some (IOT_ERROR_NONE, s')"
    using set_cloud_total [OF assms(1) live assms(4,5,6)] by blast
  then have st: "stored s' = cloud_stored c (stored s)" using set_cloud_ok [OF live _ s'] reliable_erase [OF assms(1)] by blast
  have "\<forall>x. stored s' IOT_NVD_CLOUD_PROV_STATUS = Some x \<longrightarrow> length x \<le> 4"
    unfolding st using cloud_stored_status_size [of "stored s" c] assms(10) by simp
  moreover note cloud_comes_back [OF assms(2,3), of "stored s" c0, OF assms(8,9,7), folded st]
  ultimately show ?thesis using get_cloud_total [OF assms(1)] s' by blast
qed

end
