(* ===== verification/Nv_Safe.thy ===== *)
theory Nv_Safe
  imports Nv_Reliable
begin

text \<open>
  The calls on the settings are defined as long as the items fit the buffers they are read into, whatever
  fails. The contract the device core relies on is the locale \<open>settings_store\<close>.
\<close>

section \<open>Sizes of the items\<close>

definition item_limit :: "iot_nvd \<Rightarrow> nat option" where
  "item_limit i = (if i \<in> {IOT_NVD_WIFI_PROV_STATUS, IOT_NVD_AP_SSID, IOT_NVD_AP_PASS, IOT_NVD_AP_BSSID, IOT_NVD_AP_AUTH_TYPE}
     then Some 64
     else if i \<in> {IOT_NVD_CLOUD_PROV_STATUS, IOT_NVD_SERVER_URL, IOT_NVD_SERVER_PORT, IOT_NVD_LABEL} then Some 1024
     else if i = IOT_NVD_DEVICE_ID then Some 128 else None)"

definition nv_sized :: "'n store \<Rightarrow> bool" where
  "nv_sized s \<longleftrightarrow> (\<forall>i d n. nv_id i \<longrightarrow> stored s i = Some d \<longrightarrow> item_limit i = Some n \<longrightarrow> length d \<le> n)"

lemma nv_sizedD: "nv_sized s \<Longrightarrow> nv_id i \<Longrightarrow> stored s i = Some d \<Longrightarrow> item_limit i = Some n \<Longrightarrow> length d \<le> n"
  by (auto simp: nv_sized_def)

lemma nv_sized_cong: "stored s' = stored s \<Longrightarrow> nv_sized s' = nv_sized s"
  by (simp add: nv_sized_def)

lemma nv_sized_env [simp]: "nv_sized (s\<lparr>env := n\<rparr>) = nv_sized s"
  by (rule nv_sized_cong) simp

lemma nv_sized_put:
  assumes "nv_sized s" "nv_id i" "nv_put P i d (length d) s = Some (e, s')"
    and "\<forall>n. item_limit i = Some n \<longrightarrow> length d \<le> n"
  shows "nv_sized s'"
proof -
  note c = put_cases [OF assms(2,3)]
  have "length x \<le> n" if x: "stored s' i = Some x" and n: "item_limit i = Some n" for x n
  proof -
    have old: "length y \<le> n" if "stored s i = Some y" for y using nv_sizedD [OF assms(1,2) that n] .
    have "length d \<le> n" using assms(4) n by simp
    with c x old show ?thesis by (auto simp: overlay_def split: option.splits)
  qed
  with c assms(1) show ?thesis unfolding nv_sized_def by metis
qed

lemma remove_item:
  assumes "nv_id i" "iot_security_storage_remove P i s = (e, s')"
  shows "stored s' i = None \<or> stored s' i = stored s i"
  using assms
  by (auto simp: iot_security_storage_remove_def be_bsp_fs_remove_def be_bsp_fs_remove_from_nv_def
      iot_bsp_fs_remove_def nv_ids Let_def stored_nv split: if_splits prod.splits)

lemma nv_sized_erase:
  assumes "nv_sized s" "nv_id i" "iot_nv_erase P i s = Some (e, s')"
  shows "nv_sized s'"
proof -
  obtain b s1 where o: "iot_nv_io_storage_init P s = (b, s1)" by fastforce
  with stored_init [of P s] have s1: "stored s1 = stored s" by simp
  obtain e2 s2 where r: "iot_security_storage_remove P i s1 = (e2, s2)" by fastforce
  have i: "stored s2 i = None \<or> stored s2 i = stored s i"
    using remove_item [OF assms(2) r] s1 by simp
  have f: "\<forall>j. j \<noteq> i \<longrightarrow> stored s2 j = stored s j" using pfs.rm_frame [OF assms(2), of _ P s1] r s1 by auto
  have "nv_sized s2" unfolding nv_sized_def using i f assms(1) by (metis nv_sizedD option.distinct(1))
  moreover have "s' = s1 \<or> s' = s2 \<or> s' = s"
    using assms(3) by (auto simp: iot_nv_erase_def iot_nv_remove_data_def iot_nv_io_storage_def o r split: if_splits bool.splits)
  ultimately show ?thesis using assms(1) s1 nv_sized_cong [of s1 s] by auto
qed

lemma erase_defined: "\<exists>e s'. iot_nv_erase P i s = Some (e, s')"
  by (auto simp: iot_nv_erase_def iot_nv_remove_data_def iot_nv_io_storage_def split: prod.splits bool.splits)

section \<open>Reading\<close>

lemma read_defined:
  assumes "data \<noteq> []" "n \<le> length data"
  shows "\<exists>e data' len s'. iot_nv_read_data P i data n s = Some (e, data', len, s')"
  using assms
  by (auto simp: iot_nv_read_data_def iot_nv_io_storage_def poke_def split: prod.splits bool.splits sum.splits)

text \<open>An item that fits leaves a terminated string in the buffer.\<close>

lemma read_terminated:
  assumes "nv_id i" "data \<noteq> []" "\<forall>c. stored s i = Some c \<longrightarrow> length c < length data"
    and "iot_nv_read_data P i data (length data) s = Some (e, data', len, s')"
  shows "stored s' = stored s \<and> (e \<noteq> IOT_ERROR_NONE \<longrightarrow> length data' = length data) \<and> (e = IOT_ERROR_NONE \<longrightarrow>
    (\<exists>x rest. data' = x @ 0 # rest \<and> length x = len \<and> length data' = length data))"
proof -
  note c = read_data_cases [OF assms(1,4)]
  have "length data' = length data" if "e \<noteq> IOT_ERROR_NONE"
    using assms(4) that by (auto simp: iot_nv_read_data_def iot_nv_io_storage_def poke_def
        split: prod.splits bool.splits sum.splits if_splits)
  moreover have "\<exists>x rest. data' = x @ 0 # rest \<and> length x = len \<and> length data' = length data" if "e = IOT_ERROR_NONE"
  proof -
    from c that obtain b where b: "stored s i = Some b" "len = length (take 2048 b)" "len \<le> length data"
      and d: "data' = (if len < length data then take 2048 b @ [0] else take 2048 b) @
        drop (if len < length data then Suc len else len) data" by blast
    have l: "len < length data" using assms(3) b by auto
    with d b show ?thesis by (intro exI [of _ "take 2048 b"] exI [of _ "drop (Suc len) data"]) simp
  qed
  ultimately show ?thesis using c by blast
qed

text \<open>A step of a load that is defined on terminated buffers and keeps \<open>J\<close> of the structure.\<close>

definition loads_safely :: "('p \<Rightarrow> bool) \<Rightarrow> (u8 list \<Rightarrow> nat \<Rightarrow> 'p \<Rightarrow> 'n store \<Rightarrow> (iot_error \<times> 'p \<times> 'n store) option) \<Rightarrow> bool" where
  "loads_safely J found \<longleftrightarrow> (\<forall>x rest w s. J w \<longrightarrow>
     (\<exists>e w' s'. found (x @ 0 # rest) (length x) w s = Some (e, w', s') \<and> J w' \<and> stored s' = stored s))"

definition safe_load :: "('p \<Rightarrow> bool) \<Rightarrow> nat \<Rightarrow> (iot_nvd \<Rightarrow> u8 list option) \<Rightarrow> ('n, 'p) nv_result \<Rightarrow> bool" where
  "safe_load J n c r \<longleftrightarrow> (\<exists>e data w s. r = Some (e, data, w, s) \<and> J w \<and> length data = n \<and> stored s = c)"

lemma safe_item:
  assumes "nv_id i" "loads_safely J found" "\<And>w. J w \<Longrightarrow> J (missing w)" "J w" "data \<noteq> []"
    and "\<forall>c. stored s i = Some c \<longrightarrow> length c < length data"
  shows "safe_load J (length data) (stored s) (nv_item P i found missing data w s)"
proof -
  obtain e data' len s' where r: "iot_nv_read_data P i data (length data) s = Some (e, data', len, s')"
    using read_defined [OF assms(5) order_refl] by blast
  note t = read_terminated [OF assms(1,5,6) r]
  show ?thesis
  proof (cases "e = IOT_ERROR_NONE")
    case True
    with t obtain x rest where x: "data' = x @ 0 # rest" "length x = len" "length data' = length data" by blast
    from assms(2,4) obtain e2 w2 s2 where "found (x @ 0 # rest) (length x) w s' = Some (e2, w2, s2)" "J w2" "stored s2 = stored s'"
      unfolding loads_safely_def by blast
    with True r x t show ?thesis by (auto simp: nv_item_def safe_load_def)
  next
    case False
    with r t assms(3,4) show ?thesis by (auto simp: nv_item_def safe_load_def)
  qed
qed

lemma safe_then:
  assumes "safe_load J n c r" "\<And>d. length (g d) = length d" "nv_id i" "loads_safely J found"
    and "\<And>w. J w \<Longrightarrow> J (missing w)" "0 < n" "\<forall>x. c i = Some x \<longrightarrow> length x < n"
  shows "safe_load J n c (nv_then r (\<lambda>data. nv_item P i found missing (g data)))"
proof -
  obtain e data w s where r: "r = Some (e, data, w, s)" "J w" "length data = n" "stored s = c"
    using assms(1) by (auto simp: safe_load_def)
  have "g data \<noteq> []" using assms(2) [of data] assms(6) r by auto
  with safe_item [OF assms(3,4) assms(5) r(2), where ?data = "g data" and ?s = s and ?P = P] assms(2) [of data] assms(7) r
  show ?thesis by (auto simp: nv_then_def safe_load_def)
qed

lemma fresh_not_Nil [simp]: "0 < n \<Longrightarrow> fresh_buffer P n \<noteq> []"
  using length_fresh [of P n] by fastforce

lemma safe_status:
  assumes "nv_id i" "data \<noteq> []" "J w" "\<forall>c. stored s i = Some c \<longrightarrow> length c < length data"
  shows "safe_load J (length data) (stored s) (nv_status P i data w s)"
proof -
  obtain e data' len s' where r: "iot_nv_read_data P i data (length data) s = Some (e, data', len, s')"
    using read_defined [OF assms(2) order_refl] by blast
  from read_terminated [OF assms(1,2,4) r] have "stored s' = stored s" "length data' = length data" by auto
  with r assms(3) show ?thesis by (simp add: nv_status_def safe_load_def)
qed

section \<open>The structures\<close>

definition wifi_term :: "iot_wifi_prov_data \<Rightarrow> bool" where
  "wifi_term w \<longleftrightarrow> wifi_sizes w \<and> c_string (wp_ssid w) \<noteq> None \<and> c_string (wp_password w) \<noteq> None"

lemma zero_wifi_term [simp]: "wifi_term zero_wifi"
  by (simp add: wifi_term_def wifi_sizes_def zero_wifi_def c_string_def)

lemma load_field_safe:
  assumes "length f = Suc n"
  shows "\<exists>f'. load_field n (x @ 0 # rest) f = Some f' \<and> length f' = Suc n \<and> c_string f' \<noteq> None"
proof -
  let ?t = "takeWhile (\<lambda>c. c \<noteq> 0) x"
  have l: "length ?t \<le> length x" by (rule length_takeWhile_le)
  show ?thesis
  proof (cases "length ?t < n")
    case True
    with assms show ?thesis by (simp add: load_field_append Let_def poke_def del: takeWhile_eq_all_conv)
  next
    case False
    with l have "n \<le> length x" by simp
    with assms False show ?thesis by (simp add: load_field_append Let_def poke_def del: takeWhile_eq_all_conv)
  qed
qed

lemma truncate_safe: "length f = Suc n \<Longrightarrow> length (truncate_field f) = Suc n \<and> c_string (truncate_field f) \<noteq> None"
  by (cases f) (auto simp: truncate_field_def c_string_def)

lemma wifi_loads_safely:
  "loads_safely wifi_term load_ssid" "loads_safely wifi_term load_password" "loads_safely wifi_term load_auth_type"
proof -
  show "loads_safely wifi_term load_ssid" unfolding loads_safely_def
  proof (intro allI impI)
    fix x rest w and s :: "'n store" assume J: "wifi_term w"
    then obtain f' where "load_field 32 (x @ 0 # rest) (wp_ssid w) = Some f'" "length f' = 33" "c_string f' \<noteq> None"
      using load_field_safe [of "wp_ssid w" 32 x rest] by (auto simp: wifi_term_def wifi_sizes_def)
    with J show "\<exists>e w' s'. load_ssid (x @ 0 # rest) (length x) w s = Some (e, w', s') \<and> wifi_term w' \<and> stored s' = stored s"
      by (auto simp: load_ssid_def wifi_term_def wifi_sizes_def)
  qed
  show "loads_safely wifi_term load_password" unfolding loads_safely_def
  proof (intro allI impI)
    fix x rest w and s :: "'m store" assume J: "wifi_term w"
    then obtain f' where "load_field 64 (x @ 0 # rest) (wp_password w) = Some f'" "length f' = 65" "c_string f' \<noteq> None"
      using load_field_safe [of "wp_password w" 64 x rest] by (auto simp: wifi_term_def wifi_sizes_def)
    with J show "\<exists>e w' s'. load_password (x @ 0 # rest) (length x) w s = Some (e, w', s') \<and> wifi_term w' \<and> stored s' = stored s"
      by (auto simp: load_password_def wifi_term_def wifi_sizes_def)
  qed
  show "loads_safely wifi_term load_auth_type"
    by (auto simp: loads_safely_def load_auth_type_def wifi_term_def wifi_sizes_def)
qed

lemma bssid_loads_safely: "loads_safely wifi_term load_bssid"
  unfolding loads_safely_def
proof (intro allI impI)
  fix x rest :: "u8 list" and w and s :: "'n store" assume J: "wifi_term w"
  then have l: "length (wp_mac_str w) = 18" "length (wp_bssid w) = 6" by (auto simp: wifi_term_def wifi_sizes_def)
  let ?d = "x @ 0 # rest"
  consider (mac) "17 \<le> length x" | (raw) "\<not> 17 \<le> length x" "6 \<le> length x" | (none) "\<not> 6 \<le> length x" by linarith
  then show "\<exists>e w' s'. load_bssid ?d (length x) w s = Some (e, w', s') \<and> wifi_term w' \<and> stored s' = stored s"
  proof cases
    case mac
    then obtain e b where "iot_util_convert_str_mac (Some (takeWhile (\<lambda>c. c \<noteq> 0) (take 17 x))) (Some (wp_bssid w)) = Some (e, Some b)"
      "length b = 6" using convert_str_mac_defined [of "wp_bssid w"] l by blast
    with mac l J show ?thesis by (auto simp: load_bssid_def poke_def Let_def wifi_term_def wifi_sizes_def clear_bssid_def
          simp del: takeWhile_eq_all_conv)
  next
    case raw
    with l J convert_mac_str_text [of "take 6 x" "18" "wp_mac_str w"] length_mac_text [of "take 6 x"] show ?thesis
      by (auto simp: load_bssid_def poke_def Let_def wifi_term_def wifi_sizes_def)
  next
    case none
    with l J show ?thesis by (auto simp: load_bssid_def wifi_term_def wifi_sizes_def clear_bssid_def)
  qed
qed

lemma get_wifi_safe:
  assumes "nv_sized s" "wifi_term w"
  shows "\<exists>e w' s'. iot_nv_get_wifi_prov_data P w s = Some (e, w', s') \<and> wifi_term w' \<and> stored s' = stored s"
proof -
  obtain b s0 where m: "malloc_c P s = (b, s0)" by fastforce
  have s0: "stored s0 = stored s" by (rule stored_cong [OF malloc_cases [OF m]])
  have fits: "\<forall>x. stored s i = Some x \<longrightarrow> length x < 65" if "nv_id i" "item_limit i = Some 64" for i
    using nv_sizedD [OF assms(1) that(1) _ that(2)] by fastforce
  note chain = safe_then [where g = "\<lambda>d. d" and J = wifi_term and n = 65 and c = "stored s" and P = P, OF _ refl]
  have 0: "safe_load wifi_term 65 (stored s) (nv_status P IOT_NVD_WIFI_PROV_STATUS (fresh_buffer P 65) w s0)"
    using safe_status [of IOT_NVD_WIFI_PROV_STATUS "fresh_buffer P 65" wifi_term w s0 P, OF _ _ assms(2)]
      fits [of IOT_NVD_WIFI_PROV_STATUS] s0 by (simp add: item_limit_def)
  note 1 = chain [OF 0 _ wifi_loads_safely(1)]
  note 2 = chain [OF 1 _ wifi_loads_safely(2)]
  note 3 = chain [OF 2 _ bssid_loads_safely]
  note 4 = chain [OF 3 _ wifi_loads_safely(3)]
  have "safe_load wifi_term 65 (stored s) (nv_then (nv_then (nv_then (nv_then
           (nv_status P IOT_NVD_WIFI_PROV_STATUS (fresh_buffer P 65) w s0)
           (nv_item P IOT_NVD_AP_SSID load_ssid (\<lambda>w. w\<lparr>wp_ssid := truncate_field (wp_ssid w)\<rparr>)))
           (nv_item P IOT_NVD_AP_PASS load_password (\<lambda>w. w\<lparr>wp_password := truncate_field (wp_password w)\<rparr>)))
           (nv_item P IOT_NVD_AP_BSSID load_bssid clear_bssid))
           (nv_item P IOT_NVD_AP_AUTH_TYPE load_auth_type (\<lambda>w. w\<lparr>wp_security_type := - 1\<rparr>)))"
    by (rule 4) (use fits [of IOT_NVD_AP_SSID] fits [of IOT_NVD_AP_PASS] fits [of IOT_NVD_AP_BSSID]
      fits [of IOT_NVD_AP_AUTH_TYPE] in \<open>auto simp: item_limit_def wifi_term_def wifi_sizes_def clear_bssid_def truncate_safe\<close>)
  then show ?thesis using m s0 assms(2)
    by (cases b) (auto simp: iot_nv_get_wifi_prov_data_def safe_load_def)
qed

definition cloud_held :: "iot_cloud_prov_data \<Rightarrow> bool" where
  "cloud_held c \<longleftrightarrow> cp_broker_url c \<noteq> Dangling \<and> cp_label c \<noteq> Dangling \<and> cp_location c \<noteq> Dangling \<and> cp_room c \<noteq> Dangling"

lemma cloud_loads_safely:
  "loads_safely cloud_held (load_url P)" "loads_safely cloud_held (load_label P)" "loads_safely cloud_held load_port"
proof -
  have M: "malloc_c P s = (b, s') \<Longrightarrow> stored s' = stored s" for s b s'
    by (rule stored_cong [OF malloc_cases])
  show "loads_safely cloud_held (load_url P)"
    by (auto simp: loads_safely_def load_url_def load_pointer_def cloud_held_def split: prod.splits bool.splits dest: M)
  show "loads_safely cloud_held (load_label P)"
    by (auto simp: loads_safely_def load_label_def load_pointer_def cloud_held_def split: prod.splits bool.splits dest: M)
  show "loads_safely cloud_held load_port"
    by (auto simp: loads_safely_def load_port_def cloud_held_def)
qed

lemma get_cloud_safe:
  assumes "nv_sized s" "cloud_held w"
  shows "\<exists>e w' s'. iot_nv_get_cloud_prov_data P w s = Some (e, w', s') \<and> cloud_held w' \<and> stored s' = stored s"
proof -
  obtain b s0 where m: "malloc_c P s = (b, s0)" by fastforce
  have s0: "stored s0 = stored s" by (rule stored_cong [OF malloc_cases [OF m]])
  have fits: "\<forall>x. stored s i = Some x \<longrightarrow> length x < 1025" if "nv_id i" "item_limit i = Some 1024" for i
    using nv_sizedD [OF assms(1) that(1) _ that(2)] by fastforce
  note chain = safe_then [where J = cloud_held and n = 1025 and c = "stored s" and P = P]
  have 0: "safe_load cloud_held 1025 (stored s) (nv_status P IOT_NVD_CLOUD_PROV_STATUS (fresh_buffer P 1025) w s0)"
    using safe_status [of IOT_NVD_CLOUD_PROV_STATUS "fresh_buffer P 1025" cloud_held w s0 P, OF _ _ assms(2)]
      fits [of IOT_NVD_CLOUD_PROV_STATUS] s0 by (simp add: item_limit_def)
  note 1 = chain [where g = "\<lambda>d. d", OF 0 refl _ cloud_loads_safely(1)]
  note 2 = chain [where g = "\<lambda>d. d", OF 1 refl _ cloud_loads_safely(3)]
  note 3 = chain [where g = "\<lambda>d. replicate (length d) 0", OF 2 length_replicate _ cloud_loads_safely(2)]
  have "safe_load cloud_held 1025 (stored s) (nv_then (nv_then (nv_then
           (nv_status P IOT_NVD_CLOUD_PROV_STATUS (fresh_buffer P 1025) w s0)
           (nv_item P IOT_NVD_SERVER_URL (load_url P) (\<lambda>c. c\<lparr>cp_broker_url := Null\<rparr>)))
           (nv_item P IOT_NVD_SERVER_PORT load_port (\<lambda>c. c\<lparr>cp_broker_port := - 1\<rparr>)))
           (\<lambda>data. nv_item P IOT_NVD_LABEL (load_label P) (\<lambda>c. c\<lparr>cp_label := Null\<rparr>) (replicate (length data) 0)))"
    by (rule 3) (use fits [of IOT_NVD_SERVER_URL] fits [of IOT_NVD_SERVER_PORT] fits [of IOT_NVD_LABEL]
      in \<open>auto simp: item_limit_def cloud_held_def\<close>)
  then show ?thesis using m s0 assms(2)
    by (cases b) (auto simp: iot_nv_get_cloud_prov_data_def safe_load_def)
qed

definition prov_held :: "iot_device_prov_data \<Rightarrow> bool" where
  "prov_held p \<longleftrightarrow> wifi_term (pd_wifi p) \<and> cloud_held (pd_cloud p)"

lemma get_prov_safe:
  assumes "nv_sized s" "prov_held p"
  shows "\<exists>e p' s'. iot_nv_get_prov_data P p s = Some (e, p', s') \<and> prov_held p' \<and> nv_sized s'"
proof -
  obtain e w s1 where 1: "iot_nv_get_wifi_prov_data P (pd_wifi p) s = Some (e, w, s1)" "wifi_term w" "stored s1 = stored s"
    using get_wifi_safe [OF assms(1), of "pd_wifi p" P] assms(2) by (auto simp: prov_held_def)
  then have n1: "nv_sized s1" using assms(1) nv_sized_cong by blast
  obtain e2 c s2 where 2: "iot_nv_get_cloud_prov_data P (pd_cloud p) s1 = Some (e2, c, s2)" "cloud_held c" "stored s2 = stored s1"
    using get_cloud_safe [OF n1, of "pd_cloud p" P] assms(2) by (auto simp: prov_held_def)
  then have "nv_sized s2" using n1 nv_sized_cong by blast
  with 1 2 n1 assms(2) show ?thesis by (auto simp: iot_nv_get_prov_data_def prov_held_def Let_def)
qed

section \<open>Single strings\<close>

text \<open>The serial number comes from the device information when there is no factory partition.\<close>

definition serial_fits :: "'n posix \<Rightarrow> bool" where
  "serial_fits P \<longleftrightarrow> \<not> p_stnv P \<and> (\<forall>d. p_device_info P IOT_NVD_SERIAL_NUM = Inr d \<longrightarrow> length d \<le> 30)"

lemma get_string_safe:
  assumes "nv_id i" "\<forall>c. stored s i = Some c \<longrightarrow> length (take 2048 c) \<le> n"
  shows "\<exists>r s'. nv_get_string P i n s = Some (r, s') \<and> stored s' = stored s"
proof -
  have M: "malloc_c P s = (b, s') \<Longrightarrow> stored s' = stored s" for s b s'
    by (rule stored_cong [OF malloc_cases])
  obtain b s0 where m: "malloc_c P s = (b, s0)" by fastforce
  obtain e data' len s' where r: "iot_nv_read_data P i (fresh_buffer P (n + 1)) (n + 1) s0 = Some (e, data', len, s')"
    using read_defined [of "fresh_buffer P (n + 1)" "n + 1" P i s0] by auto
  note c = read_data_cases [OF assms(1) r]
  have t: "c_string data' \<noteq> None" if "e = IOT_ERROR_NONE"
  proof -
    from c that obtain d where d: "stored s0 i = Some d" "len = length (take 2048 d)" "data' =
      (if len < n + 1 then take 2048 d @ [0] else take 2048 d) @ drop (if len < n + 1 then Suc len else len) (fresh_buffer P (n + 1))"
      by blast
    then have "len < n + 1" using assms(2) M [OF m] by auto
    with d(3) show ?thesis by simp
  qed
  obtain b2 s2 where m2: "malloc_c P s' = (b2, s2)" by fastforce
  have "stored s2 = stored s" "stored s' = stored s" using M [OF m2] c M [OF m] by simp_all
  then show ?thesis using m M [OF m] r t m2
    by (cases b; cases b2; cases "c_string data'") (auto simp: nv_get_string_def)
qed

lemma get_serial_safe:
  assumes "serial_fits P"
  shows "\<exists>r s'. iot_nv_get_serial_number P s = Some (r, s') \<and> stored s' = stored s"
proof -
  have M: "malloc_c P s = (b, s') \<Longrightarrow> stored s' = stored s" for s b s'
    by (rule stored_cong [OF malloc_cases])
  obtain b s0 where m: "malloc_c P s = (b, s0)" by fastforce
  obtain b1 s1 where o: "iot_nv_io_storage_init P s0 = (b1, s1)" by fastforce
  with stored_init [of P s0] M [OF m] have s1: "stored s1 = stored s" by simp
  have r: "iot_security_storage_read P IOT_NVD_SERIAL_NUM s1 = (p_device_info P IOT_NVD_SERIAL_NUM, s1)"
    using assms by (simp add: serial_fits_def iot_security_storage_read_def set_storage_id_def be_bsp_fs_load_def storage_id2target_def
        factory_id_def)
  show ?thesis using m M [OF m] assms s1
    by (cases b; cases "p_device_info P IOT_NVD_SERIAL_NUM")
      (auto simp: iot_nv_get_serial_number_def nv_get_string_def iot_nv_read_data_def iot_nv_io_storage_def o r serial_fits_def poke_def
        storage_error_def split: prod.splits bool.splits dest: M)
qed

text \<open>Storing keeps the sizes when what is stored fits.\<close>

lemma put_safe:
  assumes "nv_sized s" "nv_id i" "\<forall>n. item_limit i = Some n \<longrightarrow> length d \<le> n"
  shows "\<exists>e s'. nv_put P i d (length d) s = Some (e, s') \<and> nv_sized s'"
  using put_defined [of P i d s] nv_sized_put [OF assms(1,2) _ assms(3), of P] by blast

lemma erase_prov_safe:
  assumes "nv_sized s"
  shows "\<exists>e s'. iot_nv_erase_prov_data P s = Some (e, s') \<and> nv_sized s'"
proof -
  have l: "\<forall>n. item_limit i = Some n \<longrightarrow> length (cstr ''NONE'') \<le> n"
    if "i = IOT_NVD_WIFI_PROV_STATUS \<or> i = IOT_NVD_CLOUD_PROV_STATUS" for i
    using that by (auto simp: item_limit_def)
  obtain e s1 where 1: "nv_put P IOT_NVD_WIFI_PROV_STATUS (cstr ''NONE'') 4 s = Some (e, s1)" "nv_sized s1"
    using put_safe [OF assms _ l, of IOT_NVD_WIFI_PROV_STATUS P] by auto
  obtain e' s2 where "nv_put P IOT_NVD_CLOUD_PROV_STATUS (cstr ''NONE'') 4 s1 = Some (e', s2)" "nv_sized s2"
    using put_safe [OF 1(2) _ l, of IOT_NVD_CLOUD_PROV_STATUS P] by auto
  with 1 show ?thesis by (auto simp: iot_nv_erase_prov_data_def nv_next_def)
qed

lemma prov_exist_safe: "\<exists>b s'. iot_nv_prov_data_exist P s = Some (b, s') \<and> stored s' = stored s"
proof -
  have 1: "\<exists>b s'. prov_status_done P i s = Some (b, s') \<and> stored s' = stored s" if "nv_id i" for i s
  proof -
    obtain e d l s' where r: "iot_nv_read_data P i (replicate 5 0) 4 s = Some (e, d, l, s')"
      using read_defined [of "replicate 5 0" 4 P i s] by auto
    from read_data_cases [OF that r] r show ?thesis by (simp add: prov_status_done_def)
  qed
  obtain b s1 where b: "prov_status_done P IOT_NVD_WIFI_PROV_STATUS s = Some (b, s1)" "stored s1 = stored s"
    using 1 [of IOT_NVD_WIFI_PROV_STATUS s] by auto
  obtain b2 s2 where "prov_status_done P IOT_NVD_CLOUD_PROV_STATUS s1 = Some (b2, s2)" "stored s2 = stored s1"
    using 1 [of IOT_NVD_CLOUD_PROV_STATUS s1] by auto
  with b show ?thesis by (auto simp: iot_nv_prov_data_exist_def)
qed

section \<open>The contract of the settings\<close>

text \<open>
  What the device core relies on: whatever fails, each call is defined on a store whose items fit and on
  settings that hold no freed pointer, and leaves such ones.
\<close>

locale settings_store =
  fixes get_prov :: "iot_device_prov_data \<Rightarrow> 'n store \<Rightarrow> (iot_error \<times> iot_device_prov_data \<times> 'n store) option"
    and erase_prov :: "'n store \<Rightarrow> (iot_error \<times> 'n store) option"
    and exist :: "'n store \<Rightarrow> (bool \<times> 'n store) option"
    and erase_id :: "'n store \<Rightarrow> (iot_error \<times> 'n store) option"
    and get_id get_misc get_serial :: "'n store \<Rightarrow> ((iot_error + u8 list) \<times> 'n store) option"
    and set_id set_misc :: "u8 list \<Rightarrow> 'n store \<Rightarrow> (iot_error \<times> 'n store) option"
    and sized :: "'n store \<Rightarrow> bool" and held :: "iot_device_prov_data \<Rightarrow> bool" and serial_ok :: bool
  assumes get_prov: "sized s \<Longrightarrow> held p \<Longrightarrow> \<exists>e p' s'. get_prov p s = Some (e, p', s') \<and> held p' \<and> sized s'"
    and erase_prov: "sized s \<Longrightarrow> \<exists>e s'. erase_prov s = Some (e, s') \<and> sized s'"
    and exist: "sized s \<Longrightarrow> \<exists>b s'. exist s = Some (b, s') \<and> sized s'"
    and erase_id: "sized s \<Longrightarrow> \<exists>e s'. erase_id s = Some (e, s') \<and> sized s'"
    and get_id: "sized s \<Longrightarrow> \<exists>r s'. get_id s = Some (r, s') \<and> sized s'"
    and get_misc: "sized s \<Longrightarrow> \<exists>r s'. get_misc s = Some (r, s') \<and> sized s'"
    and get_serial: "serial_ok \<Longrightarrow> sized s \<Longrightarrow> \<exists>r s'. get_serial s = Some (r, s') \<and> sized s'"
    and set_id: "sized s \<Longrightarrow> length t \<le> 128 \<Longrightarrow> \<exists>e s'. set_id t s = Some (e, s') \<and> sized s'"
    and set_misc: "sized s \<Longrightarrow> \<exists>e s'. set_misc t s = Some (e, s') \<and> sized s'"

interpretation settings: settings_store "iot_nv_get_prov_data P" "iot_nv_erase_prov_data P" "iot_nv_prov_data_exist P"
  "iot_nv_erase P IOT_NVD_DEVICE_ID" "iot_nv_get_device_id P" "iot_nv_get_misc_info P" "iot_nv_get_serial_number P"
  "iot_nv_set_device_id P" "iot_nv_set_misc_info P" nv_sized prov_held "serial_fits P"
  for P :: "'n posix"
proof unfold_locales
  fix s :: "'n store" and p t assume n: "nv_sized s"
  note same = nv_sized_cong [of _ s]
  show "\<exists>e p' s'. iot_nv_get_prov_data P p s = Some (e, p', s') \<and> prov_held p' \<and> nv_sized s'" if "prov_held p"
    by (rule get_prov_safe [OF n that])
  show "\<exists>e s'. iot_nv_erase_prov_data P s = Some (e, s') \<and> nv_sized s'" by (rule erase_prov_safe [OF n])
  show "\<exists>b s'. iot_nv_prov_data_exist P s = Some (b, s') \<and> nv_sized s'"
    using prov_exist_safe [of P s] same n by metis
  show "\<exists>e s'. iot_nv_erase P IOT_NVD_DEVICE_ID s = Some (e, s') \<and> nv_sized s'"
    using erase_defined [of P IOT_NVD_DEVICE_ID s] nv_sized_erase [OF n, of IOT_NVD_DEVICE_ID P] by auto
  show "\<exists>r s'. iot_nv_get_device_id P s = Some (r, s') \<and> nv_sized s'"
    using get_string_safe [of IOT_NVD_DEVICE_ID s 128 P] same n nv_sizedD [OF n, of IOT_NVD_DEVICE_ID]
    by (force simp: iot_nv_get_device_id_def item_limit_def)
  show "\<exists>r s'. iot_nv_get_misc_info P s = Some (r, s') \<and> nv_sized s'"
    using get_string_safe [of IOT_NVD_MISC_INFO s 2048 P] same n by (auto simp: iot_nv_get_misc_info_def)
  show "\<exists>r s'. iot_nv_get_serial_number P s = Some (r, s') \<and> nv_sized s'" if "serial_fits P"
    using get_serial_safe [OF that, of s] same n by metis
  show "\<exists>e s'. iot_nv_set_device_id P t s = Some (e, s') \<and> nv_sized s'" if "length t \<le> 128"
    using put_safe [OF n, of IOT_NVD_DEVICE_ID t P] that by (simp add: iot_nv_set_device_id_def item_limit_def)
  show "\<exists>e s'. iot_nv_set_misc_info P t s = Some (e, s') \<and> nv_sized s'"
    using put_safe [OF n, of IOT_NVD_MISC_INFO t P] by (simp add: iot_nv_set_misc_info_def item_limit_def)
qed

end
