(* ===== verification/Device_Inv.thy ===== *)
theory Device_Inv
  imports Device_Api Nv_Safe
begin

text \<open>
  The invariant of the device core and that the parts of it keep the invariant: every program of the core is
  defined in a world that satisfies it, whatever the platform answers, and leaves such a world. What the
  platform has to grant for that is \<open>port_ok\<close>.
\<close>

section \<open>The invariant\<close>

text \<open>A command carries the parameter its handler reads.\<close>

definition cmd_ok :: "iot_command \<Rightarrow> bool" where
  "cmd_ok cmd \<longleftrightarrow> (case cmd_type cmd of
     IOT_COMMAND_STATE_UPDATE \<Rightarrow> (case param cmd of Some (State_data _ _) \<Rightarrow> True | _ \<Rightarrow> False)
   | IOT_COMMAND_NOTIFICATION_RECEIVED \<Rightarrow> (case param cmd of Some (State_data _ _) \<Rightarrow> False | _ \<Rightarrow> True)
   | _ \<Rightarrow> True)"

definition dip_ok :: "iot_dip_data option \<Rightarrow> bool" where
  "dip_ok d \<longleftrightarrow> (case d of None \<Rightarrow> True | Some d \<Rightarrow> length (dip_id d) = 16)"

definition reg_ok :: "iot_registered_data \<Rightarrow> bool" where
  "reg_ok r \<longleftrightarrow> dip_ok (rd_dip r) \<and> (case rd_locationId r of None \<Rightarrow> True | Some u \<Rightarrow> length u = 16)
     \<and> length (rd_deviceId r) = 37 \<and> rd_deviceId r ! 36 = 0"

text \<open>\<open>K\<close> is what more is known of the settings in memory.\<close>

definition ctx_ok :: "(iot_device_prov_data \<Rightarrow> bool) \<Rightarrow> iot_context \<Rightarrow> bool" where
  "ctx_ok K c \<longleftrightarrow> K (prov_data c) \<and> (status_maps c = 0 \<or> status_cb c) \<and> mnid c \<noteq> None \<and> prov_held (prov_data c) \<and> lookup_id c \<noteq> Dangling
     \<and> dip_ok (devconf_dip c) \<and> reg_ok (iot_reg_data c)"

definition dev_inv :: "(iot_device_prov_data \<Rightarrow> bool) \<Rightarrow> 'n dev \<Rightarrow> bool" where
  "dev_inv K w \<longleftrightarrow> ctx_ok K (ctx w) \<and> list_all cmd_ok (work w) \<and> nv_sized (nv w)"

text \<open>
  The server's messages: an \<open>event\<close> is a string, a printed \<open>deviceId\<close> has the 36 characters that are copied, a
  preference with a value has a type. The allocation of the registration topic succeeds, and the serial number
  fits its buffer.
\<close>

definition server_conforms :: "('n, 'j) json \<Rightarrow> bool" where
  "server_conforms J \<longleftrightarrow> (\<forall>t n j n'. JSON_PARSE J t n = (Some j, n') \<longrightarrow>
     (\<forall>e. JSON_GET_OBJECT_ITEM J (Some j) ''event'' = Some e \<longrightarrow> JSON_GET_STRING_VALUE J (Some e) \<noteq> None) \<and>
     (\<forall>i m s m'. JSON_GET_OBJECT_ITEM J (Some j) ''deviceId'' = Some i \<longrightarrow> JSON_PRINT J (Some i) m = (Some s, m')
        \<longrightarrow> IOT_REG_UUID_STR_LEN \<le> length s) \<and>
     (\<forall>vs x. JSON_GET_OBJECT_ITEM J (Some j) ''values'' = Some vs \<longrightarrow> x \<in> set (json_items J vs)
        \<longrightarrow> JSON_GET_OBJECT_ITEM J (Some (snd x)) ''value'' \<noteq> None
        \<longrightarrow> JSON_GET_STRING_VALUE J (JSON_GET_OBJECT_ITEM J (Some (snd x)) ''preferenceType'') \<noteq> None))"

definition port_ok :: "('n, 'j) device \<Rightarrow> bool" where
  "port_ok P \<longleftrightarrow> server_conforms (d_json P) \<and> (\<forall>n. fst (d_malloc P Mem_reg_topic n)) \<and> serial_fits (d_posix P)"

section \<open>Statements\<close>

named_theorems dev_keeps \<open>programs of the device core that keep the invariant\<close>

lemma keeps_ask: "keeps (dev_inv K) (ask f)"
  by (auto simp: keeps_def wp_def ask_def dev_inv_def split: prod.splits)

text \<open>An answer of the platform, with what is known of it.\<close>

lemma keeps_ask_seq:
  assumes "\<And>a n n'. f n = (a, n') \<Longrightarrow> keeps (dev_inv K) (g a)"
  shows "keeps (dev_inv K) (seq (ask f) g)"
proof (rule keepsI)
  fix w :: "'b dev" assume I: "dev_inv K w"
  obtain a n where f: "f (env (nv w)) = (a, n)" by fastforce
  from I have "dev_inv K (w\<lparr>nv := (nv w)\<lparr>env := n\<rparr>\<rparr>)" by (simp add: dev_inv_def)
  from keepsD [OF assms [OF f] this] show "wp (seq (ask f) g) (\<lambda>_. dev_inv K) w"
    by (simp add: wp_def ask_def seq_def f)
qed

lemma keeps_the_ctx: "keeps (dev_inv K) (the_ctx f)"
  by (simp add: the_ctx_def keeps_gets)

text \<open>A part of the context, of which the invariant holds.\<close>

lemma keeps_ctx_seq: "(\<And>c. ctx_ok K c \<Longrightarrow> keeps (dev_inv K) (f (g c))) \<Longrightarrow> keeps (dev_inv K) (seq (the_ctx g) f)"
  unfolding the_ctx_def by (rule keeps_gets_seq) (simp add: dev_inv_def keeps_def)

lemma keeps_upd_ctx: "(\<And>c. ctx_ok K c \<Longrightarrow> ctx_ok K (f c)) \<Longrightarrow> keeps (dev_inv K) (upd_ctx f)"
  unfolding upd_ctx_def by (rule keeps_modify) (simp add: dev_inv_def)

lemma keeps_upd_reg: "(\<And>r. reg_ok r \<Longrightarrow> reg_ok (f r)) \<Longrightarrow> keeps (dev_inv K) (upd_reg f)"
  unfolding upd_reg_def by (rule keeps_upd_ctx) (simp add: ctx_ok_def)

lemma keeps_upd_cloud: "(\<And>p. cloud_held p \<Longrightarrow> cloud_held (f p)) \<Longrightarrow> keeps (dev_inv (\<lambda>_. True)) (upd_cloud f)"
  unfolding upd_cloud_def by (rule keeps_upd_ctx) (simp add: ctx_ok_def prov_held_def)

lemma keeps_tell [dev_keeps]: "keeps (dev_inv K) (tell e)"
  unfolding tell_def by (rule keeps_modify) (simp add: dev_inv_def)

lemma keeps_reboot [dev_keeps]: "keeps (dev_inv K) reboot"
  by (simp add: keeps_def wp_def reboot_def)

lemma keeps_free: "c \<noteq> Dangling \<Longrightarrow> keeps I (free_cell c)"
  by (simp add: free_cell_def keeps_skip)

lemmas dev_steps = keeps_ask_seq keeps_ctx_seq keeps_ask keeps_the_ctx keeps_upd_ctx keeps_upd_reg keeps_upd_cloud
  keeps_free keeps_rules

text \<open>The calls on the settings, from the contract of the store.\<close>

context settings_store
begin

definition guards :: "('n dev \<Rightarrow> bool) \<Rightarrow> bool" where
  "guards I \<longleftrightarrow> (\<forall>w. I w \<longrightarrow> sized (nv w)) \<and> (\<forall>w s. I w \<longrightarrow> sized s \<longrightarrow> I (w\<lparr>nv := s\<rparr>))"

lemma run_keeps:
  assumes "guards I" "\<And>s. sized s \<Longrightarrow> \<exists>r s'. f s = Some (r, s') \<and> sized s'"
  shows "keeps I (nv_run f)"
proof (rule keepsI)
  fix w assume "I w"
  with assms obtain r s' where "f (nv w) = Some (r, s')" "I (w\<lparr>nv := s'\<rparr>)" unfolding guards_def by metis
  then show "wp (nv_run f) (\<lambda>_. I) w" by (simp add: wp_def nv_run_def)
qed

lemma calls_keep:
  assumes "guards I"
  shows "keeps I (nv_run erase_prov)" "keeps I (nv_run exist)" "keeps I (nv_run erase_id)" "keeps I (nv_run get_id)"
    "keeps I (nv_run get_misc)" "keeps I (nv_run (set_misc t))"
    "serial_ok \<Longrightarrow> keeps I (nv_run get_serial)" "length t \<le> 128 \<Longrightarrow> keeps I (nv_run (set_id t))"
  by (rule run_keeps [OF assms]; blast intro: erase_prov exist erase_id get_id get_misc set_misc get_serial set_id)+

end

lemma inv_guards: "settings.guards (dev_inv K)"
  by (simp add: settings.guards_def dev_inv_def)

lemmas nv_keeps = settings.calls_keep [OF inv_guards]

end
