(* ===== verification/Device_Keeps.thy ===== *)
theory Device_Keeps
  imports Device_Inv
begin

text \<open>
  Each function of the device core keeps the invariant, from the bottom of the call graph to the work task.
\<close>

section \<open>Identifiers\<close>

lemma seq_ret [simp]: "seq (ret a) f = f a"
  by (simp add: seq_def ret_def fun_eq_iff)

definition uuid_result :: "iot_error + u8 list \<Rightarrow> bool" where
  "uuid_result r \<longleftrightarrow> (case r of Inl e \<Rightarrow> True | Inr u \<Rightarrow> length u = 16)"

lemma str_uuid_ret: "\<exists>r. str_uuid P t = ret r \<and> uuid_result r"
proof -
  obtain e u where u: "iot_util_convert_str_uuid t (Some (fresh_buffer (d_posix P) 16)) = Some (e, Some u)" "length u = 16"
    using convert_str_uuid_defined [of "fresh_buffer (d_posix P) 16" t] by auto
  then show ?thesis
    by (cases "e = IOT_ERROR_NONE") (auto simp: str_uuid_def uuid_result_def fun_eq_iff split: iot_error.splits)
qed



lemma uuid_str_ret:
  assumes "length u = 16" "37 \<le> n"
  shows "\<exists>t. uuid_str P u n = ret (Inr t)"
proof -
  have "iot_util_convert_uuid_str (Some u) (Some (fresh_buffer (d_posix P) n)) n
      = Some (IOT_ERROR_NONE, Some (uuid_text u @ 0 # drop 37 (fresh_buffer (d_posix P) n)))"
    by (rule convert_uuid_str_text) (use assms in simp_all)
  then show ?thesis by (auto simp: uuid_str_def fun_eq_iff)
qed

section \<open>Results\<close>

text \<open>A program that keeps the invariant and whose result satisfies \<open>Q\<close>.\<close>

definition yields :: "('w \<Rightarrow> bool) \<Rightarrow> ('a \<Rightarrow> bool) \<Rightarrow> ('w, 'a) prog \<Rightarrow> bool" where
  "yields I Q m \<longleftrightarrow> (\<forall>w. I w \<longrightarrow> wp m (\<lambda>a w'. Q a \<and> I w') w)"

lemma yields_keeps: "yields I Q m \<Longrightarrow> keeps I m"
  unfolding yields_def keeps_def by (blast intro: wp_mono)

lemma keeps_yields_seq:
  assumes "yields I Q m" "\<And>a. Q a \<Longrightarrow> keeps I (f a)"
  shows "keeps I (seq m f)"
proof (rule keepsI)
  fix w assume "I w"
  with assms(1) have "wp m (\<lambda>a w'. Q a \<and> I w') w" by (simp add: yields_def)
  then show "wp (seq m f) (\<lambda>_. I) w" unfolding wp_seq by (rule wp_mono) (use assms(2) in \<open>auto simp: keeps_def\<close>)
qed

lemma yields_ret: "Q a \<Longrightarrow> yields I Q (ret a)"
  by (simp add: yields_def)

lemma yields_seq:
  assumes "keeps I m" "\<And>a. yields I Q (f a)"
  shows "yields I Q (seq m f)"
  unfolding yields_def wp_seq using assms unfolding keeps_def yields_def by (blast intro: wp_mono)

section \<open>Miscellaneous information\<close>

lemma keeps_str_uuid [dev_keeps]: "keeps I (str_uuid P t)"
  using str_uuid_ret [of P t] by (auto intro: keeps_ret)

lemma get_location_yields: "yields I uuid_result (get_location_from_json P json)"
  using str_uuid_ret [of P "JSON_GET_STRING_VALUE (d_json P) (JSON_GET_OBJECT_ITEM (d_json P) json ''loId'')"]
  by (auto simp: get_location_from_json_def Let_def uuid_result_def intro!: yields_ret)

lemma get_dip_keeps: "keeps I (get_dip_from_json P json)"
  using str_uuid_ret [of P "JSON_GET_STRING_VALUE (d_json P)
    (JSON_GET_OBJECT_ITEM (d_json P) (JSON_GET_OBJECT_ITEM (d_json P) json ''dip'') ''id'')"]
  by (auto simp: get_dip_from_json_def Let_def intro!: keeps_rules split: sum.splits option.splits)

lemma misc_load_keeps: "(\<And>j. keeps (dev_inv K) (get j)) \<Longrightarrow> keeps (dev_inv K) (iot_misc_info_load P get)"
  unfolding iot_misc_info_load_def by (intro dev_steps nv_keeps) simp_all

lemma misc_load_location: "yields (dev_inv K) uuid_result (iot_misc_info_load P (get_location_from_json P))"
  unfolding iot_misc_info_load_def
  by (auto intro!: yields_seq nv_keeps keeps_ask yields_ret get_location_yields simp: uuid_result_def split: sum.splits)

lemma misc_store_keeps:
  assumes "\<And>j. keeps (dev_inv K) (put j)"
  shows "keeps (dev_inv K) (iot_misc_info_store P put)"
  unfolding iot_misc_info_store_def Let_def by (intro dev_steps nv_keeps assms)

lemma set_preverr_keeps: "keeps (dev_inv K) (set_preverr_to_json P t j)"
  unfolding set_preverr_to_json_def by (intro dev_steps)

lemma set_dip_keeps: "length (dip_id d) = 16 \<Longrightarrow> keeps (dev_inv K) (set_dip_to_json P d j)"
  unfolding set_dip_to_json_def Let_def using uuid_str_ret [of "dip_id d" 40 P] by (auto intro!: dev_steps)

lemma set_location_keeps: "length u = 16 \<Longrightarrow> keeps (dev_inv K) (set_location_to_json P u j)"
  unfolding set_location_to_json_def using uuid_str_ret [of u 37 P] by (auto intro!: dev_steps)

lemma set_st_ecode_keeps [dev_keeps]: "keeps (dev_inv K) (iot_set_st_ecode P t)"
  unfolding iot_set_st_ecode_def by (intro dev_steps misc_store_keeps set_preverr_keeps) (simp add: ctx_ok_def)

lemma set_st_ecode_conn_keeps [dev_keeps]: "keeps (dev_inv K) (iot_set_st_ecode_from_conn_error P e)"
  unfolding iot_set_st_ecode_from_conn_error_def by (intro dev_steps set_st_ecode_keeps)

section \<open>Commands\<close>

lemma put_work_keeps: "cmd_ok cmd \<Longrightarrow> keeps (dev_inv K) (iot_put_device_work P cmd)"
  unfolding iot_put_device_work_def by (intro dev_steps keeps_modify) (simp add: dev_inv_def)

lemma command_send_keeps:
  "cmd_ok \<lparr>cmd_type = t, param = p\<rparr> \<Longrightarrow> keeps (dev_inv K) (iot_command_send P t p)"
  unfolding iot_command_send_def by (intro dev_steps put_work_keeps) simp_all

lemma post_keeps: "cmd_ok \<lparr>cmd_type = t, param = p\<rparr> \<Longrightarrow> keeps (dev_inv K) (post P t p)"
  unfolding post_def by (intro dev_steps command_send_keeps)

lemma cmd_ok_cases [simp]:
  "cmd_ok \<lparr>cmd_type = IOT_COMMAND_STATE_UPDATE, param = Some (State_data s opt)\<rparr>"
  "cmd_ok \<lparr>cmd_type = IOT_COMMAND_CLOUD_REGISTERING, param = p\<rparr>"
  "cmd_ok \<lparr>cmd_type = IOT_COMMAND_CLOUD_REGISTERED, param = p\<rparr>"
  "cmd_ok \<lparr>cmd_type = IOT_COMMAND_CLOUD_CONNECTING, param = p\<rparr>"
  "cmd_ok \<lparr>cmd_type = IOT_COMMAND_NOTIFICATION_RECEIVED, param = Some (Noti_data d)\<rparr>"
  by (simp_all add: cmd_ok_def)

lemmas send_keeps [dev_keeps] = command_send_keeps [OF cmd_ok_cases(1)] command_send_keeps [OF cmd_ok_cases(2)]
  command_send_keeps [OF cmd_ok_cases(4)]
  post_keeps [OF cmd_ok_cases(2)] post_keeps [OF cmd_ok_cases(3)] post_keeps [OF cmd_ok_cases(4)] post_keeps [OF cmd_ok_cases(5)]

text \<open>The status callback is called only when it is there.\<close>

lemma call_status_inv: "dev_inv K w \<Longrightarrow> status_cb (ctx w) \<Longrightarrow> wp (call_status_cb st lv) (\<lambda>_. dev_inv K) w"
  by (simp add: call_status_cb_def the_ctx_def upd_ctx_def tell_def dev_inv_def ctx_ok_def)

lemma keeps_on_ctx:
  assumes "\<And>w. dev_inv K w \<Longrightarrow> b (ctx w) \<Longrightarrow> wp m (\<lambda>_. dev_inv K) w" "\<And>c. keeps (dev_inv K) (k c)"
  shows "keeps (dev_inv K) (seq (the_ctx (\<lambda>c. c)) (\<lambda>c. and_then (on (b c) m) (k c)))"
proof (rule keepsI)
  fix w :: "'a dev" assume I: "dev_inv K w"
  with assms(1) have "wp (on (b (ctx w)) m) (\<lambda>_. dev_inv K) w" by (simp add: wp_on)
  then have "wp (on (b (ctx w)) m) (\<lambda>_. wp (k (ctx w)) (\<lambda>_. dev_inv K)) w"
    by (rule wp_mono) (rule keepsD [OF assms(2)])
  then show "wp (seq (the_ctx (\<lambda>c. c)) (\<lambda>c. and_then (on (b c) m) (k c))) (\<lambda>_. dev_inv K) w"
    by (simp add: the_ctx_def)
qed

lemma state_update_keeps [dev_keeps]: "keeps (dev_inv K) (iot_state_update P s opt)"
  unfolding iot_state_update_def
  by (rule keeps_on_ctx) (auto intro!: call_status_inv send_keeps simp: dev_inv_def ctx_ok_def)

lemma timeout_keeps [dev_keeps]: "keeps (dev_inv K) (iot_state_timeout_cb P)"
  unfolding iot_state_timeout_cb_def by (rule keeps_ctx_seq) (auto intro!: dev_steps state_update_keeps split: iot_state.split)

lemma retry_timeout_keeps [dev_keeps]: "keeps (dev_inv K) (next_connection_retry_timeout P)"
  unfolding next_connection_retry_timeout_def by (intro send_keeps)

lemma rate_limit_keeps [dev_keeps]: "keeps (dev_inv K) iot_noti_rate_limit_cb"
  unfolding iot_noti_rate_limit_cb_def by (intro keeps_upd_ctx) (simp add: ctx_ok_def)

lemma con_timeout_keeps [dev_keeps]: "keeps (dev_inv K) (con_timeout_check P)"
  unfolding con_timeout_check_def by (intro dev_steps)

section \<open>Messages\<close>

lemma server_event:
  assumes "port_ok P" "JSON_PARSE (d_json P) t n = (json, n')" "json \<noteq> None"
    "JSON_GET_OBJECT_ITEM (d_json P) json ''event'' \<noteq> None"
  shows "JSON_GET_STRING_VALUE (d_json P) (JSON_GET_OBJECT_ITEM (d_json P) json ''event'') \<noteq> None"
proof -
  from assms(3,4) obtain j e where "json = Some j" "JSON_GET_OBJECT_ITEM (d_json P) (Some j) ''event'' = Some e" by auto
  with assms(1,2) show ?thesis unfolding port_ok_def server_conforms_def by metis
qed

lemma server_device_id:
  assumes "port_ok P" "JSON_PARSE (d_json P) t n = (Some j, n')"
    "JSON_GET_OBJECT_ITEM (d_json P) (Some j) ''deviceId'' = Some i" "JSON_PRINT (d_json P) (Some i) m = (Some s, m')"
  shows "36 \<le> length s"
  using assms unfolding port_ok_def server_conforms_def by metis

lemma server_preference:
  assumes "port_ok P" "JSON_PARSE (d_json P) t n = (Some j, n')" "JSON_GET_OBJECT_ITEM (d_json P) (Some j) ''values'' = Some vs"
    "x \<in> set (json_items (d_json P) vs)" "JSON_GET_OBJECT_ITEM (d_json P) (Some (snd x)) ''value'' \<noteq> None"
  shows "JSON_GET_STRING_VALUE (d_json P) (JSON_GET_OBJECT_ITEM (d_json P) (Some (snd x)) ''preferenceType'') \<noteq> None"
  using assms unfolding port_ok_def server_conforms_def by metis

lemma check_response_keeps [dev_keeps]:
  assumes "port_ok P"
  shows "keeps (dev_inv K) (check_connection_response P payload)"
  unfolding check_connection_response_def Let_def
  by (intro dev_steps) (use server_event [OF assms] in auto)

lemma reg_dip_keeps [dev_keeps]: "keeps (dev_inv K) (reg_dip P json)"
proof -
  obtain r where r: "str_uuid P (JSON_GET_STRING_VALUE (d_json P) (JSON_GET_OBJECT_ITEM (d_json P)
      (JSON_GET_OBJECT_ITEM (d_json P) json ''deviceIntegrationProfileKey'') ''id'')) = ret r" "uuid_result r"
    using str_uuid_ret by blast
  show ?thesis unfolding reg_dip_def Let_def r(1) seq_ret
    by (intro dev_steps) (use r(2) in \<open>auto simp: reg_ok_def dip_ok_def uuid_result_def\<close>)
qed

lemma reg_location_keeps [dev_keeps]: "keeps (dev_inv K) (reg_location P json)"
proof -
  obtain r where r: "str_uuid P (JSON_GET_STRING_VALUE (d_json P) (JSON_GET_OBJECT_ITEM (d_json P) json ''locationId'')) = ret r"
    "uuid_result r" using str_uuid_ret by blast
  show ?thesis unfolding reg_location_def Let_def r(1) seq_ret
    by (intro dev_steps) (use r(2) in \<open>auto simp: reg_ok_def uuid_result_def\<close>)
qed

lemma reg_device_id_keeps:
  assumes "port_ok P" "JSON_PARSE (d_json P) t n = (Some j, n')"
  shows "keeps (dev_inv K) (reg_device_id P (Some j))"
  unfolding reg_device_id_def Let_def
proof (intro dev_steps dev_keeps)
  fix c a m m' s
  assume "ctx_ok K c" "\<not> (JSON_GET_OBJECT_ITEM (d_json P) (Some j) ''deviceId'' = None \<or> rd_updated (iot_reg_data c))"
    and p: "JSON_PRINT (d_json P) (JSON_GET_OBJECT_ITEM (d_json P) (Some j) ''deviceId'') m = (a, m')" "a = Some s"
    and short: "length (s @ [0]) < Suc 36"
  then obtain i where "JSON_GET_OBJECT_ITEM (d_json P) (Some j) ''deviceId'' = Some i" by auto
  with p short show "keeps (dev_inv K) undef" using server_device_id [OF assms, of i m s m'] by simp
next
  fix s :: "u8 list" and r
  assume "reg_ok r" "\<not> length (s @ [0]) < Suc 36"
  then show "reg_ok (r\<lparr>rd_deviceId := take 36 (tl (s @ [0])) @ [0]\<rparr>)" by (simp add: reg_ok_def nth_append)
qed (simp add: reg_ok_def)

lemma reg_sub_keeps [dev_keeps]:
  assumes "port_ok P"
  shows "keeps (dev_inv K) (mqtt_reg_sub_cb P payload)"
  unfolding mqtt_reg_sub_cb_def Let_def
  by (intro dev_steps dev_keeps) (use server_event [OF assms] reg_device_id_keeps [OF assms] in auto)

lemma registration_callback_keeps [dev_keeps]:
  "port_ok P \<Longrightarrow> keeps (dev_inv K) (registration_client_callback P ev)"
  unfolding registration_client_callback_def
  by (cases ev) (auto intro!: dev_keeps dev_steps simp: ctx_ok_def)

lemma parse_preferences_keeps:
  "(\<And>x. x \<in> set xs \<Longrightarrow> JSON_GET_OBJECT_ITEM J (Some (snd x)) ''value'' \<noteq> None
      \<Longrightarrow> JSON_GET_STRING_VALUE J (JSON_GET_OBJECT_ITEM J (Some (snd x)) ''preferenceType'') \<noteq> None)
     \<Longrightarrow> keeps I (parse_preferences J xs)"
proof (induction xs)
  case (Cons x xs)
  have "keeps I (parse_preference J x)"
    unfolding parse_preference_def Let_def by (intro keeps_rules) (use Cons.prems [of x] in auto)
  with Cons show ?case by (auto intro!: keeps_rules)
qed (simp add: keeps_ret)

lemma parse_noti_keeps:
  assumes "port_ok P"
  shows "keeps (dev_inv K) (iot_parse_noti_data P payload)"
  unfolding iot_parse_noti_data_def Let_def
  by (intro dev_steps parse_preferences_keeps) (use server_preference [OF assms] in \<open>auto simp del: split_paired_All\<close>)

lemma noti_sub_keeps [dev_keeps]: "port_ok P \<Longrightarrow> keeps (dev_inv K) (iot_noti_sub_cb P payload)"
  unfolding iot_noti_sub_cb_def
  by (intro dev_steps dev_keeps parse_noti_keeps)
    (auto intro!: dev_steps dev_keeps simp: ctx_ok_def split: iot_noti_data.split)

lemma sequence_keeps: "keeps (dev_inv K) (iot_parse_sequence_num P payload)"
  unfolding iot_parse_sequence_num_def Let_def by (intro dev_steps)

lemma signin_callback_keeps [dev_keeps]:
  "port_ok P \<Longrightarrow> keeps (dev_inv K) (signin_client_callback P ev)"
  unfolding signin_client_callback_def
  by (cases ev) (auto intro!: dev_keeps dev_steps sequence_keeps simp: ctx_ok_def)

lemma deliver_keeps: "port_ok P \<Longrightarrow> keeps (dev_inv K) (deliver P t evs)"
  by (induction evs) (auto intro!: dev_keeps keeps_rules split: iot_connect_type.split)

lemma mqtt_call_keeps [dev_keeps]: "port_ok P \<Longrightarrow> keeps (dev_inv K) (mqtt_call P t op)"
  unfolding mqtt_call_def by (intro dev_steps deliver_keeps)

section \<open>Clean-up and connection\<close>

lemma disconnect_keeps [dev_keeps]:
  assumes "port_ok P"
  shows "keeps (dev_inv K) (iot_es_disconnect P t)"
  unfolding iot_es_disconnect_def iot_es_mqtt_disconnect_def
  by (cases t) (auto intro!: dev_keeps dev_steps simp: ctx_ok_def assms)

end
