(* ===== verification/Device_Steps.thy ===== *)
theory Device_Steps
  imports Device_Keeps
begin

text \<open>
  The invariant through clean-up, connecting, provisioning, the state machine, the commands and the calls of
  the application, and the reachable worlds of the device.
\<close>

abbreviation any_prov :: "iot_device_prov_data \<Rightarrow> bool" where "any_prov \<equiv> \<lambda>_. True"

text \<open>No string of an earlier load is held.\<close>

definition cleared :: "iot_device_prov_data \<Rightarrow> bool" where
  "cleared p \<longleftrightarrow> cp_broker_url (pd_cloud p) = Null \<and> cp_label (pd_cloud p) = Null"

lemma dev_inv_any: "dev_inv K w \<Longrightarrow> dev_inv any_prov w"
  by (simp add: dev_inv_def ctx_ok_def)

lemma zero_prov_held [simp]: "prov_held zero_prov" "cleared zero_prov"
  by (simp_all add: zero_prov_def prov_held_def cloud_held_def cleared_def)

lemma wp_weaken: "wp m (\<lambda>_. dev_inv K) w \<Longrightarrow> wp m (\<lambda>_. dev_inv any_prov) w"
  by (erule wp_mono) (rule dev_inv_any)

section \<open>Clean-up\<close>

lemma mem_free_settings:
  "dev_inv K w \<Longrightarrow> wp iot_api_prov_data_mem_free (\<lambda>_ w'. \<exists>p. w' = w\<lparr>ctx := (ctx w)\<lparr>prov_data := p\<rparr>\<rparr>) w"
  by (auto simp: iot_api_prov_data_mem_free_def the_ctx_def free_cell_def upd_cloud_def upd_ctx_def dev_inv_def ctx_ok_def
      prov_held_def cloud_held_def)

lemma mem_free_cleared: "keeps (dev_inv cleared) iot_api_prov_data_mem_free"
  by (rule keepsI)
    (simp add: iot_api_prov_data_mem_free_def the_ctx_def free_cell_def upd_cloud_def upd_ctx_def dev_inv_def ctx_ok_def
      prov_held_def cloud_held_def cleared_def freed_def)

lemma free_then_zero:
  assumes "dev_inv K w" "keeps (dev_inv cleared) k"
  shows "wp (and_then iot_api_prov_data_mem_free (and_then (upd_ctx (\<lambda>c. c\<lparr>prov_data := zero_prov\<rparr>)) k)) (\<lambda>_. dev_inv cleared) w"
  unfolding wp_and_then using mem_free_settings [OF assms(1)]
proof (rule wp_mono)
  fix a w' assume "\<exists>p. w' = w\<lparr>ctx := (ctx w)\<lparr>prov_data := p\<rparr>\<rparr>"
  then obtain p where w': "w' = w\<lparr>ctx := (ctx w)\<lparr>prov_data := p\<rparr>\<rparr>" by blast
  have "dev_inv cleared (w\<lparr>ctx := (ctx w)\<lparr>prov_data := zero_prov\<rparr>\<rparr>)"
    using assms(1) by (simp add: dev_inv_def ctx_ok_def)
  with keepsD [OF assms(2)] show "wp (upd_ctx (\<lambda>c. c\<lparr>prov_data := zero_prov\<rparr>)) (\<lambda>_. wp k (\<lambda>_. dev_inv cleared)) w'"
    by (simp add: upd_ctx_def w')
qed

lemma and_then_seq: "seq (and_then m k) f = and_then m (seq k f)" "and_then (and_then m k) l = and_then m (and_then k l)"
  by (simp_all add: seq_def and_then_def fun_eq_iff split: run.split)

lemma device_cleanup_wp:
  assumes "port_ok P" "dev_inv K w"
  shows "wp (iot_device_cleanup P) (\<lambda>_. dev_inv cleared) w"
  unfolding iot_device_cleanup_def block.simps and_then_seq
  by (rule free_then_zero [OF assms(2)]) (use assms(1) in \<open>auto intro!: dev_steps dev_keeps nv_keeps simp: ctx_ok_def\<close>)

lemma easysetup_deinit_keeps [dev_keeps]: "keeps I iot_easysetup_deinit"
  by (simp add: iot_easysetup_deinit_def keeps_skip)

lemma cleanup_wp:
  assumes "port_ok P" "dev_inv K w"
  shows "wp (iot_cleanup P boot) (\<lambda>_. dev_inv cleared) w"
proof -
  let ?last = "block [upd_ctx (\<lambda>c. c\<lparr>curr_state := IOT_STATE_INITIALIZED\<rparr>), on boot reboot]"
  have k: "keeps (dev_inv cleared) ?last" by (auto intro!: dev_steps dev_keeps simp: ctx_ok_def)
  have d: "wp (and_then (iot_device_cleanup P) (and_then skip ?last)) (\<lambda>_. dev_inv cleared) w" if "dev_inv K w" for w
    using device_cleanup_wp [OF assms(1) that] unfolding wp_and_then wp_skip by (rule wp_mono) (rule keepsD [OF k])
  have e: "keeps (dev_inv K) (on b (and_then (upd_ctx f) iot_easysetup_deinit))" if "\<And>c. ctx_ok K c \<Longrightarrow> ctx_ok K (f c)" for b f
    using that by (auto intro!: dev_steps dev_keeps)
  show ?thesis unfolding iot_cleanup_def block.simps wp_seq the_ctx_def wp_gets wp_and_then
    apply (rule wp_mono [OF keepsD [OF e assms(2)]], simp add: ctx_ok_def)
    apply (rule wp_mono [OF keepsD [OF e]], simp add: ctx_ok_def, assumption)
    subgoal using d by (simp add: wp_and_then [abs_def] wp_skip [abs_def])
    done
qed

lemma cleanup_keeps [dev_keeps]: "port_ok P \<Longrightarrow> keeps (dev_inv any_prov) (iot_cleanup P boot)"
  by (rule keepsI) (rule wp_weaken [OF cleanup_wp])

section \<open>Connecting\<close>

lemma live_or_null: "prov_held p \<Longrightarrow> cp_broker_url (pd_cloud p) \<noteq> Dangling"
  by (simp add: prov_held_def cloud_held_def)

lemma mqtt_connect_keeps [dev_keeps]:
  assumes "port_ok P"
  shows "keeps (dev_inv any_prov) (iot_es_mqtt_connect P t)"
  unfolding iot_es_mqtt_connect_def Let_def
  by (intro dev_steps dev_keeps assms) (use live_or_null in \<open>auto simp: ctx_ok_def\<close>)

lemma wait_response_keeps [dev_keeps]: "port_ok P \<Longrightarrow> keeps (dev_inv K) (wait_response P t n)"
  by (induction n) (auto intro!: dev_steps dev_keeps)

lemma mqtt_registration_keeps [dev_keeps]:
  assumes "port_ok P"
  shows "keeps (dev_inv K) (iot_es_mqtt_registration P)"
proof -
  have u: "keeps (dev_inv K) (uuid_str P (dip_id d) 40)" if "ctx_ok K c" "devconf_dip c = Some d" for c d
    using uuid_str_ret [of "dip_id d" 40 P] that by (auto simp: ctx_ok_def dip_ok_def intro: keeps_ret)
  show ?thesis unfolding iot_es_mqtt_registration_def
    by (intro dev_steps dev_keeps assms u) (auto simp: reg_ok_def)
qed

lemma disconnect_with_keeps [dev_keeps]: "port_ok P \<Longrightarrow> keeps (dev_inv K) (disconnect_with P t e)"
  unfolding disconnect_with_def iot_es_mqtt_disconnect_def by (intro dev_steps dev_keeps)

lemma alloc_or_keeps: "keeps (dev_inv K) k \<Longrightarrow> keeps (dev_inv K) (alloc_or P a e k)"
  unfolding alloc_or_def by (intro dev_steps)

lemma event_topics_keeps [dev_keeps]: "port_ok P \<Longrightarrow> keeps (dev_inv K) (event_topics P)"
  unfolding event_topics_def Let_def by (intro dev_steps dev_keeps) (auto simp: ctx_ok_def)

lemma sign_in_keeps [dev_keeps]: "port_ok P \<Longrightarrow> keeps (dev_inv K) (sign_in P)"
  unfolding sign_in_def Let_def by (intro dev_steps dev_keeps alloc_or_keeps)

lemma sign_up_keeps [dev_keeps]:
  assumes "port_ok P"
  shows "keeps (dev_inv K) (sign_up P)"
proof -
  have m: "a" if "d_malloc P Mem_reg_topic n = (a, n')" for a n n'
    using assms that by (metis fst_conv port_ok_def)
  show ?thesis unfolding sign_up_def Let_def
    by (intro dev_steps dev_keeps assms) (auto simp: ctx_ok_def dest: m)
qed

lemma es_connect_keeps [dev_keeps]:
  assumes "port_ok P"
  shows "keeps (dev_inv any_prov) (iot_es_connect P t)"
proof -
  have s: "keeps (dev_inv any_prov) (nv_run (iot_nv_get_serial_number (d_posix P)))"
    by (rule nv_keeps) (use assms in \<open>simp add: port_ok_def\<close>)
  have c: "keeps (dev_inv any_prov) (connect_communication P)" "keeps (dev_inv any_prov) (connect_registration P)"
    unfolding connect_communication_def connect_registration_def
    by (intro dev_steps dev_keeps assms; simp add: ctx_ok_def)+
  show ?thesis unfolding iot_es_connect_def
    by (cases t; intro dev_steps dev_keeps assms s) (auto simp: ctx_ok_def c)
qed

section \<open>Wi-Fi\<close>

lemma wifi_result_keeps [dev_keeps]: "keeps (dev_inv K) (wifi_result m e)"
  unfolding wifi_result_def by (intro dev_steps) (simp add: ctx_ok_def)

lemma leave_easysetup_keeps [dev_keeps]: "keeps (dev_inv K) leave_easysetup"
  unfolding leave_easysetup_def by (intro dev_steps dev_keeps) (auto simp: ctx_ok_def)

lemma easysetup_init_keeps [dev_keeps]: "keeps (dev_inv K) (iot_easysetup_init P)"
  unfolding iot_easysetup_init_def by (intro dev_steps)

lemma wifi_send_keeps [dev_keeps]: "keeps (dev_inv K) (wifi_send P m)"
  unfolding wifi_send_def by (intro dev_steps dev_keeps) (simp add: ctx_ok_def)

lemma wifi_request_keeps [dev_keeps]: "keeps (dev_inv K) (iot_wifi_ctrl_request P m)"
proof -
  have c: "keeps (dev_inv K) (wifi_conf_station (pd_wifi (prov_data c)))" if "ctx_ok K c" for c
    using that by (auto simp: wifi_conf_station_def keeps_skip ctx_ok_def prov_held_def wifi_term_def)
  show ?thesis unfolding iot_wifi_ctrl_request_def
    by (cases m) (auto intro!: dev_steps dev_keeps c, auto simp: ctx_ok_def)
qed

section \<open>Provisioning\<close>

lemma prepare_keeps [dev_keeps]: "keeps (dev_inv any_prov) (prepare_self_reged P)"
proof -
  have u: "keeps (dev_inv any_prov) (uuid_str P u 37)" if "uuid_result (Inr u)" for u
    using uuid_str_ret [of u 37 P] that by (auto simp: uuid_result_def intro: keeps_ret)
  show ?thesis unfolding prepare_self_reged_def
    by (intro alloc_or_keeps keeps_ask_seq keeps_sum keeps_yields_seq [OF misc_load_location] dev_steps)
      (auto intro: u simp: ctx_ok_def prov_held_def cloud_held_def)
qed

lemma cut_terminated: "length d = 37 \<Longrightarrow> d ! 36 = 0 \<Longrightarrow> n \<le> 36 \<Longrightarrow> (0 # drop (Suc n) d) ! (36 - n) = (0 :: u8)"
  by (cases "n = 36") (auto simp: nth_Cons')

lemma store_device_id_keeps [dev_keeps]: "keeps (dev_inv K) (store_device_id t)"
  unfolding store_device_id_def
  by (rule keeps_upd_reg) (auto simp: reg_ok_def nth_append min_def cut_terminated)

lemma start_new_keeps [dev_keeps]: "keeps (dev_inv K) start_new"
  unfolding start_new_def by (intro dev_steps) (auto simp: ctx_ok_def reg_ok_def)

lemma erase_id_keeps [dev_keeps]: "keeps (dev_inv K) (erase_device_id P)"
  unfolding erase_device_id_def by (intro dev_steps nv_keeps)

lemma unlikely_keeps [dev_keeps]: "keeps (dev_inv K) (unlikely_with_stored_dip P d)"
  unfolding unlikely_with_stored_dip_def by (intro dev_steps misc_load_keeps get_dip_keeps)

lemma known_device_keeps [dev_keeps]: "keeps (dev_inv any_prov) (known_device P t)"
  unfolding known_device_def by (intro dev_steps dev_keeps) (auto simp: ctx_ok_def reg_ok_def)

lemma wp_nv_run: "f (nv w) = Some (a, s) \<Longrightarrow> wp (nv_run f) Q w = Q a (w\<lparr>nv := s\<rparr>)"
  by (simp add: wp_def nv_run_def)

lemma nv_get_prov_keeps [dev_keeps]: "keeps (dev_inv any_prov) (nv_get_prov P)"
proof (rule keepsI)
  fix w :: "'a dev" assume I: "dev_inv any_prov w"
  then obtain e p s where "iot_nv_get_prov_data (d_posix P) (prov_data (ctx w)) (nv w) = Some (e, p, s)" "prov_held p" "nv_sized s"
    using settings.get_prov [of "nv w" "prov_data (ctx w)" "d_posix P"] by (auto simp: dev_inv_def ctx_ok_def)
  with I show "wp (nv_get_prov P) (\<lambda>_. dev_inv any_prov) w"
    by (simp add: nv_get_prov_def the_ctx_def upd_ctx_def wp_nv_run dev_inv_def ctx_ok_def)
qed

lemma validation_defined: "prov_held p \<Longrightarrow> check_prov_data_validation p \<noteq> None"
  by (simp add: check_prov_data_validation_def prov_held_def wifi_term_def wifi_sizes_def read_byte_def)

lemma prov_next_state_keeps [dev_keeps]: "keeps (dev_inv any_prov) (prov_next_state P)"
  unfolding prov_next_state_def
  by (intro dev_steps dev_keeps nv_keeps) (use validation_defined in \<open>auto simp: ctx_ok_def\<close>)

lemma check_prov_wp:
  assumes "dev_inv cleared w"
  shows "wp (check_prov_status P only) (\<lambda>_. dev_inv any_prov) w"
proof -
  have 1: "keeps (dev_inv cleared) (block [upd_reg (\<lambda>r. r\<lparr>rd_new_reged := False\<rparr>), iot_api_prov_data_mem_free])"
    by (intro dev_steps mem_free_cleared) (simp add: reg_ok_def)
  have 2: "keeps (dev_inv any_prov) (seq (prov_next_state P) (\<lambda>next.
      if only then ret IOT_ERROR_NONE else iot_state_update P next IOT_STATE_OPT_NONE))"
    by (intro dev_steps dev_keeps)
  show ?thesis unfolding check_prov_status_def wp_and_then
    by (rule wp_mono [OF keepsD [OF 1 assms]]) (rule keepsD [OF 2 dev_inv_any])
qed

section \<open>The state machine\<close>

lemma delete_resources_keeps [dev_keeps]: "keeps (dev_inv K) delete_easysetup_resources_all"
  unfolding delete_easysetup_resources_all_def by (intro dev_steps) (simp add: ctx_ok_def)

lemma create_resources_keeps [dev_keeps]: "keeps (dev_inv K) (create_easysetup_resources P n)"
  unfolding create_easysetup_resources_def Let_def by (intro dev_steps dev_keeps) (auto simp: ctx_ok_def)

lemma preference_keeps [dev_keeps]: "port_ok P \<Longrightarrow> keeps (dev_inv K) (get_device_preference P)"
  unfolding get_device_preference_def by (intro dev_steps dev_keeps)

lemma enter_prov_keeps [dev_keeps]: "keeps (dev_inv K) (enter_prov P)"
  unfolding enter_prov_def by (intro dev_steps dev_keeps)

lemma leave_state_keeps [dev_keeps]: "port_ok P \<Longrightarrow> keeps (dev_inv K) (leave_state P old new)"
  unfolding leave_state_def Let_def by (cases old) (auto intro!: dev_steps dev_keeps)

lemma state_timer_keeps [dev_keeps]: "keeps (dev_inv K) (set_state_timer P ms)"
  unfolding set_state_timer_def by (intro dev_steps dev_keeps) (auto simp: ctx_ok_def)

lemma report_state_keeps [dev_keeps]: "keeps (dev_inv K) (report_state new)"
proof (rule keepsI)
  fix w :: "'a dev" assume I: "dev_inv K w"
  have t: "dev_inv K (w\<lparr>told := x\<rparr>)" for x using I by (simp add: dev_inv_def)
  show "wp (report_state new) (\<lambda>_. dev_inv K) w"
    using I t call_status_inv [of K w] call_status_inv [of K "w\<lparr>told := x\<rparr>" for x]
    by (auto simp: report_state_def the_ctx_def Let_def wp_on tell_def wp_ret [abs_def] split: iot_state.split)
qed

lemma state_updating_keeps [dev_keeps]: "port_ok P \<Longrightarrow> keeps (dev_inv K) (do_state_updating P new)"
  unfolding do_state_updating_def by (intro dev_steps dev_keeps) (auto simp: ctx_ok_def)

end
