(* ===== verification/Device_Moves.thy ===== *)
theory Device_Moves
  imports Device_Api
begin

text \<open>
  What can change the state of the device and the timer of the state: only a state update that the work task
  handles, and a clean-up. Everything else leaves both.
\<close>

definition phase :: "'n dev \<Rightarrow> iot_state \<times> nat option" where
  "phase w = (curr_state (ctx w), state_timer (ctx w))"

named_theorems phase_frame \<open>programs that leave the state and its timer\<close>

lemma still_ask: "still phase (ask f)"
  by (auto simp: still_def ask_def phase_def split: prod.splits)

lemma still_the_ctx: "still phase (the_ctx f)"
  by (simp add: the_ctx_def still_basic)

lemma still_upd_ctx: "(\<And>c. curr_state (f c) = curr_state c) \<Longrightarrow> (\<And>c. state_timer (f c) = state_timer c) \<Longrightarrow> still phase (upd_ctx f)"
  unfolding upd_ctx_def by (rule still_modify) (simp add: phase_def)

lemma still_upd_parts: "still phase (upd_reg g)" "still phase (upd_cloud h)"
  unfolding upd_reg_def upd_cloud_def by (intro still_upd_ctx; simp)+

lemma still_tell: "still phase (tell e)"
  unfolding tell_def by (rule still_modify) (simp add: phase_def)

lemma still_nv_run: "still phase (nv_run f)"
  by (auto simp: still_def nv_run_def phase_def split: option.splits)

lemma still_reboot: "still phase reboot"
  by (simp add: still_def reboot_def)

lemma still_free: "still phase (free_cell c)"
  by (simp add: free_cell_def still_basic)

lemmas frame_steps = still_ask still_the_ctx still_upd_parts still_tell still_nv_run still_reboot still_free still_rules still_upd_ctx

section \<open>Messages and calls\<close>

lemma str_uuid_frame [phase_frame]: "still phase (str_uuid P t)"
  unfolding str_uuid_def by (auto intro!: still_basic split: option.splits prod.splits iot_error.splits)

lemma uuid_str_frame [phase_frame]: "still phase (uuid_str P u n)"
  unfolding uuid_str_def by (auto intro!: still_basic split: option.splits prod.splits iot_error.splits)

lemma json_frame [phase_frame]:
  "still phase (get_dip_from_json P j)" "still phase (get_location_from_json P j)" "still phase (set_dip_to_json P d j)"
  "still phase (set_location_to_json P u j)" "still phase (set_preverr_to_json P t j)"
  unfolding get_dip_from_json_def get_location_from_json_def set_dip_to_json_def set_location_to_json_def
    set_preverr_to_json_def Let_def
  by (intro frame_steps phase_frame)+

lemma misc_load_frame [phase_frame]: "(\<And>j. still phase (get j)) \<Longrightarrow> still phase (iot_misc_info_load P get)"
  unfolding iot_misc_info_load_def by (intro frame_steps)

lemma misc_store_frame [phase_frame]: "(\<And>j. still phase (put j)) \<Longrightarrow> still phase (iot_misc_info_store P put)"
  unfolding iot_misc_info_store_def Let_def by (intro frame_steps)

lemma ecode_frame [phase_frame]: "still phase (iot_set_st_ecode P t)" "still phase (iot_set_st_ecode_from_conn_error P e)"
  unfolding iot_set_st_ecode_def iot_set_st_ecode_from_conn_error_def
  by (intro frame_steps phase_frame; simp add: iot_set_st_ecode_def)+

lemma command_frame [phase_frame]:
  "still phase (iot_put_device_work P c)" "still phase (iot_command_send P t p)" "still phase (post P t p)"
proof -
  show 1: "still phase (iot_put_device_work P c)" for c
    unfolding iot_put_device_work_def by (intro frame_steps still_modify) (simp add: phase_def)
  show 2: "still phase (iot_command_send P t p)"
    unfolding iot_command_send_def by (intro frame_steps 1)
  show "still phase (post P t p)" unfolding post_def by (intro frame_steps 2)
qed

lemma status_frame [phase_frame]: "still phase (call_status_cb st lv)"
  unfolding call_status_cb_def by (intro frame_steps) simp_all

lemma state_update_frame [phase_frame]: "still phase (iot_state_update P s opt)"
  unfolding iot_state_update_def by (intro frame_steps phase_frame)

lemma timer_frames [phase_frame]:
  "still phase (iot_state_timeout_cb P)" "still phase (next_connection_retry_timeout P)" "still phase iot_noti_rate_limit_cb"
  "still phase (con_timeout_check P)"
  unfolding iot_state_timeout_cb_def next_connection_retry_timeout_def iot_noti_rate_limit_cb_def con_timeout_check_def
  by (auto intro!: frame_steps phase_frame split: iot_state.split)

lemma response_frame [phase_frame]: "still phase (check_connection_response P payload)"
  unfolding check_connection_response_def Let_def by (intro frame_steps)

lemma registration_frame [phase_frame]: "still phase (reg_dip P j)" "still phase (reg_location P j)" "still phase (reg_device_id P j)"
  unfolding reg_dip_def reg_location_def reg_device_id_def Let_def by (intro frame_steps phase_frame)+

lemma reg_sub_frame [phase_frame]: "still phase (mqtt_reg_sub_cb P payload)"
  unfolding mqtt_reg_sub_cb_def Let_def by (intro frame_steps phase_frame)

lemma preferences_frame [phase_frame]: "still phase (parse_preferences J xs)"
proof (induction xs)
  case (Cons x xs)
  have "still phase (parse_preference J x)" unfolding parse_preference_def Let_def by (intro frame_steps)
  with Cons show ?case by (auto intro!: frame_steps)
qed (simp add: still_basic)

lemma noti_frame [phase_frame]: "still phase (iot_parse_noti_data P payload)" "still phase (iot_noti_sub_cb P payload)"
proof -
  show 1: "still phase (iot_parse_noti_data P payload)"
    unfolding iot_parse_noti_data_def Let_def by (intro frame_steps phase_frame)
  show "still phase (iot_noti_sub_cb P payload)" unfolding iot_noti_sub_cb_def
    by (auto intro!: frame_steps phase_frame 1 split: iot_noti_data.split)
qed

lemma sequence_frame [phase_frame]: "still phase (iot_parse_sequence_num P payload)"
  unfolding iot_parse_sequence_num_def Let_def by (intro frame_steps)

lemma client_callback_frame [phase_frame]: "still phase (registration_client_callback P ev)" "still phase (signin_client_callback P ev)"
  unfolding registration_client_callback_def signin_client_callback_def
  by (cases ev; auto intro!: frame_steps phase_frame)+

lemma deliver_frame [phase_frame]: "still phase (deliver P t evs)"
  by (induction evs) (auto intro!: frame_steps phase_frame split: iot_connect_type.split)

lemma mqtt_call_frame [phase_frame]: "still phase (mqtt_call P t op)"
  unfolding mqtt_call_def by (intro frame_steps phase_frame)

section \<open>Connecting\<close>

lemma disconnect_frame [phase_frame]: "still phase (iot_es_disconnect P t)" "still phase (disconnect_with P t e)"
  unfolding iot_es_disconnect_def iot_es_mqtt_disconnect_def disconnect_with_def
  by (cases t; auto intro!: frame_steps phase_frame)+

text \<open>A clean-up that reboots does not return.\<close>

lemma cleanup_reboots: "iot_cleanup P True w \<noteq> Returns a w'"
proof -
  have "and_then m (and_then k (and_then l (and_then n (and_then (on True reboot) skip)))) w \<noteq> Returns a w'" for m k l n :: "('a dev, unit) prog"
    by (simp add: and_then_def seq_def on_def reboot_def split: run.split)
  then show ?thesis by (simp add: iot_cleanup_def seq_def the_ctx_def gets_def)
qed

lemma cleanup_reboot_frame [phase_frame]: "still phase (iot_cleanup P True)"
  by (simp add: still_def cleanup_reboots)

lemma mqtt_connect_frame [phase_frame]: "still phase (iot_es_mqtt_connect P t)"
  unfolding iot_es_mqtt_connect_def Let_def by (intro frame_steps phase_frame) simp_all

lemma wait_frame [phase_frame]: "still phase (wait_response P t n)"
  by (induction n) (auto intro!: frame_steps phase_frame)

lemma alloc_frame: "still phase k \<Longrightarrow> still phase (alloc_or P a e k)"
  unfolding alloc_or_def by (intro frame_steps)

lemma sign_frame [phase_frame]: "still phase (iot_es_mqtt_registration P)" "still phase (event_topics P)" "still phase (sign_in P)"
  "still phase (sign_up P)"
proof -
  show 1: "still phase (iot_es_mqtt_registration P)" unfolding iot_es_mqtt_registration_def by (intro frame_steps phase_frame)
  show 2: "still phase (event_topics P)" unfolding event_topics_def Let_def by (intro frame_steps phase_frame) simp_all
  show "still phase (sign_in P)" unfolding sign_in_def Let_def by (intro frame_steps phase_frame alloc_frame 2)
  show "still phase (sign_up P)" unfolding sign_up_def Let_def by (intro frame_steps phase_frame 1) simp_all
qed

lemma es_connect_frame [phase_frame]: "still phase (iot_es_connect P t)"
  unfolding iot_es_connect_def connect_communication_def connect_registration_def
  by (cases t; auto intro!: frame_steps phase_frame)

section \<open>Wi-Fi and provisioning\<close>

lemma wifi_frame [phase_frame]: "still phase (iot_wifi_ctrl_request P m)"
proof -
  have 1: "still phase (wifi_result m e)" for m e unfolding wifi_result_def by (intro frame_steps) simp_all
  have 2: "still phase leave_easysetup" unfolding leave_easysetup_def iot_easysetup_deinit_def by (intro frame_steps) simp_all
  have 3: "still phase (wifi_send P m)" for m
    unfolding wifi_send_def iot_easysetup_init_def by (intro frame_steps phase_frame 1) simp_all
  have 4: "still phase (wifi_conf_station wi)" for wi by (simp add: wifi_conf_station_def still_basic)
  show ?thesis unfolding iot_wifi_ctrl_request_def by (cases m) (auto intro!: frame_steps phase_frame 1 2 3 4)
qed

lemma check_prov_frame [phase_frame]: "still phase (check_prov_status P only)"
proof -
  have 1: "still phase (unlikely_with_stored_dip P d)" for d
    unfolding unlikely_with_stored_dip_def by (intro frame_steps phase_frame)
  have 2: "still phase (prepare_self_reged P)"
    unfolding prepare_self_reged_def by (intro frame_steps phase_frame alloc_frame) simp_all
  have 3: "still phase (known_device P t)" for t
    unfolding known_device_def store_device_id_def by (intro frame_steps 1 2) simp_all
  have 4: "still phase start_new" "still phase (erase_device_id P)" "still phase (nv_get_prov P)"
    unfolding start_new_def erase_device_id_def nv_get_prov_def by (intro frame_steps; simp)+
  have 5: "still phase iot_api_prov_data_mem_free" unfolding iot_api_prov_data_mem_free_def by (intro frame_steps)
  show ?thesis unfolding check_prov_status_def prov_next_state_def
    by (intro frame_steps phase_frame 3 4 5)
qed

end
