(* ===== verification/Device_Reach.thy ===== *)
theory Device_Reach
  imports Device_Steps Device_Moves
begin

text \<open>
  The commands and the calls of the application keep the invariant; the worlds the device can reach.
\<close>

section \<open>Commands\<close>

lemma state_later_keeps [dev_keeps]: "keeps (dev_inv K) (state_update_later P s)"
  unfolding state_update_later_def by (intro dev_steps dev_keeps)

lemma network_status_keeps [dev_keeps]: "keeps (dev_inv K) (set_network_status e)"
  unfolding set_network_status_def by (intro dev_steps) (simp add: ctx_ok_def)

lemma need_station_keeps [dev_keeps]: "keeps (dev_inv K) (need_station P)"
  unfolding need_station_def by (intro dev_steps dev_keeps)

lemma drop_client_keeps [dev_keeps]: "port_ok P \<Longrightarrow> keeps (dev_inv K) (drop_client P t)"
  unfolding drop_client_def by (intro dev_steps dev_keeps)

lemma registering_keeps [dev_keeps]:
  assumes "port_ok P"
  shows "keeps (dev_inv any_prov) (command_registering P)"
  unfolding command_registering_def by (intro dev_steps dev_keeps assms) (auto simp: ctx_ok_def)

lemma device_id_string: "length f = 37 \<Longrightarrow> f ! 36 = 0 \<Longrightarrow> c_string f \<noteq> None"
  by (metis c_string_def in_set_conv_nth lessI numeral_eq_Suc pred_numeral_simps(3) option.distinct(1) semiring_norm(26,28) eval_nat_numeral(3))

lemma c_string_short: "c_string f = Some t \<Longrightarrow> length f = 37 \<Longrightarrow> length t \<le> 128"
  using length_takeWhile_le [of "\<lambda>c. c \<noteq> 0" f] by (auto simp: c_string_def split: if_splits)

lemma registered_keeps [dev_keeps]:
  assumes "port_ok P"
  shows "keeps (dev_inv any_prov) (command_registered P)"
  unfolding command_registered_def
  apply (intro keeps_and_then [OF disconnect_keeps [OF assms]] dev_steps dev_keeps assms misc_store_keeps set_dip_keeps
      set_location_keeps nv_keeps)
  apply (use device_id_string c_string_short in \<open>auto simp: ctx_ok_def prov_held_def cloud_held_def reg_ok_def dip_ok_def\<close>)
  done

lemma retry_keeps [dev_keeps]: "keeps (dev_inv K) (retry_connection P e)"
  unfolding retry_connection_def by (intro dev_steps dev_keeps) (auto simp: ctx_ok_def)

lemma connected_keeps [dev_keeps]: "keeps (dev_inv K) (connected P)"
  unfolding connected_def by (intro dev_steps dev_keeps) (auto simp: ctx_ok_def)

lemma connecting_keeps [dev_keeps]: "port_ok P \<Longrightarrow> keeps (dev_inv any_prov) (command_connecting P)"
  unfolding command_connecting_def by (intro dev_steps dev_keeps)

lemma noti_cb_keeps [dev_keeps]: "keeps (dev_inv K) (call_noti_cb d)"
  unfolding call_noti_cb_def by (intro dev_steps dev_keeps)

lemma notification_keeps [dev_keeps]:
  assumes "port_ok P"
  shows "keeps (dev_inv any_prov) (command_notification P d)"
  unfolding command_notification_def by (cases d) (auto intro!: dev_steps dev_keeps assms simp: ctx_ok_def)

lemma main_command_keeps:
  assumes "port_ok P" "cmd_ok cmd"
  shows "keeps (dev_inv any_prov) (do_iot_main_command P cmd)"
  using assms(2) unfolding do_iot_main_command_def cmd_ok_def
  by (auto intro!: dev_steps dev_keeps assms(1) split: iot_command_type.splits option.splits command_param.splits)

lemma work_task_keeps [dev_keeps]:
  assumes "port_ok P"
  shows "keeps (dev_inv any_prov) (work_queue_task P)"
  unfolding work_queue_task_def
proof (rule keeps_gets_seq)
  fix w :: "'a dev" assume I: "dev_inv any_prov w"
  show "wp (case work w of [] \<Rightarrow> skip | cmd # rest \<Rightarrow>
      and_then (modify (\<lambda>w. w\<lparr>work := rest\<rparr>)) (do_iot_main_command P cmd)) (\<lambda>_. dev_inv any_prov) w"
  proof (cases "work w")
    case (Cons cmd rest)
    with I have "cmd_ok cmd" "dev_inv any_prov (w\<lparr>work := rest\<rparr>)" by (simp_all add: dev_inv_def)
    with Cons keepsD [OF main_command_keeps [OF assms]] show ?thesis by simp
  qed (use I in simp)
qed

section \<open>Calls of the application\<close>

lemma set_status_cb_keeps [dev_keeps]: "keeps (dev_inv K) (set_status_cb m)" "keeps (dev_inv K) unset_status_cb"
  unfolding set_status_cb_def unset_status_cb_def by (intro dev_steps; simp add: ctx_ok_def)+

lemma need_easysetup_keeps [dev_keeps]: "keeps (dev_inv K) (need_easysetup P n)"
  unfolding need_easysetup_def by (intro dev_steps dev_keeps)

text \<open>A program that leads from one invariant to another.\<close>

definition leads :: "('w \<Rightarrow> bool) \<Rightarrow> ('w \<Rightarrow> bool) \<Rightarrow> ('w, 'a) prog \<Rightarrow> bool" where
  "leads I J m \<longleftrightarrow> (\<forall>w. I w \<longrightarrow> wp m (\<lambda>_. J) w)"

lemma leadsD: "leads I J m \<Longrightarrow> I w \<Longrightarrow> wp m (\<lambda>_. J) w"
  by (simp add: leads_def)

lemma leads_seq: "leads I J m \<Longrightarrow> (\<And>a. leads J L (f a)) \<Longrightarrow> leads I L (seq m f)"
  unfolding leads_def wp_seq by (blast intro: wp_mono)

lemma leads_and_then: "leads I J m \<Longrightarrow> leads J L k \<Longrightarrow> leads I L (and_then m k)"
  unfolding and_then_def by (rule leads_seq)

lemma leads_if: "(b \<Longrightarrow> leads I J m) \<Longrightarrow> (\<not> b \<Longrightarrow> leads I J k) \<Longrightarrow> leads I J (if b then m else k)"
  by simp

lemma leads_prod: "(\<And>a b. leads I J (f a b)) \<Longrightarrow> leads I J (case x of (a, b) \<Rightarrow> f a b)"
  by (cases x) simp

lemma keeps_leads: "keeps I m \<Longrightarrow> leads I I m"
  by (simp add: keeps_def leads_def)

lemma leads_any: "leads (dev_inv K) (dev_inv any_prov) (ret a)"
  by (simp add: leads_def) (blast intro: dev_inv_any)

lemma check_prov_leads: "leads (dev_inv cleared) (dev_inv any_prov) (check_prov_status P only)"
  by (simp add: leads_def check_prov_wp)

lemma start_leads: "leads (dev_inv cleared) (dev_inv any_prov) (st_conn_start P cb maps pin_num)"
proof -
  let ?a = "dev_inv any_prov" and ?c = "dev_inv cleared"
  have end_ok: "leads ?a ?a (if e \<noteq> IOT_ERROR_NONE
      then seq (the_ctx (\<lambda>c. c)) (\<lambda>c. and_then (block [
        on (status_cb c) unset_status_cb, on (es_res_created c) delete_easysetup_resources_all]) (ret e))
      else ret e)" for e
    by (rule keeps_leads) (intro dev_steps dev_keeps)
  have mid: "leads ?c ?c (block [upd_ctx (\<lambda>c. c\<lparr>add_justworks := False\<rparr>), on cb (set_status_cb maps)])"
    by (rule keeps_leads) (intro dev_steps dev_keeps, simp add: ctx_ok_def)
  show ?thesis unfolding st_conn_start_def locked_def
    by (intro leads_prod leads_if leads_any leads_and_then [OF mid] leads_seq [OF check_prov_leads] end_ok
        leads_seq [OF keeps_leads [OF keeps_ask]] leads_seq [OF keeps_leads [OF keeps_the_ctx]]
        leads_seq [OF keeps_leads [OF need_easysetup_keeps]])
qed

lemma refused_start_keeps:
  assumes "dev_inv any_prov w" "curr_state (ctx w) \<noteq> IOT_STATE_INITIALIZED"
  shows "wp (st_conn_start P cb maps pin_num) (\<lambda>_. dev_inv any_prov) w"
proof -
  obtain same lock n where l: "d_thread_lock P (env (nv w)) = ((same, lock), n)" by (metis prod.exhaust)
  from assms show ?thesis
    by (auto simp: st_conn_start_def locked_def wp_def seq_def ask_def l the_ctx_def gets_def ret_def dev_inv_def)
qed

lemma wp_ifI: "(b \<Longrightarrow> wp m Q w) \<Longrightarrow> (\<not> b \<Longrightarrow> wp k Q w) \<Longrightarrow> wp (if b then m else k) Q w"
  by simp

text \<open>\<open>st_conn_start_ex\<close> cleans up first when the device is running.\<close>

lemma reset_leads:
  assumes "port_ok P" "dev_inv any_prov w" "curr_state (ctx w) = IOT_STATE_INITIALIZED \<Longrightarrow> cleared (prov_data (ctx w))"
  shows "wp (block [on (curr_state (ctx w) \<noteq> IOT_STATE_INITIALIZED) (iot_cleanup P False),
      upd_ctx (\<lambda>c. c\<lparr>curr_state := IOT_STATE_INITIALIZED\<rparr>)]) (\<lambda>_. dev_inv cleared) w"
proof -
  let ?u = "block [upd_ctx (\<lambda>c. c\<lparr>curr_state := IOT_STATE_INITIALIZED\<rparr>)]"
  have k: "keeps (dev_inv cleared) ?u" by (intro dev_steps) (simp add: ctx_ok_def)
  show ?thesis
  proof (cases "curr_state (ctx w) = IOT_STATE_INITIALIZED")
    case True
    with assms(2,3) have "dev_inv cleared w" by (simp add: dev_inv_def ctx_ok_def)
    with True keepsD [OF k] show ?thesis by (simp add: on_def)
  next
    case False
    have "wp (and_then (iot_cleanup P False) ?u) (\<lambda>_. dev_inv cleared) w"
      unfolding wp_and_then by (rule wp_mono [OF cleanup_wp [OF assms(1,2)]]) (rule keepsD [OF k])
    with False show ?thesis by (simp add: on_def)
  qed
qed

lemma connecting_leads:
  "leads (dev_inv cleared) (dev_inv any_prov) (seq (check_prov_status P True) (\<lambda>e.
     if e \<noteq> IOT_ERROR_NONE then ret e
     else seq (the_ctx (\<lambda>c. rd_new_reged (iot_reg_data c))) (\<lambda>b.
       if b then ret IOT_ERROR_BAD_REQ
       else and_then (iot_state_update P IOT_STATE_CLOUD_DISCONNECTED IOT_STATE_OPT_NONE) (ret IOT_ERROR_NONE))))"
  by (rule leads_seq [OF check_prov_leads], rule keeps_leads) (intro dev_steps dev_keeps)

lemma provisioning_leads:
  "leads (dev_inv cleared) (dev_inv any_prov) (seq (need_easysetup P pin_num) (\<lambda>e.
     if e \<noteq> IOT_ERROR_NONE then ret e
     else and_then (upd_reg (\<lambda>r. r\<lparr>rd_new_reged := True\<rparr>))
       (and_then (iot_state_update P IOT_STATE_PROV_ENTER IOT_STATE_OPT_NONE)
       (and_then (upd_ctx (\<lambda>c. c\<lparr>add_justworks := b\<rparr>)) (ret IOT_ERROR_NONE)))))"
proof -
  have "keeps (dev_inv cleared) (seq (need_easysetup P pin_num) (\<lambda>e.
     if e \<noteq> IOT_ERROR_NONE then ret e
     else and_then (upd_reg (\<lambda>r. r\<lparr>rd_new_reged := True\<rparr>))
       (and_then (iot_state_update P IOT_STATE_PROV_ENTER IOT_STATE_OPT_NONE)
       (and_then (upd_ctx (\<lambda>c. c\<lparr>add_justworks := b\<rparr>)) (ret IOT_ERROR_NONE)))))"
    by (intro dev_steps dev_keeps) (auto simp: reg_ok_def ctx_ok_def)
  then show ?thesis unfolding leads_def by (blast dest: keepsD intro: wp_weaken)
qed

lemma start_ex_safe:
  assumes "port_ok P" "dev_inv any_prov w" "curr_state (ctx w) = IOT_STATE_INITIALIZED \<Longrightarrow> cleared (prov_data (ctx w))"
  shows "wp (st_conn_start_ex P pt skip_confirm cb maps pin_num) (\<lambda>_. dev_inv any_prov) w"
proof -
  obtain same lock n where l: "d_thread_lock P (env (nv w)) = ((same, lock), n)" by (metis prod.exhaust)
  let ?w = "w\<lparr>nv := (nv w)\<lparr>env := n\<rparr>\<rparr>"
  have i: "dev_inv any_prov ?w" using assms(2) by (simp add: dev_inv_def)
  have k: "keeps (dev_inv any_prov) (if e \<noteq> IOT_ERROR_NONE then ret e
      else and_then (on cb (set_status_cb maps)) (ret IOT_ERROR_NONE))" for e
    by (intro dev_steps dev_keeps)
  have r: "wp (block [on (curr_state (ctx ?w) \<noteq> IOT_STATE_INITIALIZED) (iot_cleanup P False),
      upd_ctx (\<lambda>c. c\<lparr>curr_state := IOT_STATE_INITIALIZED\<rparr>)]) (\<lambda>_. dev_inv cleared) ?w"
    using reset_leads [OF assms(1) i] assms(3) by simp
  have main: "leads (dev_inv cleared) (dev_inv any_prov) (seq (if pt = IOT_STATUS_CONNECTING
             then seq (check_prov_status P True) (\<lambda>e.
               if e \<noteq> IOT_ERROR_NONE then ret e
               else seq (the_ctx (\<lambda>c. rd_new_reged (iot_reg_data c))) (\<lambda>b.
                 if b then ret IOT_ERROR_BAD_REQ
                 else and_then (iot_state_update P IOT_STATE_CLOUD_DISCONNECTED IOT_STATE_OPT_NONE) (ret IOT_ERROR_NONE)))
             else seq (need_easysetup P pin_num) (\<lambda>e.
               if e \<noteq> IOT_ERROR_NONE then ret e
               else and_then (upd_reg (\<lambda>r. r\<lparr>rd_new_reged := True\<rparr>))
                 (and_then (iot_state_update P IOT_STATE_PROV_ENTER IOT_STATE_OPT_NONE)
                 (and_then (upd_ctx (\<lambda>c. c\<lparr>add_justworks := skip_confirm\<rparr>)) (ret IOT_ERROR_NONE))))) (\<lambda>e.
        if e \<noteq> IOT_ERROR_NONE then ret e else and_then (on cb (set_status_cb maps)) (ret IOT_ERROR_NONE)))"
    by (rule leads_seq [OF leads_if [OF connecting_leads provisioning_leads] keeps_leads [OF k]])
  have go: "wp (and_then (block [on (curr_state (ctx ?w) \<noteq> IOT_STATE_INITIALIZED) (iot_cleanup P False),
      upd_ctx (\<lambda>c. c\<lparr>curr_state := IOT_STATE_INITIALIZED\<rparr>)]) m) (\<lambda>_. dev_inv any_prov) ?w"
    if "leads (dev_inv cleared) (dev_inv any_prov) m" for m :: "('a dev, iot_error) prog"
    unfolding wp_and_then by (rule wp_mono [OF r]) (rule leadsD [OF that])
  have the_ctx_seq: "wp (the_ctx f) Q v = Q (f (ctx v)) v" for f Q and v :: "'a dev" by (simp add: the_ctx_def)
  have a: "wp (ask (d_thread_lock P)) Q w = Q (same, lock) ?w" for Q
    by (simp add: wp_def ask_def l)
  show ?thesis unfolding st_conn_start_ex_def wp_seq a prod.case the_ctx_seq
    by (intro wp_ifI) (simp_all only: wp_ret i go [OF main])
qed

lemma delete_card_keeps: "port_ok P \<Longrightarrow> keeps (dev_inv K) (delete_dev_card_by_usr P)"
  unfolding delete_dev_card_by_usr_def by (intro dev_steps dev_keeps) (auto simp: ctx_ok_def)

lemma conn_cleanup_keeps: "port_ok P \<Longrightarrow> keeps (dev_inv any_prov) (st_conn_cleanup P boot)"
  unfolding st_conn_cleanup_def locked_def by (intro dev_steps dev_keeps delete_card_keeps)

lemma info_keeps: "keeps (dev_inv K) (st_info_status P)" "keeps (dev_inv K) (st_info_provisioned P)"
  unfolding st_info_status_def st_info_provisioned_def by (intro dev_steps nv_keeps)+

lemma change_keeps:
  assumes "port_ok P"
  shows "keeps (dev_inv K) (st_change_device_name P name)" "keeps (dev_inv K) (st_change_health_period P p)"
  unfolding st_change_device_name_def st_change_health_period_def Let_def by (intro dev_steps dev_keeps assms)+

lemma set_noti_keeps: "keeps (dev_inv K) st_conn_set_noti_cb"
  unfolding st_conn_set_noti_cb_def by (intro dev_steps) (simp add: ctx_ok_def)

lemma setup_complete_keeps: "keeps (dev_inv K) (setup_complete P)"
  unfolding setup_complete_def by (intro dev_steps dev_keeps)

lemma wp_frame: "still f m \<Longrightarrow> wp m (\<lambda>_. I) w \<Longrightarrow> wp m (\<lambda>_ w'. I w' \<and> f w' = f w) w"
  by (auto simp: wp_def still_def split: run.splits)

text \<open>Confirmation is safe as long as the state of its name has not been reached.\<close>

lemma confirm_serial_keeps:
  assumes "port_ok P"
  shows "keeps (dev_inv K) (confirm_serial P sn)"
proof -
  have "keeps (dev_inv K) (nv_run (iot_nv_get_serial_number (d_posix P)))"
    by (rule nv_keeps) (use assms in \<open>simp add: port_ok_def\<close>)
  then show ?thesis unfolding confirm_serial_def by (intro dev_steps)
qed

lemma confirm_button_safe:
  fixes w :: "'n dev"
  assumes "dev_inv K w" "curr_state (ctx w) \<noteq> IOT_STATE_PROV_CONFIRM"
  shows "wp (confirm_button P) (\<lambda>_. dev_inv K) w"
proof -
  have late: "wp (iot_state_timeout_change IOT_STATE_PROV_CONFIRM ms) (\<lambda>_. dev_inv K) v"
    if "dev_inv K v" "phase v = phase w" for ms and v :: "'n dev"
    using that assms(2) by (simp add: iot_state_timeout_change_def the_ctx_def phase_def)
  obtain ok n where a: "d_confirmed P (env (nv w)) = (ok, n)" by fastforce
  let ?w = "w\<lparr>nv := (nv w)\<lparr>env := n\<rparr>\<rparr>"
  have i: "dev_inv K ?w" "phase ?w = phase w" using assms(1) by (simp_all add: dev_inv_def phase_def)
  have deny: "wp (and_then (iot_set_st_ecode P IOT_ST_ECODE_EE01)
      (and_then (iot_state_timeout_change IOT_STATE_PROV_CONFIRM ES_CONFIRM_FAIL_TIMEOUT) (ret e))) (\<lambda>_. dev_inv K) ?w" for e :: iot_error
    unfolding wp_and_then using wp_frame [OF ecode_frame(1) keepsD [OF set_st_ecode_keeps i(1)]]
    by (rule wp_mono) (use late i(2) in \<open>auto simp: wp_ret [abs_def]\<close>)
  then show ?thesis unfolding confirm_button_def wp_seq
    using i by (simp add: wp_def [of "ask (d_confirmed P)"] ask_def a del: wp_and_then)
qed

lemma confirm_safe:
  fixes w :: "'n dev"
  assumes "port_ok P" "dev_inv K w" "confirm_feature = OVF_BIT_BUTTON \<Longrightarrow> curr_state (ctx w) \<noteq> IOT_STATE_PROV_CONFIRM"
  shows "wp (es_confirm_check_manager P confirm_feature sn) (\<lambda>_. dev_inv K) w"
proof -
  let ?w = "w\<lparr>ctx := (ctx w)\<lparr>curr_otm_feature := confirm_feature\<rparr>\<rparr>"
  have i: "dev_inv K ?w" using assms(2) by (simp add: dev_inv_def ctx_ok_def)
  show ?thesis unfolding es_confirm_check_manager_def wp_and_then upd_ctx_def wp_modify wp_seq
    using wp_frame [OF state_update_frame keepsD [OF state_update_keeps i]]
    by (rule wp_mono) (use assms(3) confirm_button_safe [of K _ P] keepsD [OF confirm_serial_keeps [OF assms(1)]]
      in \<open>auto simp: phase_def\<close>)
qed

section \<open>The device\<close>

text \<open>
  What happens to a device: a round of the work task, an expired timer, an event of one of the two MQTT
  clients, a call of the application, or the onboarding server handing over settings.
\<close>

datatype action =
  Work_task | State_timer | Retry_timer | Rate_limit_timer
| Client_event iot_connect_type mqtt_event
| Start bool u32 bool | Start_ex u32 bool bool u32 bool | Cleanup bool | Set_noti_cb
| Get_status | Get_provisioned | Change_name "u8 list" | Change_period int
| Onboarding iot_device_prov_data "u8 list" | Confirm int "u8 list option" | Setup_complete

definition perform :: "('n, 'j) device \<Rightarrow> action \<Rightarrow> ('n dev, unit) prog" where
  "perform P a = (case a of
     Work_task \<Rightarrow> work_queue_task P
   | State_timer \<Rightarrow> iot_state_timeout_cb P
   | Retry_timer \<Rightarrow> next_connection_retry_timeout P
   | Rate_limit_timer \<Rightarrow> iot_noti_rate_limit_cb
   | Client_event t e \<Rightarrow> deliver P t [e]
   | Start cb maps n \<Rightarrow> and_then (st_conn_start P cb maps n) skip
   | Start_ex pt sk cb maps n \<Rightarrow> and_then (st_conn_start_ex P pt sk cb maps n) skip
   | Cleanup boot \<Rightarrow> and_then (st_conn_cleanup P boot) skip
   | Set_noti_cb \<Rightarrow> st_conn_set_noti_cb
   | Get_status \<Rightarrow> and_then (st_info_status P) skip
   | Get_provisioned \<Rightarrow> and_then (st_info_provisioned P) skip
   | Change_name name \<Rightarrow> and_then (st_change_device_name P name) skip
   | Change_period p \<Rightarrow> and_then (st_change_health_period P p) skip
   | Onboarding p l \<Rightarrow> upd_ctx (\<lambda>c. c\<lparr>prov_data := p, lookup_id := Live l\<rparr>)
   | Confirm f sn \<Rightarrow> and_then (es_confirm_check_manager P f sn) skip
   | Setup_complete \<Rightarrow> and_then (setup_complete P) skip)"

text \<open>
  The application starts a device only while it holds no settings of an earlier start, or restarts a running
  one with \<open>st_conn_start_ex\<close>; onboarding hands over settings whose strings end in their fields and whose
  pointers are good, and waits for the button only before the device has gone to the state of confirmation.
\<close>

definition may :: "action \<Rightarrow> 'n dev \<Rightarrow> bool" where
  "may a w \<longleftrightarrow> (case a of
     Start _ _ _ \<Rightarrow> curr_state (ctx w) = IOT_STATE_INITIALIZED \<longrightarrow> cleared (prov_data (ctx w))
   | Start_ex _ _ _ _ _ \<Rightarrow> curr_state (ctx w) = IOT_STATE_INITIALIZED \<longrightarrow> cleared (prov_data (ctx w))
   | State_timer \<Rightarrow> state_timer (ctx w) \<noteq> None
   | Retry_timer \<Rightarrow> next_connection_retry_timer (ctx w)
   | Rate_limit_timer \<Rightarrow> rate_limit_timeout (ctx w)
   | Onboarding p _ \<Rightarrow> prov_held p
   | Confirm f _ \<Rightarrow> f = OVF_BIT_BUTTON \<longrightarrow> curr_state (ctx w) \<noteq> IOT_STATE_PROV_CONFIRM
   | _ \<Rightarrow> True)"

lemma perform_safe:
  assumes "port_ok P" "dev_inv any_prov w" "may a w"
  shows "wp (perform P a) (\<lambda>_. dev_inv any_prov) w"
proof -
  have k: "keeps (dev_inv any_prov) m \<Longrightarrow> wp m (\<lambda>_. dev_inv any_prov) w" for m :: "('a dev, unit) prog"
    using keepsD [of "dev_inv any_prov" m w] assms(2) by simp
  have kr: "keeps (dev_inv any_prov) m \<Longrightarrow> wp (and_then m skip) (\<lambda>_. dev_inv any_prov) w" for m :: "('a dev, 'c) prog"
    by (rule k) (intro keeps_rules)
  show ?thesis
  proof (cases a)
    case (Start cb maps n)
    have "dev_inv cleared w" if "curr_state (ctx w) = IOT_STATE_INITIALIZED"
      using assms(2,3) that by (simp add: Start may_def dev_inv_def ctx_ok_def)
    then show ?thesis using Start leadsD [OF start_leads] refused_start_keeps [OF assms(2)]
      by (cases "curr_state (ctx w) = IOT_STATE_INITIALIZED") (simp_all add: perform_def wp_skip [abs_def])
  next
    case (Start_ex pt sk cb maps n)
    with start_ex_safe [OF assms(1,2)] assms(3) show ?thesis by (simp add: perform_def may_def wp_skip [abs_def])
  next
    case (Onboarding p l)
    with assms(2,3) show ?thesis by (simp add: perform_def may_def upd_ctx_def dev_inv_def ctx_ok_def)
  next
    case (Confirm f sn)
    with confirm_safe [OF assms(1,2)] assms(3) show ?thesis by (simp add: perform_def may_def wp_skip [abs_def])
  qed (use kr [OF setup_complete_keeps] k [OF work_task_keeps [OF assms(1)]] k [OF timeout_keeps] k [OF retry_timeout_keeps] k [OF rate_limit_keeps]
      k [OF deliver_keeps [OF assms(1)]] kr [OF conn_cleanup_keeps [OF assms(1)]] k [OF set_noti_keeps]
      kr [OF info_keeps(1)] kr [OF info_keeps(2)] kr [OF change_keeps(1) [OF assms(1)]] kr [OF change_keeps(2) [OF assms(1)]]
      in \<open>simp_all add: perform_def del: deliver.simps\<close>)
qed

text \<open>A device that was just switched on: an empty context and what is in the storage.\<close>

definition fresh :: "'n dev \<Rightarrow> bool" where
  "fresh w \<longleftrightarrow> (\<exists>ovt mn dip. ctx w = init_ctx ovt (Some mn) dip \<and> dip_ok dip) \<and> work w = [] \<and> nv_sized (nv w)"

inductive dev_reachable :: "('n, 'j) device \<Rightarrow> 'n dev \<Rightarrow> bool" for P where
  power_on: "fresh w \<Longrightarrow> dev_reachable P w"
| action: "dev_reachable P w \<Longrightarrow> may a w \<Longrightarrow> perform P a w = Returns () w' \<Longrightarrow> dev_reachable P w'"

lemma fresh_inv: "fresh w \<Longrightarrow> dev_inv any_prov w"
  by (auto simp: fresh_def dev_inv_def ctx_ok_def init_ctx_def reg_ok_def dip_ok_def)

lemma reachable_inv: "dev_reachable P w \<Longrightarrow> port_ok P \<Longrightarrow> dev_inv any_prov w"
proof (induction rule: dev_reachable.induct)
  case (action w a w')
  then have "wp (perform P a) (\<lambda>_. dev_inv any_prov) w" by (intro perform_safe) simp_all
  with action.hyps(3) show ?case by (rule wp_Returns [of "perform P a" w "()" w' "\<lambda>_. dev_inv any_prov"])
qed (rule fresh_inv)

end
