(* ===== verification/Device_Phases.thy ===== *)
theory Device_Phases
  imports Device_Reach
begin

text \<open>
  The state machine of the device as a graph, and that the device moves along its edges only. The state of
  confirmation has no timer.
\<close>

section \<open>The graph\<close>

fun next_states :: "iot_state \<Rightarrow> iot_state list" where
  "next_states IOT_STATE_INITIALIZED = [IOT_STATE_PROV_ENTER, IOT_STATE_PROV_DONE, IOT_STATE_CLOUD_DISCONNECTED]"
| "next_states IOT_STATE_PROV_ENTER = [IOT_STATE_PROV_CONFIRM, IOT_STATE_PROV_SLEEP]"
| "next_states IOT_STATE_PROV_CONFIRM = [IOT_STATE_PROV_DONE]"
| "next_states IOT_STATE_PROV_DONE = [IOT_STATE_CLOUD_DISCONNECTED, IOT_STATE_PROV_ENTER, IOT_STATE_PROV_CONFIRM]"
| "next_states IOT_STATE_CLOUD_DISCONNECTED = [IOT_STATE_CLOUD_CONNECTED, IOT_STATE_PROV_CONFIRM]"
| "next_states IOT_STATE_CLOUD_CONNECTED = [IOT_STATE_CLOUD_DISCONNECTED]"
| "next_states IOT_STATE_PROV_SLEEP = []"

fun state_ms :: "iot_state \<Rightarrow> nat" where
  "state_ms IOT_STATE_PROV_ENTER = EASYSETUP_TIMEOUT_MS"
| "state_ms IOT_STATE_PROV_DONE = REGISTRATION_TIMEOUT_MS"
| "state_ms _ = 0"

lemma ret_Returns: "ret a w = Returns b w' \<longleftrightarrow> a = b \<and> w = w'"
  by (simp add: ret_def)

lemmas returns = seq_Returns and_then_Returns ret_Returns

section \<open>A state update\<close>

lemma enter_prov_frame [phase_frame]: "still phase (enter_prov P)"
  unfolding enter_prov_def by (intro frame_steps phase_frame)

lemma preference_frame [phase_frame]: "still phase (get_device_preference P)"
  unfolding get_device_preference_def by (intro frame_steps phase_frame)

lemma leave_state_frame [phase_frame]: "still phase (leave_state P old new)"
  unfolding leave_state_def Let_def by (cases old) (auto intro!: frame_steps phase_frame)

lemma leave_state_edge: "leave_state P old new w = Returns (Inr (e, ms)) w' \<Longrightarrow> new \<in> set (next_states old) \<and> ms = state_ms new"
  by (cases old; cases new) (auto simp: leave_state_def Let_def returns split: if_splits)

lemma report_frame [phase_frame]: "still phase (report_state new)"
  unfolding report_state_def Let_def by (rule still_seq [OF still_the_ctx]) (auto intro!: frame_steps phase_frame split: iot_state.split)

text \<open>Either the request is refused and nothing changes, or the device takes an edge and its timer is the one of the new state.\<close>

lemma state_updating_cases:
  assumes "do_state_updating P new w = Returns e w'"
  shows "phase w' = phase w \<or> (new \<in> set (next_states (curr_state (ctx w))) \<and> curr_state (ctx w') = new \<and>
    state_timer (ctx w') \<in> (if state_ms new = 0 then {None} else {None, Some (state_ms new)}))"
proof -
  obtain r w1 where r: "leave_state P (curr_state (ctx w)) new w = Returns r w1"
    and k: "(case r of Inl e \<Rightarrow> ret e
      | Inr (e, ms) \<Rightarrow> and_then (set_state_timer P ms) (and_then (upd_ctx (\<lambda>c. c\<lparr>curr_state := new\<rparr>))
          (seq (report_state new) (\<lambda>r. ret (case r of None \<Rightarrow> e | Some e' \<Rightarrow> e'))))) w1 = Returns e w'"
    using assms by (auto simp: do_state_updating_def the_ctx_def seq_Returns gets_def)
  note same = stillD [OF leave_state_frame r]
  show ?thesis
  proof (cases r)
    case (Inl e)
    with k same show ?thesis by (simp add: ret_Returns)
  next
    case (Inr x)
    then obtain e1 ms where x: "r = Inr (e1, ms)" by (cases x) auto
    obtain w2 a r3 where t: "set_state_timer P ms w1 = Returns a w2"
      and w3: "report_state new (w2\<lparr>ctx := (ctx w2)\<lparr>curr_state := new\<rparr>\<rparr>) = Returns r3 w'"
      using k by (auto simp: x returns upd_ctx_def modify_def)
    have "state_timer (ctx w2) \<in> (if ms = 0 then {None} else {None, Some ms})"
      using t by (auto simp: set_state_timer_def upd_ctx_def modify_def returns split: if_splits)
    with stillD [OF report_frame w3] leave_state_edge [OF r [unfolded x]] show ?thesis
      by (auto simp: phase_def split: if_splits)
  qed
qed

section \<open>Commands and calls\<close>

lemma command_frames [phase_frame]:
  "still phase (command_registering P)" "still phase (command_registered P)" "still phase (command_connecting P)"
  "still phase (command_notification P d)"
proof -
  have 1: "still phase (state_update_later P s)" "still phase (set_network_status e)" "still phase (need_station P)"
    "still phase (drop_client P t)" "still phase iot_easysetup_deinit" for s e t
    unfolding state_update_later_def set_network_status_def need_station_def drop_client_def iot_easysetup_deinit_def
    by (intro frame_steps phase_frame; simp)+
  show "still phase (command_registering P)" unfolding command_registering_def by (intro frame_steps phase_frame 1) simp_all
  show "still phase (command_registered P)" unfolding command_registered_def by (intro frame_steps phase_frame 1)
  have 2: "still phase (retry_connection P e)" "still phase (connected P)" for e
    unfolding retry_connection_def connected_def by (intro frame_steps phase_frame 1; simp)+
  show "still phase (command_connecting P)" unfolding command_connecting_def by (intro frame_steps phase_frame 1 2)
  show "still phase (command_notification P d)" unfolding command_notification_def call_noti_cb_def
    by (cases d) (auto intro!: frame_steps phase_frame)
qed

lemma main_command_cases:
  assumes "do_iot_main_command P cmd w = Returns r w'"
  shows "phase w' = phase w \<or> (\<exists>s opt. cmd_type cmd = IOT_COMMAND_STATE_UPDATE \<and> param cmd = Some (State_data s opt)
    \<and> s \<in> set (next_states (curr_state (ctx w))) \<and> curr_state (ctx w') = s
    \<and> state_timer (ctx w') \<in> (if state_ms s = 0 then {None} else {None, Some (state_ms s)}))"
proof (cases "cmd_type cmd")
  case IOT_COMMAND_STATE_UPDATE
  with assms obtain s opt e where p: "param cmd = Some (State_data s opt)" "do_state_updating P s w = Returns e w'"
    by (auto simp: do_iot_main_command_def returns skip_def undef_def split: option.splits command_param.splits)
  from state_updating_cases [OF this(2)] p IOT_COMMAND_STATE_UPDATE show ?thesis by auto
next
  case IOT_COMMAND_NOTIFICATION_RECEIVED
  with assms stillD [OF command_frames(4)] show ?thesis
    by (auto simp: do_iot_main_command_def skip_def ret_def undef_def split: option.splits command_param.splits)
qed (use assms stillD [OF command_frames(1)] stillD [OF command_frames(2)] stillD [OF command_frames(3)]
     in \<open>auto simp: do_iot_main_command_def\<close>)

lemma work_task_cases:
  assumes "work_queue_task P w = Returns r w'"
  shows "phase w' = phase w \<or> (\<exists>cmd rest s opt. work w = cmd # rest \<and> cmd_type cmd = IOT_COMMAND_STATE_UPDATE
    \<and> param cmd = Some (State_data s opt) \<and> s \<in> set (next_states (curr_state (ctx w))) \<and> curr_state (ctx w') = s
    \<and> state_timer (ctx w') \<in> (if state_ms s = 0 then {None} else {None, Some (state_ms s)}))"
proof (cases "work w")
  case Nil
  with assms show ?thesis by (simp add: work_queue_task_def seq_def gets_def skip_def ret_def)
next
  case (Cons cmd rest)
  with assms have "do_iot_main_command P cmd (w\<lparr>work := rest\<rparr>) = Returns r w'"
    by (simp add: work_queue_task_def seq_def gets_def and_then_def modify_def)
  from main_command_cases [OF this] Cons show ?thesis by (auto simp: phase_def)
qed

lemma easysetup_frame [phase_frame]: "still phase (need_easysetup P n)" "still phase (set_status_cb m)" "still phase unset_status_cb"
  "still phase delete_easysetup_resources_all"
  unfolding need_easysetup_def create_easysetup_resources_def delete_easysetup_resources_all_def set_status_cb_def unset_status_cb_def Let_def
  by (intro frame_steps phase_frame; simp)+

lemma call_frames [phase_frame]:
  "still phase (st_conn_start P cb maps n)" "still phase (delete_dev_card_by_usr P)" "still phase st_conn_set_noti_cb"
  "still phase (st_info_status P)" "still phase (st_info_provisioned P)" "still phase (st_change_device_name P name)"
  "still phase (st_change_health_period P p)" "still phase (setup_complete P)"
  unfolding st_conn_start_def delete_dev_card_by_usr_def st_conn_set_noti_cb_def st_info_status_def st_info_provisioned_def
    st_change_device_name_def st_change_health_period_def setup_complete_def locked_def Let_def
  by (intro frame_steps phase_frame; simp)+

lemma cleanup_state: "iot_cleanup P False w = Returns r w' \<Longrightarrow> curr_state (ctx w') = IOT_STATE_INITIALIZED"
  by (auto simp: iot_cleanup_def returns on_def upd_ctx_def modify_def skip_def)

lemma conn_cleanup_cases:
  assumes "st_conn_cleanup P boot w = Returns r w'"
  shows "phase w' = phase w \<or> curr_state (ctx w') = IOT_STATE_INITIALIZED"
proof -
  obtain x w1 where x: "ask (d_thread_lock P) w = Returns x w1"
    and k: "(case x of (same, lock) \<Rightarrow> if same then ret IOT_ERROR_BAD_REQ else if \<not> lock then ret IOT_ERROR_BAD_REQ
      else seq (delete_dev_card_by_usr P) (\<lambda>e. and_then (iot_cleanup P boot) (ret e))) w1 = Returns r w'"
    using assms by (auto simp: st_conn_cleanup_def locked_def seq_Returns)
  note same = stillD [OF still_ask x]
  show ?thesis using k same cleanup_state cleanup_reboots by (cases boot) (fastforce simp: returns split: prod.splits if_splits)+
qed

lemma reset_state:
  assumes "and_then (block [b, upd_ctx (\<lambda>c. c\<lparr>curr_state := IOT_STATE_INITIALIZED\<rparr>)]) m w = Returns r w'" "still phase m"
  shows "curr_state (ctx w') = IOT_STATE_INITIALIZED"
proof -
  obtain w1 where "m (w1\<lparr>ctx := (ctx w1)\<lparr>curr_state := IOT_STATE_INITIALIZED\<rparr>\<rparr>) = Returns r w'"
    using assms(1) by (auto simp: and_then_Returns upd_ctx_def modify_def skip_def ret_Returns)
  from stillD [OF assms(2) this] show ?thesis by (simp add: phase_def)
qed

lemma start_ex_cases:
  assumes "st_conn_start_ex P pt sk cb maps n w = Returns r w'"
  shows "phase w' = phase w \<or> curr_state (ctx w') = IOT_STATE_INITIALIZED"
proof -
  let ?body = "seq (if pt = IOT_STATUS_CONNECTING
             then seq (check_prov_status P True) (\<lambda>e.
               if e \<noteq> IOT_ERROR_NONE then ret e
               else seq (the_ctx (\<lambda>c. rd_new_reged (iot_reg_data c))) (\<lambda>b.
                 if b then ret IOT_ERROR_BAD_REQ
                 else and_then (iot_state_update P IOT_STATE_CLOUD_DISCONNECTED IOT_STATE_OPT_NONE) (ret IOT_ERROR_NONE)))
             else seq (need_easysetup P n) (\<lambda>e.
               if e \<noteq> IOT_ERROR_NONE then ret e
               else and_then (upd_reg (\<lambda>r. r\<lparr>rd_new_reged := True\<rparr>))
                 (and_then (iot_state_update P IOT_STATE_PROV_ENTER IOT_STATE_OPT_NONE)
                 (and_then (upd_ctx (\<lambda>c. c\<lparr>add_justworks := sk\<rparr>)) (ret IOT_ERROR_NONE))))) (\<lambda>e.
        if e \<noteq> IOT_ERROR_NONE then ret e else and_then (on cb (set_status_cb maps)) (ret IOT_ERROR_NONE))"
  have f: "still phase ?body" by (intro frame_steps phase_frame) simp_all
  obtain same lock w1 where x: "ask (d_thread_lock P) w = Returns (same, lock) w1"
    using assms by (auto simp: st_conn_start_ex_def seq_Returns)
  have at: "seq (ask (d_thread_lock P)) F w = F (same, lock) w1" for F :: "bool \<times> bool \<Rightarrow> ('a dev, iot_error) prog"
    by (simp add: seq_def x)
  have c: "seq (the_ctx (\<lambda>c. c)) F v = F (ctx v) v" for F :: "iot_context \<Rightarrow> ('a dev, iot_error) prog" and v
    by (simp add: seq_def the_ctx_def gets_def)
  note k = assms [unfolded st_conn_start_ex_def at prod.case c]
  show ?thesis using stillD [OF still_ask x] reset_state [OF _ f] k
    by (simp only: ret_Returns split: if_splits) metis+
qed

lemma timeout_change_cases:
  "iot_state_timeout_change s ms w = Returns r w' \<Longrightarrow>
     phase w' = phase w \<or> curr_state (ctx w') = curr_state (ctx w) \<and> state_timer (ctx w) \<noteq> None"
  by (auto simp: iot_state_timeout_change_def the_ctx_def gets_def seq_def and_then_def upd_ctx_def modify_def ret_def undef_def
      phase_def split: if_splits)

lemma confirm_cases:
  assumes "es_confirm_check_manager P f sn w = Returns r w'"
  shows "phase w' = phase w \<or> curr_state (ctx w') = curr_state (ctx w) \<and> state_timer (ctx w) \<noteq> None"
proof -
  have serial: "still phase (confirm_serial P sn)" unfolding confirm_serial_def by (intro frame_steps)
  have button: "phase w' = phase w \<or> curr_state (ctx w') = curr_state (ctx w) \<and> state_timer (ctx w) \<noteq> None"
    if b: "confirm_button P w = Returns r w'" for w
  proof -
    obtain ok w1 where a: "ask (d_confirmed P) w = Returns ok w1"
      and k: "(if ok then ret IOT_ERROR_NONE else and_then (iot_set_st_ecode P IOT_ST_ECODE_EE01)
        (and_then (iot_state_timeout_change IOT_STATE_PROV_CONFIRM ES_CONFIRM_FAIL_TIMEOUT)
        (ret IOT_ERROR_EASYSETUP_CONFIRM_DENIED))) w1 = Returns r w'"
      using b by (auto simp: confirm_button_def seq_Returns)
    show ?thesis using k stillD [OF still_ask a]
      by (auto simp: returns phase_def split: if_splits dest!: timeout_change_cases stillD [OF ecode_frame(1)])
  qed
  obtain w1 where w1: "phase w1 = phase w"
    "phase w' = phase w1 \<or> confirm_serial P sn w1 = Returns r w' \<or> confirm_button P w1 = Returns r w'"
    using assms
    by (auto simp: es_confirm_check_manager_def returns upd_ctx_def modify_def phase_def split: if_splits
        dest!: stillD [OF state_update_frame])
  then show ?thesis using stillD [OF serial] button [of w1] by (auto simp: phase_def)
qed

section \<open>The device\<close>

text \<open>What an action can do to the state and its timer.\<close>

lemma action_cases:
  assumes "perform P a w = Returns () w'"
  shows "phase w' = phase w
    \<or> ((\<exists>boot. a = Cleanup boot) \<or> (\<exists>pt sk cb maps n. a = Start_ex pt sk cb maps n)) \<and> curr_state (ctx w') = IOT_STATE_INITIALIZED
    \<or> curr_state (ctx w') = curr_state (ctx w) \<and> state_timer (ctx w) \<noteq> None
    \<or> a = Work_task \<and> (\<exists>cmd rest s opt. work w = cmd # rest \<and> cmd_type cmd = IOT_COMMAND_STATE_UPDATE
        \<and> param cmd = Some (State_data s opt) \<and> s \<in> set (next_states (curr_state (ctx w))) \<and> curr_state (ctx w') = s
        \<and> state_timer (ctx w') \<in> (if state_ms s = 0 then {None} else {None, Some (state_ms s)}))"
proof -
  have k: "still phase m \<Longrightarrow> m w = Returns () w' \<Longrightarrow> phase w' = phase w" for m by (rule stillD)
  have kr: "\<exists>b. m w = Returns b w'" if "and_then m skip w = Returns () w'" for m :: "('a dev, 'c) prog"
    using that by (auto simp: returns skip_def)
  have up: "still phase (upd_ctx (\<lambda>c. c\<lparr>prov_data := p, lookup_id := Live l\<rparr>))" for p l by (intro frame_steps) simp_all
  show ?thesis
  proof (cases a)
    case Work_task
    with assms work_task_cases [of P w "()" w'] show ?thesis by (auto simp: perform_def)
  next
    case (Start_ex pt sk cb maps n)
    with assms kr start_ex_cases [of P pt sk cb maps n w _ w'] show ?thesis by (fastforce simp: perform_def)
  next
    case (Cleanup boot)
    with assms kr conn_cleanup_cases [of P boot w _ w'] show ?thesis by (fastforce simp: perform_def)
  next
    case (Confirm f sn)
    with assms kr confirm_cases [of P f sn w _ w'] show ?thesis by (fastforce simp: perform_def)
  qed (use assms in \<open>auto simp: perform_def simp del: deliver.simps dest!: k [OF timer_frames(1)] k [OF timer_frames(2)]
      k [OF timer_frames(3)] k [OF deliver_frame] kr k [OF call_frames(3)] k [OF up] dest: stillD [OF call_frames(1)]
      stillD [OF call_frames(4)] stillD [OF call_frames(5)] stillD [OF call_frames(6)] stillD [OF call_frames(7)]
      stillD [OF call_frames(8)]\<close>)
qed

lemma confirm_untimed:
  "dev_reachable P w \<Longrightarrow> curr_state (ctx w) = IOT_STATE_PROV_CONFIRM \<Longrightarrow> state_timer (ctx w) = None"
proof (induction rule: dev_reachable.induct)
  case (power_on w)
  then show ?case by (auto simp: fresh_def init_ctx_def)
next
  case (action w a w')
  from action_cases [OF action.hyps(3)] action.IH action.prems show ?case by (auto simp: phase_def split: if_splits)
qed

lemma timeout_change_untimed:
  "curr_state (ctx w) = IOT_STATE_PROV_CONFIRM \<Longrightarrow> state_timer (ctx w) = None
     \<Longrightarrow> iot_state_timeout_change IOT_STATE_PROV_CONFIRM ES_CONFIRM_FAIL_TIMEOUT w = Undefined"
  by (simp add: iot_state_timeout_change_def the_ctx_def gets_def seq_def undef_def)

lemma never_denied:
  assumes "curr_state (ctx w) = IOT_STATE_PROV_CONFIRM" "state_timer (ctx w) = None"
  shows "es_confirm_check_manager P OVF_BIT_BUTTON sn w \<noteq> Returns IOT_ERROR_EASYSETUP_CONFIRM_DENIED w'"
proof
  assume "es_confirm_check_manager P OVF_BIT_BUTTON sn w = Returns IOT_ERROR_EASYSETUP_CONFIRM_DENIED w'"
  then obtain e w1 where u: "iot_state_update P IOT_STATE_PROV_CONFIRM IOT_STATE_OPT_NEED_INTERACT
      (w\<lparr>ctx := (ctx w)\<lparr>curr_otm_feature := OVF_BIT_BUTTON\<rparr>\<rparr>) = Returns e w1"
    and b: "confirm_button P w1 = Returns IOT_ERROR_EASYSETUP_CONFIRM_DENIED w'"
    by (auto simp: es_confirm_check_manager_def returns upd_ctx_def modify_def split: if_splits)
  obtain ok w2 where a: "ask (d_confirmed P) w1 = Returns ok w2"
    and k: "(if ok then ret IOT_ERROR_NONE else and_then (iot_set_st_ecode P IOT_ST_ECODE_EE01)
      (and_then (iot_state_timeout_change IOT_STATE_PROV_CONFIRM ES_CONFIRM_FAIL_TIMEOUT)
      (ret IOT_ERROR_EASYSETUP_CONFIRM_DENIED))) w2 = Returns IOT_ERROR_EASYSETUP_CONFIRM_DENIED w'"
    using b by (auto simp: confirm_button_def seq_Returns)
  obtain r w3 x where s: "iot_set_st_ecode P IOT_ST_ECODE_EE01 w2 = Returns r w3"
    "iot_state_timeout_change IOT_STATE_PROV_CONFIRM ES_CONFIRM_FAIL_TIMEOUT w3 = Returns x w'"
    using k by (auto simp: returns split: if_splits)
  have "phase w3 = phase w"
    using stillD [OF state_update_frame u] stillD [OF still_ask a] stillD [OF ecode_frame(1) s(1)] by (simp add: phase_def)
  with assms timeout_change_untimed [of w3] s(2) show False by (simp add: phase_def)
qed

end
