(* ===== verification/Device_Faults.thy ===== *)
theory Device_Faults
  imports Device_Phases
begin

text \<open>
  Runs of the device core that go wrong: the work queue that fills while registration is not possible, a
  connection that is reported without a client, and settings that are freed twice.
\<close>

section \<open>Registration that cannot succeed\<close>

definition memory_holds :: "('n, 'j) device \<Rightarrow> bool" where
  "memory_holds P \<longleftrightarrow> (\<forall>a n. fst (d_malloc P a n)) \<and> (\<forall>n. fst (d_queue_send P n) = IOT_ERROR_NONE)"

text \<open>The server limits the rate of connections, Wi-Fi is there, and no one has asked to stop.\<close>

definition limited :: "iot_context \<Rightarrow> bool" where
  "limited c \<longleftrightarrow> rate_limit c \<and> is_wifi_station c \<and> \<not> cloud_con_timer c \<and> \<not> reg_mqttcli c \<and> \<not> request_disconnect c"

definition registering :: iot_command where
  "registering = \<lparr>cmd_type = IOT_COMMAND_CLOUD_REGISTERING, param = None\<rparr>"

fun rounds :: "('n, 'j) device \<Rightarrow> nat \<Rightarrow> ('n dev, unit) prog" where
  "rounds P 0 = skip"
| "rounds P (Suc n) = and_then (work_queue_task P) (rounds P n)"

lemma post_registering:
  assumes "memory_holds P"
  shows "\<exists>n. post P IOT_COMMAND_CLOUD_REGISTERING None w = Returns () (w\<lparr>nv := (nv w)\<lparr>env := n\<rparr>, work := work w @ [registering]\<rparr>)"
proof -
  obtain a n where 1: "d_malloc P Mem_command (env (nv w)) = (a, n)" by fastforce
  obtain e m where 2: "d_queue_send P n = (e, m)" by fastforce
  from assms 1 2 have "a" "e = IOT_ERROR_NONE" unfolding memory_holds_def by (metis fst_conv)+
  with 1 2 show ?thesis
    by (auto simp: post_def iot_command_send_def iot_put_device_work_def seq_def and_then_def ask_def ret_def modify_def skip_def
        registering_def)
qed

lemma registering_limited:
  assumes "memory_holds P" "limited (ctx w)"
  shows "\<exists>w'. command_registering P w = Returns () w' \<and> work w' = work w @ [registering, registering] \<and> limited (ctx w')"
proof -
  let ?c = "(ctx w)\<lparr>d2d_event_request := True, registered_msg_requested := False, es_network_status := IOT_ERROR_CONN_STA_NO_INTERNET\<rparr>"
  let ?w = "w\<lparr>ctx := ?c\<rparr>"
  obtain n where 1: "post P IOT_COMMAND_CLOUD_REGISTERING None ?w = Returns () (?w\<lparr>nv := (nv ?w)\<lparr>env := n\<rparr>, work := work ?w @ [registering]\<rparr>)"
    using post_registering [OF assms(1)] by blast
  let ?v = "?w\<lparr>nv := (nv ?w)\<lparr>env := n\<rparr>, work := work ?w @ [registering]\<rparr>"
  obtain m where 2: "post P IOT_COMMAND_CLOUD_REGISTERING None ?v = Returns () (?v\<lparr>nv := (nv ?v)\<lparr>env := m\<rparr>, work := work ?v @ [registering]\<rparr>)"
    using post_registering [OF assms(1)] by blast
  have "limited ?c" using assms(2) by (simp add: limited_def)
  with assms(2) 1 2 show ?thesis
    by (simp add: limited_def command_registering_def con_timeout_check_def need_station_def drop_client_def iot_es_connect_def
        set_network_status_def seq_def and_then_def the_ctx_def gets_def ret_def upd_ctx_def modify_def skip_def on_def)
qed

lemma handle_registering: "do_iot_main_command P registering = command_registering P"
  by (simp add: do_iot_main_command_def registering_def)

lemma replicate_shift: "replicate k x @ [x, x] = replicate (Suc (Suc k)) x"
  by (induction k) simp_all

lemma queue_fills:
  assumes "memory_holds P"
  shows "limited (ctx w) \<Longrightarrow> work w = replicate (Suc k) registering
    \<Longrightarrow> \<exists>w'. rounds P n w = Returns () w' \<and> work w' = replicate (Suc k + n) registering \<and> limited (ctx w')"
proof (induction n arbitrary: w k)
  case 0
  then show ?case by (simp add: skip_def ret_def)
next
  case (Suc n)
  let ?v = "w\<lparr>work := replicate k registering\<rparr>"
  obtain w1 where "command_registering P ?v = Returns () w1" "work w1 = work ?v @ [registering, registering]" "limited (ctx w1)"
    using registering_limited [OF assms, of ?v] Suc.prems by auto
  then have w1: "work_queue_task P w = Returns () w1" "work w1 = replicate (Suc (Suc k)) registering" "limited (ctx w1)"
    using Suc.prems(2)
    by (simp_all add: work_queue_task_def seq_def gets_def and_then_def modify_def handle_registering replicate_shift)
  with Suc.IH [OF w1(3,2)] show ?case by (simp add: and_then_def seq_def)
qed

section \<open>A connection without a client\<close>

lemma connect_silent:
  assumes "\<not> rate_limit (ctx w)" "iot_nv_get_serial_number (d_posix P) (nv w) = Some (Inr sn, s)" "mnid (ctx w) \<noteq> None"
    and "\<forall>n. fst (d_token P n) = IOT_ERROR_NONE" "\<not> rd_updated (iot_reg_data (ctx w))"
  shows "\<exists>w'. iot_es_connect P IOT_CONNECT_TYPE_COMMUNICATION w = Returns IOT_ERROR_NONE w' \<and> ctx w' = ctx w"
proof -
  obtain a n where 1: "d_malloc P Mem_mnid (env s) = (a, n)" by fastforce
  obtain e m where 2: "d_token P n = (e, m)" by fastforce
  with assms(4) have "e = IOT_ERROR_NONE" by (metis fst_conv)
  with assms 1 2 show ?thesis
    by (cases a) (auto simp: iot_es_connect_def seq_def the_ctx_def gets_def nv_run_def ask_def ret_def)
qed

section \<open>Settings freed twice\<close>

lemma reload_dangles:
  assumes "cp_broker_url (pd_cloud (prov_data (ctx w))) = Live u" "cp_label (pd_cloud (prov_data (ctx w))) \<noteq> Dangling"
    and "iot_nv_get_wifi_prov_data (d_posix P) (pd_wifi (prov_data (ctx w))) (nv w) = Some (e, wd, s)" "e \<noteq> IOT_ERROR_NONE"
  shows "\<exists>w'. check_prov_status P True w = Returns IOT_ERROR_NONE w' \<and> cp_broker_url (pd_cloud (prov_data (ctx w'))) = Dangling"
proof -
  obtain e2 s2 where 2: "iot_nv_erase (d_posix P) IOT_NVD_DEVICE_ID s = Some (e2, s2)" using erase_defined by blast
  show ?thesis using assms 2
    by (simp add: check_prov_status_def prov_next_state_def nv_get_prov_def iot_api_prov_data_mem_free_def seq_def and_then_def the_ctx_def gets_def
        upd_reg_def upd_cloud_def upd_ctx_def modify_def ret_def free_cell_def skip_def nv_run_def iot_nv_get_prov_data_def Let_def
        erase_device_id_def start_new_def freed_def)
qed

lemma dangling_undefined:
  assumes "cp_broker_url (pd_cloud (prov_data (ctx w))) = Dangling"
  shows "iot_api_prov_data_mem_free w = Undefined" "check_prov_status P b w = Undefined" "iot_device_cleanup P w = Undefined"
  using assms
  by (simp_all add: check_prov_status_def iot_device_cleanup_def iot_api_prov_data_mem_free_def seq_def and_then_def the_ctx_def gets_def
      upd_reg_def upd_ctx_def modify_def free_cell_def undef_def)

end
