(* ===== verification/Http_Bypass.thy ===== *)
theory Http_Bypass
  imports Http_Order Device_Faults
begin

text \<open>
  The server and the state machine together: a device that went to the state of confirmation, whether or not it
  was confirmed there, is registered by four requests none of which confirms anything.
\<close>

section \<open>Messages that succeed\<close>

lemma ask_held:
  assumes "memory_holds P"
  shows "ask (d_malloc P a) d = Returns True (d\<lparr>nv := (nv d)\<lparr>env := snd (d_malloc P a (env (nv d)))\<rparr>\<rparr>)"
    and "ask (d_queue_send P) d = Returns IOT_ERROR_NONE (d\<lparr>nv := (nv d)\<lparr>env := snd (d_queue_send P (env (nv d)))\<rparr>\<rparr>)"
  using assms by (auto simp: ask_def memory_holds_def split: prod.splits dest: spec) (metis fst_conv)+

lemmas srv_simps = seq_def and_then_def ret_def gets_def modify_def skip_def on_def in_dev_def set_ref_def the_ctx_def upd_ctx_def

text \<open>The device but for the state of the platform.\<close>

definition same_dev :: "'n dev \<Rightarrow> 'n dev \<Rightarrow> bool" where
  "same_dev d d' \<longleftrightarrow> ctx d' = ctx d \<and> work d' = work d"

lemma exchange_held:
  assumes "memory_holds P"
  shows "\<exists>w'. exchange P s p (Some (s, IOT_ERROR_NONE, t)) w = Returns (Inr (IOT_ERROR_NONE, t)) w'
    \<and> ref_step w' = ref_step w \<and> same_dev (sdev w) (sdev w')"
  by (simp add: exchange_def iot_easysetup_request_def srv_simps ask_held [OF assms] take_response_def same_dev_def)

lemma send_text_held:
  assumes "memory_holds P"
  shows "\<exists>w'. send_text P st t w = Returns (Some (response_text st t)) w' \<and> ref_step w' = ref_step w \<and> same_dev (sdev w) (sdev w')"
  by (simp add: send_text_def srv_simps ask_held [OF assms] same_dev_def)

lemma get_held:
  assumes "memory_holds P" and "status_maps (ctx (sdev w)) = 0" and "cmd \<noteq> IOT_EASYSETUP_INVALID_STEP"
    and "get_sequence cmd (ref_step w) = Some r"
  shows "\<exists>w'. http_msg_handler P cmd D2D_GET None (Some (cmd, IOT_ERROR_NONE, Some t)) w = Returns (Some (response_text ''HTTP/1.1 200 OK'' t)) w'
    \<and> ref_step w' = r \<and> same_dev (sdev w) (sdev w')"
proof -
  obtain w1 where 1: "exchange P cmd None (Some (cmd, IOT_ERROR_NONE, Some t)) (w\<lparr>ref_step := r\<rparr>) = Returns (Inr (IOT_ERROR_NONE, Some t)) w1"
    "ref_step w1 = r" "same_dev (sdev w) (sdev w1)" using exchange_held [OF assms(1), of cmd None "Some t" "w\<lparr>ref_step := r\<rparr>"] by auto
  obtain w2 where 2: "send_text P ''HTTP/1.1 200 OK'' t w1 = Returns (Some (response_text ''HTTP/1.1 200 OK'' t)) w2" "ref_step w2 = ref_step w1"
    "same_dev (sdev w1) (sdev w2)" using send_text_held [OF assms(1)] by blast
  have "on (cmd = devinfo) (in_dev report_contact) w = Returns () w"
    using assms(2) by (simp add: report_contact_def srv_simps)
  with 1 2 assms(3,4) show ?thesis
    by (simp add: http_msg_handler_def gen_get_payload_def seq_def and_then_def gets_def set_ref_def modify_def ret_def
        same_dev_def on_def [of False] skip_def)
qed

lemma post_held:
  assumes "memory_holds P" and "cmd \<noteq> IOT_EASYSETUP_INVALID_STEP" and "data = Some x" and "cmd \<noteq> complete"
    and "post_sequence cmd (ref_step w) = Some r"
  shows "\<exists>w'. http_msg_handler P cmd D2D_POST data (Some (cmd, IOT_ERROR_NONE, Some t)) w = Returns (Some (response_text ''HTTP/1.1 200 OK'' t)) w'
    \<and> ref_step w' = r \<and> same_dev (sdev w) (sdev w')"
proof -
  obtain w1 where 1: "exchange P cmd data (Some (cmd, IOT_ERROR_NONE, Some t)) (w\<lparr>ref_step := r\<rparr>) = Returns (Inr (IOT_ERROR_NONE, Some t)) w1"
    "ref_step w1 = r" "same_dev (sdev w) (sdev w1)" using exchange_held [OF assms(1), of cmd data "Some t" "w\<lparr>ref_step := r\<rparr>"] by auto
  obtain w2 where 2: "send_text P ''HTTP/1.1 200 OK'' t w1 = Returns (Some (response_text ''HTTP/1.1 200 OK'' t)) w2" "ref_step w2 = ref_step w1"
    "same_dev (sdev w1) (sdev w2)" using send_text_held [OF assms(1)] by blast
  with 1 assms(2-5) show ?thesis
    by (simp add: http_msg_handler_def gen_post_payload_def seq_def and_then_def gets_def set_ref_def modify_def ret_def same_dev_def)
qed

lemma complete_held:
  assumes "memory_holds P" and "ref_step w = 6"
  shows "\<exists>w'. http_msg_handler P complete D2D_POST None (Some (complete, IOT_ERROR_NONE, Some t)) w
      = Returns (Some (response_text ''HTTP/1.1 200 OK'' t)) w' \<and> ctx (sdev w') = ctx (sdev w) \<and> work (sdev w') = work (sdev w) @ [done_command]"
proof -
  obtain w1 where 1: "exchange P complete None (Some (complete, IOT_ERROR_NONE, Some t)) (w\<lparr>ref_step := 7\<rparr>) = Returns (Inr (IOT_ERROR_NONE, Some t)) w1"
    "same_dev (sdev w) (sdev w1)" using exchange_held [OF assms(1), of complete None "Some t" "w\<lparr>ref_step := 7\<rparr>"] by auto
  have "\<exists>d. setup_complete P (sdev w1) = Returns IOT_ERROR_NONE d \<and> ctx d = ctx (sdev w1) \<and> work d = work (sdev w1) @ [done_command]"
    by (simp add: setup_complete_def iot_state_update_def iot_command_send_def iot_put_device_work_def srv_simps ask_held [OF assms(1)])
  then obtain d where d: "setup_complete P (sdev w1) = Returns IOT_ERROR_NONE d" "ctx d = ctx (sdev w1)" "work d = work (sdev w1) @ [done_command]"
    by blast
  obtain w2 where 2: "send_text P ''HTTP/1.1 200 OK'' t (w1\<lparr>sdev := d\<rparr>) = Returns (Some (response_text ''HTTP/1.1 200 OK'' t)) w2"
    "same_dev d (sdev w2)" using send_text_held [OF assms(1), of "''HTTP/1.1 200 OK''" t "w1\<lparr>sdev := d\<rparr>"] by auto
  from 1 2 d assms(2) show ?thesis
    by (simp add: http_msg_handler_def gen_post_payload_def seq_def and_then_def gets_def set_ref_def modify_def ret_def in_dev_def same_dev_def
        post_sequence_def next_ref_def)
qed

section \<open>Four requests\<close>

fun serve :: "('n, 'j) device \<Rightarrow> (iot_easysetup_step \<times> cgi_type \<times> u8 list option \<times> response option) list \<Rightarrow> ('n srv, unit) prog" where
  "serve P [] = skip"
| "serve P ((cmd, ty, data, a) # ms) = and_then (http_msg_handler P cmd ty data a) (serve P ms)"

definition unconfirmed :: "u8 list \<Rightarrow> u8 list \<Rightarrow> u8 list
    \<Rightarrow> (iot_easysetup_step \<times> cgi_type \<times> u8 list option \<times> response option) list" where
  "unconfirmed key settings t =
     [(devinfo, D2D_GET, None, Some (devinfo, IOT_ERROR_NONE, Some t)),
      (keyinfo, D2D_POST, Some key, Some (keyinfo, IOT_ERROR_NONE, Some t)),
      (provinfo, D2D_POST, Some settings, Some (provinfo, IOT_ERROR_NONE, Some t)),
      (complete, D2D_POST, None, Some (complete, IOT_ERROR_NONE, Some t))]"

lemma three_served:
  assumes "memory_holds P" and "ref_step w = 0" and "status_maps (ctx (sdev w)) = 0"
  obtains t1 w1 t2 w2 t3 w3 where
    "http_msg_handler P devinfo D2D_GET None (Some (devinfo, IOT_ERROR_NONE, Some t)) w = Returns t1 w1"
    "http_msg_handler P keyinfo D2D_POST (Some key) (Some (keyinfo, IOT_ERROR_NONE, Some t)) w1 = Returns t2 w2"
    "http_msg_handler P provinfo D2D_POST (Some settings) (Some (provinfo, IOT_ERROR_NONE, Some t)) w2 = Returns t3 w3"
    "ref_step w3 = 6" "same_dev (sdev w) (sdev w3)"
proof -
  obtain t1 w1 where 1: "http_msg_handler P devinfo D2D_GET None (Some (devinfo, IOT_ERROR_NONE, Some t)) w = Returns t1 w1"
    "ref_step w1 = 1" "same_dev (sdev w) (sdev w1)"
    using get_held [OF assms(1,3), of devinfo 1 t] assms(2) by (auto simp: get_sequence_def next_ref_def)
  obtain t2 w2 where 2: "http_msg_handler P keyinfo D2D_POST (Some key) (Some (keyinfo, IOT_ERROR_NONE, Some t)) w1 = Returns t2 w2"
    "ref_step w2 = 2" "same_dev (sdev w1) (sdev w2)"
    using post_held [OF assms(1), of keyinfo "Some key" key w1 2 t] 1(2) by (auto simp: post_sequence_def next_ref_def)
  obtain t3 w3 where 3: "http_msg_handler P provinfo D2D_POST (Some settings) (Some (provinfo, IOT_ERROR_NONE, Some t)) w2 = Returns t3 w3"
    "ref_step w3 = 6" "same_dev (sdev w2) (sdev w3)"
    using post_held [OF assms(1), of provinfo "Some settings" settings w2 6 t] 2(2) by (auto simp: post_sequence_def next_ref_def)
  have "same_dev (sdev w) (sdev w3)" using 1(3) 2(3) 3(3) by (simp add: same_dev_def)
  with that 1(1) 2(1) 3(1,2) show thesis by blast
qed

lemma unconfirmed_served:
  assumes "memory_holds P" and "ref_step w = 0" and "status_maps (ctx (sdev w)) = 0"
  shows "\<exists>w'. serve P (unconfirmed key settings t) w = Returns () w' \<and> ctx (sdev w') = ctx (sdev w)
    \<and> work (sdev w') = work (sdev w) @ [done_command]"
proof (rule three_served [OF assms, of t key settings])
  fix t1 w1 t2 w2 t3 w3
  assume 1: "http_msg_handler P devinfo D2D_GET None (Some (devinfo, IOT_ERROR_NONE, Some t)) w = Returns t1 w1"
    "http_msg_handler P keyinfo D2D_POST (Some key) (Some (keyinfo, IOT_ERROR_NONE, Some t)) w1 = Returns t2 w2"
    "http_msg_handler P provinfo D2D_POST (Some settings) (Some (provinfo, IOT_ERROR_NONE, Some t)) w2 = Returns t3 w3"
    "ref_step w3 = 6" "same_dev (sdev w) (sdev w3)"
  obtain t4 w4 where 4: "http_msg_handler P complete D2D_POST None (Some (complete, IOT_ERROR_NONE, Some t)) w3 = Returns t4 w4"
    "ctx (sdev w4) = ctx (sdev w3)" "work (sdev w4) = work (sdev w3) @ [done_command]"
    using complete_held [OF assms(1) 1(4)] by blast
  show ?thesis using 1 4 by (simp add: unconfirmed_def and_then_def seq_def skip_def ret_def same_dev_def)
qed

lemma three_run:
  fixes P :: "('n, 'j) device" and w :: "'n srv"
  assumes "memory_holds P" and "ref_step w = 0" and "status_maps (ctx (sdev w)) = 0"
  shows "\<exists>w3. srv_run P [devinfo, keyinfo, provinfo] w3 \<and> ref_step w3 = 6 \<and> same_dev (sdev w) (sdev w3)"
proof (rule three_served [OF assms, of "[]" "[]" "[]"])
  fix t1 w1 t2 w2 t3 w3
  assume 1: "http_msg_handler P devinfo D2D_GET None (Some (devinfo, IOT_ERROR_NONE, Some [])) w = Returns t1 w1"
    "http_msg_handler P keyinfo D2D_POST (Some []) (Some (keyinfo, IOT_ERROR_NONE, Some [])) w1 = Returns t2 w2"
    "http_msg_handler P provinfo D2D_POST (Some []) (Some (provinfo, IOT_ERROR_NONE, Some [])) w2 = Returns t3 w3"
    "ref_step w3 = 6" "same_dev (sdev w) (sdev w3)"
  have "srv_run P [] w" using assms(2) by (rule srv_run.started)
  from srv_run.message [OF srv_run.message [OF srv_run.message [OF this 1(1)] 1(2)] 1(3)] 1(4,5) show ?thesis by auto
qed

lemma done_from_confirm:
  assumes "memory_holds P" and "curr_state (ctx d) = IOT_STATE_PROV_CONFIRM" and "work d = [done_command]" and "\<not> status_cb (ctx d)"
  shows "\<exists>d'. work_queue_task P d = Returns () d' \<and> curr_state (ctx d') = IOT_STATE_PROV_DONE \<and> work d' = [registering]"
  using assms(2-4)
  by (auto simp: work_queue_task_def do_iot_main_command_def do_state_updating_def leave_state_def iot_command_send_def
      iot_put_device_work_def set_state_timer_def report_state_def registering_def Let_def srv_simps ask_held [OF assms(1)]
      ask_def [of "d_timer_create P"] split: prod.splits)

lemma done_from_enter:
  assumes "curr_state (ctx d) = IOT_STATE_PROV_ENTER" and "work d = done_command # rest"
  shows "work_queue_task P d = Returns () (d\<lparr>work := rest\<rparr>)"
  using assms by (simp add: work_queue_task_def do_iot_main_command_def do_state_updating_def leave_state_def Let_def srv_simps)

end
