(* ===== verification/Nv_Demo.thy ===== *)
theory Nv_Demo
  imports Nv_Reliable
begin

text \<open>
  A port on which no call fails, one on which \<open>remove\<close> fails, an empty store and settings to keep in it:
  the instances at which the properties of the storage are witnessed.
\<close>

definition good_posix :: "unit posix" where
  "good_posix = \<lparr>p_malloc = (\<lambda>n. (True, n)), p_open = (\<lambda>f n. (True, n)), p_read = (\<lambda>n. (True, n)),
     p_write = (\<lambda>k n. (Some k, n)), p_close = (\<lambda>n. (True, n)), p_remove = (\<lambda>f n. (True, n)),
     p_uninit = (\<lambda>i. 0xAA), p_stnv = False, p_device_info = (\<lambda>i. Inl IOT_ERROR_UNINITIALIZED)\<rparr>"

definition stuck_posix :: "unit posix" where
  "stuck_posix = good_posix\<lparr>p_remove := (\<lambda>f n. (False, n))\<rparr>"

definition empty_store :: "unit store" where "empty_store = \<lparr>files = (\<lambda>f. None), env = ()\<rparr>"

definition demo_wifi :: iot_wifi_prov_data where
  "demo_wifi = \<lparr>wp_ssid = cstr ''home'' @ replicate 29 0, wp_password = cstr ''secret'' @ replicate 59 0,
     wp_mac_str = mac_text [1,2,3,4,5,6] @ [0], wp_bssid = [1,2,3,4,5,6], wp_security_type = 3\<rparr>"

definition open_wifi :: iot_wifi_prov_data where
  "open_wifi = \<lparr>wp_ssid = cstr ''cafe'' @ replicate 29 0, wp_password = replicate 65 0,
     wp_mac_str = mac_text [6,5,4,3,2,1] @ [0], wp_bssid = [6,5,4,3,2,1], wp_security_type = 0\<rparr>"

definition demo_cloud :: "int \<Rightarrow> iot_cloud_prov_data" where
  "demo_cloud p = \<lparr>cp_broker_url = Live (cstr ''mqtt.example.org''), cp_broker_port = p, cp_location = Null,
     cp_room = Null, cp_label = Live (cstr ''lamp'')\<rparr>"

lemma good_reliable [simp]: "reliable good_posix"
  by (simp add: reliable_def good_posix_def)

lemma good_erases [simp]: "erase_works good_posix"
  by (simp add: erase_works_def good_posix_def)

lemma stored_empty [simp]: "stored empty_store i = None"
  by (simp add: stored_def empty_store_def)

lemma sized_empty [simp]: "items_sized (stored empty_store)"
  by (simp add: items_sized_def)

lemma cstr_sizes:
  "length (cstr ''home'') = 4" "length (cstr ''secret'') = 6" "length (cstr ''cafe'') = 4"
  "cstr ''home'' ! 0 \<noteq> 0" "cstr ''secret'' ! 0 \<noteq> 0" "cstr ''cafe'' ! 0 \<noteq> 0"
  by (simp_all add: cstr_def)

lemma demo_wifi_ok [simp]: "wifi_ok demo_wifi" "wifi_full demo_wifi" "wifi_ok open_wifi" "wifi_sizes zero_wifi"
  by (simp_all add: wifi_ok_def wifi_full_def wifi_sizes_def demo_wifi_def open_wifi_def length_mac_text cstr_sizes
      nth_append zero_wifi_def) (simp_all add: mac_text_def hex02_def hexdigit_def)

lemma demo_ports [simp]: "length (decimal_int 8883) = 4" "length (decimal_int 443) = 3"
proof -
  have "length (cstr (decimal 443)) = 3"
    by (simp add: cstr_decimal [of 443] cstr_decimal [of 44] cstr_decimal [of 4] del: decimal.simps)
  moreover have "length (cstr (decimal 8883)) = 4"
    by (simp add: cstr_decimal [of 8883] cstr_decimal [of 888] cstr_decimal [of 88] cstr_decimal [of 8] del: decimal.simps)
  ultimately show "length (decimal_int 8883) = 4" "length (decimal_int 443) = 3"
    by (simp_all add: decimal_int_def del: decimal.simps)
qed

lemma demo_cloud_fields [simp]:
  "cp_broker_port (demo_cloud p) = p" "cp_broker_url (demo_cloud p) = Live (cstr ''mqtt.example.org'')"
  "cp_label (demo_cloud p) = Live (cstr ''lamp'')"
  by (simp_all add: demo_cloud_def)

lemma demo_cloud_ok [simp]:
  "text_ok (Live (cstr ''mqtt.example.org''))" "text_ok (Live (cstr ''lamp''))"
  "cstr ''mqtt.example.org'' \<noteq> []" "cstr ''lamp'' \<noteq> []" "cloud_live (demo_cloud p)"
  by (simp_all add: text_ok_def cstr_def cloud_live_def)

text \<open>The store after the demo settings with the port \<open>p\<close> went into the empty one.\<close>

lemma demo_cloud_stored:
  assumes "iot_nv_set_cloud_prov_data good_posix (demo_cloud p) empty_store = Some (IOT_ERROR_NONE, s)"
  shows "stored s IOT_NVD_SERVER_PORT = Some (decimal_int p)"
    "stored s IOT_NVD_SERVER_URL = Some (cstr ''mqtt.example.org'')" "stored s IOT_NVD_LABEL = Some (cstr ''lamp'')"
    "stored s IOT_NVD_CLOUD_PROV_STATUS = Some (cstr ''DONE'')"
proof -
  have s: "stored s = cloud_stored (demo_cloud p) (stored empty_store)" by (rule set_cloud_ok [OF _ _ assms]) simp_all
  show "stored s IOT_NVD_SERVER_PORT = Some (decimal_int p)"
    "stored s IOT_NVD_SERVER_URL = Some (cstr ''mqtt.example.org'')" "stored s IOT_NVD_LABEL = Some (cstr ''lamp'')"
    "stored s IOT_NVD_CLOUD_PROV_STATUS = Some (cstr ''DONE'')"
    by (simp_all add: s cloud_stored_url cloud_stored_label cloud_stored_status_size overlay_def)
qed

end
