(* ===== verification/Device_Demo.thy ===== *)
theory Device_Demo
  imports Device_Faults Nv_Demo
begin

text \<open>
  A platform on which every call succeeds and the button is never pressed, a device on it, and a run of the
  onboarding: the instances at which the properties of the device core are witnessed. A JSON item is a text;
  an object has one member, its event.
\<close>

definition demo_json :: "(unit, u8 list) json" where
  "demo_json = \<lparr>JSON_PARSE = (\<lambda>t n. (Some t, n)),
     JSON_GET_OBJECT_ITEM = (\<lambda>j name. if name = ''event'' then j else None),
     JSON_GET_STRING_VALUE = (\<lambda>j. j), json_valueint = (\<lambda>j. 0), JSON_IS_TRUE = (\<lambda>j. False), json_items = (\<lambda>j. []),
     JSON_PRINT = (\<lambda>j n. (j, n)), JSON_CREATE_OBJECT = (\<lambda>n. (Some [], n)), JSON_CREATE_STRING = (\<lambda>t n. (Some t, n)),
     JSON_CREATE_NUMBER = (\<lambda>i n. (Some [], n)), JSON_ADD_ITEM_TO_OBJECT = (\<lambda>j name i. Some i),
     JSON_REPLACE_ITEM = (\<lambda>j name i. Some i)\<rparr>"

definition good_device :: "(unit, u8 list) device" where
  "good_device = \<lparr>d_posix = good_posix\<lparr>p_device_info := (\<lambda>i. Inr (cstr ''STDK0001''))\<rparr>, d_json = demo_json,
     d_discovery_ssid = True, d_malloc = (\<lambda>a n. (True, n)), d_queue_send = (\<lambda>n. (IOT_ERROR_NONE, n)),
     d_wifi_set_mode = (\<lambda>m n. (IOT_ERROR_NONE, n)), d_wifi_scan = (\<lambda>n. (3, n)), d_create_ssid = (\<lambda>n. (IOT_ERROR_NONE, n)),
     d_timer_create = (\<lambda>n. (True, n)), d_timer_start = (\<lambda>n. (True, n)), d_timer_expired = (\<lambda>n. (False, n)),
     d_polls = (\<lambda>n. (10, n)), d_security_init = (\<lambda>n. (True, n)), d_cipher_init = (\<lambda>n. (IOT_ERROR_NONE, n)),
     d_random_id = (\<lambda>n. (Inr (replicate 36 48), n)), d_certificate = (\<lambda>n. (IOT_ERROR_NONE, n)),
     d_token = (\<lambda>n. (IOT_ERROR_NONE, n)), d_sha256 = (\<lambda>t n. (Inr t, n)), d_registration_payload = (\<lambda>n. (True, n)),
     d_mqtt = (\<lambda>op n. ((0, []), n)), d_card_deleted = (\<lambda>n. (True, n)), d_thread_lock = (\<lambda>n. ((False, True), n)),
     d_confirmed = (\<lambda>n. (False, n))\<rparr>"

definition new_device :: "unit dev" where
  "new_device = \<lparr>ctx = init_ctx 0 (Some (cstr ''fTST'')) None, nv = empty_store, work = [], told = []\<rparr>"

lemma good_port: "port_ok good_device"
  by (auto simp: port_ok_def server_conforms_def good_device_def demo_json_def serial_fits_def good_posix_def cstr_def)

lemma nv_sized_empty [simp]: "nv_sized empty_store"
  by (simp add: nv_sized_def)

lemma new_fresh: "fresh new_device"
proof -
  have "ctx new_device = init_ctx 0 (Some (cstr ''fTST'')) None \<and> dip_ok None" by (simp add: new_device_def dip_ok_def)
  then show ?thesis unfolding fresh_def by (auto simp: new_device_def)
qed

lemmas run_simps = perform_def seq_def and_then_def ret_def gets_def modify_def skip_def on_def ask_def the_ctx_def upd_ctx_def
  upd_reg_def good_device_def

text \<open>The onboarding starts, the device enters it, the server asks for a confirmation, and the device waits for it.\<close>

lemma start_run: "\<exists>w. perform good_device (Start_ex 2 True False 0 False) new_device = Returns () w
  \<and> work w = [\<lparr>cmd_type = IOT_COMMAND_STATE_UPDATE, param = Some (State_data IOT_STATE_PROV_ENTER IOT_STATE_OPT_NONE)\<rparr>]
  \<and> curr_state (ctx w) = IOT_STATE_INITIALIZED \<and> status_maps (ctx w) = 0 \<and> \<not> status_cb (ctx w) \<and> easysetup_security_context (ctx w)"
  by (simp add: run_simps st_conn_start_ex_def new_device_def init_ctx_def need_easysetup_def create_easysetup_resources_def Let_def
      iot_state_update_def iot_command_send_def iot_put_device_work_def)

lemma enter_run:
  assumes "work w = [\<lparr>cmd_type = IOT_COMMAND_STATE_UPDATE, param = Some (State_data IOT_STATE_PROV_ENTER IOT_STATE_OPT_NONE)\<rparr>]"
    "curr_state (ctx w) = IOT_STATE_INITIALIZED" "\<not> status_cb (ctx w)" "status_maps (ctx w) = 0" "easysetup_security_context (ctx w)"
  shows "\<exists>w'. perform good_device Work_task w = Returns () w' \<and> work w' = [] \<and> curr_state (ctx w') = IOT_STATE_PROV_ENTER
    \<and> \<not> status_cb (ctx w') \<and> status_maps (ctx w') = 0"
  using assms
  by (simp add: run_simps work_queue_task_def do_iot_main_command_def do_state_updating_def leave_state_def Let_def enter_prov_def
      iot_wifi_ctrl_request_def wifi_result_def wifi_send_def iot_easysetup_init_def set_state_timer_def report_state_def)

lemma ask_run:
  assumes "work w = []" "curr_state (ctx w) = IOT_STATE_PROV_ENTER" "\<not> status_cb (ctx w)" "status_maps (ctx w) = 0"
  shows "\<exists>w'. perform good_device (Confirm 0 None) w = Returns () w' \<and> curr_state (ctx w') = IOT_STATE_PROV_ENTER
    \<and> work w' = [\<lparr>cmd_type = IOT_COMMAND_STATE_UPDATE, param = Some (State_data IOT_STATE_PROV_CONFIRM IOT_STATE_OPT_NEED_INTERACT)\<rparr>]
    \<and> \<not> status_cb (ctx w')"
  using assms
  by (simp add: run_simps es_confirm_check_manager_def iot_state_update_def iot_command_send_def iot_put_device_work_def)

lemma confirm_run:
  assumes "work w = [\<lparr>cmd_type = IOT_COMMAND_STATE_UPDATE, param = Some (State_data IOT_STATE_PROV_CONFIRM IOT_STATE_OPT_NEED_INTERACT)\<rparr>]"
    "curr_state (ctx w) = IOT_STATE_PROV_ENTER" "\<not> status_cb (ctx w)"
  shows "\<exists>w'. perform good_device Work_task w = Returns () w' \<and> work w' = [] \<and> curr_state (ctx w') = IOT_STATE_PROV_CONFIRM"
  using assms
  by (simp add: run_simps work_queue_task_def do_iot_main_command_def do_state_updating_def leave_state_def Let_def
      set_state_timer_def report_state_def)

lemma demo_confirm: "\<exists>w. dev_reachable good_device w \<and> curr_state (ctx w) = IOT_STATE_PROV_CONFIRM \<and> work w = []"
proof -
  have r0: "dev_reachable good_device new_device" by (rule power_on [OF new_fresh])
  obtain w1 where w1: "perform good_device (Start_ex 2 True False 0 False) new_device = Returns () w1"
    "work w1 = [\<lparr>cmd_type = IOT_COMMAND_STATE_UPDATE, param = Some (State_data IOT_STATE_PROV_ENTER IOT_STATE_OPT_NONE)\<rparr>]"
    "curr_state (ctx w1) = IOT_STATE_INITIALIZED" "\<not> status_cb (ctx w1)" "status_maps (ctx w1) = 0" "easysetup_security_context (ctx w1)"
    using start_run by blast
  have r1: "dev_reachable good_device w1"
    by (rule action [OF r0 _ w1(1)]) (simp add: may_def new_device_def init_ctx_def)
  obtain w2 where w2: "perform good_device Work_task w1 = Returns () w2" "work w2 = []" "curr_state (ctx w2) = IOT_STATE_PROV_ENTER"
    "\<not> status_cb (ctx w2)" "status_maps (ctx w2) = 0" using enter_run [OF w1(2-6)] by blast
  have r2: "dev_reachable good_device w2" by (rule action [OF r1 _ w2(1)]) (simp add: may_def)
  obtain w3 where w3: "perform good_device (Confirm 0 None) w2 = Returns () w3" "curr_state (ctx w3) = IOT_STATE_PROV_ENTER"
    "work w3 = [\<lparr>cmd_type = IOT_COMMAND_STATE_UPDATE, param = Some (State_data IOT_STATE_PROV_CONFIRM IOT_STATE_OPT_NEED_INTERACT)\<rparr>]"
    "\<not> status_cb (ctx w3)" using ask_run [OF w2(2-5)] by blast
  have r3: "dev_reachable good_device w3" by (rule action [OF r2 _ w3(1)]) (simp add: may_def)
  obtain w4 where w4: "perform good_device Work_task w3 = Returns () w4" "work w4 = []" "curr_state (ctx w4) = IOT_STATE_PROV_CONFIRM"
    using confirm_run [OF w3(3) w3(2) w3(4)] by blast
  have "dev_reachable good_device w4" by (rule action [OF r3 _ w4(1)]) (simp add: may_def)
  with w4 show ?thesis by blast
qed

text \<open>A device that registers while the server limits the rate.\<close>

definition limited_device :: "unit dev" where
  "limited_device = new_device\<lparr>ctx := (ctx new_device)\<lparr>rate_limit := True, is_wifi_station := True\<rparr>, work := [registering]\<rparr>"

lemma good_memory: "memory_holds good_device"
  by (simp add: memory_holds_def good_device_def)

lemma limited_demo: "limited (ctx limited_device)"
  by (simp add: limited_def limited_device_def new_device_def init_ctx_def)

lemma limited_work: "work limited_device = replicate (Suc 0) registering"
  by (simp add: limited_device_def)

text \<open>The serial number of the device, and a store without settings.\<close>

lemma demo_serial: "iot_nv_get_serial_number (d_posix good_device) empty_store = Some (Inr (cstr ''STDK0001''), empty_store)"
  by (simp add: iot_nv_get_serial_number_def nv_get_string_def malloc_c_def iot_nv_read_data_def iot_nv_io_storage_def
      iot_nv_io_storage_init_def iot_security_init_def iot_security_storage_init_def iot_security_storage_read_def
      set_storage_id_def be_bsp_fs_load_def storage_id2target_def factory_id_def good_device_def good_posix_def empty_store_def
      poke_def cstr_def c_string_def)

definition onboarded :: "unit dev" where
  "onboarded = new_device\<lparr>ctx := (ctx new_device)\<lparr>prov_data := \<lparr>pd_wifi = zero_wifi, pd_cloud = demo_cloud 8883\<rparr>\<rparr>\<rparr>"

lemma onboarded_url: "cp_broker_url (pd_cloud (prov_data (ctx onboarded))) = Live (cstr ''mqtt.example.org'')"
  by (simp add: onboarded_def demo_cloud_def)

lemma onboarded_label: "cp_label (pd_cloud (prov_data (ctx onboarded))) \<noteq> Dangling"
  by (simp add: onboarded_def demo_cloud_def)

lemma demo_no_wifi:
  "iot_nv_get_wifi_prov_data (d_posix good_device) (pd_wifi (prov_data (ctx onboarded))) (nv onboarded)
     = Some (IOT_ERROR_NV_DATA_ERROR, zero_wifi, empty_store)"
  by (simp add: iot_nv_get_wifi_prov_data_def nv_then_def nv_status_def malloc_c_def iot_nv_read_data_def iot_nv_io_storage_def
      iot_nv_io_storage_init_def iot_security_init_def iot_security_storage_init_def iot_security_storage_read_def
      set_storage_id_def be_bsp_fs_load_def be_bsp_fs_load_from_nv_def storage_id2target_def factory_id_def good_device_def good_posix_def
      empty_store_def onboarded_def new_device_def nv_ids nv_id_def storage_error_def fs_open_error_def
      iot_bsp_fs_open_def iot_bsp_fs_read_def iot_bsp_fs_close_def)

end
