(* ===== verification/Http_Demo.thy ===== *)
theory Http_Demo
  imports Http_Bypass Device_Demo
begin

text \<open>
  Instances for the properties of the onboarding server: a network that hands over given pieces, a request, and
  the device of \<^verbatim>\<open>Device_Demo\<close> after a confirmation that was denied because no one pressed the button.
\<close>

section \<open>A network of pieces\<close>

definition piece_port :: "u8 list list port" where
  "piece_port = \<lparr>port_net_write = (\<lambda>n bs. (int (length bs), n)),
     port_net_read = (\<lambda>n len. case n of [] \<Rightarrow> (0, [], []) | p # ps \<Rightarrow> if length p \<le> len then (int (length p), p, ps) else (-1, [], n)),
     port_net_read_poll = (\<lambda>n t. (1, n)), port_net_connect = (\<lambda>n u p. (True, n)), port_net_close = (\<lambda>n. n), port_net_free = (\<lambda>n. n),
     os_time = (\<lambda>n. 0), os_delay = (\<lambda>t n. n), timer_create_ok = (\<lambda>n. (True, n)), mutex_init_ok = (\<lambda>n. (True, n)),
     char_signed = True, load_first = False, locals = \<lparr>pub_dup = 0, pub_qos = 0, pub_retained = 0, pub_packetid = 0, pub_topicName = MQTTString_initializer,
       pub_payload = [], pub_payloadlen = 0\<rparr>, local_int = 0\<rparr>"

lemma piece_read: "length p \<le> len \<Longrightarrow> port_net_read piece_port (p # ps) len = (int (length p), p, ps)"
  by (simp add: piece_port_def)

lemma piece_hands: "list_all (\<lambda>p. p \<noteq> []) ps \<Longrightarrow> hands piece_port (ps @ n') ps n'"
  by (induction ps) (auto simp: piece_read)

abbreviation (input) LONG_MAX_64 :: int where "LONG_MAX_64 \<equiv> 9223372036854775807"

definition demo_headers :: "(u8 list \<times> u8 list) list" where
  "demo_headers = [(cstr ''Host'', cstr ''device''), (cstr ''Content-Length'', cstr (decimal 4))]"

text \<open>The arguments of the parser before the first request.\<close>

definition no_msg :: http_msg where
  "no_msg = \<lparr>m_payload = None, m_cmd = IOT_EASYSETUP_INVALID_STEP, m_type = D2D_ERROR, m_content_len = 0\<rparr>"

lemma demo_post: "post_ok LONG_MAX_64 (cstr ''/keyinfo'') (cstr ''HTTP/1.1'') demo_headers (cstr ''abcd'')"
proof -
  have n: "names_length (cstr ''Content-Length'')" "\<not> names_length (cstr ''Host'')"
    by (simp_all add: names_length_def cstr_def tolower_c_def)
  have len: "length (cstr (decimal 4)) = 1" using length_decimal [of 4] by (simp add: cstr_def)
  have "0 \<notin> set (cstr (decimal 4))" "10 \<notin> set (cstr (decimal 4))" "13 \<notin> set (cstr (decimal 4))"
    using decimal_digits [of 4] by (auto simp: list_all_iff isdigit_c_def)
  then have "header_ok LONG_MAX_64 (cstr ''Content-Length'', cstr (decimal 4))"
    by (auto simp: header_ok_def) (auto simp: cstr_def)
  moreover have "header_ok LONG_MAX_64 (cstr ''Host'', cstr ''device'')"
    using n(2) by (auto simp: header_ok_def) (auto simp: cstr_def)
  ultimately show ?thesis
    using n len atoi_decimal [of 4]
    by (simp add: post_ok_def demo_headers_def line_ok_def request_head_def header_line_def) (simp add: cstr_def)
qed

section \<open>A confirmation that is denied\<close>

lemma ask_unit: "ask (\<lambda>n. (a, n)) (w :: unit dev) = Returns a w"
  by (cases w) (simp add: ask_def)

lemma good_answers:
  "d_confirmed good_device = (\<lambda>n. (False, n))" "d_malloc good_device a = (\<lambda>n. (True, n))"
  "d_queue_send good_device = (\<lambda>n. (IOT_ERROR_NONE, n))" "d_sha256 good_device t = (\<lambda>n. (Inr t, n))" "d_json good_device = demo_json"
  "JSON_CREATE_OBJECT demo_json = (\<lambda>n. (Some [], n))" "JSON_PARSE demo_json t = (\<lambda>n. (Some t, n))" "JSON_PRINT demo_json j = (\<lambda>n. (j, n))"
  "JSON_CREATE_STRING demo_json t = (\<lambda>n. (Some t, n))" "JSON_GET_OBJECT_ITEM demo_json j ''prevErr'' = None"
  "JSON_ADD_ITEM_TO_OBJECT demo_json j m i = Some i"
  by (simp_all add: good_device_def demo_json_def)

lemmas plain_simps = seq_def and_then_def ret_def gets_def modify_def skip_def on_def the_ctx_def upd_ctx_def good_answers ask_unit

lemma ecode_run:
  assumes "nv_sized (nv w)"
  shows "\<exists>e w'. iot_set_st_ecode good_device t w = Returns e w' \<and> work w' = work w
    \<and> ctx w' = (ctx w)\<lparr>last_st_ecode := last_st_ecode (ctx w')\<rparr>"
proof -
  let ?t = "cstr (decimal (ecode_number t))"
  obtain r s where 1: "iot_nv_get_misc_info (d_posix good_device) (nv w) = Some (r, s)" "nv_sized s"
    using settings.get_misc [OF assms] by blast
  obtain e' s' where 2: "iot_nv_set_misc_info (d_posix good_device) ?t s = Some (e', s')"
    using settings.set_misc [OF 1(2)] by blast
  show ?thesis
    using 1(1) 2
    by (cases r) (simp_all add: iot_set_st_ecode_def iot_misc_info_store_def set_preverr_to_json_def put_item_def nv_run_def plain_simps Let_def)
qed

text \<open>The request of a confirmation by the button, which no one presses, in the state of entering the onboarding.\<close>

lemma deny_run:
  assumes "nv_sized (nv w)" "work w = []" "curr_state (ctx w) = IOT_STATE_PROV_ENTER" "\<not> status_cb (ctx w)" "status_maps (ctx w) = 0"
  shows "\<exists>w'. es_confirm_check_manager good_device OVF_BIT_BUTTON None w = Returns IOT_ERROR_EASYSETUP_CONFIRM_DENIED w'
    \<and> curr_state (ctx w') = IOT_STATE_PROV_ENTER \<and> \<not> status_cb (ctx w') \<and> status_maps (ctx w') = 0
    \<and> work w' = [\<lparr>cmd_type = IOT_COMMAND_STATE_UPDATE, param = Some (State_data IOT_STATE_PROV_CONFIRM IOT_STATE_OPT_NEED_INTERACT)\<rparr>]"
proof -
  let ?w = "w\<lparr>ctx := (ctx w)\<lparr>curr_otm_feature := OVF_BIT_BUTTON\<rparr>,
    work := [\<lparr>cmd_type = IOT_COMMAND_STATE_UPDATE, param = Some (State_data IOT_STATE_PROV_CONFIRM IOT_STATE_OPT_NEED_INTERACT)\<rparr>]\<rparr>"
  have "nv_sized (nv ?w)" using assms(1) by simp
  then obtain e w' where w': "iot_set_st_ecode good_device IOT_ST_ECODE_EE01 ?w = Returns e w'" "work w' = work ?w"
    "ctx w' = (ctx ?w)\<lparr>last_st_ecode := last_st_ecode (ctx w')\<rparr>" using ecode_run by blast
  have c: "curr_state (ctx w') = IOT_STATE_PROV_ENTER" "\<not> status_cb (ctx w')" "status_maps (ctx w') = 0"
    using assms(3-5) by (subst w'(3), simp)+
  have "confirm_button good_device ?w = Returns IOT_ERROR_EASYSETUP_CONFIRM_DENIED w'"
    using w'(1) c(1) by (simp add: confirm_button_def iot_state_timeout_change_def plain_simps)
  with assms w' c show ?thesis
    by (simp add: es_confirm_check_manager_def iot_state_update_def iot_command_send_def iot_put_device_work_def plain_simps)
qed

lemma deny_moves:
  assumes "work w = [\<lparr>cmd_type = IOT_COMMAND_STATE_UPDATE, param = Some (State_data IOT_STATE_PROV_CONFIRM IOT_STATE_OPT_NEED_INTERACT)\<rparr>]"
    "curr_state (ctx w) = IOT_STATE_PROV_ENTER" "\<not> status_cb (ctx w)" "status_maps (ctx w) = 0"
  shows "\<exists>w'. work_queue_task good_device w = Returns () w' \<and> work w' = [] \<and> curr_state (ctx w') = IOT_STATE_PROV_CONFIRM
    \<and> \<not> status_cb (ctx w') \<and> status_maps (ctx w') = 0"
  using assms
  by (simp add: plain_simps work_queue_task_def do_iot_main_command_def do_state_updating_def leave_state_def Let_def
      set_state_timer_def report_state_def)

lemma demo_denied:
  "\<exists>w w1 d. dev_reachable good_device w \<and> es_confirm_check_manager good_device OVF_BIT_BUTTON None w = Returns IOT_ERROR_EASYSETUP_CONFIRM_DENIED w1
     \<and> work_queue_task good_device w1 = Returns () d \<and> dev_reachable good_device d
     \<and> curr_state (ctx d) = IOT_STATE_PROV_CONFIRM \<and> work d = [] \<and> \<not> status_cb (ctx d) \<and> status_maps (ctx d) = 0"
proof -
  have r0: "dev_reachable good_device new_device" by (rule power_on [OF new_fresh])
  obtain w1 where w1: "perform good_device (Start_ex 2 True False 0 False) new_device = Returns () w1"
    "work w1 = [\<lparr>cmd_type = IOT_COMMAND_STATE_UPDATE, param = Some (State_data IOT_STATE_PROV_ENTER IOT_STATE_OPT_NONE)\<rparr>]"
    "curr_state (ctx w1) = IOT_STATE_INITIALIZED" "\<not> status_cb (ctx w1)" "status_maps (ctx w1) = 0" "easysetup_security_context (ctx w1)"
    using start_run by blast
  have r1: "dev_reachable good_device w1" by (rule action [OF r0 _ w1(1)]) (simp add: may_def new_device_def init_ctx_def)
  obtain w2 where w2: "perform good_device Work_task w1 = Returns () w2" "work w2 = []" "curr_state (ctx w2) = IOT_STATE_PROV_ENTER"
    "\<not> status_cb (ctx w2)" "status_maps (ctx w2) = 0" using enter_run [OF w1(2-6)] by blast
  have r2: "dev_reachable good_device w2" by (rule action [OF r1 _ w2(1)]) (simp add: may_def)
  have "nv_sized (nv w2)" using reachable_inv [OF r2 good_port] by (simp add: dev_inv_def)
  then obtain w3 where w3: "es_confirm_check_manager good_device OVF_BIT_BUTTON None w2 = Returns IOT_ERROR_EASYSETUP_CONFIRM_DENIED w3"
    "curr_state (ctx w3) = IOT_STATE_PROV_ENTER" "\<not> status_cb (ctx w3)" "status_maps (ctx w3) = 0"
    "work w3 = [\<lparr>cmd_type = IOT_COMMAND_STATE_UPDATE, param = Some (State_data IOT_STATE_PROV_CONFIRM IOT_STATE_OPT_NEED_INTERACT)\<rparr>]"
    using deny_run [OF _ w2(2-5)] by blast
  have "perform good_device (Confirm OVF_BIT_BUTTON None) w2 = Returns () w3" using w3(1) by (simp add: perform_def plain_simps)
  then have r3: "dev_reachable good_device w3" by (rule action [OF r2, rotated]) (simp add: may_def w2(3))
  obtain d where d: "work_queue_task good_device w3 = Returns () d" "work d = []" "curr_state (ctx d) = IOT_STATE_PROV_CONFIRM"
    "\<not> status_cb (ctx d)" "status_maps (ctx d) = 0" using deny_moves [OF w3(5,2,3,4)] by blast
  have "perform good_device Work_task w3 = Returns () d" using d(1) by (simp add: perform_def)
  then have "dev_reachable good_device d" by (rule action [OF r3, rotated]) (simp add: may_def)
  with r2 w3(1) d show ?thesis by blast
qed

end
