(* ===== verification/Spec2Isabelle.thy ===== *)
theory Spec2Isabelle
  imports Mqtt_Demo Http_Demo
begin

text \<open>
  A verification development for the SmartThings device SDK in C: the library that a device links to be
  onboarded from a phone and then to talk to the SmartThings cloud over MQTT.

  \<^bold>\<open>The program.\<close> The application calls \<open>st_conn_start\<close> and the like. They send commands to a work queue
  (\<^verbatim>\<open>src/iot_util.c\<close>) that one task empties; \<open>_do_iot_main_command\<close> (\<^verbatim>\<open>src/iot_main.c\<close>) handles a command
  and drives the state machine of the device, from onboarding through registration to the connection. The
  connection (\<^verbatim>\<open>src/easysetup/iot_easysetup_st_mqtt.c\<close>) uses the MQTT client of \<^verbatim>\<open>src/mqtt/client\<close>, whose
  work cycle runs in the same task and which builds and reads its packets with \<^verbatim>\<open>src/mqtt/packet\<close>. What has to
  survive a restart goes through \<^verbatim>\<open>src/iot_nv_data.c\<close> and the storage of the security layer to files.

  \<^bold>\<open>The theories.\<close>
  \<^item> \<^verbatim>\<open>Prelude\<close> (words, C strings, option programs), \<^verbatim>\<open>Program\<close> (programs that return, reboot or are
    undefined, with weakest preconditions and frames).
  \<^item> \<^verbatim>\<open>Util\<close>: conversions of \<^verbatim>\<open>src/iot_util.c\<close>. \<^verbatim>\<open>Linked_Queue\<close>: the linked list with head and tail that
    both kinds of queue are, refined to a list. \<^verbatim>\<open>Util_Queue\<close>: the work queue.
  \<^item> \<^verbatim>\<open>Wire_Codec\<close> (the interface of a field of the wire format), \<^verbatim>\<open>Mqtt_Packet\<close> (its primitives),
    \<^verbatim>\<open>Mqtt_Messages\<close>, \<^verbatim>\<open>Mqtt_Connect\<close>: \<^verbatim>\<open>src/mqtt/packet\<close>, one definition for each serializer and deserializer.
  \<^item> \<^verbatim>\<open>Mqtt_State\<close>, \<^verbatim>\<open>Mqtt_Cycle\<close>, \<^verbatim>\<open>Mqtt_Api\<close>: \<^verbatim>\<open>src/mqtt/client/iot_mqtt_client.c\<close>, its chunks and queues
    in an explicit heap, its work cycle and its public operations. \<^verbatim>\<open>Mqtt_Queues\<close>, \<^verbatim>\<open>Mqtt_Invariant\<close>, \<^verbatim>\<open>Mqtt_Safety\<close>,
    \<^verbatim>\<open>Mqtt_Receive\<close>, \<^verbatim>\<open>Mqtt_Work\<close>, \<^verbatim>\<open>Mqtt_Broker\<close>, \<^verbatim>\<open>Mqtt_Publish\<close>, \<^verbatim>\<open>Mqtt_Submit\<close>, \<^verbatim>\<open>Mqtt_Connection\<close>, \<^verbatim>\<open>Mqtt_Reach\<close>:
    the invariant of the client, kept by every step, and the states it can reach. \<^verbatim>\<open>Mqtt_Stream\<close>,
    \<^verbatim>\<open>Mqtt_Exchange\<close>: what goes over the network, in which order, and how an exchange ends. \<^verbatim>\<open>Mqtt_Demo\<close>: instances.
  \<^item> \<^verbatim>\<open>Storage\<close>: \<^verbatim>\<open>src/security/iot_security_storage.c\<close>, its software backend and the POSIX files. \<^verbatim>\<open>Nv_Data\<close>:
    \<^verbatim>\<open>src/iot_nv_data.c\<close>. \<^verbatim>\<open>Nv_Store\<close>, \<^verbatim>\<open>Nv_Update\<close>, \<^verbatim>\<open>Nv_Wifi\<close>, \<^verbatim>\<open>Nv_Cloud\<close>, \<^verbatim>\<open>Nv_Reliable\<close>: what storing and loading
    promise, also when calls fail half-way. \<^verbatim>\<open>Nv_Safe\<close>: that they stay inside their buffers. \<^verbatim>\<open>Nv_Demo\<close>: instances.
  \<^item> \<^verbatim>\<open>Device_State\<close> (\<open>struct iot_context\<close>), \<^verbatim>\<open>Device_Misc\<close> (\<^verbatim>\<open>src/iot_api.c\<close>: miscellaneous information and error
    codes), \<^verbatim>\<open>Device_Work\<close> (commands, state updates, timers), \<^verbatim>\<open>Device_Link\<close>
    (\<^verbatim>\<open>src/easysetup/iot_easysetup_st_mqtt.c\<close>, notifications of \<^verbatim>\<open>src/iot_capability.c\<close>, clean-up), \<^verbatim>\<open>Device_Main\<close>
    (Wi-Fi control, provisioning check, state machine and commands of \<^verbatim>\<open>src/iot_main.c\<close>), \<^verbatim>\<open>Device_Api\<close> (the
    calls of the application and the confirmation of the onboarding). \<^verbatim>\<open>Device_Inv\<close>, \<^verbatim>\<open>Device_Keeps\<close>, \<^verbatim>\<open>Device_Steps\<close>,
    \<^verbatim>\<open>Device_Reach\<close>: the invariant of the device and its reachable states. \<^verbatim>\<open>Device_Moves\<close>, \<^verbatim>\<open>Device_Phases\<close>: what
    moves the state. \<^verbatim>\<open>Device_Faults\<close>: runs that go wrong. \<^verbatim>\<open>Device_Demo\<close>: instances.
  \<^item> \<^verbatim>\<open>Http_Request\<close> (\<^verbatim>\<open>src/easysetup/http/iot_easysetup_http_parser.c\<close> and the reading half of
    \<^verbatim>\<open>src/easysetup/http/tcp/iot_easysetup_httpd.c\<close>), \<^verbatim>\<open>Http_Server\<close> (\<^verbatim>\<open>src/easysetup/http/iot_easysetup_http.c\<close>): the
    onboarding server. \<^verbatim>\<open>Http_Parse\<close>, \<^verbatim>\<open>Http_Read\<close>: requests come in as they were sent. \<^verbatim>\<open>Http_Safe\<close>: the bounds of
    the parser. \<^verbatim>\<open>Http_Order\<close>: responses and the order of the steps. \<^verbatim>\<open>Http_Bypass\<close>: the server together with the
    device core. \<^verbatim>\<open>Http_Demo\<close>: instances.

  \<^bold>\<open>Reading the model.\<close> A C function has a definition of the same name, without the leading underscore of a
  static one; a part of a long function has a definition of its own, and the fields of a structure are those of
  a record. Integers are words where their width matters. An operation on the memory of the MQTT client, the
  queues and the storage yields \<^const>\<open>None\<close> when the C code would read or write outside a buffer, through a
  null or freed pointer, or would not return; a program of the device core is \<^const>\<open>Undefined\<close> then, and
  \<open>Reboots\<close> when it restarts the machine. So a theorem that a call is not \<^const>\<open>None\<close>, or not \<^const>\<open>Undefined\<close>, says that
  it is safe. Memory is an explicit heap in the queues and in the client; strings of the settings are cells
  that are null, live or dangling. Loops that may run
  for ever are partial functions; the safety theorems show that those of the work cycle return. The waits of
  \<open>st_mqtt_yield\<close> and of the blocking operations depend on the clock: one round of them is what is proved safe. The loop that waits
  for the answer of the cloud takes its number of rounds from the platform, because a timer ends it.

  \<^bold>\<open>Parameters.\<close> A record stands for what is not in the sources: the network and timers of the client
  (\<open>port\<close>), the C library under the storage (\<open>posix\<close>), and JSON, Wi-Fi, cryptography, memory and the MQTT
  library as the device core sees it (\<open>device\<close>). Each call gives an answer and a new state of the
  environment, so an allocation or a transfer may fail at any time. Hypotheses on them are named:
  \<^item> \<open>write_progress\<close>, \<open>read_progress\<close>: a transfer reports an error or moves at least one byte and at most those it was
    asked for; \<open>broker_conforms\<close>: the peer sends packets of the protocol;
    \<open>\<not> load_first\<close>: the evaluation order under which \<open>MQTTPacket_getPacketId\<close> stays in its buffer;
  \<^item> \<open>erase_works\<close>, \<open>reliable\<close>: no call of the C library that removes files, or none at all, fails;
  \<^item> \<open>port_ok\<close>: the server's messages have strings where the code expects strings and a whole device identifier,
    the serial number ends in its buffer, and the topic of the registration can be allocated;
  \<^item> \<open>may\<close>: the application starts a device in its initial state only while no settings are held, timers expire
    only when they run, and the onboarding hands over well-formed settings.
  A hypothesis that excludes a behaviour of the sources has a theorem that shows the behaviour.

  \<^bold>\<open>What is shown.\<close>
  \<^item> Device core: every reachable state is well-formed, and every step from it is defined; the state moves along
    a fixed graph only. Four theorems show defects: the denied confirmation, the registration that is sent twice,
    the connection without a client, the settings freed twice.
  \<^item> Onboarding server: requests are read and parsed whole, the parser stays in its buffer but in one case, responses
    are exact, and the steps come in order; that the order does not include the confirmation, and what follows
    from it for the device, is a theorem.
  \<^item> MQTT client: every reachable state satisfies the invariant and every entry point is defined there; packets
    are reassembled, delivered, acknowledged, retransmitted and written in order; a publication completes. The
    known defects are theorems as well.
  \<^item> Packets: every message written is read back, and sizes are exact but at the four lengths where they are not.
  \<^item> Queues: both refine lists. Settings: what is stored is loaded again, or nothing is, also after a failure.
    Conversions: round trips and bounds.

  \<^bold>\<open>Interfaces.\<close> The locales are \<open>wire_codec\<close> and \<open>wire_message\<close> (the packet code), \<open>queue_rep\<close> (linked queues),
  \<open>nv_storage\<close> (the storage below the settings) and \<open>settings_store\<close> (the settings below the device core); each
  is interpreted on the definitions of the component that provides it.

  \<^bold>\<open>Interleaving.\<close> A step of the client is one call of its work cycle, of its reader thread, of a timer or of a
  part of an operation between two waits; a step of the device is one item of the work queue, one expired timer,
  one event of a client or one call of the application. Preemption inside a step is not modelled: the locks
  of the client exclude most of it, and the device core uses none but the one of its public calls.

  \<^bold>\<open>Not modelled.\<close> The build is the one that onboards over SoftAP and HTTP with JSON messages: Bluetooth, TLS
  onboarding and CBOR are left out. The encryption of the onboarding and its JSON messages are not modelled: the
  answers of the work task are arguments of the server, and what they do to the device enters as the steps
  \<open>Onboarding\<close>, \<open>Confirm\<close> and \<open>Setup_complete\<close>. Neither are the capability events and
  commands, the parsing of the onboarding configuration, web tokens, cryptography, the platform ports and the
  log files: they consist of calls of the JSON, CBOR and crypto libraries or of the platform. Output for
  diagnosis is left out everywhere.
\<close>

section \<open>The device core\<close>





text \<open>
  C3. The state machine. The state of the device changes in two ways only. The work task takes an update of the
  state from the head of the queue and the new state is a successor of the old one in the graph
  \<open>next_states\<close>, with the timer of the new state set or absent; or the application cleans up or restarts the
  device, and it is back in the initial state. In particular no update leaves the state of sleep.
\<close>

theorem state_moves:
  assumes "perform P a w = Returns () w'" and "curr_state (ctx w') \<noteq> curr_state (ctx w)"
  shows "(a = Work_task \<and> (\<exists>cmd rest s opt. work w = cmd # rest \<and> cmd_type cmd = IOT_COMMAND_STATE_UPDATE
        \<and> param cmd = Some (State_data s opt) \<and> s \<in> set (next_states (curr_state (ctx w))) \<and> curr_state (ctx w') = s
        \<and> state_timer (ctx w') \<in> (if state_ms s = 0 then {None} else {None, Some (state_ms s)})))
    \<or> ((\<exists>boot. a = Cleanup boot) \<or> (\<exists>pt sk cb maps n. a = Start_ex pt sk cb maps n))
      \<and> curr_state (ctx w') = IOT_STATE_INITIALIZED"
  using action_cases [OF assms(1)] assms(2) by (auto simp: phase_def)

theorem state_moves_witness:
  "\<exists>w w' s. perform good_device Work_task w = Returns () w' \<and> s \<in> set (next_states IOT_STATE_INITIALIZED) \<and> curr_state (ctx w') = s"
proof -
  obtain w :: "unit dev" where w: "work w = [\<lparr>cmd_type = IOT_COMMAND_STATE_UPDATE, param = Some (State_data IOT_STATE_PROV_ENTER IOT_STATE_OPT_NONE)\<rparr>]"
    "curr_state (ctx w) = IOT_STATE_INITIALIZED" "\<not> status_cb (ctx w)" "status_maps (ctx w) = 0" "easysetup_security_context (ctx w)"
    using start_run by blast
  obtain w' where w': "perform good_device Work_task w = Returns () w'" "curr_state (ctx w') = IOT_STATE_PROV_ENTER"
    using enter_run [OF w] by blast
  with state_moves [OF w'(1)] w(2) show ?thesis by auto
qed

text \<open>
  C4. A confirmation that is denied again. The state of confirmation has no timer, so in every reachable state of
  that name \<open>iot_state_timeout_change\<close> goes through a null pointer, and \<open>_es_confirm_check_manager\<close>, which calls
  it when the user does not press the button, never returns that the confirmation was denied.
\<close>

theorem denied_again_undefined:
  assumes "dev_reachable P w" and "curr_state (ctx w) = IOT_STATE_PROV_CONFIRM"
  shows "iot_state_timeout_change IOT_STATE_PROV_CONFIRM ES_CONFIRM_FAIL_TIMEOUT w = Undefined
    \<and> es_confirm_check_manager P OVF_BIT_BUTTON sn w \<noteq> Returns IOT_ERROR_EASYSETUP_CONFIRM_DENIED w'"
proof
  note t = confirm_untimed [OF assms]
  show "iot_state_timeout_change IOT_STATE_PROV_CONFIRM ES_CONFIRM_FAIL_TIMEOUT w = Undefined"
    using timeout_change_untimed [OF assms(2) t] .
  show "es_confirm_check_manager P OVF_BIT_BUTTON sn w \<noteq> Returns IOT_ERROR_EASYSETUP_CONFIRM_DENIED w'"
    using never_denied [OF assms(2) t] .
qed

theorem denied_again_undefined_witness:
  "\<exists>w. curr_state (ctx w) = IOT_STATE_PROV_CONFIRM
     \<and> iot_state_timeout_change IOT_STATE_PROV_CONFIRM ES_CONFIRM_FAIL_TIMEOUT w = Undefined
     \<and> es_confirm_check_manager good_device OVF_BIT_BUTTON None w \<noteq> Returns IOT_ERROR_EASYSETUP_CONFIRM_DENIED new_device"
proof -
  obtain w where "dev_reachable good_device w" "curr_state (ctx w) = IOT_STATE_PROV_CONFIRM" using demo_confirm by blast
  with denied_again_undefined [of good_device w None new_device] show ?thesis by blast
qed

text \<open>
  C5. Registration under a rate limit. A failed registration sends itself twice: as long as the server limits the
  rate of connections, the work task takes one command from the queue and appends two, so that after any
  number of rounds the queue has grown by that number.
\<close>

theorem registration_queue_grows:
  assumes "memory_holds P" and "limited (ctx w)" and "work w = replicate (Suc k) registering"
  shows "\<exists>w'. rounds P n w = Returns () w' \<and> work w' = replicate (Suc k + n) registering"
  using queue_fills [OF assms] by blast

theorem registration_queue_grows_witness:
  "\<exists>w'. rounds good_device 100 limited_device = Returns () w' \<and> work w' = replicate 101 registering"
  using registration_queue_grows [OF good_memory limited_demo limited_work, where n = 100] by simp



text \<open>
  C7. Settings that are freed twice. When a device that holds settings checks its provisioning again and loading
  the Wi-Fi settings fails, the broker URL stays a pointer to freed memory: freeing the settings, another check
  and a clean-up are all undefined from there.
\<close>

theorem reload_frees_twice:
  assumes "cp_broker_url (pd_cloud (prov_data (ctx w))) = Live u" and "cp_label (pd_cloud (prov_data (ctx w))) \<noteq> Dangling"
    and "iot_nv_get_wifi_prov_data (d_posix P) (pd_wifi (prov_data (ctx w))) (nv w) = Some (e, wd, s)" and "e \<noteq> IOT_ERROR_NONE"
  shows "\<exists>w'. check_prov_status P True w = Returns IOT_ERROR_NONE w' \<and> iot_api_prov_data_mem_free w' = Undefined
    \<and> check_prov_status P b w' = Undefined \<and> iot_device_cleanup P w' = Undefined"
  using reload_dangles [OF assms] dangling_undefined by blast

theorem reload_frees_twice_witness:
  "\<exists>w'. check_prov_status good_device True onboarded = Returns IOT_ERROR_NONE w' \<and> iot_device_cleanup good_device w' = Undefined"
  using reload_frees_twice [OF onboarded_url onboarded_label demo_no_wifi, of True] by auto

section \<open>The onboarding server\<close>





text \<open>
  C10. A request arrives. A well-formed POST request with at most sixteen headers, all of it in fewer than 1024
  bytes, may be cut into pieces anywhere in its header, and the rest of its body may come in one more piece: the
  server reads it whole and parses its step, its content length and its body.
\<close>

theorem request_received:
  assumes "post_ok L uri prot hs body" and "hands P n (ps @ [q] @ rs) n'" and "length rs \<le> 1"
    and "concat ps @ q @ concat rs = request_head ''POST'' uri prot hs @ body"
    and "length (concat ps) < length (request_head ''POST'' uri prot hs)"
    and "length (request_head ''POST'' uri prot hs) \<le> length (concat ps @ q)"
  shows "\<exists>msg b k. receive_request P L m n = Some (Inr (IOT_ERROR_NONE, msg, b), n') \<and> m_type msg = D2D_POST
    \<and> m_cmd msg = post_step uri \<and> m_content_len msg = length body \<and> m_payload msg = Some k \<and> str_at b k = Some body"
proof -
  obtain b where "receive_request P L m n = Some (Inr (IOT_ERROR_NONE, post_msg uri prot hs body m, b), n')"
    "str_at b (length (request_head ''POST'' uri prot hs)) = Some body" using receive_post [OF assms] by blast
  then show ?thesis by (auto simp: post_msg_def)
qed

theorem request_received_witness:
  "\<exists>msg b k. receive_request piece_port LONG_MAX_64 no_msg
       [request_head ''POST'' (cstr ''/keyinfo'') (cstr ''HTTP/1.1'') demo_headers, cstr ''abcd''] = Some (Inr (IOT_ERROR_NONE, msg, b), [])
     \<and> m_cmd msg = IOT_EASYSETUP_STEP_KEYINFO \<and> m_payload msg = Some k \<and> str_at b k = Some (cstr ''abcd'')"
proof -
  let ?h = "request_head ''POST'' (cstr ''/keyinfo'') (cstr ''HTTP/1.1'') demo_headers"
  have "?h \<noteq> []" "cstr ''abcd'' \<noteq> []" by (simp_all add: request_head_def cstr_def)
  then have "hands piece_port [?h, cstr ''abcd''] ([] @ [?h] @ [cstr ''abcd'']) []" using piece_hands [of "[?h, cstr ''abcd'']" "[]"] by simp
  from request_received [OF demo_post this, of no_msg] \<open>?h \<noteq> []\<close> show ?thesis by (auto simp: post_step_def cstr_def)
qed

text \<open>
  C11. A body in three pieces is damaged. When the rest of a body comes in two pieces, the second is stored over the
  first: the server hands on a body in which the beginning of the first piece is lost.
\<close>

theorem split_body_overwritten:
  assumes "post_ok L uri prot hs (part @ r1 @ r2)" and "hands P n (ps @ [q, r1, r2]) n'"
    and "concat ps @ q = request_head ''POST'' uri prot hs @ part" and "length (concat ps) < length (request_head ''POST'' uri prot hs)"
  shows "\<exists>msg b k. receive_request P L m n = Some (Inr (IOT_ERROR_NONE, msg, b), n') \<and> m_payload msg = Some k
    \<and> m_content_len msg = length (part @ r1 @ r2)
    \<and> str_at b k = Some (part @ r2 @ drop (length r2) r1) \<and> part @ r2 @ drop (length r2) r1 \<noteq> part @ r1 @ r2"
proof -
  obtain b where "receive_request P L m n = Some (Inr (IOT_ERROR_NONE, post_msg uri prot hs (part @ r1 @ r2) m, b), n')"
    "str_at b (length (request_head ''POST'' uri prot hs)) = Some (part @ r2 @ drop (length r2) r1)"
    using receive_split [OF assms] by blast
  moreover have "r1 \<noteq> []" "r2 \<noteq> []" using assms(2) by (auto simp: hands_append)
  then have "length (r2 @ drop (length r2) r1) < length (r1 @ r2)" by simp
  then have "part @ r2 @ drop (length r2) r1 \<noteq> part @ r1 @ r2" by (metis less_irrefl same_append_eq)
  ultimately show ?thesis by (auto simp: post_msg_def)
qed

theorem split_body_overwritten_witness:
  "\<exists>msg b k. receive_request piece_port LONG_MAX_64 no_msg
       [request_head ''POST'' (cstr ''/keyinfo'') (cstr ''HTTP/1.1'') demo_headers, cstr ''ab'', cstr ''cd''] = Some (Inr (IOT_ERROR_NONE, msg, b), [])
     \<and> m_payload msg = Some k \<and> str_at b k = Some (cstr ''cd'')"
proof -
  let ?h = "request_head ''POST'' (cstr ''/keyinfo'') (cstr ''HTTP/1.1'') demo_headers"
  have "?h \<noteq> []" by (simp add: request_head_def cstr_def)
  then have "hands piece_port [?h, cstr ''ab'', cstr ''cd''] ([] @ [?h, cstr ''ab'', cstr ''cd'']) []"
    using piece_hands [of "[?h, cstr ''ab'', cstr ''cd'']" "[]"] by (simp add: cstr_def)
  moreover have "post_ok LONG_MAX_64 (cstr ''/keyinfo'') (cstr ''HTTP/1.1'') demo_headers ([] @ cstr ''ab'' @ cstr ''cd'')"
    using demo_post by (simp add: cstr_def)
  ultimately have "\<exists>msg b k. receive_request piece_port LONG_MAX_64 no_msg [?h, cstr ''ab'', cstr ''cd''] = Some (Inr (IOT_ERROR_NONE, msg, b), [])
      \<and> m_payload msg = Some k \<and> str_at b k = Some ([] @ cstr ''cd'' @ drop (length (cstr ''cd'')) (cstr ''ab''))"
    using split_body_overwritten [of LONG_MAX_64 "cstr ''/keyinfo''" "cstr ''HTTP/1.1''" demo_headers "[]" "cstr ''ab''" "cstr ''cd''"
        piece_port "[?h, cstr ''ab'', cstr ''cd'']" "[]" ?h "[]" no_msg] \<open>?h \<noteq> []\<close> by auto
  then show ?thesis by (simp add: cstr_def)
qed

text \<open>
  C12. The parser stays inside its buffer. Whatever bytes a peer sends, up to 1020 of them in the buffer of 1024, the
  parser reads and writes only bytes of the buffer.
\<close>

theorem parser_stays_inside:
  assumes "length data + 4 \<le> RX_BUFFER_MAX"
  shows "es_msg_parser L (data @ replicate (RX_BUFFER_MAX - length data) 0) RX_BUFFER_MAX m \<noteq> None"
proof (rule parser_padded)
  show "padded (length data) (data @ replicate (RX_BUFFER_MAX - length data) 0)"
    using assms by (simp add: padded_def nth_append)
qed

theorem parser_stays_inside_witness:
  "es_msg_parser LONG_MAX_64 (cstr ''POST'' @ replicate 1020 0) 1024 no_msg \<noteq> None"
  using parser_stays_inside [of "cstr ''POST''" LONG_MAX_64 no_msg] by (simp add: cstr_def)

text \<open>
  C13. It leaves a full buffer. A request of 1023 bytes whose only header has no value makes the parser take the body
  for the value and look for the end of the header behind the buffer.
\<close>

theorem parser_overread:
  assumes "line_ok uri prot" and "k \<noteq> []" and "set k \<inter> {0, 9, 10, 13, 32, 58} = {}" and "\<not> names_length k"
    and "body \<noteq> []" and "hd body \<noteq> 32" and "set body \<inter> {0, 10, 13} = {}"
  shows "es_msg_parser L (cstr ''POST'' @ 32 # uri @ 32 # prot @ 13 # 10 # k @ [58, 13, 10, 13, 10] @ body @ [0]) len m = None"
  using assms by (rule valueless_header)

theorem parser_overread_witness:
  "es_msg_parser LONG_MAX_64 (cstr ''POST'' @ 32 # cstr ''/confirm'' @ 32 # cstr ''HTTP/1.1'' @ 13 # 10 # cstr ''Host''
     @ [58, 13, 10, 13, 10] @ replicate 990 65 @ [0]) 1024 no_msg = None"
  by (rule parser_overread) (simp_all add: line_ok_def names_length_def cstr_def)



section \<open>The MQTT client\<close>







text \<open>
  C18. Reassembly. However the platform cuts the bytes of a packet into pieces, the reader decodes the
  remaining length from the fixed header and fills the buffer with exactly the bytes of the packet.
\<close>

theorem reader_reassembles:
  assumes "delivers P n (packet_bytes h body) n'" and "length body < 268435456"
  shows "\<exists>hdr rd n1. read_fixed_header P n = Some (Inr (hdr, rd, length body), n1)
    \<and> rd + length body = length (packet_bytes h body)
    \<and> (\<forall>x. length x = rd + length body \<longrightarrow> take rd x = take rd hdr \<longrightarrow>
         (\<exists>n2. read_body_loop P x (rd + length body) rd n1 = Some (rd + length body, packet_bytes h body, n2)))"
proof (rule read_fixed_header_delivers [OF assms])
  fix hdr n1
  let ?rd = "Suc (length (rem_len_bytes (length body)))"
  assume hdr: "read_fixed_header P n = Some (Inr (hdr, ?rd, length body), n1)"
    "take ?rd hdr = h # rem_len_bytes (length body)" "delivers P n1 body n'"
  have "\<exists>n2. read_body_loop P x (?rd + length body) ?rd n1 = Some (?rd + length body, packet_bytes h body, n2)"
    if "length x = ?rd + length body" "take ?rd x = take ?rd hdr" for x
    by (rule read_body_loop_delivers [OF hdr(3) that(1)]) (use that(2) hdr(2) in \<open>auto simp: packet_bytes_def\<close>)
  then show ?thesis using hdr(1) length_packet_bytes [of h body] by auto
qed

theorem reader_reassembles_witness:
  "\<exists>hdr rd n1 n2. read_fixed_header (demo_port puback2) puback2 = Some (Inr (hdr, rd, 2), n1)
    \<and> read_body_loop (demo_port puback2) (take rd hdr @ [0, 0]) 4 rd n1 = Some (4, puback2, n2)"
proof -
  have p: "packet_bytes 0x40 [0, 2] = puback2"
    by (simp add: packet_bytes_def rem_len_bytes.simps [of "Suc (Suc 0)"])
  obtain hdr rd n1 where r: "read_fixed_header (demo_port puback2) puback2 = Some (Inr (hdr, rd, length [0, 2 :: u8]), n1)"
    "rd + length [0, 2 :: u8] = length puback2"
    "\<forall>x. length x = rd + length [0, 2 :: u8] \<longrightarrow> take rd x = take rd hdr \<longrightarrow>
       (\<exists>n2. read_body_loop (demo_port puback2) x (rd + length [0, 2 :: u8]) rd n1 = Some (rd + length [0, 2 :: u8], puback2, n2))"
    using reader_reassembles [of "demo_port puback2" puback2 "0x40" "[0, 2]" "[]"] demo_delivers [of puback2 puback2]
    unfolding p by auto
  obtain hdr' where "length hdr' = 5" "hdr' = hdr"
    by (rule read_fixed_header_delivers [of "demo_port puback2" puback2 "0x40" "[0, 2]" "[]"])
      (use demo_delivers [of puback2 puback2] r(1) p in auto)
  then have x: "length (take rd hdr @ [0, 0 :: u8]) = rd + length [0, 2 :: u8]" "take rd (take rd hdr @ [0, 0 :: u8]) = take rd hdr"
    using r(2) by simp_all
  have four: "rd + length [0, 2 :: u8] = 4" using r(2) by simp
  from r(3) [rule_format, OF x] obtain n2 where
    "read_body_loop (demo_port puback2) (take rd hdr @ [0, 0]) 4 rd n1 = Some (4, puback2, n2)" unfolding four by blast
  moreover have "length [0, 2 :: u8] = 2" by simp
  ultimately show ?thesis using r(1) by metis
qed



text \<open>
  C20. Retransmission refines its abstract specification. Every expired packet of the acknowledgement queue
  leaves it: while it has retries left (a CONNECT has none) it goes to the end of the write queue with its
  retry counter increased by one, otherwise it is marked as timed out and, unless an owner waits for it,
  goes to the callback queue. The packets that have not expired stay, in order. The loop ends.
\<close>

theorem retransmission_refines:
  assumes "client_inv w Q"
  shows "\<exists>w'. iot_mqtt_process_pending_packets P w = Some w'
    \<and> client_inv w' (expire_all (get_chunk w) (late P (w_net w)) Q)
    \<and> get_chunk w' = (\<lambda>a. if a \<in> set (Q ACK_PENDING)
        then map_option (\<lambda>c. if late P (w_net w) c then expire_chunk c else c) (get_chunk w a) else get_chunk w a)"
  using process_pending_safe [OF assms, of P] by blast

theorem retransmission_refines_witness:
  "\<exists>w'. iot_mqtt_process_pending_packets ((demo_port puback2)\<lparr>os_time := \<lambda>_. 20000\<rparr>) demo_idle = Some w'
    \<and> client_inv w' (\<lambda>_. []) \<and> map_option chunk_state (get_chunk w' 3) = Some PACKET_CHUNK_TIMEOUT"
proof -
  let ?P = "(demo_port puback2)\<lparr>os_time := \<lambda>_. 20000\<rparr>" and ?Q = "(\<lambda>_. [])(ACK_PENDING := [3 :: nat])"
  have c: "get_chunk demo_idle 3 = Some (val (demo_connect_chunk PACKET_CHUNK_ACK_PENDING (demo_timer 20000)))"
    by (simp add: demo_chunks)
  have "expire_all (get_chunk demo_idle) (late ?P (w_net demo_idle)) ?Q = (\<lambda>_. [])"
    by (auto simp: fun_eq_iff expire_all_def marked_def c retried_def late_def iot_os_timer_is_active_def fun_upd_apply)
  then show ?thesis using retransmission_refines [OF demo_idle_inv, of ?P]
    by (auto simp: c expire_chunk_def late_def iot_os_timer_is_active_def)
qed

text \<open>
  C21. User callbacks. The callback loop ends, tells the user about the chunks of the callback queue in the
  order in which they were queued, each once, and leaves the queue empty and the other queues alone.
\<close>

theorem callbacks_in_order:
  assumes "client_inv w Q"
  shows "\<exists>w'. iot_mqtt_process_user_callback P w = Some w' \<and> client_inv w' (Q(USER_EVENT := []))
    \<and> w_events w' = w_events w @ concat (map (\<lambda>a. chunk_events P (the (get_chunk w a))) (Q USER_EVENT))"
  using process_user_callback_safe [OF assms, of P] by blast

theorem callbacks_in_order_witness:
  "\<exists>w'. iot_mqtt_process_user_callback (demo_port puback2) demo_idle = Some w' \<and> w_events w' = []"
  using callbacks_in_order [OF demo_idle_inv, of "demo_port puback2"] by (auto simp: demo_idle_def demo_world_def)

text \<open>
  C22. Acknowledgements. A received acknowledgement takes exactly the first waiting packet of the type and
  identifier it answers out of the queue, gives its owner the return code or frees it, and is itself freed;
  with no such packet nothing but the acknowledgement changes.
\<close>

theorem ack_settles_first:
  assumes "client_inv w Q" and "get_chunk w a = Some ch" and "\<forall>k. a \<notin> set (Q k)" and "\<not> have_owner ch"
    and "\<And>old. ack_return_code P ch old \<noteq> None" and "ack_target ch = Some ti"
  shows "\<exists>w'. iot_mqtt_process_received_ack P a w = Some w'
    \<and> client_inv w' (Q(ACK_PENDING := without_first (marked (get_chunk w) (answers ti)) (Q ACK_PENDING)))
    \<and> get_chunk w' = (settle P ch (find (marked (get_chunk w) (answers ti)) (Q ACK_PENDING)) (get_chunk w))(a := None)"
  by (rule received_ack_effect [OF assms]) blast

theorem ack_settles_first_witness:
  "\<exists>w a w'. iot_mqtt_process_received_ack (demo_port puback2) a w = Some w' \<and> get_chunk w' a = None"
proof (rule inv_createE [OF demo_idle_inv, of 0])
  fix w1
  assume "\<exists>n. oom (w_mem demo_idle) n"
  then show ?thesis by (simp add: demo_idle_def)
next
  fix a and w1 :: "u8 list world" and d
  let ?z = "zero_chunk\<lparr>chunk_data := d, chunk_size := 0\<rparr>" and ?f = "\<lambda>c. c\<lparr>packet_type := msg_code PINGRESP\<rparr>"
  assume w1: "client_inv w1 ((\<lambda>_. [])(ACK_PENDING := [3]))" "\<forall>k. a \<notin> set (((\<lambda>_. [])(ACK_PENDING := [3])) k)"
    "get_chunk w1 = (get_chunk demo_idle)(a \<mapsto> ?z)" "(d = None \<and> 0 = (0 :: nat)) \<or> (\<exists>x. d = Some x \<and> length x = 0)"
  have wf: "chunk_wf (?f ?z)" using w1(4) by (auto simp: chunk_wf_def zero_chunk_def)
  have a1: "get_chunk w1 a = Some ?z" using w1(3) by simp
  have "\<not> have_owner ?z" by (simp add: zero_chunk_def)
  then have own: "have_owner ?z \<Longrightarrow> have_owner (?f ?z)" "is_ping ?z \<Longrightarrow> is_ping (?f ?z)" unfolding is_ping_def by blast+
  obtain w2 :: "u8 list world" where w2: "client_inv w2 ((\<lambda>_. [])(ACK_PENDING := [3]))" "get_chunk w2 = (get_chunk w1)(a \<mapsto> ?f ?z)"
    by (rule inv_updE [OF w1(1) a1, of ?f]) (use wf own w1(2) in blast)+
  have a2: "get_chunk w2 a = Some (?f ?z)" using w2(2) by simp
  have "\<not> have_owner (?f ?z)" "\<And>old. ack_return_code (demo_port puback2) (?f ?z) old \<noteq> None"
    "ack_target (?f ?z) = Some (msg_code PINGREQ, 0)"
    by (simp_all add: zero_chunk_def ack_return_code_def ack_target_def)
  from ack_settles_first [OF w2(1) a2 w1(2) this] obtain w' H where
    "iot_mqtt_process_received_ack (demo_port puback2) a w2 = Some w'" "get_chunk w' = H(a := None)" by blast
  then show ?thesis by (metis fun_upd_same)
qed



text \<open>
  Owned packets stay alive. As long as no allocation fails, a work cycle frees no packet whose owner
  waits for it: the pointer the waiting operation holds stays valid.
\<close>

theorem cycle_keeps_owned:
  assumes "client_inv w Q" and "write_progress P" and "read_progress P" and "broker_conforms P" and "\<not> load_first P"
    and "\<forall>n. \<not> oom (w_mem w) n" and "get_chunk w a = Some c" and "have_owner c"
    and "iot_mqtt_run_cycle P w = Some (rc, w')"
  shows "\<exists>c'. get_chunk w' a = Some c' \<and> have_owner c'"
  using run_cycle_safe [OF assms(1-3) broker_conforms_ok [OF assms(4,5)]] assms(6-9) by (auto simp: kept_def)

theorem cycle_keeps_owned_witness:
  "\<exists>rc w' c'. iot_mqtt_run_cycle (demo_port puback2) demo_idle = Some (rc, w') \<and> get_chunk w' 3 = Some c' \<and> have_owner c'"
proof -
  obtain rc w' where run: "iot_mqtt_run_cycle (demo_port puback2) demo_idle = Some (rc, w')"
    using run_cycle_safe [OF demo_idle_inv demo_progress demo_ok(2)] by blast
  have "\<forall>n. \<not> oom (w_mem demo_idle) n" by (simp add: demo_idle_def)
  with run show ?thesis
    using cycle_keeps_owned [OF demo_idle_inv demo_progress demo_ok(1) _ _ _ _ run, of 3] by (auto simp: demo_chunks)
qed

text \<open>
  C24. The exception: when the allocation for the next packet of the exchange fails, the handler of PUBREC
  and PUBREL frees the waiting packet whether or not it has an owner, so the operation that waits for it
  goes on to read freed memory.
\<close>

theorem recycle_frees_owned:
  assumes "get_chunk w b = Some c" and "oom (w_mem w) (brk (w_mem w))"
  shows "\<exists>w'. recycle_chunk b w = Some w' \<and> get_chunk w' b = None \<and> wait_check P rc b w' = None"
proof -
  obtain n where n: "cells (w_mem w) b = Some n" using assms(1) by (auto simp: get_chunk_def vals_def)
  then have "\<exists>w'. recycle_chunk b w = Some w' \<and> get_chunk w' b = None" using assms(2)
    by (simp add: recycle_chunk_def upd_chunk_def world_malloc_def iot_os_malloc_def iot_mqtt_chunk_destroy_def iot_os_free_def
        get_chunk_def vals_def)
  then show ?thesis by (auto simp: wait_check_def)
qed

theorem recycle_frees_owned_witness:
  "\<exists>w'. recycle_chunk 3 (demo_idle\<lparr>w_mem := (w_mem demo_idle)\<lparr>oom := \<lambda>_. True\<rparr>\<rparr>) = Some w'
    \<and> wait_check (demo_port puback2) 0 3 w' = None"
proof -
  let ?w = "demo_idle\<lparr>w_mem := (w_mem demo_idle)\<lparr>oom := \<lambda>_. True\<rparr>\<rparr>"
  have "get_chunk ?w = get_chunk demo_idle" by (simp add: get_chunk_def fun_eq_iff)
  then have "get_chunk ?w 3 = Some (val (demo_connect_chunk PACKET_CHUNK_ACK_PENDING (demo_timer 20000)))" by (simp add: demo_chunks)
  then show ?thesis using recycle_frees_owned [of ?w 3 _ "demo_port puback2" 0] by auto
qed

text \<open>
  Waiting. One round of a wait on a packet no other packet shares type and identifier with is
  defined; when the round ends the wait, the packet is in no queue, and freeing it keeps the invariant.
\<close>

theorem wait_ends_cleanly:
  assumes "client_inv w Q" and "sole_chunk w a"
  shows "\<exists>r w1. wait_check P rc a w = Some (r, w1)
    \<and> (r \<noteq> None \<longrightarrow> (\<exists>w2 Q2. iot_mqtt_chunk_destroy (Some a) w1 = Some w2 \<and> client_inv w2 Q2))"
proof -
  obtain r w1 where w1: "wait_check P rc a w = Some (r, w1)" using wait_check_safe [OF assms, of P rc] by blast
  then show ?thesis using wait_destroy_safe [OF assms, of P rc] by (cases r) auto
qed

theorem wait_ends_cleanly_witness:
  "\<exists>r w1. wait_check (demo_port puback2) (-1) 3 demo_idle = Some (r, w1)"
proof -
  have "sole_chunk demo_idle 3" by (auto simp: sole_chunk_def demo_chunks is_ping_def fun_upd_apply split: if_splits)
  from wait_ends_cleanly [OF demo_idle_inv this, of "demo_port puback2" "-1"] show ?thesis by blast
qed

text \<open>
  C25. End of file. When the peer has closed the connection the platform's read returns 0 without an
  error, and the blocking read of the client never returns.
\<close>

theorem read_net_diverges_at_eof:
  assumes "\<And>k. port_net_read P n k = (0, [], n)" and "0 < len" and "off \<le> length buf"
  shows "iot_mqtt_read_net P buf off len n = None"
  using read_net_loop_eof [of P n 0 len off buf] assms by (simp add: iot_mqtt_read_net_def)

theorem read_net_diverges_at_eof_witness:
  "iot_mqtt_read_net ((demo_port [])\<lparr>port_net_read := \<lambda>n len. (0, [], n)\<rparr>) [0] 0 1 [] = None"
  using read_net_diverges_at_eof [of "(demo_port [])\<lparr>port_net_read := \<lambda>n len. (0, [], n)\<rparr>" "[]" 1 0 "[0]"] by simp

text \<open>
  C26. A refused subscription. The reader compares the return code of a SUBACK with 0x80 after reading it
  through a \<open>char\<close>: where that type is signed the failure code is never recognised, and the subscription
  the broker refused counts as successful.
\<close>

theorem suback_failure_signed:
  assumes "packet_type c = msg_code SUBACK" and "chunk_data c = Some (suback_packet pid [0x80] @ pad)"
  shows "ack_return_code P c old = Some (if char_signed P then 0 else -1)"
  using deserialize_suback_packet [of "[0x80]" 1 1 "char_signed P" "(0, [])" pid pad] assms
  by (simp add: ack_return_code_def char_to_int_def)

theorem suback_failure_signed_witness:
  "ack_return_code (demo_port []) (zero_chunk\<lparr>packet_type := msg_code SUBACK, chunk_data := Some (suback_packet 7 [0x80])\<rparr>) 0 = Some 0"
  using suback_failure_signed [of "zero_chunk\<lparr>packet_type := msg_code SUBACK, chunk_data := Some (suback_packet 7 [0x80])\<rparr>" 7 "[]" "demo_port []"]
  by (simp add: demo_port_def)

text \<open>
  The port of the broker. A port number of five digits does not fit the local array: the client
  connects to the port made of its first four digits.
\<close>

theorem broker_port_truncated:
  assumes "10000 \<le> p" and "p < 65536"
  shows "snprintf_port p = decimal (nat p div 10) \<and> snprintf_port p \<noteq> decimal (nat p)"
proof -
  have "length (decimal (nat p)) = 5" "length (decimal (nat p div 10)) = 4"
    using assms by (auto intro: length_decimal_5 length_decimal_4)
  moreover have "decimal (nat p) = decimal (nat p div 10) @ [char_of (nat p mod 10 + 48)]"
    using assms by (subst decimal.simps) auto
  ultimately show ?thesis using assms by (auto simp: snprintf_port_def)
qed

theorem broker_port_truncated_witness: "snprintf_port 18883 = decimal 1888"
  using broker_port_truncated [of 18883] by simp

text \<open>
  C27. Protocol versions. A version other than 3 and 4 (the header of the API names 5) is counted as no
  protocol name at all but written as version 3: into a buffer of the computed size, always past its end.
\<close>

theorem connect_version_overrun:
  assumes "connect_strings_ok opts" and "MQTTVersion opts \<notin> {3, 4}" and "MQTTSerialize_connectLength opts < 268435456"
    and "int (length buf) = MQTTSerialize_connect_size opts"
  shows "MQTTSerialize_connect buf (int (length buf)) opts = None"
proof -
  define n where "n = nat (MQTTSerialize_connectLength opts)"
  have n: "MQTTSerialize_connectLength opts = int n" "length (connect_body opts) = n + 12" "n < 268435456"
    using assms(1-3)
    by (auto simp: n_def MQTTSerialize_connectLength_def connect_body_def connect_strings_ok_def MQTTstrlen_eq opt_string_def
        str_MQIsdp_def)
  have "int (length buf) \<le> int (Suc (length (rem_len_bytes n)) + n) + 1"
    using MQTTPacket_len_exact [of "replicate n 0" 0] n(3) assms(4) unfolding MQTTSerialize_connect_size_def n(1)
    by (simp add: length_packet_bytes split: if_splits)
  then have "length buf < Suc (length (rem_len_bytes n)) + length (connect_body opts)" using n(2) by simp
  moreover have "MQTTPacket_len (int n) \<le> int (length buf)" using assms(4) n(1) by (simp add: MQTTSerialize_connect_size_def)
  ultimately show ?thesis
    using serialize_connect_eq [OF assms(1) n(1), of "int (length buf)" buf] by (simp add: write_bytes_def)
qed

theorem connect_version_overrun_witness:
  "MQTTSerialize_connect (replicate 5 0) 5 (demo_connect\<lparr>MQTTVersion := 5\<rparr>) = None"
proof -
  have "connect_strings_ok (demo_connect\<lparr>MQTTVersion := 5\<rparr>)" "MQTTSerialize_connectLength (demo_connect\<lparr>MQTTVersion := 5\<rparr>) = 3"
    by (simp_all add: connect_strings_ok_def demo_connect_def MQTTPacket_connectData_initializer_def with_cstring_def
        MQTTSerialize_connectLength_def MQTTString_initializer_def mqtt_string_ok_def string_present_def MQTTstrlen_def)
  then show ?thesis
    using connect_version_overrun [of "demo_connect\<lparr>MQTTVersion := 5\<rparr>" "replicate 5 0"]
    by (simp add: MQTTSerialize_connect_size_def MQTTPacket_len_def)
qed

section \<open>Settings in non-volatile storage\<close>

text \<open>
  C28. Wi-Fi settings come back. On a port whose calls succeed, storing settings and loading them into any
  structure both succeed, and what was loaded is what was stored: the same SSID, password and address, and the
  same kind of security (or none when it is not one of the defined ones).
\<close>

theorem wifi_settings_roundtrip:
  assumes "reliable P" and "wifi_ok w" and "items_sized (stored s)" and "wifi_sizes w0"
  shows "\<exists>s' w' s''. iot_nv_set_wifi_prov_data P w s = Some (IOT_ERROR_NONE, s')
    \<and> iot_nv_get_wifi_prov_data P w0 s' = Some (IOT_ERROR_NONE, w', s'') \<and> same_wifi w w'"
  by (rule wifi_store_load [OF assms])

theorem wifi_settings_roundtrip_witness:
  "\<exists>s' w' s''. iot_nv_set_wifi_prov_data good_posix demo_wifi empty_store = Some (IOT_ERROR_NONE, s')
    \<and> iot_nv_get_wifi_prov_data good_posix zero_wifi s' = Some (IOT_ERROR_NONE, w', s'') \<and> same_wifi demo_wifi w'"
  by (rule wifi_settings_roundtrip) simp_all

text \<open>
  C29. An interrupted store never mixes settings. Whatever call of the C library fails while new Wi-Fi settings
  are stored, a later load, on any port, that succeeds shows exactly what it would have shown before, or exactly
  the new settings. Erasing items must work unless the new settings fill every item: a failed erase is not
  noticed by the code, and would leave the old password beside a new SSID.
\<close>

theorem wifi_store_interrupted:
  assumes "wifi_ok w" and "erase_works P \<or> wifi_full w" and "items_sized (stored s)" and "wifi_sizes w0"
    and "iot_nv_set_wifi_prov_data P w s = Some (e, s')"
    and "iot_nv_get_wifi_prov_data R w0 s' = Some (IOT_ERROR_NONE, w', s'')"
  shows "wifi_view (stored s) w0 = Some w' \<or> same_wifi w w'"
proof -
  have "wifi_view (stored s') w0 = Some w'" using get_wifi_view [OF assms(6)] by simp
  moreover have "wifi_sizes w" using assms(1) by (simp add: wifi_ok_def)
  ultimately show ?thesis
    using set_wifi_atomic [OF _ assms(2,5), of w0] wifi_comes_back [OF assms(1,3,4)] by auto
qed

theorem wifi_store_interrupted_witness:
  "\<exists>s' w' s''. iot_nv_set_wifi_prov_data good_posix open_wifi empty_store = Some (IOT_ERROR_NONE, s')
    \<and> iot_nv_get_wifi_prov_data good_posix zero_wifi s' = Some (IOT_ERROR_NONE, w', s'')
    \<and> (wifi_view (stored empty_store) zero_wifi = Some w' \<or> same_wifi open_wifi w')"
proof -
  obtain s' w' s'' where 1: "iot_nv_set_wifi_prov_data good_posix open_wifi empty_store = Some (IOT_ERROR_NONE, s')"
    "iot_nv_get_wifi_prov_data good_posix zero_wifi s' = Some (IOT_ERROR_NONE, w', s'')"
    using wifi_store_load [of good_posix open_wifi empty_store zero_wifi] by auto
  with wifi_store_interrupted [OF _ _ _ _ 1] show ?thesis by auto
qed

text \<open>
  C30. Cloud settings and their ports. On a port whose calls succeed, storing and loading the cloud settings both
  succeed, and the URL and the label come back as long as no item in the store is longer than its new text. The
  port that comes back is the number that starts the file, whose end an earlier, longer number may have left
  there: 443 stored over 8883 comes back as 4433.
\<close>

theorem cloud_settings_roundtrip:
  assumes "reliable P" and "text_ok (cp_broker_url c)" and "text_ok (cp_label c)"
    and "cp_broker_url c \<noteq> Live []" and "cp_label c \<noteq> Live []" and "0 \<le> cp_broker_port c"
    and "length (overlay (decimal_int (cp_broker_port c)) (stored s IOT_NVD_SERVER_PORT)) \<le> 1024"
    and "fits (stored s IOT_NVD_SERVER_URL) (cp_broker_url c)" and "fits (stored s IOT_NVD_LABEL) (cp_label c)"
    and "\<forall>x. stored s IOT_NVD_CLOUD_PROV_STATUS = Some x \<longrightarrow> length x \<le> 4"
  shows "\<exists>s' c' s''. iot_nv_set_cloud_prov_data P c s = Some (IOT_ERROR_NONE, s')
    \<and> iot_nv_get_cloud_prov_data P c0 s' = Some (IOT_ERROR_NONE, c', s'')
    \<and> cp_broker_url c' = cp_broker_url c \<and> cp_label c' = cp_label c
    \<and> (fits (stored s IOT_NVD_SERVER_PORT) (Live (decimal_int (cp_broker_port c))) \<longrightarrow> cp_broker_port c' = cp_broker_port c)
    \<and> (stored s IOT_NVD_SERVER_PORT = Some (decimal_int 8883) \<and> cp_broker_port c = 443 \<longrightarrow> cp_broker_port c' = 4433)"
  using cloud_store_load [OF assms, of c0] port_443_after_8883 port_shown_fits [OF assms(6)] by fastforce

text \<open>The witness: an empty store first, and then one that holds the port 8883.\<close>

theorem cloud_settings_roundtrip_witness:
  "\<exists>s1 c1 s2 s3 c3 s4. iot_nv_set_cloud_prov_data good_posix (demo_cloud 8883) empty_store = Some (IOT_ERROR_NONE, s1)
    \<and> iot_nv_get_cloud_prov_data good_posix (demo_cloud 0) s1 = Some (IOT_ERROR_NONE, c1, s2) \<and> cp_broker_port c1 = 8883
    \<and> iot_nv_set_cloud_prov_data good_posix (demo_cloud 443) s1 = Some (IOT_ERROR_NONE, s3)
    \<and> iot_nv_get_cloud_prov_data good_posix (demo_cloud 0) s3 = Some (IOT_ERROR_NONE, c3, s4) \<and> cp_broker_port c3 = 4433"
proof -
  obtain s1 c1 s2 where 1: "iot_nv_set_cloud_prov_data good_posix (demo_cloud 8883) empty_store = Some (IOT_ERROR_NONE, s1)"
    "iot_nv_get_cloud_prov_data good_posix (demo_cloud 0) s1 = Some (IOT_ERROR_NONE, c1, s2)" "cp_broker_port c1 = 8883"
    using cloud_settings_roundtrip [of good_posix "demo_cloud 8883" empty_store "demo_cloud 0"]
    by (auto simp: overlay_def fits_def)
  note st = demo_cloud_stored [OF 1(1)]
  obtain s3 c3 s4 where "iot_nv_set_cloud_prov_data good_posix (demo_cloud 443) s1 = Some (IOT_ERROR_NONE, s3)"
    "iot_nv_get_cloud_prov_data good_posix (demo_cloud 0) s3 = Some (IOT_ERROR_NONE, c3, s4)" "cp_broker_port c3 = 4433"
    using cloud_settings_roundtrip [of good_posix "demo_cloud 443" s1 "demo_cloud 0"] st
    by (auto simp: overlay_def fits_def)
  with 1 show ?thesis by blast
qed


section \<open>The MQTT codec\<close>

abbreviation (input) from_cstring :: "u8 list \<Rightarrow> MQTTString" where
  "from_cstring s \<equiv> \<lparr>cstring = Some s, lenstring = \<lparr>ls_len = 0, ls_data = None\<rparr>\<rparr>"

abbreviation (input) no_publish :: publish_data where
  "no_publish \<equiv> \<lparr>pub_dup = 0, pub_qos = 0, pub_retained = 0, pub_packetid = 0,
     pub_topicName = MQTTString_initializer, pub_payload = [], pub_payloadlen = 0\<rparr>"

text \<open>
  C31. PUBLISH round trip. Serializing a PUBLISH into a buffer of at least
  \<open>MQTTSerialize_publish_size\<close> bytes succeeds, stays inside the buffer, and deserializing the
  buffer yields the same duplicate flag, quality of service, retained flag, packet identifier,
  topic and payload, whatever the buffer held before.
\<close>

theorem publish_roundtrip:
  assumes "mqtt_string_ok t" and "length (mqtt_bytes t) < 65536" and "0 \<le> q" and "q < 3"
    and "uint dup < 2" and "uint retained < 2"
    and "length (publish_body q pid (mqtt_bytes t) payload) < 268435456"
    and "MQTTSerialize_publish_size q t (int (length payload)) \<le> int (length buf)"
  shows "\<exists>n b out. MQTTSerialize_publish buf (int (length buf)) dup q retained pid t (Some payload)
        (int (length payload)) = Some (int n, b) \<and> length b = length buf \<and> n \<le> length buf
    \<and> MQTTDeserialize_publish init b = Some (1, out)
    \<and> pub_dup out = dup \<and> pub_qos out = q \<and> pub_retained out = retained
    \<and> (q > 0 \<longrightarrow> pub_packetid out = pid) \<and> mqtt_bytes (pub_topicName out) = mqtt_bytes t
    \<and> take (nat (pub_payloadlen out)) (pub_payload out) = payload
    \<and> MQTTPacket_getPacketId False b = Some (if q > 0 then unat pid else 0)"
proof -
  let ?p = "publish_packet dup q retained pid (mqtt_bytes t) payload"
  have ser: "MQTTSerialize_publish buf (int (length buf)) dup q retained pid t (Some payload)
      (int (length payload)) = Some (int (length ?p), ?p @ drop (length ?p) buf)"
    using publish_msg.ser_fits [of "(dup, q, retained, pid, t, payload)" "int (length buf)" buf]
      assms by simp
  have "length ?p \<le> length buf"
    using publish_msg.pkt_size [of "(dup, q, retained, pid, t, payload)"] assms by simp
  with ser show ?thesis
    using assms deserialize_publish_packet [of "mqtt_bytes t" q dup retained pid payload init
        "drop (length ?p) buf"]
      getPacketId_publish [of "mqtt_bytes t" q pid payload dup retained "drop (length ?p) buf"]
    by (simp add: mqtt_bytes_def)
qed

theorem publish_roundtrip_witness:
  "\<exists>n b out. MQTTSerialize_publish (replicate 9 0) (int (length (replicate 9 (0::u8)))) 0 1 0 7
       (from_cstring [0x61]) (Some [0x62, 0x63]) (int (length [0x62, 0x63 :: u8])) = Some (int n, b)
     \<and> MQTTDeserialize_publish no_publish b = Some (1, out)
     \<and> mqtt_bytes (pub_topicName out) = [0x61] \<and> pub_packetid out = 7"
  using publish_roundtrip [of "from_cstring [0x61]" 1 0 0 7 "[0x62, 0x63]" "replicate 9 0" no_publish]
  by (auto simp: mqtt_string_ok_def mqtt_bytes_def MQTTSerialize_publish_size_def
      MQTTSerialize_publishLength_def MQTTPacket_len_def MQTTstrlen_def)

text \<open>
  C32. SUBSCRIBE round trip. Serializing a list of topic filters with their qualities of service into
  a buffer of the computed size and deserializing it on the broker side yields the same duplicate
  flag, packet identifier, topic filters and qualities.
\<close>

theorem subscribe_roundtrip:
  assumes "list_all (\<lambda>(t, q). mqtt_string_ok t \<and> length (mqtt_bytes t) < 65536 \<and> 0 \<le> q \<and> q < 3) subs"
    and "length (subscribe_body pid (wire_subs subs)) < 268435456" and "uint dup < 2" and "length subs \<le> cap"
    and "MQTTSerialize_subscribe_size (map fst subs) \<le> int (length buf)"
  shows "\<exists>n b res. MQTTSerialize_subscribe buf (int (length buf)) dup pid (map fst subs) (map snd subs)
        = Some (int n, b) \<and> n \<le> length buf \<and> length b = length buf
    \<and> MQTTDeserialize_subscribe sg cap old b = Some (1, dup, pid, res)
    \<and> map (\<lambda>(s, q). (mqtt_bytes s, q)) res = map (\<lambda>(t, q). (mqtt_bytes t, q)) subs"
proof -
  let ?p = "subscribe_packet dup pid (wire_subs subs)"
  have ok: "\<forall>(t, q)\<in>set subs. mqtt_string_ok t" using assms(1) by (auto simp: list_all_iff)
  have short: "\<forall>(t, q)\<in>set (wire_subs subs). length t < 65536" using assms(1) by (auto simp: list_all_iff)
  have ser: "MQTTSerialize_subscribe buf (int (length buf)) dup pid (map fst subs) (map snd subs)
      = Some (int (length ?p), ?p @ drop (length ?p) buf)"
    using subscribe_msg.ser_fits [of "(dup, pid, subs)" "int (length buf)" buf] assms ok
    by simp
  have fits: "length ?p \<le> length buf"
    using subscribe_msg.pkt_size [of "(dup, pid, subs)"] assms ok by simp
  obtain res where "MQTTDeserialize_subscribe sg cap old (?p @ drop (length ?p) buf) = Some (1, dup, pid, res)"
    "plain_subs res = map (\<lambda>(t, q). (t, char_to_int sg q)) (wire_subs subs)"
    using deserialize_subscribe_packet [of "wire_subs subs" cap dup pid sg old "drop (length ?p) buf"] assms short
    by auto
  moreover have "map (\<lambda>(t, q). (t, char_to_int sg q)) (wire_subs subs) = map (\<lambda>(t, q). (mqtt_bytes t, q)) subs"
    using assms(1) by (auto simp: list_all_iff)
  ultimately show ?thesis using ser fits by fastforce
qed

theorem subscribe_roundtrip_witness:
  "\<exists>n b res. MQTTSerialize_subscribe (replicate 9 0) (int (length (replicate 9 (0::u8)))) 0 7
        (map fst [(from_cstring [0x61, 0x62], 1)]) (map snd [(from_cstring [0x61, 0x62], 1)]) = Some (int n, b)
     \<and> MQTTDeserialize_subscribe True 1 (0, 0, []) b = Some (1, 0, 7, res)
     \<and> map (\<lambda>(s, q). (mqtt_bytes s, q)) res = [([0x61, 0x62], 1)]"
  using subscribe_roundtrip [of "[(from_cstring [0x61, 0x62], 1)]" 7 0 1 "replicate 9 0" True "(0, 0, [])"]
  by (auto simp: mqtt_string_ok_def mqtt_bytes_def MQTTSerialize_subscribe_size_def subscribe_body_def
      MQTTSerialize_subscribeLength_def MQTTPacket_len_def MQTTstrlen_def subscription_bytes_def)




text \<open>
  Acknowledgement round trip. An acknowledgement is exactly four bytes long; it is written when
  the buffer has them and refused with \<open>MQTTPACKET_BUFFER_TOO_SHORT\<close>, leaving the buffer alone, when
  it has not, and both the deserializer and the packet identifier lookup recover what was written.
\<close>

theorem ack_roundtrip:
  assumes "uint dup < 2" and "t \<in> {PUBACK, PUBREC, PUBREL, PUBCOMP, SUBACK, UNSUBACK}"
  shows "if length buf < 4
    then MQTTSerialize_ack buf (int (length buf)) (msg_code t) dup pid = Some (MQTTPACKET_BUFFER_TOO_SHORT, buf)
    else \<exists>b. MQTTSerialize_ack buf (int (length buf)) (msg_code t) dup pid = Some (4, b) \<and> length b = length buf
      \<and> drop 4 b = drop 4 buf \<and> MQTTDeserialize_ack old b = Some (1, msg_code t, dup, pid)
      \<and> MQTTPacket_getPacketId lf b = Some (unat pid)"
proof (cases "length buf < 4")
  case True
  then show ?thesis using ack_msg.ser_short [where m = "(t, dup, pid)" and buflen = "int (length buf)" and buf = buf] by simp
next
  case False
  then have "MQTTSerialize_ack buf (int (length buf)) (msg_code t) dup pid
      = Some (4, ack_packet t dup pid @ drop 4 buf)"
    using ack_msg.ser_fits [where m = "(t, dup, pid)" and buflen = "int (length buf)" and buf = buf] by simp
  moreover have "MQTTPacket_getPacketId lf (ack_packet t dup pid @ drop 4 buf) = Some (unat pid)"
    unfolding ack_packet_def by (rule getPacketId_ack [where rest = "[]"]) (use assms(2) in auto)
  ultimately show ?thesis using False deserialize_ack_packet [OF assms(1)] by simp
qed

theorem ack_roundtrip_witness:
  "\<exists>b. MQTTSerialize_ack [0, 0, 0, 0] (int (length [0, 0, 0, 0 :: u8])) (msg_code PUBREL) 0 258 = Some (4, b)
     \<and> MQTTDeserialize_ack 0 b = Some (1, msg_code PUBREL, 0, 258)"
  using ack_roundtrip [of 0 PUBREL "[0, 0, 0, 0]" 258 0 True] by auto

text \<open>
  UNSUBSCRIBE round trip, with the topic filters in order.
\<close>

theorem unsubscribe_roundtrip:
  assumes "list_all (\<lambda>t. mqtt_string_ok t \<and> length (mqtt_bytes t) < 65536) topics"
    and "length (unsubscribe_body pid (map mqtt_bytes topics)) < 268435456" and "uint dup < 2"
    and "length topics \<le> cap" and "MQTTSerialize_unsubscribe_size topics \<le> int (length buf)"
  shows "\<exists>n b res. MQTTSerialize_unsubscribe buf (int (length buf)) dup pid topics = Some (int n, b)
    \<and> n \<le> length buf \<and> length b = length buf
    \<and> MQTTDeserialize_unsubscribe cap old b = Some (1, dup, pid, res)
    \<and> map mqtt_bytes res = map mqtt_bytes topics"
proof -
  let ?p = "unsubscribe_packet dup pid (map mqtt_bytes topics)"
  have ok: "\<forall>t\<in>set topics. mqtt_string_ok t" and short: "\<forall>t\<in>set (map mqtt_bytes topics). length t < 65536"
    using assms(1) by (auto simp: list_all_iff)
  have "MQTTSerialize_unsubscribe buf (int (length buf)) dup pid topics
      = Some (int (length ?p), ?p @ drop (length ?p) buf)"
    using unsubscribe_msg.ser_fits [of "(dup, pid, topics)" "int (length buf)" buf] assms ok by simp
  moreover have "length ?p \<le> length buf"
    using unsubscribe_msg.pkt_size [of "(dup, pid, topics)"] assms ok by simp
  ultimately show ?thesis
    using deserialize_unsubscribe_packet [OF short, of cap dup pid old "drop (length ?p) buf"] assms
    by fastforce
qed

theorem unsubscribe_roundtrip_witness:
  "\<exists>n b res. MQTTSerialize_unsubscribe (replicate 8 0) (int (length (replicate 8 (0::u8)))) 0 7
        [from_cstring [0x61, 0x62]] = Some (int n, b)
     \<and> MQTTDeserialize_unsubscribe 1 (0, 0, []) b = Some (1, 0, 7, res) \<and> map mqtt_bytes res = [[0x61, 0x62]]"
  using unsubscribe_roundtrip [of "[from_cstring [0x61, 0x62]]" 7 0 1 "replicate 8 0" "(0, 0, [])"]
  by (auto simp: mqtt_string_ok_def mqtt_bytes_def MQTTSerialize_unsubscribe_size_def unsubscribe_body_def
      MQTTSerialize_unsubscribeLength_def MQTTPacket_len_def MQTTstrlen_def)

text \<open>
  C34. Remaining length. Encoding a length below 268435456 writes one to four bytes at the given
  offset, leaves the rest of the buffer alone, and decoding them yields the length again.
\<close>

theorem remaining_length_roundtrip:
  assumes "n < 268435456" and "p + 4 \<le> length b"
  shows "\<exists>b' k. MQTTPacket_encode b p (int n) = Some (b', k) \<and> 1 \<le> k \<and> k \<le> 4
    \<and> length b' = length b \<and> take p b' = take p b \<and> drop (p + k) b' = drop (p + k) b
    \<and> MQTTPacket_decodeBuf b' p = Some (k, n)"
proof -
  let ?k = "length (rem_len_bytes n)"
  have k: "1 \<le> ?k" "?k \<le> 4" using length_rem_len_bytes [OF assms(1)] by auto
  obtain b' where w: "write_bytes (rem_len_bytes n) (b, p) = Some (b', p + ?k)"
    using k assms(2) by (auto simp: write_bytes_def)
  then have "MQTTPacket_encode b p (int n) = Some (b', ?k)"
    by (simp add: MQTTPacket_encode_def MQTTPacket_encode_loop_eq)
  moreover have "b' = take p b @ rem_len_bytes n @ drop (p + ?k) b"
    using w by (auto simp: write_bytes_def split: if_splits)
  then have "MQTTPacket_decodeBuf b' p = Some (?k, n)"
    using MQTTPacket_decodeBuf_enc [OF assms(1), of p "take p b" "drop (p + ?k) b"] assms(2) by simp
  ultimately show ?thesis using k write_bytes_SomeD [OF w] by blast
qed

theorem remaining_length_roundtrip_witness:
  "\<exists>b' k. MQTTPacket_encode [9, 9, 9, 9, 9] 1 (int 300) = Some (b', k) \<and> MQTTPacket_decodeBuf b' 1 = Some (k, 300)"
  using remaining_length_roundtrip [of 300 1 "[9, 9, 9, 9, 9]"] by auto

text \<open>
  C35. The size function \<open>MQTTPacket_len\<close> never promises too little, and it is the exact length of
  the packet except for the four remaining lengths 127, 16383, 2097150 and 2097151, where it counts
  one byte too many (it compares the length after it has added the header byte).
\<close>

theorem packet_len_exact:
  assumes "length body < 268435456"
  shows "MQTTPacket_len (int (length body)) - int (length (packet_bytes h body))
    = (if length body \<in> {127, 16383, 2097150, 2097151} then 1 else 0)"
  using MQTTPacket_len_exact [OF assms, of h] by simp

theorem packet_len_exact_witness:
  "MQTTPacket_len (int (length (replicate 127 (0::u8)))) = int (length (packet_bytes 0 (replicate 127 0))) + 1"
  using packet_len_exact [of "replicate 127 0" 0] by simp

text \<open>
  The broker side serializers check for less space than they write: whenever the announced
  length passes the check and the buffer is shorter than the packet, CONNACK, UNSUBACK and SUBACK
  are written past the end of the buffer, and only then.
\<close>

theorem server_serializers_overrun:
  "(MQTTSerialize_connack buf buflen rc sp = None \<longleftrightarrow> 2 \<le> buflen \<and> length buf < 4)
   \<and> (MQTTSerialize_unsuback buf buflen pid = None \<longleftrightarrow> 2 \<le> buflen \<and> length buf < 4)
   \<and> (MQTTSerialize_suback buf buflen pid qs = None \<longleftrightarrow>
        2 + int (length qs) \<le> buflen \<and> length buf < length (suback_packet pid (map word_of_int qs)))"
  by (intro conjI serialize_connack_overrun serialize_unsuback_overrun serialize_suback_overrun)

section \<open>Queues\<close>

text \<open>
  C36. Refinement of the search. On a queue that represents the chunks \<open>as\<close>, popping by a test (the
  type and identifier, or the expiry) returns the first chunk that passes it, leaves the others in
  order, and changes no contents; with no match it changes nothing.
\<close>

theorem pop_by_first_match:
  assumes "rep h q as"
  shows "\<exists>h' q'. link_pop_by P h q = Some (find (first_match P h) as, h', q')
    \<and> rep h' q' (without_first (first_match P h) as) \<and> vals h' = vals h"
  using assms by (rule link_pop_by_list)

theorem pop_by_first_match_witness:
  "\<exists>h' q'. link_pop_by (\<lambda>x. x = 7) [1 \<mapsto> \<lparr>val = 5, nxt = Some 2\<rparr>, 2 \<mapsto> \<lparr>val = 7 :: nat, nxt = None\<rparr>]
       \<lparr>q_head = Some 1, q_tail = Some 2, q_sem = True\<rparr> = Some (Some 2, h', q') \<and> rep h' q' [1]"
  using pop_by_first_match [of "[1 \<mapsto> \<lparr>val = 5, nxt = Some 2\<rparr>, 2 \<mapsto> \<lparr>val = 7 :: nat, nxt = None\<rparr>]"
      "\<lparr>q_head = Some 1, q_tail = Some 2, q_sem = True\<rparr>" "[1, 2]" "\<lambda>x. x = 7"]
  by (auto simp: rep_def first_match_def without_first_def vals_def)





abbreviation (input) demo_mem :: "nat mem" where
  "demo_mem \<equiv> \<lparr>cells = [0 \<mapsto> \<lparr>val = 5, nxt = Some 2\<rparr>, 2 \<mapsto> \<lparr>val = 9, nxt = None\<rparr>], brk = 4, oom = (\<lambda>_. False)\<rparr>"

abbreviation (input) demo_queue :: queue where
  "demo_queue \<equiv> \<lparr>q_head = Some 0, q_tail = Some 2, q_sem = True\<rparr>"

lemma demo_items: "items demo_mem demo_queue [5, 9]"
  unfolding items_def by (intro conjI exI [of _ "[0, 2]"]) (auto simp: mem_ok_def rep_def vals_def)

text \<open>
  C38. Deleting a client's pending work. \<open>_iot_mqtt_delete_pending_task\<close> leaves a proper queue with
  exactly the items of other owners, except when the last item belongs to the client and an earlier
  one does not: then it frees the last node but leaves \<open>tail\<close> pointing at it.
\<close>

theorem delete_pending_task:
  assumes "items m q xs"
  shows "\<exists>q' m'. iot_mqtt_delete_pending_task P (Some q) m = Some (Some q', m')
    \<and> (if xs = [] \<or> (\<forall>x\<in>set xs. P x) \<or> \<not> P (last xs)
       then items m' q' (filter (\<lambda>x. \<not> P x) xs)
       else mem_ok m' \<and> q_sem q' \<and> q_head q' \<noteq> None \<and> (\<exists>t. q_tail q' = Some t \<and> cells m' t = None))"
  using assms by (rule delete_pending_task_items)

theorem delete_pending_task_witness:
  "\<exists>q' m'. iot_mqtt_delete_pending_task (\<lambda>x. x = 9) (Some demo_queue) demo_mem = Some (Some q', m')
     \<and> (\<exists>t. q_tail q' = Some t \<and> cells m' t = None)"
  using delete_pending_task [OF demo_items, of "\<lambda>x. x = 9"] by auto

section \<open>Conversions and helpers\<close>

text \<open>
  C39. UUID round trip. Printing the sixteen bytes of a UUID of version 1 to 5 into a buffer of 37
  bytes yields the 36 characters of the usual grouping and a terminator, leaves the rest of the
  buffer alone, and the validating parser turns these characters back into the same bytes.
\<close>

theorem uuid_roundtrip:
  assumes "length bs = 16" and "1 \<le> unat (bs ! 6) div 16" and "unat (bs ! 6) div 16 \<le> 5"
    and "37 \<le> max_sz" and "max_sz \<le> length s" and "length arr = 16"
  shows "\<exists>t. iot_util_convert_uuid_str (Some bs) (Some s) max_sz = Some (IOT_ERROR_NONE, Some (t @ 0 # drop 37 s))
    \<and> length t = 36 \<and> t ! 8 = dash \<and> t ! 13 = dash \<and> t ! 18 = dash \<and> t ! 23 = dash
    \<and> iot_util_convert_str_uuid (Some t) (Some arr) = Some (IOT_ERROR_NONE, Some bs)"
proof (intro exI conjI)
  show "iot_util_convert_uuid_str (Some bs) (Some s) max_sz = Some (IOT_ERROR_NONE, Some (uuid_text bs @ 0 # drop 37 s))"
    using assms by (intro convert_uuid_str_text) simp_all
  show "length (uuid_text bs) = 36" using assms(1) by (rule length_uuid_text)
  with validate_dashes [OF this validate_uuid_text [OF assms(1-3)]]
  show "uuid_text bs ! 8 = dash" "uuid_text bs ! 13 = dash" "uuid_text bs ! 18 = dash" "uuid_text bs ! 23 = dash"
    by simp_all
  show "iot_util_convert_str_uuid (Some (uuid_text bs)) (Some arr) = Some (IOT_ERROR_NONE, Some bs)"
    using assms by (intro convert_str_uuid_text)
qed

theorem uuid_roundtrip_witness:
  "\<exists>t. iot_util_convert_uuid_str (Some (replicate 16 0x42)) (Some (replicate 40 0)) 37
       = Some (IOT_ERROR_NONE, Some (t @ 0 # drop 37 (replicate 40 0)))
     \<and> iot_util_convert_str_uuid (Some t) (Some (replicate 16 0)) = Some (IOT_ERROR_NONE, Some (replicate 16 0x42))"
  using uuid_roundtrip [of "replicate 16 0x42" 37 "replicate 40 0" "replicate 16 0"] by auto

text \<open>
  Parsing arbitrary text. Whatever string \<open>iot_util_convert_str_uuid\<close> and
  \<open>iot_util_convert_str_mac\<close> are given, they return, and they never write outside the sixteen and
  six bytes of their result.
\<close>

theorem parse_address_safe:
  assumes "length uu = 16" and "length addr = 6"
  shows "(\<exists>e uu'. iot_util_convert_str_uuid str (Some uu) = Some (e, Some uu') \<and> length uu' = 16)
    \<and> (\<exists>e addr'. iot_util_convert_str_mac str (Some addr) = Some (e, Some addr') \<and> length addr' = 6)"
  using convert_str_uuid_defined [OF assms(1)] convert_str_mac_defined [OF assms(2)] by blast

theorem parse_address_safe_witness:
  "\<exists>e addr'. iot_util_convert_str_mac (Some (replicate 17 58)) (Some (replicate 6 0)) = Some (e, Some addr') \<and> length addr' = 6"
  using parse_address_safe [of "replicate 16 0" "replicate 6 0" "Some (replicate 17 58)"] by auto

text \<open>
  MAC address round trip: printing into a buffer of 18 bytes and parsing the 17 characters
  yields the six bytes again.
\<close>

theorem mac_roundtrip:
  assumes "length bs = 6" and "18 \<le> max_sz" and "18 \<le> length s" and "length arr = 6"
  shows "\<exists>t. iot_util_convert_mac_str (Some bs) (Some s) max_sz = Some (IOT_ERROR_NONE, Some (t @ 0 # drop 18 s))
    \<and> length t = 17 \<and> iot_util_convert_str_mac (Some t) (Some arr) = Some (IOT_ERROR_NONE, Some bs)"
  using convert_mac_str_text [OF assms(1-3)] convert_str_mac_text [OF assms(1,4)] length_mac_text [OF assms(1)]
  by blast

theorem mac_roundtrip_witness:
  "\<exists>t. iot_util_convert_mac_str (Some [1, 2, 3, 0xab, 0xcd, 0xef]) (Some (replicate 18 0)) 18
       = Some (IOT_ERROR_NONE, Some (t @ 0 # drop 18 (replicate 18 0)))
     \<and> iot_util_convert_str_mac (Some t) (Some (replicate 6 0)) = Some (IOT_ERROR_NONE, Some [1, 2, 3, 0xab, 0xcd, 0xef])"
  using mac_roundtrip [of "[1, 2, 3, 0xab, 0xcd, 0xef]" 18 "replicate 18 0" "replicate 6 0"] by auto

text \<open>
  The UUID validation takes the letters G to Z for hexadecimal digits when they are upper case:
  a string of that shape is accepted, and \<open>iot_util_convert_str_uuid\<close> reads each of them as zero.
\<close>

theorem uuid_accepts_non_hex:
  "\<exists>t. \<not> list_all (\<lambda>c. c = dash \<or> isdigit_c c \<or> c \<in> set (cstr ''abcdefABCDEF'')) t
    \<and> iot_util_convert_str_uuid (Some t) (Some (replicate 16 0xff))
      = Some (IOT_ERROR_NONE, Some ([0, 0, 0, 0, 0, 0, 0x10] @ replicate 9 0))"
proof (intro exI conjI)
  let ?t = "cstr ''GHIJKLMN-0000-1000-0000-00000000000Z''"
  show "\<not> list_all (\<lambda>c. c = dash \<or> isdigit_c c \<or> c \<in> set (cstr ''abcdefABCDEF'')) ?t"
    by (simp add: cstr_def isdigit_c_def hex_letter_def)
  have len: "length ?t = 36" by (simp add: cstr_def)
  have v: "validate_uuid_format (Some ?t) 36 = Some IOT_ERROR_NONE"
    using validate_uuid_shape [of "cstr ''GHIJKLMN''" "cstr ''0000''" "cstr ''000''" "cstr ''0000''" "cstr ''00000000000Z''" 49]
    by (simp add: cstr_def ishex_def)
  have l: "str_uuid_loop ?t (replicate 16 0xff) 0 1 0 = Some ([0, 0, 0, 0, 0, 0, 0x10] @ replicate 9 0)"
    by code_simp
  show "iot_util_convert_str_uuid (Some ?t) (Some (replicate 16 0xff))
      = Some (IOT_ERROR_NONE, Some ([0, 0, 0, 0, 0, 0, 0x10] @ replicate 9 0))"
    using v l len by (simp add: iot_util_convert_str_uuid_def)
qed

text \<open>
  Channel round trip: for every Wi-Fi channel that has a frequency (1 to 14 and 32 to 173) the
  frequency maps back to the channel.
\<close>

theorem channel_roundtrip:
  assumes "1 \<le> uint ch \<and> uint ch \<le> 14 \<or> 32 \<le> uint ch \<and> uint ch \<le> 173"
  shows "iot_util_convert_freq_channel (iot_util_convert_channel_freq ch) = ch"
  using assms by (rule channel_freq_channel)

theorem channel_roundtrip_witness: "iot_util_convert_freq_channel (iot_util_convert_channel_freq 14) = 14"
  using channel_roundtrip [of 14] by simp

text \<open>
  URL parsing. A broker URL made of a protocol and a host without colons and a decimal port is
  split into exactly these three parts.
\<close>

theorem url_parse_parts:
  assumes "colon \<notin> set protocol" and "colon \<notin> set domain" and "port < 65536"
  shows "iot_util_url_parse True True
      (Some (protocol @ cstr ''://'' @ domain @ cstr '':'' @ cstr (decimal port))) (Some out)
    = (IOT_ERROR_NONE, Some \<lparr>url_protocol = Some protocol, url_domain = Some domain, url_port = int port\<rparr>)"
  using assms(1,2) by (rule url_parse_ok)

theorem url_parse_parts_witness:
  "iot_util_url_parse True True (Some (cstr ''ssl'' @ cstr ''://'' @ cstr ''host'' @ cstr '':'' @ cstr (decimal 8883)))
      (Some \<lparr>url_protocol = None, url_domain = None, url_port = 0\<rparr>)
    = (IOT_ERROR_NONE, Some \<lparr>url_protocol = Some (cstr ''ssl''), url_domain = Some (cstr ''host''), url_port = int 8883\<rparr>)"
  by (rule url_parse_parts) (simp_all add: cstr_def)

text \<open>
  C40. Back-off. For a maximum of 2 to 2147483 seconds the 32-bit computation never wraps around: it
  equals the ideal back-off (doubling per attempt plus up to a second of jitter, cut off at the
  maximum) and never exceeds the maximum.
\<close>

theorem backoff_bounded:
  assumes "2 \<le> unat m" and "unat m \<le> 2147483"
  shows "unat (iot_util_generator_backoff rnd t m) = ideal_backoff (unat rnd) (unat t) (unat m)
    \<and> unat (iot_util_generator_backoff rnd t m) \<le> unat m * 1000"
proof -
  have "ideal_backoff (unat rnd) (unat t) (unat m) \<le> unat m * 1000"
  proof (cases "0 < unat t \<and> unat m \<le> 2 ^ unat t")
    case False
    then have "2 ^ unat t + 1 \<le> unat m" using assms(1) by (cases "unat t = 0") auto
    then have "(2 ^ unat t + 1) * 1000 \<le> unat m * 1000" by (rule mult_le_mono1)
    moreover have "unat rnd mod 1000 \<le> 1000" by (simp add: less_imp_le)
    ultimately show ?thesis using False by (auto simp: ideal_backoff_def)
  qed (simp add: ideal_backoff_def)
  then show ?thesis using generator_backoff_ideal [OF assms] by simp
qed

theorem backoff_bounded_witness: "unat (iot_util_generator_backoff 5 3 300) = ideal_backoff 5 3 300"
  using backoff_bounded [of 300 5 3] by simp

text \<open>
  The memory dump reads past its buffer exactly when it is asked for the character column (the
  tag \<^verbatim>\<open>dump\<close>) and the length is not a multiple of sixteen: the inner loop prints a character
  before it compares the index with the length.
\<close>

theorem dump_overread:
  "iot_util_dump_mem addr tag buf (length buf) = None \<longleftrightarrow> tag = ''dump'' \<and> length buf mod 16 \<noteq> 0"
  using dump_rows_None [of addr tag buf 0]
  by (cases "buf = []") (auto simp: iot_util_dump_mem_def Option.bind_eq_None_conv)

end
